(* ===== verification/Prelude.thy ===== *)
theory Prelude
  imports Complex_Main "HOL-Library.Char_ord" "HOL-Library.List_Lexorder" "HOL-Library.Product_Lexorder"
begin

text \<open>
  Shared by every component: the fact collections, the nullish operators of the language, and the
  small relational vocabulary in which the SQL statements of the router are written.

  A table is the list of its rows, in the order Postgres would return them unsorted (insertion
  order). \<open>UPDATE ... SET f WHERE p\<close> is \<open>update_where p f\<close>, \<open>DELETE ... WHERE p\<close> is
  \<open>delete_where p\<close>, \<open>SELECT ... WHERE p\<close> is \<open>filter p\<close>, and
  \<open>INSERT ... ON CONFLICT (key) DO UPDATE\<close> is \<open>upsert key row f\<close>. One statement is one atomic
  step, as it is in Postgres. Times are integers in milliseconds.
\<close>

named_theorems frame_simps \<open>which parts of the store an operation leaves alone\<close>
named_theorems table_simps \<open>facts about the relational vocabulary\<close>

type_synonym time = int

section \<open>Nullish values\<close>

text \<open>\<open>a ?? b\<close>: the right side where the left one is null or undefined.\<close>

definition nullish :: "'a option \<Rightarrow> 'a \<Rightarrow> 'a" where
  "nullish a b = (case a of None \<Rightarrow> b | Some x \<Rightarrow> x)"

lemma nullish_simps [simp]: "nullish None b = b" "nullish (Some x) b = x"
  by (simp_all add: nullish_def)

text \<open>\<open>a ?? b\<close> where the right side may itself be null: SQL's \<open>COALESCE\<close>.\<close>

definition coalesce :: "'a option \<Rightarrow> 'a option \<Rightarrow> 'a option" where
  "coalesce a b = (case a of None \<Rightarrow> b | Some x \<Rightarrow> Some x)"

lemma coalesce_simps [simp]: "coalesce None b = b" "coalesce (Some x) b = Some x"
  by (simp_all add: coalesce_def)

section \<open>Tables\<close>

definition update_where :: "('r \<Rightarrow> bool) \<Rightarrow> ('r \<Rightarrow> 'r) \<Rightarrow> 'r list \<Rightarrow> 'r list" where
  "update_where p f t = map (\<lambda>r. if p r then f r else r) t"

definition delete_where :: "('r \<Rightarrow> bool) \<Rightarrow> 'r list \<Rightarrow> 'r list" where
  "delete_where p t = filter (\<lambda>r. \<not> p r) t"

definition upsert :: "('r \<Rightarrow> 'k) \<Rightarrow> 'r \<Rightarrow> ('r \<Rightarrow> 'r) \<Rightarrow> 'r list \<Rightarrow> 'r list" where
  "upsert key new f t =
     (if list_ex (\<lambda>r. key r = key new) t
      then update_where (\<lambda>r. key r = key new) f t
      else t @ [new])"

definition row_of :: "('r \<Rightarrow> 'k) \<Rightarrow> 'k \<Rightarrow> 'r list \<Rightarrow> 'r option" where
  "row_of key k t = find (\<lambda>r. key r = k) t"

definition unique_key :: "('r \<Rightarrow> 'k) \<Rightarrow> 'r list \<Rightarrow> bool" where
  "unique_key key t = distinct (map key t)"

lemma update_where_Nil [simp]: "update_where p f [] = []"
  by (simp add: update_where_def)

lemma update_where_Cons [simp]:
  "update_where p f (r # t) = (if p r then f r else r) # update_where p f t"
  by (simp add: update_where_def)

lemma length_update_where [simp]: "length (update_where p f t) = length t"
  by (simp add: update_where_def)

lemma set_update_where:
  "set (update_where p f t) = (\<lambda>r. if p r then f r else r) ` set t"
  by (simp add: update_where_def)

lemma map_update_where [table_simps]:
  "(\<And>r. r \<in> set t \<Longrightarrow> p r \<Longrightarrow> g (f r) = g r) \<Longrightarrow> map g (update_where p f t) = map g t"
  by (auto simp: update_where_def)

lemma update_where_False [simp]: "update_where (\<lambda>_. False) f t = t"
  by (induction t) auto

lemma update_where_id:
  "(\<And>r. r \<in> set t \<Longrightarrow> p r \<Longrightarrow> f r = r) \<Longrightarrow> update_where p f t = t"
  by (induction t) auto

lemma update_where_none: "(\<And>r. r \<in> set t \<Longrightarrow> \<not> p r) \<Longrightarrow> update_where p f t = t"
  by (induction t) auto

lemma delete_where_Nil [simp]: "delete_where p [] = []"
  by (simp add: delete_where_def)

lemma set_delete_where [simp]: "set (delete_where p t) = {r \<in> set t. \<not> p r}"
  by (auto simp: delete_where_def)

lemma row_of_Some: "row_of key k t = Some r \<Longrightarrow> r \<in> set t \<and> key r = k"
  by (auto simp: row_of_def find_Some_iff)

lemma row_of_None: "row_of key k t = None \<longleftrightarrow> (\<forall>r \<in> set t. key r \<noteq> k)"
  by (auto simp: row_of_def find_None_iff)

lemma row_of_unique:
  assumes "unique_key key t" "r \<in> set t"
  shows "row_of key (key r) t = Some r"
  using assms
  by (induction t) (auto simp: row_of_def unique_key_def)

lemma row_of_update_where_on:
  "(\<And>r. p r \<Longrightarrow> key (f r) = key r) \<Longrightarrow>
   row_of key k (update_where p f t) = map_option (\<lambda>r. if p r then f r else r) (row_of key k t)"
  by (induction t) (auto simp: row_of_def)

lemma row_of_update_where:
  "(\<And>r. key (f r) = key r) \<Longrightarrow>
   row_of key k (update_where p f t) = map_option (\<lambda>r. if p r then f r else r) (row_of key k t)"
  by (rule row_of_update_where_on)

lemma row_of_append:
  "row_of key k (t @ u) = (case row_of key k t of None \<Rightarrow> row_of key k u | Some r \<Rightarrow> Some r)"
  by (induction t) (auto simp: row_of_def)

lemma row_of_single: "row_of key k [r] = (if key r = k then Some r else None)"
  by (simp add: row_of_def)

lemma list_ex_row_of: "list_ex (\<lambda>r. key r = k) t \<longleftrightarrow> row_of key k t \<noteq> None"
  by (auto simp: list_ex_iff row_of_None)

lemma row_of_delete_where:
  assumes "unique_key key t"
  shows "row_of key k (delete_where p t) =
         (case row_of key k t of None \<Rightarrow> None | Some r \<Rightarrow> if p r then None else Some r)"
  using assms
proof (induction t)
  case Nil
  then show ?case by (simp add: row_of_def)
next
  case (Cons r t)
  have "key r = k \<Longrightarrow> row_of key k (delete_where p t) = None"
    using Cons.prems by (auto simp: row_of_None unique_key_def image_iff)
  with Cons show ?case
    by (auto simp: row_of_def delete_where_def unique_key_def)
qed

text \<open>What an upsert promises: the row under its key is the new or the updated one, the others stay.\<close>

lemma row_of_upsert_same:
  assumes "\<And>r. key r = key new \<Longrightarrow> key (f r) = key r"
  shows "row_of key (key new) (upsert key new f t) =
         Some (case row_of key (key new) t of None \<Rightarrow> new | Some r \<Rightarrow> f r)"
  by (auto simp: upsert_def list_ex_row_of row_of_update_where_on [of _ key f] assms
      row_of_append row_of_single dest: row_of_Some)

lemma row_of_upsert_other:
  assumes "\<And>r. key r = key new \<Longrightarrow> key (f r) = key r" "k \<noteq> key new"
  shows "row_of key k (upsert key new f t) = row_of key k t"
proof -
  have "key r = k \<Longrightarrow> key r \<noteq> key new" for r using assms(2) by simp
  then show ?thesis
    by (auto simp: upsert_def row_of_update_where_on [of _ key f] assms(1) row_of_append row_of_single
        split: option.splits dest: row_of_Some)
qed

lemma keys_upsert:
  assumes "\<And>r. key r = key new \<Longrightarrow> key (f r) = key r"
  shows "key ` set (upsert key new f t) = insert (key new) (key ` set t)"
proof -
  have "map key (update_where (\<lambda>r. key r = key new) f t) = map key t"
    by (rule map_update_where) (simp add: assms)
  then have "key ` set (update_where (\<lambda>r. key r = key new) f t) = key ` set t"
    by (metis set_map)
  then show ?thesis by (auto simp: upsert_def list_ex_iff) (metis imageI)
qed

lemma unique_key_update_where:
  "(\<And>r. key (f r) = key r) \<Longrightarrow> unique_key key (update_where p f t) = unique_key key t"
  by (simp add: unique_key_def map_update_where)

lemma unique_key_delete_where: "unique_key key t \<Longrightarrow> unique_key key (delete_where p t)"
  by (simp add: unique_key_def delete_where_def distinct_map_filter)

lemma unique_key_append:
  "unique_key key (t @ [r]) \<longleftrightarrow> unique_key key t \<and> row_of key (key r) t = None"
  by (auto simp: unique_key_def row_of_None image_iff)

lemma unique_key_upsert:
  "(\<And>r. key r = key new \<Longrightarrow> key (f r) = key r) \<Longrightarrow> unique_key key t \<Longrightarrow>
   unique_key key (upsert key new f t)"
proof -
  assume key: "\<And>r. key r = key new \<Longrightarrow> key (f r) = key r" and "unique_key key t"
  moreover have "map key (update_where (\<lambda>r. key r = key new) f t) = map key t"
    by (rule map_update_where) (simp add: key)
  ultimately show ?thesis
    by (auto simp: upsert_def unique_key_def list_ex_iff image_iff)
qed

lemma set_upsert:
  "set (upsert key new f t) \<subseteq>
     insert new (set t \<union> f ` set t)"
  by (auto simp: upsert_def set_update_where)

lemma filter_update_where:
  "(\<And>r. q (if p r then f r else r) = q r) \<Longrightarrow>
   filter q (update_where p f t) = update_where p f (filter q t)"
  by (induction t) auto

lemma find_class:
  "c \<in> f ` set ms \<Longrightarrow> \<exists>m \<in> set ms. find (\<lambda>m. f m = c) ms = Some m \<and> f m = c"
  by (cases "find (\<lambda>m. f m = c) ms") (auto simp: find_None_iff find_Some_iff)

lemma find_class_None: "c \<notin> f ` set ms \<Longrightarrow> find (\<lambda>m. f m = c) ms = None"
  by (auto simp: find_None_iff)

section \<open>Steps that may fail\<close>

text \<open>A loop whose steps may raise: the first error ends it.\<close>

fun fold_sum :: "('a \<Rightarrow> 's \<Rightarrow> 'e + 's) \<Rightarrow> 'a list \<Rightarrow> 's \<Rightarrow> 'e + 's" where
  "fold_sum f [] s = Inr s"
| "fold_sum f (x # xs) s = (case f x s of Inl e \<Rightarrow> Inl e | Inr s' \<Rightarrow> fold_sum f xs s')"

lemma fold_sum_inv:
  assumes "\<And>x s s'. x \<in> set xs \<Longrightarrow> P s \<Longrightarrow> f x s = Inr s' \<Longrightarrow> P s'" "P s" "fold_sum f xs s = Inr s'"
  shows "P s'"
  using assms
proof (induction xs arbitrary: s)
  case Nil
  then show ?case by simp
next
  case (Cons x xs)
  from Cons.prems(3) obtain s1 where s1: "f x s = Inr s1" "fold_sum f xs s1 = Inr s'"
    by (auto split: sum.splits)
  then have "P s1" using Cons.prems(1) [of x s s1] Cons.prems(2) by simp
  moreover have "P b" if "y \<in> set xs" "P a" "f y a = Inr b" for y a b
    using Cons.prems(1) [of y a b] that by simp
  ultimately show ?case using Cons.IH [of s1] s1(2) by blast
qed

lemma fold_sum_append:
  "fold_sum f (xs @ ys) s = (case fold_sum f xs s of Inl e \<Rightarrow> Inl e | Inr s' \<Rightarrow> fold_sum f ys s')"
  by (induction xs arbitrary: s) (auto split: sum.split)

section \<open>Sums over tables\<close>

lemma sum_list_update_unique:
  fixes g :: "'r \<Rightarrow> int"
  assumes "unique_key key t" "r \<in> set t"
  shows "sum_list (map g (update_where (\<lambda>x. key x = key r) f t)) =
         sum_list (map g t) - g r + g (f r)"
  using assms
proof (induction t)
  case Nil
  then show ?case by simp
next
  case (Cons x t)
  show ?case
  proof (cases "x = r")
    case True
    with Cons.prems have "update_where (\<lambda>x. key x = key r) f t = t"
      by (intro update_where_none) (auto simp: unique_key_def image_iff)
    with True show ?thesis by simp
  next
    case False
    with Cons.prems have "key x \<noteq> key r" "r \<in> set t"
      by (auto simp: unique_key_def image_iff)
    with Cons show ?thesis by (simp add: unique_key_def)
  qed
qed

section \<open>A keyed store\<close>

text \<open>
  The contract every "set this, then read it back" pair of operations of the router makes: a
  well-formedness invariant that writing keeps, and the two laws of a map. The pairs that make it
  are interpreted in their own theories (cost configs, logging scopes, affinities, overrides, audit
  content, upstream checks).
\<close>

locale keyed_store =
  fixes ok :: "'s \<Rightarrow> bool"
    and lookup :: "'s \<Rightarrow> 'k \<Rightarrow> 'v option"
    and store :: "'k \<Rightarrow> 'v \<Rightarrow> 's \<Rightarrow> 's"
  assumes ok_store: "ok s \<Longrightarrow> ok (store k v s)"
    and lookup_same: "ok s \<Longrightarrow> lookup (store k v s) k = Some v"
    and lookup_other: "ok s \<Longrightarrow> k' \<noteq> k \<Longrightarrow> lookup (store k v s) k' = lookup s k'"
begin

lemma ok_stores: "ok s \<Longrightarrow> ok (fold (\<lambda>(k, v). store k v) kvs s)"
  by (induction kvs arbitrary: s) (auto simp: ok_store)

lemma lookup_store: "ok s \<Longrightarrow> lookup (store k v s) k' = (if k' = k then Some v else lookup s k')"
  by (simp add: lookup_same lookup_other)

text \<open>After any sequence of writes, a key holds what was last written under it.\<close>

lemma lookup_stores:
  assumes "ok s"
  shows "lookup (fold (\<lambda>(k, v). store k v) kvs s) k =
         (case map_of (rev kvs) k of None \<Rightarrow> lookup s k | Some v \<Rightarrow> Some v)"
  using assms
proof (induction kvs arbitrary: s)
  case Nil
  then show ?case by simp
next
  case (Cons kv kvs)
  obtain k0 v0 where kv: "kv = (k0, v0)" by (cases kv)
  have "ok (store k0 v0 s)" using Cons.prems by (rule ok_store)
  from Cons.IH [OF this] Cons.prems show ?case
    by (auto simp: kv map_add_def lookup_store split: option.splits)
qed

lemma store_idem: "ok s \<Longrightarrow> lookup (store k v (store k v s)) k' = lookup (store k v s) k'"
  by (simp add: lookup_store ok_store)

lemma store_comm:
  "ok s \<Longrightarrow> k \<noteq> k' \<Longrightarrow>
   lookup (store k v (store k' v' s)) q = lookup (store k' v' (store k v s)) q"
  by (simp add: lookup_store ok_store)

end

end
