(* ===== verification/Types.thy ===== *)
theory Types
  imports Json
begin

text \<open>
  The shared data model of \<open>server/src/types.ts\<close> and the standardized error values of
  \<open>server/src/http/errors.ts\<close>. A union of string literals is a datatype, an object type is a
  record, an optional field is an \<open>option\<close>. Numbers whose arithmetic the router does in floating
  point (costs, percentages, rates) are exact rationals; counts and milliseconds are integers.
\<close>

section \<open>Enumerations\<close>

datatype capability = Chat | Vision | Tools | Embeddings
datatype model_class = Large | Fast | VisionClass | Embedding
datatype replica_status = Ready | Loading | Busy | Idle | ErrorStatus
datatype cost_basis = Per1kTokens | PerRequest | PerComputeSecond
datatype prompt_mode = Passthrough | MergeMode
datatype config_source = GitOps | Override

datatype request_status =
    Queued | Routed | Streaming | Completed
  | QueueTimeoutStatus | StallTimeoutStatus | ReplicaUnavailableStatus
  | CapabilityMismatchStatus | AuthInvalidStatus | ErrorRequest

datatype error_code =
    ModelNotFound | QueueTimeout | StallTimeout | ReplicaUnavailable
  | CapabilityMismatch | AuthInvalid | InvalidRequest | ContextLengthExceeded

datatype error_type = InvalidRequestError | AuthError | CapacityError | TimeoutError

text \<open>The texts of the enumerations, where the code prints or sorts by them.\<close>

fun capability_text :: "capability \<Rightarrow> string" where
  "capability_text Chat = ''chat''"
| "capability_text Vision = ''vision''"
| "capability_text Tools = ''tools''"
| "capability_text Embeddings = ''embeddings''"

fun status_text :: "request_status \<Rightarrow> string" where
  "status_text Queued = ''queued''"
| "status_text Routed = ''routed''"
| "status_text Streaming = ''streaming''"
| "status_text Completed = ''completed''"
| "status_text QueueTimeoutStatus = ''queue_timeout''"
| "status_text StallTimeoutStatus = ''stall_timeout''"
| "status_text ReplicaUnavailableStatus = ''replica_unavailable''"
| "status_text CapabilityMismatchStatus = ''capability_mismatch''"
| "status_text AuthInvalidStatus = ''auth_invalid''"
| "status_text ErrorRequest = ''error''"

fun error_code_text :: "error_code \<Rightarrow> string" where
  "error_code_text ModelNotFound = ''model_not_found''"
| "error_code_text QueueTimeout = ''queue_timeout''"
| "error_code_text StallTimeout = ''stall_timeout''"
| "error_code_text ReplicaUnavailable = ''replica_unavailable''"
| "error_code_text CapabilityMismatch = ''capability_mismatch''"
| "error_code_text AuthInvalid = ''auth_invalid''"
| "error_code_text InvalidRequest = ''invalid_request''"
| "error_code_text ContextLengthExceeded = ''context_length_exceeded''"

section \<open>Errors\<close>

record standard_error =
  err_type :: error_type
  err_code :: error_code
  err_message :: string

definition statusForError :: "standard_error \<Rightarrow> nat" where
  "statusForError err =
     (case err_code err of
        AuthInvalid \<Rightarrow> 401
      | ModelNotFound \<Rightarrow> 404
      | CapabilityMismatch \<Rightarrow> 422
      | InvalidRequest \<Rightarrow> 400
      | ContextLengthExceeded \<Rightarrow> 400
      | QueueTimeout \<Rightarrow> 504
      | StallTimeout \<Rightarrow> 504
      | ReplicaUnavailable \<Rightarrow> 503)"

definition invalidRequest :: "string \<Rightarrow> standard_error" where
  "invalidRequest message =
     \<lparr>err_type = InvalidRequestError, err_code = InvalidRequest, err_message = message\<rparr>"

definition contextLengthExceeded :: "string \<Rightarrow> standard_error" where
  "contextLengthExceeded message =
     \<lparr>err_type = InvalidRequestError, err_code = ContextLengthExceeded, err_message = message\<rparr>"

definition replicaUnavailable :: "string \<Rightarrow> standard_error" where
  "replicaUnavailable message =
     \<lparr>err_type = CapacityError, err_code = ReplicaUnavailable, err_message = message\<rparr>"

definition queueTimeoutError :: "string \<Rightarrow> standard_error" where
  "queueTimeoutError message =
     \<lparr>err_type = TimeoutError, err_code = QueueTimeout, err_message = message\<rparr>"

lemmas error_defs =
  invalidRequest_def contextLengthExceeded_def replicaUnavailable_def queueTimeoutError_def

section \<open>Models, replicas and callers\<close>

record replica =
  rep_id :: string
  rep_modelId :: string
  rep_status :: replica_status
  rep_inFlight :: int
  rep_loadPct :: rat
  rep_tokensPerSec :: "rat option"
  rep_endpointUrl :: string

record model_config =
  m_id :: string
  m_name :: string
  m_classLabel :: string
  m_modelClass :: model_class
  m_capabilities :: "capability list"
  m_minReplicas :: int
  m_maxReplicas :: int
  m_systemPrompt :: string
  m_costValue :: rat
  m_costBasis :: cost_basis
  m_endpointUrl :: string
  m_upstreamModel :: string
  m_backendModelId :: string
  m_systemPromptMode :: prompt_mode
  m_port :: int
  m_firstTokenTimeoutMs :: "int option"
  m_configSource :: config_source
  m_hasOverride :: bool

record caller_identity =
  ci_oid :: string
  ci_name :: string
  ci_team :: "string option"

section \<open>Chat requests\<close>

text \<open>
  A content part is an object with a \<open>type\<close> and further fields of any kind. The other fields of a
  message (\<open>tool_calls\<close>, \<open>tool_call_id\<close>, \<open>name\<close>) ride along untouched.
\<close>

record part =
  part_type :: string
  part_fields :: "(string \<times> json) list"

datatype content = Text string | Parts "part list" | NullContent

datatype role = SystemRole | DeveloperRole | UserRole | AssistantRole | ToolRole

fun role_text :: "role \<Rightarrow> string" where
  "role_text SystemRole = ''system''"
| "role_text DeveloperRole = ''developer''"
| "role_text UserRole = ''user''"
| "role_text AssistantRole = ''assistant''"
| "role_text ToolRole = ''tool''"

record chat_message =
  msg_role :: role
  msg_content :: content
  msg_extra :: "(string \<times> json) list"

record chat_request =
  cr_model :: "string option"
  cr_messages :: "chat_message list"
  cr_tools :: "json list option"
  cr_tool_choice :: "json option"
  cr_stream :: bool
  cr_include_usage :: bool
  cr_temperature :: "rat option"
  cr_top_p :: "rat option"
  cr_max_tokens :: "int option"
  cr_stop :: "json option"
  cr_seed :: "int option"
  cr_presence_penalty :: "rat option"
  cr_frequency_penalty :: "rat option"
  cr_response_format :: "json option"

definition part_text :: "part \<Rightarrow> string" where
  "part_text p = nullish (as_string (map_of (part_fields p) ''text'')) ''''"

definition part_json :: "part \<Rightarrow> json" where
  "part_json p = JObj ((''type'', JStr (part_type p)) # part_fields p)"

fun content_json :: "content \<Rightarrow> json" where
  "content_json (Text s) = JStr s"
| "content_json (Parts ps) = JArr (map part_json ps)"
| "content_json NullContent = JNull"

text \<open>Statuses in which a request is still being worked on.\<close>

definition live :: "request_status \<Rightarrow> bool" where
  "live s \<longleftrightarrow> s = Queued \<or> s = Routed \<or> s = Streaming"

lemma live_simps [simp]:
  "live Queued" "live Routed" "live Streaming" "\<not> live Completed" "\<not> live QueueTimeoutStatus"
  "\<not> live StallTimeoutStatus" "\<not> live ReplicaUnavailableStatus" "\<not> live ErrorRequest"
  "\<not> live CapabilityMismatchStatus" "\<not> live AuthInvalidStatus"
  by (simp_all add: live_def)

lemma statusForError_is_error: "400 \<le> statusForError e \<and> statusForError e < 600"
  by (simp add: statusForError_def split: error_code.split)

lemma statusForError_retryable:
  "500 \<le> statusForError e \<longleftrightarrow> err_code e \<in> {QueueTimeout, StallTimeout, ReplicaUnavailable}"
  by (simp add: statusForError_def split: error_code.split)

end
