(* ===== verification/Routing.thy ===== *)
theory Routing
  imports Types
begin

text \<open>
  Model selection: \<open>server/src/routing/capabilities.ts\<close>, \<open>complexity.ts\<close> and \<open>select-model.ts\<close>.
  The three regular expressions of the complexity rules are written as the scanners they denote
  (leftmost matches, not overlapping).
\<close>

section \<open>Required capabilities\<close>

datatype endpoint = ChatEndpoint | EmbeddingsEndpoint

definition isImagePart :: "part \<Rightarrow> bool" where
  "isImagePart p \<longleftrightarrow> part_type p = ''image_url'' \<or> part_type p = ''image'' \<or>
     starts_with ''image_'' (part_type p)"

definition requestHasImage :: "chat_message list \<Rightarrow> bool" where
  "requestHasImage messages =
     list_ex (\<lambda>m. case msg_content m of Parts ps \<Rightarrow> list_ex isImagePart ps | _ \<Rightarrow> False) messages"

definition toolsRequested :: "chat_request \<Rightarrow> bool" where
  "toolsRequested r = (case cr_tools r of None \<Rightarrow> False | Some ts \<Rightarrow> 0 < length ts)"

definition requiredCapabilities :: "chat_request \<Rightarrow> endpoint \<Rightarrow> capability list" where
  "requiredCapabilities r e =
     (if e = EmbeddingsEndpoint then [Embeddings]
      else [Chat]
        @ (if requestHasImage (cr_messages r) then [Vision] else [])
        @ (if toolsRequested r then [Tools] else []))"

definition hasAllCapabilities :: "model_config \<Rightarrow> capability list \<Rightarrow> bool" where
  "hasAllCapabilities model required = list_all (\<lambda>cap. cap \<in> set (m_capabilities model)) required"

definition filterByCapabilities :: "model_config list \<Rightarrow> capability list \<Rightarrow> model_config list" where
  "filterByCapabilities candidates required = filter (\<lambda>m. hasAllCapabilities m required) candidates"

section \<open>Complexity signals\<close>

record complexity_signals =
  totalPromptLength :: nat
  hasComplexReasoningMarker :: bool
  hasLargeCodeBlock :: bool
  hasMultiPart :: bool
  signalTools :: bool

definition LONG_PROMPT_CHAR_THRESHOLD :: nat where "LONG_PROMPT_CHAR_THRESHOLD = 4000"
definition LARGE_CODE_BLOCK_CHAR_THRESHOLD :: nat where "LARGE_CODE_BLOCK_CHAR_THRESHOLD = 800"

definition COMPLEX_REASONING_MARKERS :: "string list" where
  "COMPLEX_REASONING_MARKERS =
     [''step by step'', ''step-by-step'', ''prove'', ''analyze in depth'', ''in-depth analysis'',
      ''think through'', ''reason through'', ''chain of thought'']"

definition flattenMessage :: "chat_message \<Rightarrow> string" where
  "flattenMessage m =
     (case msg_content m of
        Text s \<Rightarrow> s
      | Parts ps \<Rightarrow> join '' '' (map part_text ps)
      | NullContent \<Rightarrow> '''')"

definition flattenMessages :: "chat_message list \<Rightarrow> string" where
  "flattenMessages messages = join [CHR 0x0A] (map flattenMessage messages)"

definition fence :: string where "fence = [CHR 0x60, CHR 0x60, CHR 0x60]"

text \<open>The matches of the lazy fenced-block expression, delimiters included.\<close>

function fencedBlocks :: "string \<Rightarrow> string list" where
  "fencedBlocks s =
     (case break_on fence s of
        None \<Rightarrow> []
      | Some (a, r) \<Rightarrow>
          (case break_on fence r of
             None \<Rightarrow> []
           | Some (body, r') \<Rightarrow> (fence @ body @ fence) # fencedBlocks r'))"
  by pat_completeness auto
termination
  by (relation "measure length") (auto dest!: break_on_length simp: fence_def)

declare fencedBlocks.simps [simp del]

definition hasLargeFencedCodeBlock :: "string \<Rightarrow> bool" where
  "hasLargeFencedCodeBlock text =
     list_ex (\<lambda>b. LARGE_CODE_BLOCK_CHAR_THRESHOLD \<le> length b) (fencedBlocks text)"

text \<open>Digits, a closing mark and a white space: the rest after the match.\<close>

definition match_number_mark :: "string \<Rightarrow> string option" where
  "match_number_mark s =
     (if takeWhile is_digit s = [] then None
      else (case dropWhile is_digit s of
              p # w # r \<Rightarrow> if (p = CHR '')'' \<or> p = CHR ''.'') \<and> is_ws w then Some r else None
            | _ \<Rightarrow> None))"

text \<open>A numbered item matches at the very start of the text or after a white space it consumes.\<close>

definition match_item :: "bool \<Rightarrow> string \<Rightarrow> string option" where
  "match_item at_start s =
     (case (if at_start then match_number_mark s else None) of
        Some r \<Rightarrow> Some r
      | None \<Rightarrow> (case s of c # cs \<Rightarrow> if is_ws c then match_number_mark cs else None | [] \<Rightarrow> None))"

lemma match_number_mark_length: "match_number_mark s = Some r \<Longrightarrow> length r < length s"
proof -
  assume "match_number_mark s = Some r"
  then obtain p w where "dropWhile is_digit s = p # w # r"
    by (auto simp: match_number_mark_def split: if_splits list.splits)
  moreover have "length (dropWhile is_digit s) \<le> length s" by (rule length_dropWhile_le)
  ultimately show "length r < length s" by simp
qed

lemma match_item_length: "match_item b s = Some r \<Longrightarrow> length r < length s"
  by (fastforce simp: match_item_def split: option.splits list.splits if_splits
      dest: match_number_mark_length)

function numberedItems :: "bool \<Rightarrow> string \<Rightarrow> nat" where
  "numberedItems at_start s =
     (case match_item at_start s of
        Some r \<Rightarrow> Suc (numberedItems False r)
      | None \<Rightarrow> (case s of [] \<Rightarrow> 0 | c # cs \<Rightarrow> numberedItems False cs))"
  by pat_completeness auto
termination
  by (relation "measure (\<lambda>(b, s). length s)") (auto dest: match_item_length)

declare numberedItems.simps [simp del]

definition questionMarks :: "string \<Rightarrow> nat" where
  "questionMarks text = length (filter (\<lambda>c. c = CHR ''?'') text)"

definition hasMultiPartQuestion :: "string \<Rightarrow> bool" where
  "hasMultiPartQuestion text \<longleftrightarrow> 2 \<le> numberedItems True text \<or> 3 \<le> questionMarks text"

definition computeComplexitySignals :: "chat_request \<Rightarrow> complexity_signals" where
  "computeComplexitySignals r =
     (let text = flattenMessages (cr_messages r); lowerText = to_lower text in
      \<lparr>totalPromptLength = length text,
       hasComplexReasoningMarker = list_ex (\<lambda>m. str_includes m lowerText) COMPLEX_REASONING_MARKERS,
       hasLargeCodeBlock = hasLargeFencedCodeBlock text,
       hasMultiPart = hasMultiPartQuestion text,
       signalTools = toolsRequested r\<rparr>)"

definition isComplex :: "complexity_signals \<Rightarrow> bool" where
  "isComplex s \<longleftrightarrow>
     LONG_PROMPT_CHAR_THRESHOLD \<le> totalPromptLength s \<or> hasComplexReasoningMarker s \<or>
     hasLargeCodeBlock s \<or> hasMultiPart s"

section \<open>Selection\<close>

datatype select_reason = ExplicitOverride | ComplexityLarge | ComplexityFast

datatype select_result = Selected string select_reason | Rejected standard_error

definition capabilityMismatchError :: "string \<Rightarrow> standard_error" where
  "capabilityMismatchError message =
     \<lparr>err_type = InvalidRequestError, err_code = CapabilityMismatch, err_message = message\<rparr>"

text \<open>\<open>undefined\<close>, the empty string and \<open>auto\<close> name no model.\<close>

definition namesNoModel :: "string option \<Rightarrow> bool" where
  "namesNoModel m \<longleftrightarrow> m = None \<or> m = Some '''' \<or> m = Some ''auto''"

definition findModel :: "string \<Rightarrow> model_config list \<Rightarrow> model_config option" where
  "findModel modelId candidates = find (\<lambda>m. m_id m = modelId) candidates"

definition modelNotFoundError :: "string \<Rightarrow> standard_error" where
  "modelNotFoundError modelId =
     \<lparr>err_type = InvalidRequestError, err_code = ModelNotFound,
      err_message = ''Requested model \"'' @ modelId @ ''\" is not a known/eligible model.''\<rparr>"

definition missingCapabilityMessage :: "string \<Rightarrow> capability list \<Rightarrow> string" where
  "missingCapabilityMessage modelId missing =
     ''Requested model \"'' @ modelId @ ''\" does not support required capability: '' @
     join '', '' (map capability_text missing) @ ''.''"

definition noCapableModelMessage :: "capability list \<Rightarrow> string" where
  "noCapableModelMessage required =
     ''No available model supports required capabilities: '' @
     join '', '' (map capability_text required) @ ''.''"

definition selectExplicit :: "string \<Rightarrow> model_config list \<Rightarrow> capability list \<Rightarrow> select_result" where
  "selectExplicit modelId candidates required =
     (case findModel modelId candidates of
        None \<Rightarrow> Rejected (modelNotFoundError modelId)
      | Some named \<Rightarrow>
          if \<not> hasAllCapabilities named required then
            (let missing = filter (\<lambda>cap. cap \<notin> set (m_capabilities named)) required in
             Rejected (capabilityMismatchError (missingCapabilityMessage modelId missing)))
          else Selected (m_id named) ExplicitOverride)"

definition pickByClass :: "model_config list \<Rightarrow> bool \<Rightarrow> model_config" where
  "pickByClass eligible complex =
     (case find (\<lambda>m. m_modelClass m = (if complex then Large else Fast)) eligible of
        Some preferred \<Rightarrow> preferred
      | None \<Rightarrow>
          if complex then
            (case find (\<lambda>m. m_modelClass m = Fast) eligible of
               Some fastFallback \<Rightarrow> fastFallback
             | None \<Rightarrow> hd eligible)
          else hd eligible)"

definition selectAuto :: "chat_request \<Rightarrow> model_config list \<Rightarrow> capability list \<Rightarrow> select_result" where
  "selectAuto r candidates required =
     (let eligible = filterByCapabilities candidates required in
      if eligible = [] then
        Rejected (capabilityMismatchError (noCapableModelMessage required))
      else
        (let chosen = pickByClass eligible (isComplex (computeComplexitySignals r)) in
         Selected (m_id chosen)
           (if m_modelClass chosen = Large then ComplexityLarge else ComplexityFast)))"

definition selectModel :: "chat_request \<Rightarrow> model_config list \<Rightarrow> endpoint \<Rightarrow> select_result" where
  "selectModel r candidates e =
     (let required = requiredCapabilities r e in
      if namesNoModel (cr_model r) then selectAuto r candidates required
      else selectExplicit (the (cr_model r)) candidates required)"

section \<open>Facts about the scanners\<close>

lemma fencedBlocks_cases:
  obtains (no_block) "fencedBlocks s = []"
  | (block) a x r where "s = a @ (fence @ x @ fence) @ r"
      "fencedBlocks s = (fence @ x @ fence) # fencedBlocks r"
proof (cases "break_on fence s")
  case None
  then have "fencedBlocks s = []" by (subst fencedBlocks.simps) simp
  then show thesis by (rule no_block)
next
  case (Some ar)
  obtain a t where ar: "ar = (a, t)" by (cases ar)
  show thesis
  proof (cases "break_on fence t")
    case None
    then have "fencedBlocks s = []" using Some ar by (subst fencedBlocks.simps) simp
    then show thesis by (rule no_block)
  next
    case (Some xr)
    obtain x r where xr: "xr = (x, r)" by (cases xr)
    have "s = a @ (fence @ x @ fence) @ r"
      using \<open>break_on fence s = Some ar\<close> Some ar xr by (auto dest!: break_on_Some)
    moreover have "fencedBlocks s = (fence @ x @ fence) # fencedBlocks r"
      using \<open>break_on fence s = Some ar\<close> Some ar xr by (subst fencedBlocks.simps) simp
    ultimately show thesis by (rule block)
  qed
qed

lemma fencedBlocks_shape:
  "b \<in> set (fencedBlocks s) \<Longrightarrow> (\<exists>x. b = fence @ x @ fence) \<and> str_includes b s"
proof (induction s rule: length_induct)
  case (1 s)
  show ?case
  proof (cases s rule: fencedBlocks_cases)
    case no_block
    with 1 show ?thesis by simp
  next
    case (block a x r)
    show ?thesis
    proof (cases "b = fence @ x @ fence")
      case True
      then show ?thesis using block(1) by (auto simp: str_includes_iff)
    next
      case False
      have "length r < length s" using block(1) by (simp add: fence_def)
      moreover have "b \<in> set (fencedBlocks r)" using 1 block False by simp
      ultimately have "(\<exists>y. b = fence @ y @ fence) \<and> str_includes b r" using "1.IH" by blast
      then show ?thesis
        using block(1) str_includes_mono [of b r "a @ (fence @ x @ fence)" "[]"] by simp
    qed
  qed
qed

lemma fencedBlocks_total_length: "sum_list (map length (fencedBlocks s)) \<le> length s"
proof (induction s rule: length_induct)
  case (1 s)
  show ?case
  proof (cases s rule: fencedBlocks_cases)
    case no_block
    then show ?thesis by simp
  next
    case (block a x r)
    have "length r < length s" using block(1) by (simp add: fence_def)
    with 1 have "sum_list (map length (fencedBlocks r)) \<le> length r" by blast
    then show ?thesis using block by simp
  qed
qed

lemma hasLargeFencedCodeBlock_long:
  "hasLargeFencedCodeBlock text \<Longrightarrow> 800 \<le> length text"
proof -
  assume "hasLargeFencedCodeBlock text"
  then obtain b where "b \<in> set (fencedBlocks text)" "800 \<le> length b"
    by (auto simp: hasLargeFencedCodeBlock_def list_ex_iff LARGE_CODE_BLOCK_CHAR_THRESHOLD_def)
  moreover from this(1) have "length b \<le> sum_list (map length (fencedBlocks text))"
    by (intro member_le_sum_list) auto
  ultimately show "800 \<le> length text" using fencedBlocks_total_length [of "text"] by linarith
qed

lemma numberedItems_bound: "2 * numberedItems b s \<le> length s"
proof (induction b s rule: numberedItems.induct)
  case (1 b s)
  have step: "match_number_mark t = Some r \<Longrightarrow> length r + 2 \<le> length t" for t r
  proof -
    assume "match_number_mark t = Some r"
    then obtain p w where "dropWhile is_digit t = p # w # r"
      by (auto simp: match_number_mark_def split: if_splits list.splits)
    then have "length t = length (takeWhile is_digit t) + length r + 2"
      by (metis length_append length_Cons takeWhile_dropWhile_id add.assoc add_2_eq_Suc' add_Suc_right)
    then show ?thesis by simp
  qed
  have item: "match_item b s = Some r \<Longrightarrow> length r + 2 \<le> length s" for r
    by (fastforce simp: match_item_def split: option.splits list.splits if_splits dest: step)
  show ?case
  proof (cases "match_item b s")
    case None
    show ?thesis
    proof (cases s)
      case Nil
      with None show ?thesis by (subst numberedItems.simps) simp
    next
      case (Cons c cs)
      with 1 None have "2 * numberedItems False cs \<le> length cs" by simp
      with None Cons show ?thesis by (subst numberedItems.simps) simp
    qed
  next
    case (Some r)
    with 1 item show ?thesis
      by (subst numberedItems.simps) force
  qed
qed

section \<open>Facts about selection\<close>

lemma hasAllCapabilities_iff:
  "hasAllCapabilities m req \<longleftrightarrow> set req \<subseteq> set (m_capabilities m)"
  by (auto simp: hasAllCapabilities_def list_all_iff)

lemma findModel_Some: "findModel k ms = Some m \<Longrightarrow> m \<in> set ms \<and> m_id m = k"
  by (auto simp: findModel_def find_Some_iff)

lemma findModel_unique:
  "distinct (map m_id ms) \<Longrightarrow> m \<in> set ms \<Longrightarrow> findModel (m_id m) ms = Some m"
  using row_of_unique [of m_id ms m] by (simp add: findModel_def row_of_def unique_key_def)

lemma pickByClass_mem: "eligible \<noteq> [] \<Longrightarrow> pickByClass eligible c \<in> set eligible"
  by (auto simp: pickByClass_def find_Some_iff split: option.splits if_splits)

lemma pickByClass_large:
  "Large \<in> m_modelClass ` set ms \<Longrightarrow> m_modelClass (pickByClass ms True) = Large"
  by (drule find_class) (auto simp: pickByClass_def)

lemma pickByClass_fast:
  assumes "Fast \<in> m_modelClass ` set ms"
    and "\<not> c \<or> Large \<notin> m_modelClass ` set ms"
  shows "m_modelClass (pickByClass ms c) = Fast"
  using find_class [OF assms(1)] assms(2) find_class_None [of Large m_modelClass ms]
  by (cases c) (auto simp: pickByClass_def simp del: image_iff)

lemma selectAuto_Selected:
  assumes "selectAuto r ms req = Selected k reason"
  obtains m where "m \<in> set ms" "hasAllCapabilities m req" "m_id m = k"
    "m = pickByClass (filterByCapabilities ms req) (isComplex (computeComplexitySignals r))"
    "reason = (if m_modelClass m = Large then ComplexityLarge else ComplexityFast)"
proof -
  let ?e = "filterByCapabilities ms req"
  let ?m = "pickByClass ?e (isComplex (computeComplexitySignals r))"
  from assms have ne: "?e \<noteq> []" and k: "m_id ?m = k"
    and rs: "reason = (if m_modelClass ?m = Large then ComplexityLarge else ComplexityFast)"
    by (auto simp: selectAuto_def Let_def split: if_splits)
  from pickByClass_mem [OF ne] have "?m \<in> set ms" "hasAllCapabilities ?m req"
    by (auto simp: filterByCapabilities_def)
  with k rs show thesis by (intro that) auto
qed

lemma selectExplicit_Selected:
  "selectExplicit k ms req = Selected j reason \<Longrightarrow>
   j = k \<and> reason = ExplicitOverride \<and> (\<exists>m. findModel k ms = Some m \<and> hasAllCapabilities m req)"
  by (auto simp: selectExplicit_def Let_def split: option.splits if_splits dest: findModel_Some)

lemma selectModel_cases:
  obtains (auto) "namesNoModel (cr_model r)"
      "selectModel r ms e = selectAuto r ms (requiredCapabilities r e)"
  | (explicit) k where "cr_model r = Some k" "\<not> namesNoModel (cr_model r)"
      "selectModel r ms e = selectExplicit k ms (requiredCapabilities r e)"
  by (cases "cr_model r") (auto simp: selectModel_def namesNoModel_def)

lemma requiredCapabilities_distinct: "distinct (requiredCapabilities r e)"
  by (auto simp: requiredCapabilities_def)

section \<open>Properties of selection\<close>

text \<open>Inputs at which the properties below are exercised.\<close>

definition ex_model :: "string \<Rightarrow> model_class \<Rightarrow> capability list \<Rightarrow> model_config" where
  "ex_model k c caps =
     \<lparr>m_id = k, m_name = k, m_classLabel = '''', m_modelClass = c, m_capabilities = caps,
      m_minReplicas = 1, m_maxReplicas = 4, m_systemPrompt = '''', m_costValue = 0,
      m_costBasis = PerRequest, m_endpointUrl = ''http://'' @ k, m_upstreamModel = k,
      m_backendModelId = k, m_systemPromptMode = Passthrough, m_port = 8080,
      m_firstTokenTimeoutMs = None, m_configSource = GitOps, m_hasOverride = False\<rparr>"

definition ex_fleet :: "model_config list" where
  "ex_fleet = [ex_model ''kestrel'' Fast [Chat, Tools], ex_model ''lark'' VisionClass [Chat, Vision],
               ex_model ''ornith'' Large [Chat, Tools]]"

definition ex_request :: "string option \<Rightarrow> content \<Rightarrow> chat_request" where
  "ex_request m c =
     \<lparr>cr_model = m, cr_messages = [\<lparr>msg_role = UserRole, msg_content = c, msg_extra = []\<rparr>],
      cr_tools = None, cr_tool_choice = None, cr_stream = False, cr_include_usage = False,
      cr_temperature = None, cr_top_p = None, cr_max_tokens = None, cr_stop = None, cr_seed = None,
      cr_presence_penalty = None, cr_frequency_penalty = None, cr_response_format = None\<rparr>"

definition ex_image :: content where
  "ex_image = Parts [\<lparr>part_type = ''image_url'', part_fields = []\<rparr>]"

text \<open>
  C18: whatever selection returns is a registered model that has every capability the request needs,
  whether the caller named it or the router chose it: the router never routes to a model that cannot
  serve the request.
\<close>

theorem selectModel_sound:
  assumes "selectModel r ms e = Selected k reason" "distinct (map m_id ms)"
  shows "\<exists>m. findModel k ms = Some m \<and> set (requiredCapabilities r e) \<subseteq> set (m_capabilities m)"
proof (cases rule: selectModel_cases [of r ms e])
  case auto
  with assms(1) obtain m where "m \<in> set ms" "hasAllCapabilities m (requiredCapabilities r e)" "m_id m = k"
    by (auto elim: selectAuto_Selected)
  with findModel_unique [OF assms(2)] show ?thesis by (auto simp: hasAllCapabilities_iff)
next
  case (explicit j)
  with assms(1) selectExplicit_Selected show ?thesis by (fastforce simp: hasAllCapabilities_iff)
qed

lemma selectModel_sound_witness:
  "\<exists>m. findModel ''lark'' ex_fleet = Some m \<and>
       set (requiredCapabilities (ex_request None ex_image) ChatEndpoint) \<subseteq> set (m_capabilities m)"
  by (rule selectModel_sound [where reason = ComplexityFast]; code_simp)

text \<open>
  A caller who names a model gets that model or an error that says which of the two things is
  wrong (404 for an unknown name, 422 for a missing capability), and never another model.\<close>

theorem selectModel_explicit_total:
  assumes "cr_model r = Some k" "k \<noteq> ''''" "k \<noteq> ''auto''"
  shows "selectModel r ms e = Selected k ExplicitOverride \<or>
         (\<exists>err. selectModel r ms e = Rejected err \<and>
            (statusForError err = 404 \<and> k \<notin> m_id ` set ms \<or>
             statusForError err = 422 \<and>
             (\<exists>m \<in> set ms. m_id m = k \<and> \<not> set (requiredCapabilities r e) \<subseteq> set (m_capabilities m))))"
proof (cases "findModel k ms")
  case None
  with assms have "selectModel r ms e = Rejected (modelNotFoundError k)"
    by (simp add: selectModel_def namesNoModel_def selectExplicit_def)
  moreover have "k \<notin> m_id ` set ms" using None by (auto simp: findModel_def find_None_iff)
  ultimately show ?thesis by (auto simp: modelNotFoundError_def statusForError_def)
next
  case (Some m)
  with findModel_Some [OF Some] assms show ?thesis
    by (auto simp: selectModel_def namesNoModel_def selectExplicit_def statusForError_def Let_def
        capabilityMismatchError_def hasAllCapabilities_iff)
qed

lemma selectModel_explicit_total_witness:
  "(let r = ex_request (Some ''kestrel'') ex_image in
    selectModel r ex_fleet ChatEndpoint = Selected ''kestrel'' ExplicitOverride \<or>
    (\<exists>err. selectModel r ex_fleet ChatEndpoint = Rejected err \<and>
      (statusForError err = 404 \<and> ''kestrel'' \<notin> m_id ` set ex_fleet \<or>
       statusForError err = 422 \<and>
       (\<exists>m \<in> set ex_fleet. m_id m = ''kestrel'' \<and>
          \<not> set (requiredCapabilities r ChatEndpoint) \<subseteq> set (m_capabilities m)))))"
  unfolding Let_def by (rule selectModel_explicit_total) (simp_all add: ex_request_def)

text \<open>
  With no model named, the router refuses (with 422) exactly when no registered model has every
  required capability, and it never fails for any other reason.\<close>

theorem selectModel_auto_rejects_iff:
  assumes "cr_model r \<in> {None, Some '''', Some ''auto''}"
  shows "(\<exists>err. selectModel r ms e = Rejected err) =
           (\<nexists>m. m \<in> set ms \<and> set (requiredCapabilities r e) \<subseteq> set (m_capabilities m)) \<and>
         (\<forall>err. selectModel r ms e = Rejected err \<longrightarrow> statusForError err = 422)"
  using assms
  by (auto simp: selectModel_def namesNoModel_def selectAuto_def Let_def filterByCapabilities_def
      hasAllCapabilities_iff filter_empty_conv statusForError_def capabilityMismatchError_def)

lemma selectModel_auto_rejects_iff_witness:
  "(let r = ex_request (Some ''auto'') ex_image; ms = [ex_model ''kestrel'' Fast [Chat]] in
    (\<exists>err. selectModel r ms ChatEndpoint = Rejected err) =
      (\<nexists>m. m \<in> set ms \<and> set (requiredCapabilities r ChatEndpoint) \<subseteq> set (m_capabilities m)) \<and>
    (\<forall>err. selectModel r ms ChatEndpoint = Rejected err \<longrightarrow> statusForError err = 422))"
  unfolding Let_def by (rule selectModel_auto_rejects_iff) (simp add: ex_request_def)

text \<open>The models that can serve a request.\<close>

definition able_models :: "chat_request \<Rightarrow> endpoint \<Rightarrow> model_config list \<Rightarrow> model_config list" where
  "able_models r e ms = filter (\<lambda>m. set (requiredCapabilities r e) \<subseteq> set (m_capabilities m)) ms"

text \<open>
  C19: among the models that can serve the request, a complex request goes to a large model whenever
  there is one; every other request, and a complex one with no large model, goes to a fast model
  whenever there is one; and the reason recorded is \<open>complexity:large\<close> exactly for a large model.
\<close>

theorem selectModel_auto_preference:
  assumes "cr_model r = None" "selectModel r ms e = Selected k reason"
    and "classes = m_modelClass ` set (able_models r e ms)"
    and "complex = isComplex (computeComplexitySignals r)"
  shows "\<exists>m \<in> set (able_models r e ms). m_id m = k \<and>
           (complex \<and> Large \<in> classes \<longrightarrow> m_modelClass m = Large) \<and>
           ((\<not> complex \<or> Large \<notin> classes) \<and> Fast \<in> classes \<longrightarrow> m_modelClass m = Fast) \<and>
           (reason = ComplexityLarge \<longleftrightarrow> m_modelClass m = Large)"
proof -
  let ?able = "able_models r e ms"
  have able: "filterByCapabilities ms (requiredCapabilities r e) = ?able"
    by (simp add: able_models_def filterByCapabilities_def hasAllCapabilities_iff)
  have "selectAuto r ms (requiredCapabilities r e) = Selected k reason"
    using assms(1,2) by (simp add: selectModel_def namesNoModel_def)
  then obtain m where m: "m \<in> set ms" "hasAllCapabilities m (requiredCapabilities r e)" "m_id m = k"
    and pick: "m = pickByClass ?able complex"
    and rs: "reason = (if m_modelClass m = Large then ComplexityLarge else ComplexityFast)"
    by (elim selectAuto_Selected) (auto simp: able assms(4))
  have "complex \<and> Large \<in> classes \<longrightarrow> m_modelClass m = Large"
    using pickByClass_large [of ?able] pick assms(3) by simp
  moreover have "(\<not> complex \<or> Large \<notin> classes) \<and> Fast \<in> classes \<longrightarrow> m_modelClass m = Fast"
    using pickByClass_fast [of ?able complex] pick assms(3) by simp
  moreover have "m \<in> set ?able" using m by (simp add: able_models_def hasAllCapabilities_iff)
  ultimately show ?thesis using m(3) rs by auto
qed

lemma selectModel_auto_preference_witness:
  "\<exists>m \<in> set (able_models (ex_request None (Text ''prove it'')) ChatEndpoint ex_fleet). m_id m = ''ornith'' \<and>
      (True \<and> Large \<in> {Fast, VisionClass, Large} \<longrightarrow> m_modelClass m = Large) \<and>
      ((\<not> True \<or> Large \<notin> {Fast, VisionClass, Large}) \<and> Fast \<in> {Fast, VisionClass, Large} \<longrightarrow> m_modelClass m = Fast) \<and>
      (ComplexityLarge = ComplexityLarge \<longleftrightarrow> m_modelClass m = Large)"
proof (rule selectModel_auto_preference)
  show "cr_model (ex_request None (Text ''prove it'')) = None" by (simp add: ex_request_def)
  show "selectModel (ex_request None (Text ''prove it'')) ex_fleet ChatEndpoint =
          Selected ''ornith'' ComplexityLarge" by code_simp
  show "{Fast, VisionClass, Large} =
          m_modelClass ` set (able_models (ex_request None (Text ''prove it'')) ChatEndpoint ex_fleet)"
    by code_simp
  show "True = isComplex (computeComplexitySignals (ex_request None (Text ''prove it'')))" by code_simp
qed

end
