(* ===== verification/Store.thy ===== *)
theory Store
  imports Types
begin

text \<open>
  The Postgres schema of \<open>server/src/db/migrations\<close>: one record per table row and one record for
  the database, with the primary keys, foreign keys and checks as the predicate \<open>db_ok\<close>. The store
  is the shared state of every component (and of every router instance).
\<close>

section \<open>Rows\<close>

record model_row =
  mr_id :: string
  mr_name :: string
  mr_class_label :: string
  mr_model_class :: model_class
  mr_capabilities :: "capability list"
  mr_min_replicas :: int
  mr_max_replicas :: int
  mr_system_prompt :: string
  mr_cost_value :: rat
  mr_cost_basis :: cost_basis
  mr_endpoint_url :: string
  mr_upstream_model :: "string option"
  mr_system_prompt_mode :: "prompt_mode option"
  mr_backend_model_id :: "string option"
  mr_port :: "int option"
  mr_first_token_timeout_ms :: "int option"

record override_fields =
  of_name :: "string option"
  of_classLabel :: "string option"
  of_minReplicas :: "int option"
  of_maxReplicas :: "int option"
  of_systemPrompt :: "string option"
  of_costValue :: "rat option"
  of_costBasis :: "cost_basis option"

record override_row =
  ov_model_id :: string
  ov_fields :: override_fields
  ov_updated_by :: string
  ov_updated_at :: time

record cost_row =
  cc_model_id :: string
  cc_cost_value :: rat
  cc_cost_basis :: cost_basis
  cc_updated_by :: string
  cc_updated_at :: time

text \<open>The cpu figure is NULL, NaN (\<open>Some None\<close>) or a number.\<close>

record replica_row =
  rp_id :: string
  rp_model_id :: string
  rp_status :: replica_status
  rp_in_flight :: int
  rp_load_pct :: rat
  rp_tokens_per_sec :: "rat option"
  rp_tokens_per_sec_at :: "time option"
  rp_endpoint_url :: string
  rp_max_concurrency :: int
  rp_cpu_millicores :: "rat option option"
  rp_memory_bytes :: "int option"
  rp_restart_count :: int
  rp_last_seen_at :: "time option"
  rp_updated_at :: time

record request_row =
  rq_id :: string
  rq_caller_oid :: string
  rq_caller_name :: string
  rq_team :: "string option"
  rq_requested_model :: "string option"
  rq_routed_model :: "string option"
  rq_capabilities :: "capability list"
  rq_status :: request_status
  rq_error_code :: "error_code option"
  rq_replica_id :: "string option"
  rq_input_tokens :: int
  rq_output_tokens :: int
  rq_arrived_at :: time
  rq_started_at :: "time option"
  rq_completed_at :: "time option"
  rq_last_token_at :: "time option"
  rq_first_token_at :: "time option"
  rq_duration_ms :: "int option"
  rq_cost_usd :: "rat option"
  rq_affinity_hit :: "bool option"

record audit_row =
  au_request_id :: string
  au_prompt :: string
  au_response :: string
  au_created_at :: time

datatype scope_type = GlobalScope | TeamScope | ModelScope | KeyScope

record logging_row =
  lg_scope_type :: scope_type
  lg_scope_key :: string
  lg_enabled :: bool

record affinity_row =
  af_key :: string
  af_model_id :: string
  af_replica_id :: string
  af_last_used_at :: time

record signal_row =
  sg_model_id :: string
  sg_requested_at :: time

section \<open>The database\<close>

record db =
  models :: "model_row list"
  overrides :: "override_row list"
  cost_configs :: "cost_row list"
  replicas :: "replica_row list"
  requests :: "request_row list"
  audit_contents :: "audit_row list"
  logging_config :: "logging_row list"
  affinities :: "affinity_row list"
  signals :: "signal_row list"

definition empty_db :: db where
  "empty_db = \<lparr>models = [], overrides = [], cost_configs = [], replicas = [], requests = [],
     audit_contents = [], logging_config = [\<lparr>lg_scope_type = GlobalScope, lg_scope_key = '''', lg_enabled = False\<rparr>],
     affinities = [], signals = []\<rparr>"

definition logging_key :: "logging_row \<Rightarrow> scope_type \<times> string" where
  "logging_key r = (lg_scope_type r, lg_scope_key r)"

datatype db_error = ForeignKeyViolation | UniqueViolation | CheckViolation

definition model_exists :: "db \<Rightarrow> string \<Rightarrow> bool" where
  "model_exists d k = list_ex (\<lambda>m. mr_id m = k) (models d)"

definition db_keys_ok :: "db \<Rightarrow> bool" where
  "db_keys_ok d \<longleftrightarrow>
     unique_key mr_id (models d) \<and> unique_key ov_model_id (overrides d) \<and>
     unique_key cc_model_id (cost_configs d) \<and> unique_key rp_id (replicas d) \<and>
     unique_key rq_id (requests d) \<and> unique_key au_request_id (audit_contents d) \<and>
     unique_key logging_key (logging_config d) \<and> unique_key af_key (affinities d) \<and>
     unique_key sg_model_id (signals d)"

definition db_refs_ok :: "db \<Rightarrow> bool" where
  "db_refs_ok d \<longleftrightarrow>
     (\<forall>r \<in> set (overrides d). model_exists d (ov_model_id r)) \<and>
     (\<forall>r \<in> set (cost_configs d). model_exists d (cc_model_id r)) \<and>
     (\<forall>r \<in> set (replicas d). model_exists d (rp_model_id r)) \<and>
     (\<forall>r \<in> set (audit_contents d). \<exists>q \<in> set (requests d). rq_id q = au_request_id r)"

definition db_checks_ok :: "db \<Rightarrow> bool" where
  "db_checks_ok d \<longleftrightarrow> (\<forall>r \<in> set (replicas d). 1 \<le> rp_max_concurrency r)"

definition db_ok :: "db \<Rightarrow> bool" where
  "db_ok d \<longleftrightarrow> db_keys_ok d \<and> db_refs_ok d \<and> db_checks_ok d"

text \<open>\<open>DELETE FROM model_registry\<close>, with the \<open>ON DELETE CASCADE\<close> of its three referencing tables.\<close>

definition delete_models :: "(model_row \<Rightarrow> bool) \<Rightarrow> db \<Rightarrow> db" where
  "delete_models p d =
     (let kept = delete_where p (models d);
          gone = (\<lambda>k. \<not> list_ex (\<lambda>m. mr_id m = k) kept) in
      d\<lparr>models := kept,
        overrides := delete_where (\<lambda>r. gone (ov_model_id r)) (overrides d),
        cost_configs := delete_where (\<lambda>r. gone (cc_model_id r)) (cost_configs d),
        replicas := delete_where (\<lambda>r. gone (rp_model_id r)) (replicas d)\<rparr>)"

text \<open>\<open>DELETE FROM requests\<close>, with the cascade to the captured content.\<close>

definition delete_requests :: "(request_row \<Rightarrow> bool) \<Rightarrow> db \<Rightarrow> db" where
  "delete_requests p d =
     (let kept = delete_where p (requests d) in
      d\<lparr>requests := kept,
        audit_contents :=
          delete_where (\<lambda>a. \<not> list_ex (\<lambda>q. rq_id q = au_request_id a) kept) (audit_contents d)\<rparr>)"

definition update_requests :: "(request_row \<Rightarrow> bool) \<Rightarrow> (request_row \<Rightarrow> request_row) \<Rightarrow> db \<Rightarrow> db" where
  "update_requests p f d = d\<lparr>requests := update_where p f (requests d)\<rparr>"

definition update_replicas :: "(replica_row \<Rightarrow> bool) \<Rightarrow> (replica_row \<Rightarrow> replica_row) \<Rightarrow> db \<Rightarrow> db" where
  "update_replicas p f d = d\<lparr>replicas := update_where p f (replicas d)\<rparr>"

definition request_by :: "db \<Rightarrow> string \<Rightarrow> request_row option" where
  "request_by d k = row_of rq_id k (requests d)"

definition replica_by :: "db \<Rightarrow> string \<Rightarrow> replica_row option" where
  "replica_by d k = row_of rp_id k (replicas d)"

section \<open>Frames\<close>

lemma update_requests_frame [frame_simps, simp]:
  "models (update_requests p f d) = models d"
  "overrides (update_requests p f d) = overrides d"
  "cost_configs (update_requests p f d) = cost_configs d"
  "replicas (update_requests p f d) = replicas d"
  "audit_contents (update_requests p f d) = audit_contents d"
  "logging_config (update_requests p f d) = logging_config d"
  "affinities (update_requests p f d) = affinities d"
  "signals (update_requests p f d) = signals d"
  "requests (update_requests p f d) = update_where p f (requests d)"
  by (simp_all add: update_requests_def)

lemma update_replicas_frame [frame_simps, simp]:
  "models (update_replicas p g d) = models d"
  "overrides (update_replicas p g d) = overrides d"
  "cost_configs (update_replicas p g d) = cost_configs d"
  "requests (update_replicas p g d) = requests d"
  "audit_contents (update_replicas p g d) = audit_contents d"
  "logging_config (update_replicas p g d) = logging_config d"
  "affinities (update_replicas p g d) = affinities d"
  "signals (update_replicas p g d) = signals d"
  "replicas (update_replicas p g d) = update_where p g (replicas d)"
  by (simp_all add: update_replicas_def)

lemma delete_requests_frame [frame_simps, simp]:
  "models (delete_requests q d) = models d"
  "replicas (delete_requests q d) = replicas d"
  "requests (delete_requests q d) = delete_where q (requests d)"
  "affinities (delete_requests q d) = affinities d"
  "logging_config (delete_requests q d) = logging_config d"
  by (simp_all add: delete_requests_def Let_def)

lemma model_exists_iff: "model_exists d k \<longleftrightarrow> k \<in> mr_id ` set (models d)"
  by (auto simp: model_exists_def list_ex_iff)

lemma model_exists_cong: "models d' = models d \<Longrightarrow> model_exists d' = model_exists d"
  by (rule ext) (simp only: model_exists_def)

lemma request_by_update_requests:
  assumes "\<And>r. rq_id (f r) = rq_id r"
  shows "request_by (update_requests p f d) k =
         map_option (\<lambda>r. if p r then f r else r) (request_by d k)"
  by (simp add: request_by_def row_of_update_where [of rq_id f, OF assms])

lemma replica_by_update_replicas:
  assumes "\<And>r. rp_id (f r) = rp_id r"
  shows "replica_by (update_replicas p f d) k =
         map_option (\<lambda>r. if p r then f r else r) (replica_by d k)"
  by (simp add: replica_by_def row_of_update_where [of rp_id f, OF assms])

lemma request_by_cong [frame_simps]: "requests d' = requests d \<Longrightarrow> request_by d' = request_by d"
  by (rule ext) (simp only: request_by_def)

lemma replica_by_cong [frame_simps]: "replicas d' = replicas d \<Longrightarrow> replica_by d' = replica_by d"
  by (rule ext) (simp only: replica_by_def)

lemma request_by_Some: "request_by d k = Some r \<Longrightarrow> r \<in> set (requests d) \<and> rq_id r = k"
  unfolding request_by_def by (rule row_of_Some)

lemma replica_by_Some: "replica_by d k = Some r \<Longrightarrow> r \<in> set (replicas d) \<and> rp_id r = k"
  unfolding replica_by_def by (rule row_of_Some)

section \<open>The schema constraints are kept\<close>

lemma db_ok_update_requests:
  assumes "\<And>r. rq_id (f r) = rq_id r" "db_ok d"
  shows "db_ok (update_requests p f d)"
proof -
  have "rq_id ` set (update_where p f (requests d)) = rq_id ` set (requests d)"
    using map_update_where [of "requests d" p rq_id f] assms(1) by (metis set_map)
  then have "(\<exists>q \<in> set (update_where p f (requests d)). rq_id q = k) = (\<exists>q \<in> set (requests d). rq_id q = k)" for k
    by (metis (no_types, opaque_lifting) image_iff)
  with assms show ?thesis
    by (simp add: db_ok_def db_keys_ok_def db_refs_ok_def db_checks_ok_def unique_key_update_where
        model_exists_def)
qed

lemma db_ok_update_replicas:
  assumes "\<And>r. rp_id (f r) = rp_id r" "\<And>r. rp_model_id (f r) = rp_model_id r"
    "\<And>r. 1 \<le> rp_max_concurrency r \<Longrightarrow> 1 \<le> rp_max_concurrency (f r)" "db_ok d"
  shows "db_ok (update_replicas p f d)"
  using assms
  by (auto simp: db_ok_def db_keys_ok_def db_refs_ok_def db_checks_ok_def unique_key_update_where
      model_exists_def set_update_where)

lemma model_exists_delete_models:
  "model_exists (delete_models p d) k \<longleftrightarrow> (\<exists>m \<in> set (models d). mr_id m = k \<and> \<not> p m)"
  by (auto simp: delete_models_def Let_def model_exists_def list_ex_iff)

lemma db_ok_delete_models:
  assumes "db_ok d"
  shows "db_ok (delete_models p d)"
proof -
  have "db_keys_ok (delete_models p d)"
    using assms
    by (simp add: db_ok_def db_keys_ok_def delete_models_def Let_def unique_key_delete_where)
  moreover have "db_refs_ok (delete_models p d)"
    using assms
    by (auto simp: db_ok_def db_refs_ok_def delete_models_def Let_def model_exists_def list_ex_iff)
  moreover have "db_checks_ok (delete_models p d)"
    using assms by (auto simp: db_ok_def db_checks_ok_def delete_models_def Let_def)
  ultimately show ?thesis by (simp add: db_ok_def)
qed

lemma db_ok_delete_requests:
  assumes "db_ok d"
  shows "db_ok (delete_requests p d)"
proof -
  have "db_keys_ok (delete_requests p d)"
    using assms
    by (simp add: db_ok_def db_keys_ok_def delete_requests_def Let_def unique_key_delete_where)
  moreover have "db_refs_ok (delete_requests p d)"
    using assms
    by (auto simp: db_ok_def db_refs_ok_def delete_requests_def Let_def model_exists_def list_ex_iff)
  moreover have "db_checks_ok (delete_requests p d)"
    using assms by (auto simp: db_ok_def db_checks_ok_def delete_requests_def Let_def)
  ultimately show ?thesis by (simp add: db_ok_def)
qed

lemma db_ok_set_replicas:
  assumes "db_ok d" "unique_key rp_id rs"
    and "\<And>r. r \<in> set rs \<Longrightarrow> model_exists d (rp_model_id r) \<and> 1 \<le> rp_max_concurrency r"
  shows "db_ok (d\<lparr>replicas := rs\<rparr>)"
  using assms by (simp add: db_ok_def db_keys_ok_def db_refs_ok_def db_checks_ok_def model_exists_def)

lemma db_ok_replica: "db_ok d \<Longrightarrow> r \<in> set (replicas d) \<Longrightarrow> model_exists d (rp_model_id r) \<and> 1 \<le> rp_max_concurrency r"
  by (simp add: db_ok_def db_refs_ok_def db_checks_ok_def)

lemma db_ok_empty: "db_ok empty_db"
  by (simp add: db_ok_def db_keys_ok_def db_refs_ok_def db_checks_ok_def empty_db_def unique_key_def)

end
