(* ===== verification/Cost.thy ===== *)
theory Cost
  imports Store "HOL-Library.Multiset"
begin

text \<open>
  Cost tracking: \<open>server/src/cost/compute.ts\<close> (the price of a request under its basis), \<open>config.ts\<close>
  (the per-model price table) and \<open>breakdown.ts\<close> (the aggregation behind the cost page). Amounts are
  exact rationals where the code has doubles and Postgres numerics.
\<close>

section \<open>The price of a request\<close>

definition computeCost :: "cost_basis \<Rightarrow> rat \<Rightarrow> int \<Rightarrow> int \<Rightarrow> int \<Rightarrow> rat" where
  "computeCost costBasis costValue inputTokens outputTokens durationMs =
     (case costBasis of
        Per1kTokens \<Rightarrow> (of_int (inputTokens + outputTokens) / 1000) * costValue
      | PerRequest \<Rightarrow> costValue
      | PerComputeSecond \<Rightarrow> (of_int durationMs / 1000) * costValue)"

section \<open>Price configuration\<close>

definition getCostConfigForModel :: "db \<Rightarrow> string \<Rightarrow> (rat \<times> cost_basis) option" where
  "getCostConfigForModel d modelId =
     map_option (\<lambda>r. (cc_cost_value r, cc_cost_basis r)) (row_of cc_model_id modelId (cost_configs d))"

definition put_cost_config :: "string \<Rightarrow> time \<Rightarrow> string \<Rightarrow> rat \<times> cost_basis \<Rightarrow> db \<Rightarrow> db" where
  "put_cost_config updatedBy now modelId vb d =
     d\<lparr>cost_configs :=
         upsert cc_model_id
           \<lparr>cc_model_id = modelId, cc_cost_value = fst vb, cc_cost_basis = snd vb,
            cc_updated_by = updatedBy, cc_updated_at = now\<rparr>
           (\<lambda>r. r\<lparr>cc_cost_value := fst vb, cc_cost_basis := snd vb, cc_updated_by := updatedBy,
                  cc_updated_at := now\<rparr>)
           (cost_configs d)\<rparr>"

text \<open>The insert fails when the model is not registered: \<open>model_id\<close> is a foreign key.\<close>

definition setCostConfigForModel ::
  "string \<Rightarrow> rat \<Rightarrow> cost_basis \<Rightarrow> string \<Rightarrow> time \<Rightarrow> db \<Rightarrow> db_error + db" where
  "setCostConfigForModel modelId costValue costBasis updatedBy now d =
     (if model_exists d modelId
      then Inr (put_cost_config updatedBy now modelId (costValue, costBasis) d)
      else Inl ForeignKeyViolation)"

interpretation cost_store: keyed_store
  "\<lambda>d. unique_key cc_model_id (cost_configs d)" getCostConfigForModel "put_cost_config who now" for who now
proof unfold_locales
  fix s :: db and k :: string and v
  assume ok: "unique_key cc_model_id (cost_configs s)"
  show "unique_key cc_model_id (cost_configs (put_cost_config who now k v s))"
    using ok by (simp add: put_cost_config_def unique_key_upsert)
  let ?new = "\<lparr>cc_model_id = k, cc_cost_value = fst v, cc_cost_basis = snd v,
     cc_updated_by = who, cc_updated_at = now\<rparr>"
  show "getCostConfigForModel (put_cost_config who now k v s) k = Some v"
    using row_of_upsert_same [where key = cc_model_id and new = ?new]
    by (simp add: getCostConfigForModel_def put_cost_config_def split: option.split)
next
  fix s :: db and k' k :: string and v
  assume "k' \<noteq> k"
  then show "getCostConfigForModel (put_cost_config who now k v s) k' = getCostConfigForModel s k'"
    by (simp add: getCostConfigForModel_def put_cost_config_def row_of_upsert_other)
qed

text \<open>What the handlers charge: the configured price, or the model's own where none is configured.\<close>

definition costConfigFor :: "db \<Rightarrow> model_config \<Rightarrow> rat \<times> cost_basis" where
  "costConfigFor d model =
     nullish (getCostConfigForModel d (m_id model)) (m_costValue model, m_costBasis model)"

section \<open>Breakdown\<close>

datatype group_by = GroupByModel | GroupByCaller

record breakdown_entry =
  be_key :: string
  be_tokens :: int
  be_requests :: int
  be_cost :: rat

definition group_column :: "group_by \<Rightarrow> request_row \<Rightarrow> string option" where
  "group_column g r = (case g of GroupByModel \<Rightarrow> rq_routed_model r | GroupByCaller \<Rightarrow> Some (rq_caller_oid r))"

definition billed_rows :: "time \<Rightarrow> time \<Rightarrow> group_by \<Rightarrow> db \<Rightarrow> request_row list" where
  "billed_rows since until g d =
     filter (\<lambda>r. rq_status r = Completed \<and> since \<le> rq_arrived_at r \<and> rq_arrived_at r \<le> until \<and>
                 group_column g r \<noteq> None) (requests d)"

definition row_cost :: "request_row \<Rightarrow> rat" where
  "row_cost r = nullish (rq_cost_usd r) 0"

definition breakdown_of :: "group_by \<Rightarrow> request_row list \<Rightarrow> string \<Rightarrow> breakdown_entry" where
  "breakdown_of g rows k =
     (let grp = filter (\<lambda>r. group_column g r = Some k) rows in
      \<lparr>be_key = k,
       be_tokens = (\<Sum>r\<leftarrow>grp. rq_input_tokens r + rq_output_tokens r),
       be_requests = int (length grp),
       be_cost = (\<Sum>r\<leftarrow>grp. row_cost r)\<rparr>)"

text \<open>Groups of equal cost may come in any order; here in order of their last row.\<close>

definition getCostBreakdown :: "time \<Rightarrow> time \<Rightarrow> group_by \<Rightarrow> db \<Rightarrow> breakdown_entry list" where
  "getCostBreakdown since until g d =
     (let rows = billed_rows since until g d in
      sort_key (\<lambda>e. - be_cost e)
        (map (breakdown_of g rows) (remdups (map (\<lambda>r. the (group_column g r)) rows))))"

section \<open>Facts about the breakdown\<close>

lemma sum_groups:
  fixes h :: "request_row \<Rightarrow> 'a::comm_monoid_add"
  assumes "\<forall>r \<in> set rows. key r \<in> set ks" "distinct ks"
  shows "(\<Sum>k\<leftarrow>ks. \<Sum>r\<leftarrow>filter (\<lambda>r. key r = k) rows. h r) = (\<Sum>r\<leftarrow>rows. h r)"
  using assms
proof (induction rows)
  case Nil
  then show ?case by simp
next
  case (Cons x rows)
  have pick: "(\<Sum>k\<leftarrow>ks. if key x = k then h x else 0) = h x"
    using Cons.prems by (simp add: sum_list_distinct_conv_sum_set sum.delta)
  have "(\<Sum>k\<leftarrow>ks. \<Sum>r\<leftarrow>filter (\<lambda>r. key r = k) (x # rows). h r) =
        (\<Sum>k\<leftarrow>ks. (if key x = k then h x else 0) + (\<Sum>r\<leftarrow>filter (\<lambda>r. key r = k) rows. h r))"
    by (intro arg_cong [where f = sum_list] map_cong) auto
  also have "\<dots> = h x + (\<Sum>r\<leftarrow>rows. h r)"
    using Cons pick by (simp add: sum_list_addf)
  finally show ?case by simp
qed

lemma sum_list_sort_key:
  fixes h :: "'b \<Rightarrow> 'a::comm_monoid_add"
  shows "(\<Sum>e\<leftarrow>sort_key f xs. h e) = (\<Sum>e\<leftarrow>xs. h e)"
proof -
  have "mset (map h (sort_key f xs)) = mset (map h xs)" by simp
  then show ?thesis by (metis sum_mset_sum_list)
qed

text \<open>The total of any additive column over the entries is its total over the rows.\<close>

lemma breakdown_total:
  fixes h :: "breakdown_entry \<Rightarrow> 'a::comm_monoid_add"
  assumes col: "\<And>k. h (breakdown_of g (billed_rows since until g d) k) =
                  (\<Sum>r\<leftarrow>filter (\<lambda>r. group_column g r = Some k) (billed_rows since until g d). h' r)"
  shows "(\<Sum>e\<leftarrow>getCostBreakdown since until g d. h e) = (\<Sum>r\<leftarrow>billed_rows since until g d. h' r)"
proof -
  let ?rows = "billed_rows since until g d"
  let ?key = "\<lambda>r. the (group_column g r)"
  have some: "r \<in> set ?rows \<Longrightarrow> (group_column g r = Some k) = (?key r = k)" for r k
    by (auto simp: billed_rows_def)
  have "(\<Sum>e\<leftarrow>getCostBreakdown since until g d. h e) =
        (\<Sum>k\<leftarrow>remdups (map ?key ?rows). \<Sum>r\<leftarrow>filter (\<lambda>r. group_column g r = Some k) ?rows. h' r)"
    by (simp add: getCostBreakdown_def Let_def sum_list_sort_key o_def col)
  also have "\<dots> = (\<Sum>k\<leftarrow>remdups (map ?key ?rows). \<Sum>r\<leftarrow>filter (\<lambda>r. ?key r = k) ?rows. h' r)"
    using some by (intro arg_cong [where f = sum_list] map_cong refl) (auto cong: filter_cong)
  also have "\<dots> = (\<Sum>r\<leftarrow>?rows. h' r)"
    by (rule sum_groups) auto
  finally show ?thesis .
qed

lemma breakdown_keys:
  "set (map be_key (getCostBreakdown since until g d)) =
     {k. \<exists>r \<in> set (billed_rows since until g d). group_column g r = Some k}"
  by (force simp: getCostBreakdown_def Let_def breakdown_of_def billed_rows_def)

lemma breakdown_distinct: "distinct (map be_key (getCostBreakdown since until g d))"
proof -
  let ?rows = "billed_rows since until g d"
  let ?ks = "remdups (map (\<lambda>r. the (group_column g r)) ?rows)"
  have "map be_key (map (breakdown_of g ?rows) ?ks) = ?ks"
    by (simp add: breakdown_of_def Let_def o_def)
  then have "distinct (map be_key (map (breakdown_of g ?rows) ?ks))" by simp
  moreover have "mset (map be_key (getCostBreakdown since until g d)) =
      mset (map be_key (map (breakdown_of g ?rows) ?ks))"
    by (simp add: getCostBreakdown_def Let_def multiset.map_comp)
  ultimately show ?thesis by (metis mset_eq_imp_distinct_iff)
qed

section \<open>Properties\<close>

text \<open>
  The cost page neither loses nor invents money: its entries are one per model (or caller) with
  traffic, in descending order of cost, and over all entries the cost, the tokens and the request
  counts add up to those of the completed requests in the window.\<close>

theorem getCostBreakdown_conserves:
  "let es = getCostBreakdown since until g d; rows = billed_rows since until g d in
     (\<Sum>e\<leftarrow>es. be_cost e) = (\<Sum>r\<leftarrow>rows. row_cost r) \<and>
     (\<Sum>e\<leftarrow>es. be_tokens e) = (\<Sum>r\<leftarrow>rows. rq_input_tokens r + rq_output_tokens r) \<and>
     (\<Sum>e\<leftarrow>es. be_requests e) = int (length rows) \<and>
     distinct (map be_key es) \<and> sorted (map (\<lambda>e. - be_cost e) es)"
proof -
  have "(\<Sum>e\<leftarrow>getCostBreakdown since until g d. be_requests e) =
        (\<Sum>r\<leftarrow>billed_rows since until g d. 1)"
    by (rule breakdown_total) (simp add: breakdown_of_def Let_def sum_list_triv)
  moreover have "sorted (map (\<lambda>e. - be_cost e) (getCostBreakdown since until g d))"
    by (simp add: getCostBreakdown_def Let_def)
  ultimately show ?thesis
    unfolding Let_def
    by (intro conjI breakdown_total breakdown_distinct)
      (simp_all add: breakdown_of_def Let_def sum_list_triv)
qed

text \<open>
  A price never makes a request free or negative by accident: with a non-negative price, token
  counts and duration the cost is non-negative; it does not depend on the tokens under a
  per-request or per-second price, nor on the time under a per-token or per-request price; and it
  is additive in what it depends on.\<close>

theorem computeCost_laws:
  assumes "0 \<le> v" "0 \<le> i" "0 \<le> out" "0 \<le> ms"
  shows "0 \<le> computeCost b v i out ms \<and>
    (b \<noteq> Per1kTokens \<longrightarrow> computeCost b v i out ms = computeCost b v i' out' ms) \<and>
    (b \<noteq> PerComputeSecond \<longrightarrow> computeCost b v i out ms = computeCost b v i out ms') \<and>
    (b \<noteq> PerRequest \<longrightarrow>
       computeCost b v (i + i') (out + out') (ms + ms') =
         computeCost b v i out ms + computeCost b v i' out' ms')"
  using assms by (cases b) (simp_all add: computeCost_def field_simps)

lemma computeCost_laws_witness:
  "0 \<le> computeCost Per1kTokens (1/100) 1500 500 40 \<and>
   computeCost Per1kTokens (1/100) (1500 + 1) (500 + 2) (40 + 3) =
     computeCost Per1kTokens (1/100) 1500 500 40 + computeCost Per1kTokens (1/100) 1 2 3"
  using computeCost_laws [of "1/100" 1500 500 40 Per1kTokens 1 2 3] by simp

end
