(* ===== verification/Registry.thy ===== *)
theory Registry
  imports Cost
begin

text \<open>
  The model registry: \<open>server/src/registry/merge.ts\<close> (dashboard overrides merged over the Helm row
  at read time), \<open>index.ts\<close> (listing, lookup, overriding), \<open>gitops.ts\<close> (reading and validating the
  Helm config, making the table match it) and \<open>verify-upstream.ts\<close> (does the backend answer to the
  configured name).
\<close>

section \<open>Merging\<close>

definition override_empty :: "override_fields \<Rightarrow> bool" where
  "override_empty f \<longleftrightarrow>
     of_name f = None \<and> of_classLabel f = None \<and> of_minReplicas f = None \<and>
     of_maxReplicas f = None \<and> of_systemPrompt f = None \<and> of_costValue f = None \<and>
     of_costBasis f = None"

definition no_override :: override_fields where
  "no_override = \<lparr>of_name = None, of_classLabel = None, of_minReplicas = None, of_maxReplicas = None,
     of_systemPrompt = None, of_costValue = None, of_costBasis = None\<rparr>"

text \<open>\<open>a || b\<close> on strings: the empty string is falsy.\<close>

definition or_string :: "string option \<Rightarrow> string \<Rightarrow> string" where
  "or_string a b = (case a of None \<Rightarrow> b | Some s \<Rightarrow> if s = '''' then b else s)"

definition mergeModelConfig :: "model_row \<Rightarrow> override_fields option \<Rightarrow> model_config" where
  "mergeModelConfig base ov =
     (let f = nullish ov no_override; hasOverride = (ov \<noteq> None \<and> \<not> override_empty f) in
      \<lparr>m_id = mr_id base,
       m_name = nullish (of_name f) (mr_name base),
       m_classLabel = nullish (of_classLabel f) (mr_class_label base),
       m_modelClass = mr_model_class base,
       m_capabilities = mr_capabilities base,
       m_minReplicas = nullish (of_minReplicas f) (mr_min_replicas base),
       m_maxReplicas = nullish (of_maxReplicas f) (mr_max_replicas base),
       m_systemPrompt = nullish (of_systemPrompt f) (mr_system_prompt base),
       m_costValue = nullish (of_costValue f) (mr_cost_value base),
       m_costBasis = nullish (of_costBasis f) (mr_cost_basis base),
       m_endpointUrl = mr_endpoint_url base,
       m_upstreamModel = or_string (mr_upstream_model base) (mr_id base),
       m_backendModelId = or_string (mr_backend_model_id base) (mr_id base),
       m_systemPromptMode = nullish (mr_system_prompt_mode base) Passthrough,
       m_port = nullish (mr_port base) 8080,
       m_firstTokenTimeoutMs = mr_first_token_timeout_ms base,
       m_configSource = (if hasOverride then Override else GitOps),
       m_hasOverride = hasOverride\<rparr>)"

section \<open>Reading and overriding\<close>

definition fetchOverride :: "db \<Rightarrow> string \<Rightarrow> override_fields option" where
  "fetchOverride d modelId = map_option ov_fields (row_of ov_model_id modelId (overrides d))"

definition listModels :: "db \<Rightarrow> model_config list" where
  "listModels d =
     map (\<lambda>row. mergeModelConfig row (fetchOverride d (mr_id row))) (sort_key mr_id (models d))"

definition getModel :: "db \<Rightarrow> string \<Rightarrow> model_config option" where
  "getModel d modelId =
     map_option (\<lambda>row. mergeModelConfig row (fetchOverride d modelId)) (row_of mr_id modelId (models d))"

text \<open>JSONB \<open>old || new\<close>: the new object's keys win, the other keys stay.\<close>

definition merge_fields :: "override_fields \<Rightarrow> override_fields \<Rightarrow> override_fields" where
  "merge_fields old new =
     \<lparr>of_name = coalesce (of_name new) (of_name old),
      of_classLabel = coalesce (of_classLabel new) (of_classLabel old),
      of_minReplicas = coalesce (of_minReplicas new) (of_minReplicas old),
      of_maxReplicas = coalesce (of_maxReplicas new) (of_maxReplicas old),
      of_systemPrompt = coalesce (of_systemPrompt new) (of_systemPrompt old),
      of_costValue = coalesce (of_costValue new) (of_costValue old),
      of_costBasis = coalesce (of_costBasis new) (of_costBasis old)\<rparr>"

definition put_override :: "string \<Rightarrow> time \<Rightarrow> string \<Rightarrow> override_fields \<Rightarrow> db \<Rightarrow> db" where
  "put_override updatedBy now modelId flds d =
     d\<lparr>overrides :=
         upsert ov_model_id
           \<lparr>ov_model_id = modelId, ov_fields = flds, ov_updated_by = updatedBy, ov_updated_at = now\<rparr>
           (\<lambda>r. r\<lparr>ov_fields := merge_fields (ov_fields r) flds, ov_updated_by := updatedBy,
                  ov_updated_at := now\<rparr>)
           (overrides d)\<rparr>"

text \<open>
  The insert is refused for a model that is not registered (\<open>model_id\<close> references the registry);
  otherwise the merged model is read back.
\<close>

definition setModelOverride ::
  "string \<Rightarrow> override_fields \<Rightarrow> string \<Rightarrow> time \<Rightarrow> db \<Rightarrow> db_error + (model_config option \<times> db)" where
  "setModelOverride modelId flds updatedBy now d =
     (if model_exists d modelId
      then (let d' = put_override updatedBy now modelId flds d in Inr (getModel d' modelId, d'))
      else Inl ForeignKeyViolation)"

text \<open>The workload an entry resolves to: an alias resolves to the model that owns the pods.\<close>

definition backend_of :: "db \<Rightarrow> string \<Rightarrow> string" where
  "backend_of d modelId =
     (case row_of mr_id modelId (models d) of
        None \<Rightarrow> modelId
      | Some row \<Rightarrow> nullish (mr_backend_model_id row) (mr_id row))"

definition listReplicasForModel :: "db \<Rightarrow> string \<Rightarrow> replica_row list" where
  "listReplicasForModel d modelId =
     sort_key rp_id (filter (\<lambda>r. rp_model_id r = backend_of d modelId) (replicas d))"

section \<open>The Helm config\<close>

text \<open>
  One entry of the mounted config. A \<open>None\<close> is a missing key; capabilities that are missing or not
  an array are \<open>None\<close>.
\<close>

record gitops_model =
  gm_id :: string
  gm_name :: "string option"
  gm_classLabel :: "string option"
  gm_modelClass :: model_class
  gm_classText :: string
  gm_capabilities :: "capability list option"
  gm_minReplicas :: "int option"
  gm_maxReplicas :: "int option"
  gm_systemPrompt :: "string option"
  gm_costValue :: "rat option"
  gm_costBasis :: "cost_basis option"
  gm_endpointUrl :: "string option"
  gm_upstreamModel :: "string option"
  gm_backendRef :: "string option"
  gm_port :: "int option"
  gm_systemPromptMode :: "prompt_mode option"
  gm_firstTokenTimeoutMs :: "int option"

datatype config_error =
    MissingId
  | NoCapabilities string
  | UnknownBackendRef string string
  | SelfBackendRef string
  | ChainedBackendRef string string

definition defaultEndpoint :: "string option \<Rightarrow> string \<Rightarrow> string" where
  "defaultEndpoint podNamespace k =
     (case podNamespace of
        None \<Rightarrow> ''http://'' @ k
      | Some namespace \<Rightarrow>
          if namespace = '''' then ''http://'' @ k
          else ''http://'' @ k @ ''.'' @ namespace @ ''.svc.cluster.local'')"

text \<open>Helm cannot omit a key, so an ordinary model arrives with an empty \<open>backendRef\<close>.\<close>

definition normaliseBackendRef :: "gitops_model \<Rightarrow> gitops_model" where
  "normaliseBackendRef m = (if gm_backendRef m = Some '''' then m\<lparr>gm_backendRef := None\<rparr> else m)"

definition checkModel :: "gitops_model list \<Rightarrow> gitops_model \<Rightarrow> config_error option" where
  "checkModel ms m =
     (if gm_id m = '''' then Some MissingId
      else if gm_capabilities m = None \<or> gm_capabilities m = Some [] then Some (NoCapabilities (gm_id m))
      else (case gm_backendRef m of
              None \<Rightarrow> None
            | Some ref \<Rightarrow>
                if ref \<notin> set (map gm_id ms) then Some (UnknownBackendRef (gm_id m) ref)
                else if ref = gm_id m then Some (SelfBackendRef (gm_id m))
                else (case find (\<lambda>t. gm_id t = ref) ms of
                        None \<Rightarrow> None
                      | Some target \<Rightarrow>
                          if gm_backendRef target \<noteq> None then Some (ChainedBackendRef (gm_id m) ref)
                          else None)))"

fun checkModels :: "gitops_model list \<Rightarrow> gitops_model list \<Rightarrow> config_error option" where
  "checkModels all_models [] = None"
| "checkModels all_models (m # ms) =
     (case checkModel all_models m of Some e \<Rightarrow> Some e | None \<Rightarrow> checkModels all_models ms)"

text \<open>The file's parsed content, \<open>None\<close> where no config is mounted; the first bad entry is thrown.\<close>

definition readModelsConfig :: "gitops_model list option \<Rightarrow> config_error + gitops_model list option" where
  "readModelsConfig file =
     (case file of
        None \<Rightarrow> Inr None
      | Some parsed \<Rightarrow>
          (let ms = map normaliseBackendRef parsed in
           case checkModels ms ms of Some e \<Rightarrow> Inl e | None \<Rightarrow> Inr (Some ms)))"

section \<open>Making the table match the config\<close>

definition gitops_row :: "string option \<Rightarrow> gitops_model \<Rightarrow> model_row" where
  "gitops_row ns m =
     \<lparr>mr_id = gm_id m,
      mr_name = nullish (gm_name m) (gm_id m),
      mr_class_label = nullish (gm_classLabel m) (gm_classText m),
      mr_model_class = gm_modelClass m,
      mr_capabilities = nullish (gm_capabilities m) [],
      mr_min_replicas = nullish (gm_minReplicas m) 1,
      mr_max_replicas = nullish (gm_maxReplicas m) 1,
      mr_system_prompt = nullish (gm_systemPrompt m) '''',
      mr_cost_value = nullish (gm_costValue m) 0,
      mr_cost_basis = nullish (gm_costBasis m) Per1kTokens,
      mr_endpoint_url = nullish (gm_endpointUrl m) (defaultEndpoint ns (nullish (gm_backendRef m) (gm_id m))),
      mr_upstream_model = Some (nullish (gm_upstreamModel m) (gm_id m)),
      mr_system_prompt_mode = Some (nullish (gm_systemPromptMode m) Passthrough),
      mr_backend_model_id = gm_backendRef m,
      mr_port = Some (nullish (gm_port m) 8080),
      mr_first_token_timeout_ms = gm_firstTokenTimeoutMs m\<rparr>"

definition upsert_model :: "model_row \<Rightarrow> db \<Rightarrow> db" where
  "upsert_model row d = d\<lparr>models := upsert mr_id row (\<lambda>_. row) (models d)\<rparr>"

record sync_result =
  sr_upserted :: nat
  sr_removed :: "string list"

definition syncModelsFromConfig :: "string option \<Rightarrow> gitops_model list \<Rightarrow> db \<Rightarrow> sync_result \<times> db" where
  "syncModelsFromConfig ns ms d =
     (let d1 = fold (\<lambda>m. upsert_model (gitops_row ns m)) ms d;
          stale = (\<lambda>r. mr_id r \<notin> set (map gm_id ms)) in
      (\<lparr>sr_upserted = length ms, sr_removed = map mr_id (filter stale (models d1))\<rparr>,
       delete_models stale d1))"

definition syncModelsFromConfigFile ::
  "string option \<Rightarrow> gitops_model list option \<Rightarrow> db \<Rightarrow> config_error + (sync_result option \<times> db)" where
  "syncModelsFromConfigFile ns file d =
     (case readModelsConfig file of
        Inl e \<Rightarrow> Inl e
      | Inr None \<Rightarrow> Inr (None, d)
      | Inr (Some ms) \<Rightarrow> (let (res, d') = syncModelsFromConfig ns ms d in Inr (Some res, d')))"

section \<open>Does the backend answer to the configured name?\<close>

datatype upstream_check = UpOk | UpUnknown | UpMissing "string list"

text \<open>
  The names in a \<open>/v1/models\<close> response: \<open>None\<close> for a failed request or a body whose \<open>data\<close> is no
  array, otherwise every string id followed by its llama-swap aliases.
\<close>

definition entry_names :: "json \<Rightarrow> string list" where
  "entry_names entry =
     (case jfield ''id'' entry of Some (JStr s) \<Rightarrow> [s] | _ \<Rightarrow> []) @
     (case jpath ''aliases'' (jpath ''llamaswap'' (jfield ''meta'' entry)) of
        Some (JArr xs) \<Rightarrow> concat (map (\<lambda>x. case x of JStr s \<Rightarrow> [s] | _ \<Rightarrow> []) xs)
      | _ \<Rightarrow> [])"

definition listUpstreamNames :: "json option \<Rightarrow> string list option" where
  "listUpstreamNames body =
     (case body of
        None \<Rightarrow> None
      | Some b \<Rightarrow>
          (case jfield ''data'' b of
             Some (JArr entries) \<Rightarrow> Some (concat (map entry_names entries))
           | _ \<Rightarrow> None))"

definition checkUpstreamName :: "model_config \<Rightarrow> string list option \<Rightarrow> upstream_check" where
  "checkUpstreamName model available =
     (case available of
        None \<Rightarrow> UpUnknown
      | Some names \<Rightarrow> if m_upstreamModel model \<in> set names then UpOk else UpMissing names)"

datatype upstream_log = LogMissing string | LogResolved string

fun check_state :: "upstream_check \<Rightarrow> nat" where
  "check_state UpOk = 0" | "check_state UpUnknown = 1" | "check_state (UpMissing ns) = 2"

type_synonym upstream_reports = "(string \<times> upstream_check) list"

definition getUpstreamCheck :: "upstream_reports \<Rightarrow> string \<Rightarrow> upstream_check option" where
  "getUpstreamCheck reports modelId = map_of reports modelId"

text \<open>Stores the check and logs only a change of state.\<close>

definition recordUpstreamCheck ::
  "string \<Rightarrow> upstream_check \<Rightarrow> upstream_reports \<Rightarrow> upstream_reports \<times> upstream_log list" where
  "recordUpstreamCheck modelId check reports =
     (let previous = map_of reports modelId; reports' = AList.update modelId check reports in
      (reports',
       if map_option check_state previous = Some (check_state check) then []
       else (case check of
               UpMissing ns \<Rightarrow> [LogMissing modelId]
             | UpOk \<Rightarrow> (case previous of Some (UpMissing ns) \<Rightarrow> [LogResolved modelId] | _ \<Rightarrow> [])
             | UpUnknown \<Rightarrow> [])))"

section \<open>Facts about reading\<close>

lemma m_id_merge [simp]: "m_id (mergeModelConfig row ov) = mr_id row"
  by (simp add: mergeModelConfig_def Let_def)

lemma listModels_ids: "map m_id (listModels d) = sort (map mr_id (models d))"
proof -
  have "map m_id (listModels d) = map mr_id (sort_key mr_id (models d))"
    by (simp add: listModels_def o_def)
  also have "\<dots> = sort (map mr_id (models d))"
    by (intro properties_for_sort [symmetric]) simp_all
  finally show ?thesis .
qed

lemma listModels_distinct: "db_keys_ok d \<Longrightarrow> distinct (map m_id (listModels d))"
  by (simp add: listModels_ids db_keys_ok_def unique_key_def)

lemma listModels_mem:
  assumes "db_keys_ok d"
  shows "m \<in> set (listModels d) \<longleftrightarrow> getModel d (m_id m) = Some m"
proof
  assume "m \<in> set (listModels d)"
  then obtain row where row: "row \<in> set (models d)"
    and m: "m = mergeModelConfig row (fetchOverride d (mr_id row))"
    by (auto simp: listModels_def)
  have "row_of mr_id (mr_id row) (models d) = Some row"
    using assms row by (intro row_of_unique) (simp_all add: db_keys_ok_def)
  then show "getModel d (m_id m) = Some m" by (simp add: getModel_def m)
next
  assume "getModel d (m_id m) = Some m"
  then obtain row where "row_of mr_id (m_id m) (models d) = Some row"
    and m: "m = mergeModelConfig row (fetchOverride d (m_id m))"
    by (auto simp: getModel_def)
  from row_of_Some [OF this(1)] m show "m \<in> set (listModels d)"
    by (auto simp: listModels_def intro!: image_eqI [where x = row])
qed

lemma getModel_None: "getModel d k = None \<longleftrightarrow> \<not> model_exists d k"
  by (simp add: getModel_def model_exists_def list_ex_row_of)

section \<open>Facts about overriding\<close>

lemma put_override_frame [simp]:
  "models (put_override who now k f d) = models d"
  "replicas (put_override who now k f d) = replicas d"
  "requests (put_override who now k f d) = requests d"
  by (simp_all add: put_override_def)

lemma fetchOverride_put:
  "fetchOverride (put_override who now k f d) j =
     (if j = k then Some (case fetchOverride d k of None \<Rightarrow> f | Some old \<Rightarrow> merge_fields old f)
      else fetchOverride d j)"
proof -
  let ?new = "\<lparr>ov_model_id = k, ov_fields = f, ov_updated_by = who, ov_updated_at = now\<rparr>"
  show ?thesis
    using row_of_upsert_same [where key = ov_model_id and new = ?new]
    by (auto simp: fetchOverride_def put_override_def row_of_upsert_other split: option.split)
qed

lemma merge_fields_assoc: "merge_fields (merge_fields a b) c = merge_fields a (merge_fields b c)"
  by (simp add: merge_fields_def coalesce_def split: option.split)

lemma merge_fields_no_override [simp]:
  "merge_fields a no_override = a" "merge_fields no_override a = a"
  by (simp_all add: merge_fields_def no_override_def coalesce_def split: option.split)

section \<open>Facts about syncing\<close>

lemma upsert_model_frame [simp]:
  "overrides (upsert_model row d) = overrides d"
  "cost_configs (upsert_model row d) = cost_configs d"
  "replicas (upsert_model row d) = replicas d"
  "requests (upsert_model row d) = requests d"
  "audit_contents (upsert_model row d) = audit_contents d"
  "logging_config (upsert_model row d) = logging_config d"
  "affinities (upsert_model row d) = affinities d"
  "signals (upsert_model row d) = signals d"
  by (simp_all add: upsert_model_def)

lemma upsert_model_ids: "mr_id ` set (models (upsert_model row d)) = insert (mr_id row) (mr_id ` set (models d))"
  by (simp add: upsert_model_def keys_upsert)

lemma db_ok_upsert_model: "db_ok d \<Longrightarrow> db_ok (upsert_model row d)"
proof -
  assume ok: "db_ok d"
  have "model_exists d k \<Longrightarrow> model_exists (upsert_model row d) k" for k
    using upsert_model_ids [of row d] by (auto simp: model_exists_iff)
  moreover have "unique_key mr_id (models (upsert_model row d))"
    using ok by (simp add: upsert_model_def db_ok_def db_keys_ok_def unique_key_upsert)
  ultimately show ?thesis
    using ok by (simp add: db_ok_def db_keys_ok_def db_refs_ok_def db_checks_ok_def)
qed

definition upsert_models :: "model_row list \<Rightarrow> db \<Rightarrow> db" where
  "upsert_models rows d = fold upsert_model rows d"

lemma upsert_models_frame [simp]:
  "overrides (upsert_models rows d) = overrides d"
  "cost_configs (upsert_models rows d) = cost_configs d"
  "replicas (upsert_models rows d) = replicas d"
  "requests (upsert_models rows d) = requests d"
  by (induction rows arbitrary: d) (simp_all add: upsert_models_def)

lemma upsert_models_ids:
  "mr_id ` set (models (upsert_models rows d)) = mr_id ` set rows \<union> mr_id ` set (models d)"
  by (induction rows arbitrary: d) (auto simp: upsert_models_def upsert_model_ids)

lemma db_ok_upsert_models: "db_ok d \<Longrightarrow> db_ok (upsert_models rows d)"
  by (induction rows arbitrary: d) (simp_all add: upsert_models_def db_ok_upsert_model)

lemma upsert_models_row:
  "row_of mr_id k (models (upsert_models rows d)) =
     (case row_of mr_id k (rev rows) of None \<Rightarrow> row_of mr_id k (models d) | Some row \<Rightarrow> Some row)"
proof (induction rows arbitrary: d)
  case Nil
  then show ?case by (simp add: upsert_models_def row_of_def)
next
  case (Cons row rows)
  have "row_of mr_id k (models (upsert_model row d)) =
          (if mr_id row = k then Some row else row_of mr_id k (models d))"
    using row_of_upsert_same [where key = mr_id and new = row and f = "\<lambda>_. row" and t = "models d"]
    by (auto simp: upsert_model_def row_of_upsert_other split: option.splits)
  with Cons.IH [of "upsert_model row d"] show ?case
    by (auto simp: upsert_models_def row_of_append row_of_single split: option.split)
qed

lemma syncModelsFromConfig_eq:
  "snd (syncModelsFromConfig ns ms d) =
     delete_models (\<lambda>r. mr_id r \<notin> gm_id ` set ms) (upsert_models (map (gitops_row ns) ms) d)"
  by (simp add: syncModelsFromConfig_def upsert_models_def Let_def fold_map o_def)

lemma gitops_row_id [simp]: "mr_id (gitops_row ns m) = gm_id m"
  by (simp add: gitops_row_def)

lemma sync_db_ok: "db_ok d \<Longrightarrow> db_ok (snd (syncModelsFromConfig ns ms d))"
  by (simp add: syncModelsFromConfig_eq db_ok_delete_models db_ok_upsert_models)

lemma models_delete_models [simp]: "models (delete_models p d) = delete_where p (models d)"
  by (simp add: delete_models_def Let_def)

lemma sync_ids: "mr_id ` set (models (snd (syncModelsFromConfig ns ms d))) = gm_id ` set ms"
proof -
  have "mr_id ` set (models (upsert_models (map (gitops_row ns) ms) d)) =
        gm_id ` set ms \<union> mr_id ` set (models d)"
    by (simp add: upsert_models_ids image_image)
  moreover have img: "mr_id ` {r \<in> A. \<not> mr_id r \<notin> B} = mr_id ` A \<inter> B"
    for A :: "model_row set" and B by auto
  ultimately show ?thesis
    by (simp only: syncModelsFromConfig_eq models_delete_models set_delete_where img) auto
qed

lemma sync_row:
  assumes "db_ok d" "distinct (map gm_id ms)" "m \<in> set ms"
  shows "row_of mr_id (gm_id m) (models (snd (syncModelsFromConfig ns ms d))) = Some (gitops_row ns m)"
proof -
  let ?rows = "map (gitops_row ns) ms"
  have "unique_key mr_id (rev ?rows)"
    using assms(2) by (simp add: unique_key_def o_def rev_map [symmetric])
  then have "row_of mr_id (gm_id m) (rev ?rows) = Some (gitops_row ns m)"
    using row_of_unique [of mr_id "rev ?rows" "gitops_row ns m"] assms(3) by simp
  then have "row_of mr_id (gm_id m) (models (upsert_models ?rows d)) = Some (gitops_row ns m)"
    by (simp add: upsert_models_row)
  moreover have "unique_key mr_id (models (upsert_models ?rows d))"
    using db_ok_upsert_models [OF assms(1)] by (simp add: db_ok_def db_keys_ok_def)
  ultimately show ?thesis
    using assms(3) by (simp add: syncModelsFromConfig_eq row_of_delete_where)
qed

section \<open>Facts about validation\<close>

lemma checkModels_None: "checkModels all_models ms = None \<longleftrightarrow> (\<forall>m \<in> set ms. checkModel all_models m = None)"
  by (induction ms) (auto split: option.split)

lemma checkModel_None:
  assumes "checkModel ms m = None"
  shows "gm_id m \<noteq> ''''" "nullish (gm_capabilities m) [] \<noteq> []"
    "gm_backendRef m = Some ref \<Longrightarrow>
       \<exists>t \<in> set ms. gm_id t = ref \<and> ref \<noteq> gm_id m \<and> gm_backendRef t = None"
proof -
  show "gm_id m \<noteq> ''''" "nullish (gm_capabilities m) [] \<noteq> []"
    using assms(1) by (auto simp: checkModel_def split: if_splits option.splits)
  assume ref: "gm_backendRef m = Some ref"
  with assms(1) have "ref \<in> gm_id ` set ms" "ref \<noteq> gm_id m"
    by (auto simp: checkModel_def split: if_splits)
  with find_class [OF this(1)] ref assms(1)
  show "\<exists>t \<in> set ms. gm_id t = ref \<and> ref \<noteq> gm_id m \<and> gm_backendRef t = None"
    by (force simp: checkModel_def split: if_splits)
qed

text \<open>The state of the override layer, seen as a store of effective overrides per model.\<close>

lemma overrides_sync:
  "overrides (snd (syncModelsFromConfig ns ms d)) =
     delete_where (\<lambda>r. ov_model_id r \<notin> gm_id ` set ms) (overrides d)"
proof -
  let ?kept = "delete_where (\<lambda>r. mr_id r \<notin> gm_id ` set ms) (models (upsert_models (map (gitops_row ns) ms) d))"
  have "mr_id ` set ?kept = gm_id ` set ms"
    using sync_ids [of ns ms d] by (simp add: syncModelsFromConfig_eq)
  then have "list_ex (\<lambda>m. mr_id m = k) ?kept \<longleftrightarrow> k \<in> gm_id ` set ms" for k
    by (metis (mono_tags, lifting) image_iff list_ex_iff)
  then show ?thesis
    by (simp add: syncModelsFromConfig_eq delete_models_def Let_def)
qed

lemma backend_of_sync:
  assumes "db_ok d" "distinct (map gm_id ms)" "m \<in> set ms"
  shows "backend_of (snd (syncModelsFromConfig ns ms d)) (gm_id m) = nullish (gm_backendRef m) (gm_id m)"
  using sync_row [OF assms] by (simp add: backend_of_def gitops_row_def)

text \<open>The upstream check reports are a keyed store; writing the same state twice logs nothing.\<close>

interpretation upstream_store: keyed_store "\<lambda>_. True" getUpstreamCheck
  "\<lambda>k c reports. fst (recordUpstreamCheck k c reports)"
  by unfold_locales (simp_all add: getUpstreamCheck_def recordUpstreamCheck_def Let_def update_conv)

section \<open>Properties\<close>

text \<open>Inputs at which the properties below are exercised.\<close>

definition ex_gitops :: "string \<Rightarrow> string option \<Rightarrow> gitops_model" where
  "ex_gitops k ref =
     \<lparr>gm_id = k, gm_name = None, gm_classLabel = None, gm_modelClass = Fast, gm_classText = ''fast'',
      gm_capabilities = Some [Chat], gm_minReplicas = None, gm_maxReplicas = Some 4, gm_systemPrompt = None,
      gm_costValue = None, gm_costBasis = None, gm_endpointUrl = None, gm_upstreamModel = None,
      gm_backendRef = ref, gm_port = None, gm_systemPromptMode = None, gm_firstTokenTimeoutMs = None\<rparr>"

definition ex_config :: "gitops_model list" where
  "ex_config = [ex_gitops ''gemma'' (Some ''''), ex_gitops ''gemma-tools'' (Some ''gemma'')]"

definition ex_registry :: db where
  "ex_registry = put_override ''admin'' 5 ''gemma'' (no_override\<lparr>of_maxReplicas := Some 9\<rparr>)
     (upsert_models (map (gitops_row None) [ex_gitops ''gemma'' None, ex_gitops ''old'' None]) empty_db)"

text \<open>
  A dashboard edit changes what is read for that model and nothing else: the Helm row stays as it
  was, the model read back is the Helm row with the edit merged over the earlier edits, and every other
  model reads as before.\<close>

theorem setModelOverride_effect:
  assumes "setModelOverride k f who now d = Inr (res, d')"
  shows "models d' = models d \<and>
    (\<exists>row. row_of mr_id k (models d) = Some row \<and>
       res = Some (mergeModelConfig row (Some (merge_fields (nullish (fetchOverride d k) no_override) f))) \<and>
       getModel d' k = res) \<and>
    (\<forall>j. j \<noteq> k \<longrightarrow> getModel d' j = getModel d j)"
proof -
  from assms have ex: "model_exists d k" and d': "d' = put_override who now k f d" and res: "res = getModel d' k"
    by (auto simp: setModelOverride_def Let_def split: if_splits)
  from ex obtain row where row: "row_of mr_id k (models d) = Some row"
    by (auto simp: model_exists_def list_ex_row_of)
  show ?thesis
    by (auto simp: res d' getModel_def fetchOverride_put row split: option.split)
qed

lemma setModelOverride_effect_witness:
  "let f = no_override\<lparr>of_costValue := Some 2\<rparr>; d' = put_override ''admin'' 7 ''gemma'' f ex_registry in
     setModelOverride ''gemma'' f ''admin'' 7 ex_registry = Inr (getModel d' ''gemma'', d') \<and>
     models d' = models ex_registry \<and> getModel d' ''old'' = getModel ex_registry ''old'' \<and>
     map_option m_costValue (getModel d' ''gemma'') = Some 2 \<and>
     map_option m_maxReplicas (getModel d' ''gemma'') = Some 9"
proof -
  let ?f = "no_override\<lparr>of_costValue := Some 2\<rparr>"
  let ?d = "put_override ''admin'' 7 ''gemma'' ?f ex_registry"
  have "model_exists ex_registry ''gemma''" by code_simp
  then have r: "setModelOverride ''gemma'' ?f ''admin'' 7 ex_registry = Inr (getModel ?d ''gemma'', ?d)"
    by (simp add: setModelOverride_def Let_def)
  have "map_option m_costValue (getModel ?d ''gemma'') = Some 2"
    "map_option m_maxReplicas (getModel ?d ''gemma'') = Some 9"
    by code_simp+
  with setModelOverride_effect [OF r] show ?thesis by (simp add: Let_def r)
qed

text \<open>
  Overriding a model that is not registered never answers "no such model": the insert violates the
  foreign key and raises, so the 404 branch of the route that calls it (taken when the result is null)
  is unreachable. For a registered model the result is always a model.\<close>

theorem setModelOverride_never_null:
  "(\<nexists>d'. setModelOverride k f who now d = Inr (None, d')) \<and>
   (setModelOverride k f who now d = Inl ForeignKeyViolation \<longleftrightarrow> getModel d k = None)"
proof -
  have "getModel (put_override who now k f d) k = None \<longleftrightarrow> getModel d k = None"
    by (simp add: getModel_def)
  then show ?thesis
    by (auto simp: setModelOverride_def Let_def getModel_None)
qed

text \<open>
  After a sync the registry is exactly the config: every entry has the row the config describes,
  nothing else is left, and the removed ids are exactly the ones that were registered and are no longer
  configured. Dashboard overrides of models that stay survive, request history is untouched, and every
  schema constraint holds.\<close>

theorem syncModelsFromConfig_exact:
  assumes "db_ok d" "distinct (map gm_id ms)" "syncModelsFromConfig ns ms d = (res, d')"
  shows "mr_id ` set (models d') = gm_id ` set ms \<and>
    (\<forall>m \<in> set ms. row_of mr_id (gm_id m) (models d') = Some (gitops_row ns m)) \<and>
    set (sr_removed res) = mr_id ` set (models d) - gm_id ` set ms \<and>
    (\<forall>k \<in> gm_id ` set ms. fetchOverride d' k = fetchOverride d k) \<and>
    requests d' = requests d \<and> db_ok d'"
proof -
  have d': "d' = snd (syncModelsFromConfig ns ms d)" using assms(3) by simp
  have "sr_removed res = map mr_id (filter (\<lambda>r. mr_id r \<notin> gm_id ` set ms)
      (models (upsert_models (map (gitops_row ns) ms) d)))"
    using assms(3) by (auto simp: syncModelsFromConfig_def Let_def upsert_models_def fold_map o_def)
  then have "set (sr_removed res) =
      mr_id ` set (models (upsert_models (map (gitops_row ns) ms) d)) - gm_id ` set ms"
    by (simp only: set_map set_filter) auto
  then have "set (sr_removed res) = mr_id ` set (models d) - gm_id ` set ms"
    by (auto simp: upsert_models_ids image_image)
  moreover have "fetchOverride d' k = fetchOverride d k" if "k \<in> gm_id ` set ms" for k
    using assms(1) that
    by (auto simp: fetchOverride_def d' overrides_sync db_ok_def db_keys_ok_def row_of_delete_where
        split: option.split dest: row_of_Some)
  moreover have "requests d' = requests d"
    by (simp add: d' syncModelsFromConfig_eq delete_models_def Let_def)
  ultimately show ?thesis
    using sync_ids sync_row [OF assms(1,2)] sync_db_ok [OF assms(1)] by (auto simp: d')
qed

lemma db_ok_ex_registry: "db_ok ex_registry"
proof -
  have "unique_key mr_id (models ex_registry)" "unique_key ov_model_id (overrides ex_registry)"
    "list_all (\<lambda>r. model_exists ex_registry (ov_model_id r)) (overrides ex_registry)"
    "cost_configs ex_registry = []" "replicas ex_registry = []" "requests ex_registry = []"
    "audit_contents ex_registry = []" "affinities ex_registry = []" "signals ex_registry = []"
    "unique_key logging_key (logging_config ex_registry)"
    by code_simp+
  then show ?thesis
    by (simp add: db_ok_def db_keys_ok_def db_refs_ok_def db_checks_ok_def unique_key_def list_all_iff)
qed

lemma syncModelsFromConfig_exact_witness:
  "let (res, d') = syncModelsFromConfig None ex_config ex_registry in
     set (sr_removed res) = {''old''} \<and> fetchOverride d' ''gemma'' = fetchOverride ex_registry ''gemma'' \<and>
     fetchOverride d' ''gemma'' \<noteq> None"
proof -
  obtain res d' where r: "syncModelsFromConfig None ex_config ex_registry = (res, d')" by fastforce
  have "distinct (map gm_id ex_config)" by code_simp
  note e = syncModelsFromConfig_exact [OF db_ok_ex_registry this r]
  have "mr_id ` set (models ex_registry) - gm_id ` set ex_config = {''old''}"
    "''gemma'' \<in> gm_id ` set ex_config" "fetchOverride ex_registry ''gemma'' \<noteq> None"
    by code_simp+
  moreover from e have "set (sr_removed res) = mr_id ` set (models ex_registry) - gm_id ` set ex_config"
    "\<forall>k \<in> gm_id ` set ex_config. fetchOverride d' k = fetchOverride ex_registry k"
    by blast+
  ultimately show ?thesis by (simp only: r Let_def prod.case) simp
qed

text \<open>
  An accepted config never leaves an alias dangling or chained: after it is synced, every registered
  model resolves to a registered backend that is its own backend, so resolution is one step, and the
  replicas shown for an alias are exactly those of the model that owns the workload.\<close>

theorem config_backends_resolve:
  assumes "readModelsConfig (Some file) = Inr (Some ms)" "distinct (map gm_id ms)" "db_ok d"
    and "d' = snd (syncModelsFromConfig ns ms d)" "model_exists d' k"
  shows "model_exists d' (backend_of d' k) \<and> backend_of d' (backend_of d' k) = backend_of d' k \<and>
         listReplicasForModel d' k = listReplicasForModel d' (backend_of d' k)"
proof -
  have checked: "\<forall>m \<in> set ms. checkModel ms m = None"
    using assms(1) by (auto simp: readModelsConfig_def Let_def checkModels_None split: option.splits)
  have ids: "model_exists d' j \<longleftrightarrow> j \<in> gm_id ` set ms" for j
    by (simp add: assms(4) model_exists_iff sync_ids)
  note bk = backend_of_sync [OF assms(3,2), of _ ns, folded assms(4)]
  from assms(5) obtain m where m: "m \<in> set ms" "k = gm_id m" using ids by auto
  have "model_exists d' (backend_of d' k) \<and> backend_of d' (backend_of d' k) = backend_of d' k"
  proof (cases "gm_backendRef m")
    case None
    with m bk [OF m(1)] show ?thesis by (simp add: ids)
  next
    case (Some ref)
    with checkModel_None(3) checked m(1) obtain t where
      t: "t \<in> set ms" "gm_id t = ref" "gm_backendRef t = None" by blast
    from t have "ref \<in> gm_id ` set ms" by auto
    with Some m(2) t bk [OF m(1)] bk [OF t(1)] show ?thesis by (simp add: ids)
  qed
  then show ?thesis by (simp add: listReplicasForModel_def)
qed

lemma config_backends_resolve_witness:
  "let d' = snd (syncModelsFromConfig None (map normaliseBackendRef ex_config) ex_registry) in
     backend_of d' ''gemma-tools'' = ''gemma'' \<and> model_exists d' (backend_of d' ''gemma-tools'') \<and>
     backend_of d' (backend_of d' ''gemma-tools'') = backend_of d' ''gemma-tools''"
proof -
  let ?ms = "map normaliseBackendRef ex_config"
  let ?d = "snd (syncModelsFromConfig None ?ms ex_registry)"
  have "readModelsConfig (Some ex_config) = Inr (Some ?ms)" by (simp add: readModelsConfig_def Let_def) code_simp
  moreover have "distinct (map gm_id ?ms)" "model_exists ?d ''gemma-tools''" "backend_of ?d ''gemma-tools'' = ''gemma''"
    by code_simp+
  ultimately show ?thesis
    using config_backends_resolve [OF _ _ db_ok_ex_registry refl, of ex_config "?ms" None "''gemma-tools''"]
    by (auto simp: Let_def)
qed

text \<open>
  The dashboard's listing and the lookup agree: the listing has one entry per registered model, in
  order of id, and each is the model the lookup returns for its id.\<close>

theorem listModels_agrees:
  assumes "db_keys_ok d"
  shows "sorted (map m_id (listModels d)) \<and> distinct (map m_id (listModels d)) \<and>
         m_id ` set (listModels d) = mr_id ` set (models d) \<and>
         (\<forall>m. m \<in> set (listModels d) \<longleftrightarrow> getModel d (m_id m) = Some m)"
proof -
  have "m_id ` set (listModels d) = mr_id ` set (models d)"
    using arg_cong [OF listModels_ids [of d], where f = set] by simp
  moreover have "sorted (map m_id (listModels d))"
    unfolding listModels_ids by simp
  ultimately show ?thesis
    using listModels_distinct [OF assms] listModels_mem [OF assms] by blast
qed

lemma listModels_agrees_witness:
  "map m_id (listModels ex_registry) = [''gemma'', ''old''] \<and> sorted (map m_id (listModels ex_registry))"
proof -
  have "db_keys_ok ex_registry" using db_ok_ex_registry by (simp add: db_ok_def)
  from listModels_agrees [OF this] have "sorted (map m_id (listModels ex_registry))" by (rule conjunct1)
  moreover have "map m_id (listModels ex_registry) = [''gemma'', ''old'']" by code_simp
  ultimately show ?thesis by blast
qed

text \<open>
  "cannot check" is never reported as "wrong": a model is reported missing only when its backend
  did list names and the configured one is not among them, and a recorded check is logged exactly when
  the state changes to missing, or from missing to ok.\<close>

theorem upstream_check_reporting:
  "(checkUpstreamName model available = UpMissing ns \<longleftrightarrow>
      available = Some ns \<and> m_upstreamModel model \<notin> set ns) \<and>
   (checkUpstreamName model available = UpUnknown \<longleftrightarrow> available = None) \<and>
   (snd (recordUpstreamCheck k c reports) \<noteq> [] \<longleftrightarrow>
      map_option check_state (getUpstreamCheck reports k) \<noteq> Some (check_state c) \<and>
      (check_state c = 2 \<or> check_state c = 0 \<and> map_option check_state (getUpstreamCheck reports k) = Some 2)) \<and>
   getUpstreamCheck (fst (recordUpstreamCheck k c reports)) j = (if j = k then Some c else getUpstreamCheck reports j)"
proof -
  have "getUpstreamCheck (fst (recordUpstreamCheck k c reports)) j = (if j = k then Some c else getUpstreamCheck reports j)"
    by (rule upstream_store.lookup_store) simp
  moreover have "snd (recordUpstreamCheck k c reports) \<noteq> [] \<longleftrightarrow>
      map_option check_state (getUpstreamCheck reports k) \<noteq> Some (check_state c) \<and>
      (check_state c = 2 \<or> check_state c = 0 \<and> map_option check_state (getUpstreamCheck reports k) = Some 2)"
    by (cases "getUpstreamCheck reports k"; cases c)
      (auto simp: recordUpstreamCheck_def getUpstreamCheck_def Let_def split: upstream_check.splits)
  ultimately show ?thesis
    by (auto simp: checkUpstreamName_def split: option.splits)
qed

end
