(* ===== verification/Keda.thy ===== *)
theory Keda
  imports Registry
begin

text \<open>
  Preemptive scaling: \<open>server/src/adapters/keda.ts\<close> (the scale-up clients and the shared signal) and
  \<open>server/src/metrics/index.ts\<close> (the metric KEDA polls and the Prometheus listing).
\<close>

section \<open>Scale-up clients\<close>

text \<open>
  What a placement relies on when it asks for a warm spare: the client may write scale signals and
  nothing else, it keeps one signal per model, and it never makes a signal older.
\<close>

definition signal_time :: "db \<Rightarrow> string \<Rightarrow> time option" where
  "signal_time d k = map_option sg_requested_at (row_of sg_model_id k (signals d))"

definition not_older :: "time option \<Rightarrow> time option \<Rightarrow> bool" where
  "not_older a b = (case a of None \<Rightarrow> True | Some x \<Rightarrow> (case b of None \<Rightarrow> False | Some y \<Rightarrow> x \<le> y))"

lemma not_older_refl [simp]: "not_older a a"
  by (simp add: not_older_def split: option.split)

lemma not_older_trans: "not_older a b \<Longrightarrow> not_older b c \<Longrightarrow> not_older a c"
  by (auto simp: not_older_def split: option.splits)

locale scale_client =
  fixes request :: "time \<Rightarrow> string \<Rightarrow> db \<Rightarrow> db"
  assumes signals_only: "\<exists>s. request now m d = d\<lparr>signals := s\<rparr>"
    and one_signal: "unique_key sg_model_id (signals d) \<Longrightarrow> unique_key sg_model_id (signals (request now m d))"
    and no_older: "not_older (signal_time d k) (signal_time (request now m d) k)"
begin

lemma frame:
  "models (request now m d) = models d" "overrides (request now m d) = overrides d"
  "cost_configs (request now m d) = cost_configs d" "replicas (request now m d) = replicas d"
  "requests (request now m d) = requests d" "audit_contents (request now m d) = audit_contents d"
  "logging_config (request now m d) = logging_config d" "affinities (request now m d) = affinities d"
  using signals_only [of now m d] by auto

lemma keeps_db_ok: "db_ok d \<Longrightarrow> db_ok (request now m d)"
  by (simp add: db_ok_def db_keys_ok_def db_refs_ok_def db_checks_ok_def model_exists_def frame one_signal)

lemma request_many_not_older:
  "not_older (signal_time d k) (signal_time (fold (\<lambda>(now, m). request now m) calls d) k)"
proof (induction calls arbitrary: d)
  case Nil
  then show ?case by simp
next
  case (Cons c calls)
  obtain now m where c: "c = (now, m)" by (cases c)
  from not_older_trans [OF no_older Cons.IH] show ?case by (simp add: c)
qed

end

datatype keda_client = NoopKedaClient | MetricsKedaClient int

text \<open>The debounced upsert of the metrics client: a signal younger than the window is left as it is.\<close>

definition signalScaleUp :: "int \<Rightarrow> time \<Rightarrow> string \<Rightarrow> db \<Rightarrow> db" where
  "signalScaleUp debounceMs now modelId d =
     d\<lparr>signals := upsert sg_model_id \<lparr>sg_model_id = modelId, sg_requested_at = now\<rparr>
         (\<lambda>s. if sg_requested_at s < now - debounceMs then s\<lparr>sg_requested_at := now\<rparr> else s) (signals d)\<rparr>"

fun requestScaleUp :: "keda_client \<Rightarrow> time \<Rightarrow> string \<Rightarrow> db \<Rightarrow> db" where
  "requestScaleUp NoopKedaClient now modelId d = d"
| "requestScaleUp (MetricsKedaClient debounceMs) now modelId d = signalScaleUp debounceMs now modelId d"

definition fakeRequestScaleUp :: "string \<Rightarrow> string list \<Rightarrow> string list" where
  "fakeRequestScaleUp modelId calls = calls @ [modelId]"

definition wantsScaleUp :: "time \<Rightarrow> string \<Rightarrow> int \<Rightarrow> db \<Rightarrow> bool" where
  "wantsScaleUp now modelId withinMs d =
     (case row_of sg_model_id modelId (signals d) of
        None \<Rightarrow> False
      | Some s \<Rightarrow> now - withinMs < sg_requested_at s)"

definition createKedaClient :: "string option \<Rightarrow> keda_client" where
  "createKedaClient KEDA_ENABLED =
     (if KEDA_ENABLED = Some ''false'' then NoopKedaClient else MetricsKedaClient 1000)"

lemma signal_time_signalScaleUp:
  "signal_time (signalScaleUp b now m d) k =
     (if k = m then Some (case signal_time d m of None \<Rightarrow> now | Some t \<Rightarrow> if t < now - b then now else t)
      else signal_time d k)"
  using row_of_upsert_same [of sg_model_id "\<lparr>sg_model_id = m, sg_requested_at = now\<rparr>"
      "\<lambda>s. if sg_requested_at s < now - b then s\<lparr>sg_requested_at := now\<rparr> else s" "signals d"]
    row_of_upsert_other [of sg_model_id "\<lparr>sg_model_id = m, sg_requested_at = now\<rparr>"
      "\<lambda>s. if sg_requested_at s < now - b then s\<lparr>sg_requested_at := now\<rparr> else s" k "signals d"]
  by (auto simp: signal_time_def signalScaleUp_def split: option.splits)

text \<open>The in-process client is a scale-up client, and so is the metrics client of any debounce window
  that is not negative.\<close>

interpretation noop_client: scale_client "requestScaleUp NoopKedaClient"
proof (standard, goal_cases)
  case (1 now m d)
  show ?case by (auto intro: exI [of _ "signals d"])
qed simp_all

definition metricsRequest :: "nat \<Rightarrow> time \<Rightarrow> string \<Rightarrow> db \<Rightarrow> db" where
  "metricsRequest debounceMs = requestScaleUp (MetricsKedaClient (int debounceMs))"

interpretation metrics_client: scale_client "metricsRequest debounceMs" for debounceMs
proof (standard, goal_cases)
  case (1 now m d)
  show ?case by (auto simp: metricsRequest_def signalScaleUp_def)
next
  case (2 d now m)
  then show ?case by (auto simp: metricsRequest_def signalScaleUp_def intro: unique_key_upsert)
next
  case (3 d k now m)
  show ?case
    by (auto simp: metricsRequest_def signal_time_signalScaleUp not_older_def split: option.splits)
qed

lemma requestScaleUp_frame [frame_simps, simp]:
  "models (requestScaleUp c now m d) = models d" "overrides (requestScaleUp c now m d) = overrides d"
  "cost_configs (requestScaleUp c now m d) = cost_configs d"
  "replicas (requestScaleUp c now m d) = replicas d" "requests (requestScaleUp c now m d) = requests d"
  "audit_contents (requestScaleUp c now m d) = audit_contents d"
  "logging_config (requestScaleUp c now m d) = logging_config d"
  "affinities (requestScaleUp c now m d) = affinities d"
  by (cases c; simp add: signalScaleUp_def)+

lemma db_ok_requestScaleUp: "db_ok d \<Longrightarrow> db_ok (requestScaleUp c now m d)"
  by (cases c)
    (simp_all add: signalScaleUp_def db_ok_def db_keys_ok_def db_refs_ok_def db_checks_ok_def
      model_exists_def unique_key_upsert)

lemma signals_requestScaleUp_noop: "signals (requestScaleUp NoopKedaClient now m d) = signals d"
  by simp

section \<open>The metric KEDA polls\<close>

record keda_metric =
  pending_requests :: int
  km_in_flight :: int
  km_queued :: int

text \<open>Every registry entry a backend serves: itself, plus any alias pointing at it.\<close>

definition served_by :: "db \<Rightarrow> string \<Rightarrow> string list" where
  "served_by d backend =
     map mr_id (filter (\<lambda>m. mr_id m = backend \<or> mr_backend_model_id m = Some backend) (models d))"

definition model_in_flight :: "db \<Rightarrow> string \<Rightarrow> int" where
  "model_in_flight d backend =
     sum_list (map rp_in_flight (filter (\<lambda>r. rp_model_id r = backend) (replicas d)))"

definition routed_to :: "string list \<Rightarrow> request_row \<Rightarrow> bool" where
  "routed_to ids r = (case rq_routed_model r of None \<Rightarrow> False | Some m \<Rightarrow> m \<in> set ids)"

definition model_queued :: "db \<Rightarrow> string \<Rightarrow> int" where
  "model_queued d backend =
     int (length (filter (\<lambda>r. rq_status r = Queued \<and> routed_to (served_by d backend) r) (requests d)))"

definition getKedaMetricForModel :: "db \<Rightarrow> string \<Rightarrow> bool \<Rightarrow> keda_metric" where
  "getKedaMetricForModel d modelId recentlyRequestedScaleUp =
     (let inFlight = model_in_flight d modelId;
          queued = model_queued d modelId;
          demand = inFlight + queued;
          spare = (if demand > 0 \<or> recentlyRequestedScaleUp then 1 else 0) in
      \<lparr>pending_requests = demand + spare, km_in_flight = inFlight, km_queued = queued\<rparr>)"

text \<open>\<open>GET /metrics/keda/:modelId\<close>.\<close>

definition kedaMetricRoute :: "keda_client \<Rightarrow> time \<Rightarrow> string \<Rightarrow> db \<Rightarrow> keda_metric" where
  "kedaMetricRoute keda now modelId d =
     (let preemptive = (case keda of NoopKedaClient \<Rightarrow> False
                        | MetricsKedaClient _ \<Rightarrow> wantsScaleUp now modelId 30000 d) in
      getKedaMetricForModel d modelId preemptive)"

text \<open>
  What the horizontal autoscaler computes from the metric and the target of the ScaledObject
  (\<open>ceil(metricValue / targetValue)\<close>, as the comment over the metric states it).
\<close>

definition desired_replicas :: "int \<Rightarrow> nat \<Rightarrow> int" where
  "desired_replicas metricValue targetValue = \<lceil>rat_of_int metricValue / of_nat targetValue\<rceil>"

section \<open>The Prometheus listing\<close>

text \<open>
  One line per group of a \<open>GROUP BY\<close>. SQL leaves the order of the groups open: the model lists them in
  the order of their first row.
\<close>

fun replica_status_text :: "replica_status \<Rightarrow> string" where
  "replica_status_text Ready = ''ready''"
| "replica_status_text Loading = ''loading''"
| "replica_status_text Busy = ''busy''"
| "replica_status_text Idle = ''idle''"
| "replica_status_text ErrorStatus = ''error''"

definition group_count :: "('r \<Rightarrow> 'k) \<Rightarrow> 'r list \<Rightarrow> ('k \<times> int) list" where
  "group_count key t = map (\<lambda>k. (k, int (length (filter (\<lambda>r. key r = k) t)))) (remdups (map key t))"

definition replica_groups :: "db \<Rightarrow> ((string \<times> replica_status) \<times> int) list" where
  "replica_groups d = group_count (\<lambda>r. (rp_model_id r, rp_status r)) (replicas d)"

definition in_flight_groups :: "db \<Rightarrow> (string \<times> int) list" where
  "in_flight_groups d = map (\<lambda>m. (m, model_in_flight d m)) (remdups (map rp_model_id (replicas d)))"

definition queue_depth :: "db \<Rightarrow> int" where
  "queue_depth d = int (length (filter (\<lambda>r. rq_status r = Queued) (requests d)))"

definition recent_status_groups :: "time \<Rightarrow> db \<Rightarrow> (request_status \<times> int) list" where
  "recent_status_groups now d =
     group_count rq_status (filter (\<lambda>r. now - 3600000 < rq_arrived_at r) (requests d))"

definition metric_head :: "string \<Rightarrow> string \<Rightarrow> string \<Rightarrow> string list" where
  "metric_head name help kind =
     [''# HELP '' @ name @ '' '' @ help, ''# TYPE '' @ name @ '' '' @ kind]"

definition renderPrometheusMetrics :: "time \<Rightarrow> db \<Rightarrow> string" where
  "renderPrometheusMetrics now d =
     join [CHR 0x0A]
       (metric_head ''controldeck_replicas_total'' ''Replica count per model and status'' ''gauge'' @
        map (\<lambda>((m, s), n). ''controldeck_replicas_total{model_id='' @ [CHR 0x22] @ m @ [CHR 0x22] @
               '',status='' @ [CHR 0x22] @ replica_status_text s @ [CHR 0x22] @ ''} '' @ show_int n) (replica_groups d) @
        metric_head ''controldeck_in_flight_requests'' ''In-flight requests per model'' ''gauge'' @
        map (\<lambda>(m, n). ''controldeck_in_flight_requests{model_id='' @ [CHR 0x22] @ m @ [CHR 0x22] @ ''} '' @ show_int n)
          (in_flight_groups d) @
        metric_head ''controldeck_queue_depth'' ''Requests currently queued (unprocessed)'' ''gauge'' @
        [''controldeck_queue_depth '' @ show_int (queue_depth d)] @
        metric_head ''controldeck_requests_last_hour_total'' ''Requests in the last hour by terminal status'' ''counter'' @
        map (\<lambda>(s, n). ''controldeck_requests_last_hour_total{status='' @ [CHR 0x22] @ status_text s @ [CHR 0x22] @
               ''} '' @ show_int n) (recent_status_groups now d)) @ [CHR 0x0A]"


section \<open>Facts\<close>

lemma model_in_flight_full:
  assumes "\<forall>r \<in> set (replicas d). rp_model_id r = b \<longrightarrow> int t \<le> rp_in_flight r"
  shows "int (length (filter (\<lambda>r. rp_model_id r = b) (replicas d))) * int t \<le> model_in_flight d b"
proof -
  have "(\<forall>r \<in> set rs. rp_model_id r = b \<longrightarrow> int t \<le> rp_in_flight r) \<Longrightarrow>
        int (length (filter (\<lambda>r. rp_model_id r = b) rs)) * int t \<le>
        sum_list (map rp_in_flight (filter (\<lambda>r. rp_model_id r = b) rs))" for rs
    by (induction rs) (auto simp: algebra_simps)
  with assms show ?thesis by (simp add: model_in_flight_def)
qed

lemma model_queued_nonneg [simp]: "0 \<le> model_queued d b"
  by (simp add: model_queued_def)

lemma desired_replicas_gt: "1 \<le> t \<Longrightarrow> n * int t < v \<Longrightarrow> n < desired_replicas v t"
  unfolding desired_replicas_def less_ceiling_iff
  by (simp add: pos_less_divide_eq) (metis of_int_less_iff of_int_mult of_int_of_nat_eq)

lemma sum_list_length_filter_swap:
  "sum_list (map (\<lambda>k. int (length (filter (\<lambda>r. p k r) rs))) ks) =
   sum_list (map (\<lambda>r. int (length (filter (\<lambda>k. p k r) ks))) rs)"
proof (induction rs)
  case Nil
  then show ?case by (induction ks) auto
next
  case (Cons r rs)
  have "sum_list (map (\<lambda>k. int (length (filter (p k) (r # rs)))) ks) =
        int (length (filter (\<lambda>k. p k r) ks)) + sum_list (map (\<lambda>k. int (length (filter (p k) rs))) ks)"
    by (induction ks) auto
  with Cons show ?case by simp
qed

lemma sum_list_indicator: "sum_list (map (\<lambda>r. if q r then 1 else 0) rs) = int (length (filter q rs))"
  by (induction rs) auto

lemma length_filter_unique:
  assumes "distinct ks" "k \<in> set ks" "\<And>j. j \<in> set ks \<Longrightarrow> p j \<longleftrightarrow> j = k"
  shows "length (filter p ks) = 1"
proof -
  have "set (filter p ks) = {k}" using assms(2,3) by auto
  then have "card (set (filter p ks)) = 1" by simp
  with assms(1) show ?thesis by (metis distinct_card distinct_filter)
qed

text \<open>Every alias resolves, in one step, to a registered entry that is its own backend.\<close>

definition resolved :: "db \<Rightarrow> bool" where
  "resolved d \<longleftrightarrow>
     list_all (\<lambda>m. model_exists d (backend_of d (mr_id m)) \<and>
                   backend_of d (backend_of d (mr_id m)) = backend_of d (mr_id m)) (models d)"

definition owners :: "db \<Rightarrow> string list" where
  "owners d = filter (\<lambda>k. backend_of d k = k) (map mr_id (models d))"

lemma served_by_owner:
  assumes "unique_key mr_id (models d)" "backend_of d b = b"
  shows "k \<in> set (served_by d b) \<longleftrightarrow> model_exists d k \<and> backend_of d k = b"
proof -
  have row: "row_of mr_id (mr_id m) (models d) = Some m" if "m \<in> set (models d)" for m
    using row_of_unique [OF assms(1) that] .
  show ?thesis
  proof
    assume "k \<in> set (served_by d b)"
    then obtain m where m: "m \<in> set (models d)" "mr_id m = k" "mr_id m = b \<or> mr_backend_model_id m = Some b"
      by (auto simp: served_by_def)
    with row [OF m(1)] assms(2) show "model_exists d k \<and> backend_of d k = b"
      by (auto simp: model_exists_iff backend_of_def)
  next
    assume "model_exists d k \<and> backend_of d k = b"
    then obtain m where m: "m \<in> set (models d)" "mr_id m = k" "backend_of d k = b"
      by (auto simp: model_exists_iff)
    with row [OF m(1)] show "k \<in> set (served_by d b)"
      by (cases "mr_backend_model_id m") (auto simp: served_by_def backend_of_def)
  qed
qed

lemma group_count_total: "sum_list (map snd (group_count key t)) = int (length t)"
proof -
  have "sum_list (map (\<lambda>k. int (length (filter (\<lambda>r. key r = k) t))) (remdups (map key t))) =
        sum_list (map (\<lambda>r. int (length (filter (\<lambda>k. key r = k) (remdups (map key t))))) t)"
    by (rule sum_list_length_filter_swap)
  also have "\<dots> = sum_list (map (\<lambda>r. 1) t)"
  proof (rule arg_cong [of _ _ sum_list], rule map_cong [OF refl])
    fix r assume "r \<in> set t"
    then have "length (filter (\<lambda>k. key r = k) (remdups (map key t))) = 1"
      by (intro length_filter_unique [of _ "key r"]) auto
    then show "int (length (filter (\<lambda>k. key r = k) (remdups (map key t)))) = 1" by simp
  qed
  finally show ?thesis by (simp add: group_count_def comp_def sum_list_triv)
qed

lemma prometheus_replicas_total: "sum_list (map snd (replica_groups d)) = int (length (replicas d))"
  by (simp add: replica_groups_def group_count_total)

section \<open>Properties\<close>

definition ex_alias :: "string \<Rightarrow> string option \<Rightarrow> model_row" where
  "ex_alias k backend =
     \<lparr>mr_id = k, mr_name = k, mr_class_label = ''large'', mr_model_class = Large,
      mr_capabilities = [Chat], mr_min_replicas = 1, mr_max_replicas = 4, mr_system_prompt = '''',
      mr_cost_value = 0, mr_cost_basis = PerRequest, mr_endpoint_url = ''http://'' @ k,
      mr_upstream_model = Some k, mr_system_prompt_mode = Some Passthrough,
      mr_backend_model_id = backend, mr_port = Some 8080, mr_first_token_timeout_ms = None\<rparr>"

definition ex_replica :: "string \<Rightarrow> string \<Rightarrow> int \<Rightarrow> int \<Rightarrow> replica_row" where
  "ex_replica k m inFlight capacity =
     \<lparr>rp_id = k, rp_model_id = m, rp_status = Ready, rp_in_flight = inFlight, rp_load_pct = 0,
      rp_tokens_per_sec = None, rp_tokens_per_sec_at = None, rp_endpoint_url = ''http://'' @ k,
      rp_max_concurrency = capacity, rp_cpu_millicores = None, rp_memory_bytes = None,
      rp_restart_count = 0, rp_last_seen_at = Some 0, rp_updated_at = 0\<rparr>"

definition ex_row :: "string \<Rightarrow> string \<Rightarrow> request_status \<Rightarrow> request_row" where
  "ex_row k m s =
     \<lparr>rq_id = k, rq_caller_oid = ''oid'', rq_caller_name = ''Ann'', rq_team = None,
      rq_requested_model = Some m, rq_routed_model = Some m, rq_capabilities = [Chat], rq_status = s,
      rq_error_code = None, rq_replica_id = None, rq_input_tokens = 0, rq_output_tokens = 0,
      rq_arrived_at = 0, rq_started_at = None, rq_completed_at = None, rq_last_token_at = None,
      rq_first_token_at = None, rq_duration_ms = None, rq_cost_usd = None, rq_affinity_hit = None\<rparr>"

definition ex_fleet_db :: db where
  "ex_fleet_db = empty_db\<lparr>models := [ex_alias ''ornith'' None, ex_alias ''ornith-think'' (Some ''ornith'')],
     replicas := [ex_replica ''p0'' ''ornith'' 1 1, ex_replica ''p1'' ''ornith'' 1 1],
     requests := [ex_row ''q0'' ''ornith'' Queued, ex_row ''q1'' ''ornith-think'' Queued]\<rparr>"

text \<open>
  A scale-up a placement asked for is not lost: whatever further requests the router instances
  send, in any order and at any times, every poll that falls inside the 30 second window (less the
  debounce window) after it reports one pending request beyond the demand.\<close>

theorem scale_up_reaches_poll:
  assumes "t < now + 30000 - int debounceMs"
    and "d' = fold (\<lambda>(u, k). requestScaleUp (MetricsKedaClient (int debounceMs)) u k) calls
                (requestScaleUp (MetricsKedaClient (int debounceMs)) now m d)"
  shows "pending_requests (kedaMetricRoute (MetricsKedaClient (int debounceMs)) t m d') =
         model_in_flight d' m + model_queued d' m + 1"
proof -
  let ?d1 = "metricsRequest debounceMs now m d"
  have "not_older (signal_time ?d1 m) (signal_time d' m)"
    using metrics_client.request_many_not_older [of ?d1 m debounceMs calls]
    by (simp add: assms(2) metricsRequest_def)
  moreover have "not_older (Some (now - int debounceMs)) (signal_time ?d1 m)"
    by (auto simp: metricsRequest_def signal_time_signalScaleUp not_older_def split: option.splits)
  ultimately have "not_older (Some (now - int debounceMs)) (signal_time d' m)"
    by (blast intro: not_older_trans)
  then have "wantsScaleUp t m 30000 d'"
    using assms(1) by (auto simp: not_older_def signal_time_def wantsScaleUp_def split: option.splits)
  then show ?thesis by (simp add: kedaMetricRoute_def getKedaMetricForModel_def Let_def)
qed

lemma scale_up_reaches_poll_witness:
  "pending_requests (kedaMetricRoute (MetricsKedaClient 1000) 25000 ''m''
     (fold (\<lambda>(u, k). requestScaleUp (MetricsKedaClient 1000) u k) [(500, ''m''), (9000, ''x'')]
        (requestScaleUp (MetricsKedaClient 1000) 0 ''m'' empty_db))) = 1"
proof -
  let ?d' = "fold (\<lambda>(u, k). requestScaleUp (MetricsKedaClient (int 1000)) u k) [(500, ''m''), (9000, ''x'')]
        (requestScaleUp (MetricsKedaClient (int 1000)) 0 ''m'' empty_db)"
  have "model_in_flight ?d' ''m'' + model_queued ?d' ''m'' = 0"
    by (simp add: model_in_flight_def model_queued_def signalScaleUp_def empty_db_def)
  with scale_up_reaches_poll [OF _ refl, of 25000 0 1000 "''m''" "[(500, ''m''), (9000, ''x'')]" empty_db]
  show ?thesis by (simp only: of_nat_numeral)
qed

text \<open>
  The metric provisions ahead of saturation: once every replica of a backend carries at least the
  target, the autoscaler asks for more replicas than there are; and a backend with no demand and no
  signal asks for none.\<close>

theorem keda_metric_ahead_of_saturation:
  assumes "1 \<le> target" "\<forall>r \<in> set (replicas d). rp_model_id r = b \<longrightarrow> int target \<le> rp_in_flight r"
    and "n = int (length (filter (\<lambda>r. rp_model_id r = b) (replicas d)))"
  shows "(0 < n \<or> 0 < model_queued d b \<or> signalled \<longrightarrow>
            n < desired_replicas (pending_requests (getKedaMetricForModel d b signalled)) target) \<and>
         (n = 0 \<and> model_queued d b = 0 \<and> \<not> signalled \<longrightarrow>
            desired_replicas (pending_requests (getKedaMetricForModel d b signalled)) target = 0)"
proof -
  have full: "n * int target \<le> model_in_flight d b"
    using model_in_flight_full [OF assms(2)] by (simp add: assms(3))
  have n0: "0 \<le> n" by (simp add: assms(3))
  then have "0 < n \<Longrightarrow> 0 < model_in_flight d b"
    using full assms(1) by (smt (verit) mult_pos_pos of_nat_0_less_iff less_le_trans zero_less_one of_nat_1 of_nat_le_iff)
  moreover have "n = 0 \<Longrightarrow> model_in_flight d b = 0"
    by (auto simp: assms(3) model_in_flight_def filter_empty_conv)
  moreover have "n * int target < pending_requests (getKedaMetricForModel d b signalled)"
    if "0 < model_in_flight d b + model_queued d b \<or> signalled"
    using that full by (auto simp: getKedaMetricForModel_def Let_def intro: add_increasing2)
  moreover have "0 \<le> model_in_flight d b"
    using full n0 by (meson of_nat_0_le_iff order_trans zero_le_mult_iff)
  ultimately show ?thesis
    using n0 add_pos_nonneg [OF _ model_queued_nonneg, of "model_in_flight d b" d b]
      desired_replicas_gt [OF assms(1), of n]
    by (auto simp: getKedaMetricForModel_def Let_def desired_replicas_def [of 0])
qed

lemma keda_metric_ahead_of_saturation_witness:
  "2 < desired_replicas (pending_requests (getKedaMetricForModel ex_fleet_db ''ornith'' False)) 1"
proof -
  have "\<forall>r \<in> set (replicas ex_fleet_db). rp_model_id r = ''ornith'' \<longrightarrow> int 1 \<le> rp_in_flight r"
    "length (filter (\<lambda>r. rp_model_id r = ''ornith'') (replicas ex_fleet_db)) = 2"
    by code_simp+
  with keda_metric_ahead_of_saturation [OF _ _ refl, of 1 ex_fleet_db "''ornith''" False]
  show ?thesis by simp
qed

text \<open>
  Where aliases share a backend, every queued request that is routed to a registered model is
  counted at exactly one of the workloads, the one that would serve it: over the workloads, the
  queues of the metrics add up to the queue.\<close>

theorem keda_queues_partition:
  assumes "db_keys_ok d" "resolved d"
  shows "sum_list (map (\<lambda>b. km_queued (getKedaMetricForModel d b False)) (owners d)) =
         int (length (filter (\<lambda>r. rq_status r = Queued \<and> routed_to (map mr_id (models d)) r) (requests d)))"
proof -
  have key: "unique_key mr_id (models d)" using assms(1) by (simp add: db_keys_ok_def)
  have own: "b \<in> set (owners d) \<longleftrightarrow> model_exists d b \<and> backend_of d b = b" for b
    by (auto simp: owners_def model_exists_iff)
  have dist: "distinct (owners d)" using key by (simp add: owners_def unique_key_def)
  have one: "int (length (filter (\<lambda>b. rq_status r = Queued \<and> routed_to (served_by d b) r) (owners d))) =
             (if rq_status r = Queued \<and> routed_to (map mr_id (models d)) r then 1 else 0)" for r
  proof (cases "rq_status r = Queued \<and> routed_to (map mr_id (models d)) r")
    case True
    then obtain k where k: "rq_routed_model r = Some k" "model_exists d k"
      by (auto simp: routed_to_def model_exists_iff split: option.splits)
    then have "backend_of d k \<in> set (owners d)"
      using assms(2) by (auto simp: own resolved_def list_all_iff model_exists_iff)
    moreover have "rq_status r = Queued \<and> routed_to (served_by d b) r \<longleftrightarrow> b = backend_of d k"
      if "b \<in> set (owners d)" for b
      using True k served_by_owner [OF key, of b k] that by (auto simp: routed_to_def own)
    ultimately show ?thesis using True dist length_filter_unique by (metis (mono_tags, lifting) of_nat_1)
  next
    case False
    have "\<not> (rq_status r = Queued \<and> routed_to (served_by d b) r)" for b
      using False by (auto simp: routed_to_def served_by_def split: option.splits)
    with False show ?thesis by simp
  qed
  show ?thesis
    by (simp add: getKedaMetricForModel_def Let_def model_queued_def sum_list_length_filter_swap one
        sum_list_indicator)
qed

lemma keda_queues_partition_witness:
  "sum_list (map (\<lambda>b. km_queued (getKedaMetricForModel ex_fleet_db b False)) (owners ex_fleet_db)) = 2"
proof -
  have "db_keys_ok ex_fleet_db" "resolved ex_fleet_db"
    "length (filter (\<lambda>r. rq_status r = Queued \<and> routed_to (map mr_id (models ex_fleet_db)) r) (requests ex_fleet_db)) = 2"
    by code_simp+
  with keda_queues_partition [of ex_fleet_db] show ?thesis by simp
qed

end
