(* ===== verification/Affinity.thy ===== *)
theory Affinity
  imports Keda
begin

text \<open>
  Prefix-cache affinity, \<open>server/src/scheduler/affinity.ts\<close>: the key of a conversation, and the table
  that remembers which replica holds its cache. The hash of \<open>node:crypto\<close> is the parameter
  \<open>sha256_hex\<close>. The tunables the scheduler reads from its environment are the record \<open>settings\<close>.
\<close>

record settings =
  QUEUE_TIMEOUT_MS :: int
  STALL_TIMEOUT_MS :: int
  FIRST_TOKEN_TIMEOUT_MS :: int
  EWMA_ALPHA :: rat
  AFFINITY_TTL_MS :: int
  THROUGHPUT_FRESH_MS :: int
  affinityEnabled :: bool

definition default_settings :: settings where
  "default_settings =
     \<lparr>QUEUE_TIMEOUT_MS = 300000, STALL_TIMEOUT_MS = 60000, FIRST_TOKEN_TIMEOUT_MS = 600000,
      EWMA_ALPHA = 3 / 10, AFFINITY_TTL_MS = 30 * 60 * 1000, THROUGHPUT_FRESH_MS = 120000,
      affinityEnabled = True\<rparr>"

section \<open>The key of a conversation\<close>

fun contentText :: "content \<Rightarrow> string" where
  "contentText (Text s) = s"
| "contentText (Parts ps) = join '' '' (map part_text ps)"
| "contentText NullContent = ''''"

definition opens :: "chat_message \<Rightarrow> bool" where
  "opens m \<longleftrightarrow> msg_role m = SystemRole \<or> msg_role m = DeveloperRole \<or> msg_role m = UserRole"

definition openingOf :: "chat_message list \<Rightarrow> chat_message list" where
  "openingOf messages = take 2 (filter opens messages)"

text \<open>The hashed text: its parts are joined by the NUL character.\<close>

definition affinity_material :: "string \<Rightarrow> string \<Rightarrow> chat_message list \<Rightarrow> string" where
  "affinity_material oid modelId ms =
     join [CHR 0x00] (oid # modelId # map (\<lambda>m. role_text (msg_role m) @ '':'' @ contentText (msg_content m)) ms)"

definition affinityKeyFor :: "(string \<Rightarrow> string) \<Rightarrow> string \<Rightarrow> string \<Rightarrow> chat_message list \<Rightarrow> string option" where
  "affinityKeyFor sha256_hex oid modelId messages =
     (if openingOf messages = [] then None
      else Some (take 40 (sha256_hex (affinity_material oid modelId (openingOf messages)))))"

section \<open>The affinity table\<close>

definition lookupAffinity :: "settings \<Rightarrow> time \<Rightarrow> string \<Rightarrow> string \<Rightarrow> db \<Rightarrow> string option" where
  "lookupAffinity cfg now affinityKey modelId d =
     map_option af_replica_id
       (find (\<lambda>a. af_key a = affinityKey \<and> af_model_id a = modelId \<and> now - AFFINITY_TTL_MS cfg < af_last_used_at a)
         (affinities d))"

definition recordAffinity :: "time \<Rightarrow> string \<Rightarrow> string \<Rightarrow> string \<Rightarrow> db \<Rightarrow> db" where
  "recordAffinity now affinityKey modelId replicaId d =
     d\<lparr>affinities := upsert af_key
         \<lparr>af_key = affinityKey, af_model_id = modelId, af_replica_id = replicaId, af_last_used_at = now\<rparr>
         (\<lambda>a. a\<lparr>af_replica_id := replicaId, af_model_id := modelId, af_last_used_at := now\<rparr>)
         (affinities d)\<rparr>"

definition expired_affinity :: "int \<Rightarrow> time \<Rightarrow> db \<Rightarrow> affinity_row \<Rightarrow> bool" where
  "expired_affinity ttlMs now d a \<longleftrightarrow>
     af_last_used_at a < now - ttlMs \<or> \<not> list_ex (\<lambda>r. rp_id r = af_replica_id a) (replicas d)"

definition sweepAffinities :: "int \<Rightarrow> time \<Rightarrow> db \<Rightarrow> nat \<times> db" where
  "sweepAffinities ttlMs now d =
     (length (filter (expired_affinity ttlMs now d) (affinities d)),
      d\<lparr>affinities := delete_where (expired_affinity ttlMs now d) (affinities d)\<rparr>)"

section \<open>Facts\<close>

lemma recordAffinity_frame [frame_simps, simp]:
  "models (recordAffinity now k m r d) = models d"
  "overrides (recordAffinity now k m r d) = overrides d"
  "cost_configs (recordAffinity now k m r d) = cost_configs d"
  "replicas (recordAffinity now k m r d) = replicas d"
  "requests (recordAffinity now k m r d) = requests d"
  "audit_contents (recordAffinity now k m r d) = audit_contents d"
  "logging_config (recordAffinity now k m r d) = logging_config d"
  "signals (recordAffinity now k m r d) = signals d"
  by (simp_all add: recordAffinity_def)

lemma sweepAffinities_frame [frame_simps, simp]:
  "models (snd (sweepAffinities ttl now d)) = models d"
  "replicas (snd (sweepAffinities ttl now d)) = replicas d"
  "requests (snd (sweepAffinities ttl now d)) = requests d"
  "signals (snd (sweepAffinities ttl now d)) = signals d"
  by (simp_all add: sweepAffinities_def)

lemma db_ok_recordAffinity: "db_ok d \<Longrightarrow> db_ok (recordAffinity now k m r d)"
  by (simp add: db_ok_def db_keys_ok_def db_refs_ok_def db_checks_ok_def model_exists_def
      recordAffinity_def unique_key_upsert)

lemma db_ok_sweepAffinities: "db_ok d \<Longrightarrow> db_ok (snd (sweepAffinities ttl now d))"
  by (simp add: db_ok_def db_keys_ok_def db_refs_ok_def db_checks_ok_def model_exists_def
      sweepAffinities_def unique_key_delete_where)

text \<open>The affinity table is a keyed store: under its key, the model, the replica and the time.\<close>

definition affinity_entry :: "db \<Rightarrow> string \<Rightarrow> (string \<times> string \<times> time) option" where
  "affinity_entry d k =
     map_option (\<lambda>a. (af_model_id a, af_replica_id a, af_last_used_at a)) (row_of af_key k (affinities d))"

definition store_affinity :: "string \<Rightarrow> string \<times> string \<times> time \<Rightarrow> db \<Rightarrow> db" where
  "store_affinity k v d = recordAffinity (snd (snd v)) k (fst v) (fst (snd v)) d"

interpretation affinity_store: keyed_store "\<lambda>d. unique_key af_key (affinities d)" affinity_entry store_affinity
proof (standard, goal_cases)
  case (1 d k v)
  then show ?case by (simp add: store_affinity_def recordAffinity_def unique_key_upsert)
next
  case (2 d k v)
  show ?case
    using row_of_upsert_same [of af_key
        "\<lparr>af_key = k, af_model_id = fst v, af_replica_id = fst (snd v), af_last_used_at = snd (snd v)\<rparr>"
        "\<lambda>a. a\<lparr>af_replica_id := fst (snd v), af_model_id := fst v, af_last_used_at := snd (snd v)\<rparr>"]
    by (simp add: affinity_entry_def store_affinity_def recordAffinity_def split: option.split)
next
  case (3 d k' k v)
  then show ?case
    by (simp add: affinity_entry_def store_affinity_def recordAffinity_def row_of_upsert_other)
qed

text \<open>With one row per key, the lookup reads the row and checks its model and its age.\<close>

lemma lookupAffinity_entry:
  assumes "unique_key af_key (affinities d)"
  shows "lookupAffinity cfg now k m d =
         (case affinity_entry d k of None \<Rightarrow> None
          | Some (m', r, t) \<Rightarrow> if m' = m \<and> now - AFFINITY_TTL_MS cfg < t then Some r else None)"
proof -
  have "unique_key af_key t \<Longrightarrow>
     find (\<lambda>a. af_key a = k \<and> p a) t = (case row_of af_key k t of None \<Rightarrow> None | Some a \<Rightarrow> if p a then Some a else None)"
    for p t
  proof (induction t)
    case Nil
    then show ?case by (simp add: row_of_def)
  next
    case (Cons a t)
    have "af_key a = k \<Longrightarrow> row_of af_key k t = None"
      using Cons.prems by (auto simp: row_of_None unique_key_def image_iff)
    with Cons show ?case by (auto simp: row_of_def unique_key_def)
  qed
  from this [OF assms, of "\<lambda>a. af_model_id a = m \<and> now - AFFINITY_TTL_MS cfg < af_last_used_at a"]
  show ?thesis
    by (auto simp: lookupAffinity_def affinity_entry_def split: option.split)
qed

lemma recordAffinity_store: "recordAffinity now k m r d = store_affinity k (m, r, now) d"
  by (simp add: store_affinity_def)

lemma affinity_entry_sweep:
  assumes "unique_key af_key (affinities d)"
  shows "affinity_entry (snd (sweepAffinities ttl now d)) k =
         (case affinity_entry d k of None \<Rightarrow> None
          | Some (m, r, t) \<Rightarrow> if t < now - ttl \<or> replica_by d r = None then None else Some (m, r, t))"
proof -
  have "list_ex (\<lambda>x. rp_id x = r) (replicas d) \<longleftrightarrow> replica_by d r \<noteq> None" for r
    by (simp add: list_ex_row_of replica_by_def)
  with row_of_delete_where [OF assms] show ?thesis
    by (auto simp: affinity_entry_def sweepAffinities_def expired_affinity_def split: option.splits)
qed

lemma lookupAffinity_sweep:
  assumes "unique_key af_key (affinities d)"
  shows "lookupAffinity cfg t q m (snd (sweepAffinities (AFFINITY_TTL_MS cfg) t d)) =
           (case lookupAffinity cfg t q m d of None \<Rightarrow> None
            | Some x \<Rightarrow> if replica_by d x = None then None else Some x)"
proof -
  have "unique_key af_key (affinities (snd (sweepAffinities (AFFINITY_TTL_MS cfg) t d)))"
    using assms by (simp add: sweepAffinities_def unique_key_delete_where)
  from lookupAffinity_entry [OF this] lookupAffinity_entry [OF assms] affinity_entry_sweep [OF assms]
  show ?thesis by (auto split: option.split)
qed

lemma openingOf_append: "2 \<le> length (filter opens ms) \<Longrightarrow> openingOf (ms @ later) = openingOf ms"
  by (simp add: openingOf_def)

lemma join_hd: "sep \<notin> set w \<Longrightarrow> ws \<noteq> [] \<Longrightarrow> hd (split_on sep (join [sep] (w # ws))) = w"
  by (cases ws) (simp_all add: split_on_append_sep split_on_no_sep_id)

lemma join_length_mono: "length (join sep ws) \<le> length (join sep (ws @ vs))"
proof (induction ws)
  case Nil
  then show ?case by simp
next
  case (Cons w ws)
  then show ?case by (cases ws; cases vs) auto
qed

lemma join_snoc: "ws \<noteq> [] \<Longrightarrow> join sep (ws @ [v]) = join sep ws @ sep @ v"
proof (induction ws)
  case Nil
  then show ?case by simp
next
  case (Cons w ws)
  then show ?case by (cases ws) auto
qed


section \<open>Properties\<close>

definition ex_msg :: "role \<Rightarrow> string \<Rightarrow> chat_message" where
  "ex_msg r s = \<lparr>msg_role = r, msg_content = Text s, msg_extra = []\<rparr>"

text \<open>
  A recorded affinity is found again, for its conversation and model only, until its time to live
  has passed; recording one conversation leaves every other conversation's affinity alone; and the
  periodic sweep only ever forgets affinities to replicas that are gone.\<close>

theorem affinity_roundtrip:
  assumes "unique_key af_key (affinities d)" "d' = recordAffinity now k m r d"
  shows "lookupAffinity cfg t k m' d' = (if m' = m \<and> t - AFFINITY_TTL_MS cfg < now then Some r else None) \<and>
         (k' \<noteq> k \<longrightarrow> lookupAffinity cfg t k' m' d' = lookupAffinity cfg t k' m' d) \<and>
         lookupAffinity cfg t q m' (snd (sweepAffinities (AFFINITY_TTL_MS cfg) t d')) =
           (case lookupAffinity cfg t q m' d' of None \<Rightarrow> None
            | Some x \<Rightarrow> if replica_by d x = None then None else Some x)"
proof -
  note uk = affinity_store.ok_store [OF assms(1), of k "(m, r, now)"]
  have d': "d' = store_affinity k (m, r, now) d" by (simp add: assms(2) store_affinity_def)
  have "replica_by d' = replica_by d"
    by (rule replica_by_cong) (simp add: assms(2))
  then have "lookupAffinity cfg t q m' (snd (sweepAffinities (AFFINITY_TTL_MS cfg) t d')) =
      (case lookupAffinity cfg t q m' d' of None \<Rightarrow> None
       | Some x \<Rightarrow> if replica_by d x = None then None else Some x)"
    using lookupAffinity_sweep [OF uk [folded d'], of cfg t q m'] by (simp split: option.split)
  moreover have "lookupAffinity cfg t k m' d' = (if m' = m \<and> t - AFFINITY_TTL_MS cfg < now then Some r else None)"
    "k' \<noteq> k \<longrightarrow> lookupAffinity cfg t k' m' d' = lookupAffinity cfg t k' m' d"
    using uk by (simp_all add: lookupAffinity_entry d' affinity_store.lookup_store [OF assms(1)]
        lookupAffinity_entry [OF assms(1)])
  ultimately show ?thesis by blast
qed

lemma affinity_roundtrip_witness:
  "lookupAffinity default_settings 1000 ''k'' ''m'' (recordAffinity 0 ''k'' ''m'' ''p0'' empty_db) = Some ''p0''"
  using affinity_roundtrip [of empty_db _ 0 "''k''" "''m''" "''p0''" default_settings 1000 "''m''", OF _ refl]
  by (simp add: empty_db_def unique_key_def default_settings_def)

text \<open>
  Once a conversation has two opening messages, its key stays the same however it grows, and the
  key is built from the caller: the hashed texts of two callers differ whatever they write, so equal
  keys for different callers would be a collision of the hash.\<close>

theorem affinityKeyFor_stable:
  assumes "2 \<le> length (filter opens ms)" "CHR 0x00 \<notin> set oid" "CHR 0x00 \<notin> set oid'" "oid \<noteq> oid'"
  shows "affinityKeyFor h oid m (ms @ later) = affinityKeyFor h oid m ms \<and>
         affinityKeyFor h oid m ms \<noteq> None \<and>
         affinity_material oid m xs \<noteq> affinity_material oid' m' ys"
proof -
  have "hd (split_on (CHR 0x00) (affinity_material oid m xs)) = oid"
    "hd (split_on (CHR 0x00) (affinity_material oid' m' ys)) = oid'"
    using assms(2,3) by (simp_all add: affinity_material_def split_on_append_sep split_on_no_sep_id)
  moreover have "openingOf ms \<noteq> []" using assms(1) by (auto simp: openingOf_def)
  ultimately show ?thesis using assms(1,4)
    by (auto simp: affinityKeyFor_def openingOf_append)
qed

lemma affinityKeyFor_stable_witness:
  "affinityKeyFor id ''ann'' ''m'' ([ex_msg SystemRole ''s'', ex_msg UserRole ''hi''] @ [ex_msg UserRole ''more'']) =
   affinityKeyFor id ''ann'' ''m'' [ex_msg SystemRole ''s'', ex_msg UserRole ''hi'']"
  using affinityKeyFor_stable [of "[ex_msg SystemRole ''s'', ex_msg UserRole ''hi'']" "''ann''" "''bob''" id "''m''"
      "[ex_msg UserRole ''more'']"]
  by (simp add: ex_msg_def opens_def)

text \<open>
  A conversation that opens with a single message (no system prompt) has another hashed text on its
  second turn than on its first: the key is not constant as the conversation grows, and unless the
  hash collides the second turn does not find the replica that served the first.\<close>

theorem affinityKeyFor_second_turn:
  assumes "filter opens first = [u1]" "filter opens later = u2 # rest"
  shows "affinityKeyFor h oid m first = Some (take 40 (h (affinity_material oid m [u1]))) \<and>
         affinityKeyFor h oid m (first @ later) = Some (take 40 (h (affinity_material oid m [u1, u2]))) \<and>
         affinity_material oid m [u1] \<noteq> affinity_material oid m [u1, u2]"
proof -
  let ?part = "\<lambda>x. role_text (msg_role x) @ '':'' @ contentText (msg_content x)"
  have "affinity_material oid m [u1, u2] = affinity_material oid m [u1] @ [CHR 0x00] @ ?part u2"
    by (simp add: affinity_material_def)
  then show ?thesis using assms by (auto simp: affinityKeyFor_def openingOf_def)
qed

lemma affinityKeyFor_second_turn_witness:
  "affinityKeyFor (drop 6) ''ann'' ''m'' [ex_msg UserRole ''hi''] = Some ''user:hi'' \<and>
   affinityKeyFor (drop 6) ''ann'' ''m'' ([ex_msg UserRole ''hi''] @ [ex_msg AssistantRole ''yo'', ex_msg UserRole ''so'']) =
     Some (''user:hi'' @ CHR 0x00 # ''user:so'')"
  using affinityKeyFor_second_turn [of "[ex_msg UserRole ''hi'']" "ex_msg UserRole ''hi''"
      "[ex_msg AssistantRole ''yo'', ex_msg UserRole ''so'']" "ex_msg UserRole ''so''" "[]" "drop 6" "''ann''" "''m''"]
  by (simp add: ex_msg_def opens_def affinity_material_def)

end
