(* ===== verification/Queue.thy ===== *)
theory Queue
  imports Affinity
begin

text \<open>
  The life of a request row, \<open>server/src/scheduler/queue.ts\<close>: enqueueing, the three clocks with their
  periodic sweeps, the marks a stream leaves, and completion, which frees the replica's slot and folds
  the observed throughput into its moving average.
\<close>

section \<open>Operations\<close>

record enqueue_input =
  eq_id :: string
  eq_callerOid :: string
  eq_callerName :: string
  eq_team :: "string option"
  eq_requestedModel :: "string option"
  eq_capabilities :: "capability list option"

definition queued_row :: "time \<Rightarrow> enqueue_input \<Rightarrow> request_row" where
  "queued_row now inp =
     \<lparr>rq_id = eq_id inp, rq_caller_oid = eq_callerOid inp, rq_caller_name = eq_callerName inp,
      rq_team = eq_team inp, rq_requested_model = eq_requestedModel inp, rq_routed_model = None,
      rq_capabilities = nullish (eq_capabilities inp) [], rq_status = Queued, rq_error_code = None,
      rq_replica_id = None, rq_input_tokens = 0, rq_output_tokens = 0, rq_arrived_at = now,
      rq_started_at = None, rq_completed_at = None, rq_last_token_at = None, rq_first_token_at = None,
      rq_duration_ms = None, rq_cost_usd = None, rq_affinity_hit = None\<rparr>"

definition enqueueRequest :: "time \<Rightarrow> enqueue_input \<Rightarrow> db \<Rightarrow> db_error + db" where
  "enqueueRequest now inp d =
     (if request_by d (eq_id inp) \<noteq> None then Inl UniqueViolation
      else Inr (d\<lparr>requests := requests d @ [queued_row now inp]\<rparr>))"

definition set_timed_out :: "request_status \<Rightarrow> error_code \<Rightarrow> time \<Rightarrow> request_row \<Rightarrow> request_row" where
  "set_timed_out status errorCode now r =
     r\<lparr>rq_status := status, rq_error_code := Some errorCode, rq_completed_at := Some now\<rparr>"

text \<open>A comparison with NULL is not true: a time that is not set is not older than anything.\<close>

definition older_than :: "time option \<Rightarrow> time \<Rightarrow> bool" where
  "older_than t bound = (case t of None \<Rightarrow> False | Some x \<Rightarrow> x < bound)"

definition queue_due :: "int \<Rightarrow> time \<Rightarrow> request_row \<Rightarrow> bool" where
  "queue_due timeoutMs now r \<longleftrightarrow> rq_status r = Queued \<and> rq_arrived_at r < now - timeoutMs"

definition sweepQueueTimeouts :: "int \<Rightarrow> time \<Rightarrow> db \<Rightarrow> string list \<times> db" where
  "sweepQueueTimeouts timeoutMs now d =
     (map rq_id (filter (queue_due timeoutMs now) (requests d)),
      update_requests (queue_due timeoutMs now) (set_timed_out QueueTimeoutStatus QueueTimeout now) d)"

definition expire_due :: "string \<Rightarrow> request_row \<Rightarrow> bool" where
  "expire_due requestId r \<longleftrightarrow> rq_id r = requestId \<and> rq_status r = Queued"

definition expireQueuedRequest :: "string \<Rightarrow> time \<Rightarrow> db \<Rightarrow> bool \<times> db" where
  "expireQueuedRequest requestId now d =
     (list_ex (expire_due requestId) (requests d),
      update_requests (expire_due requestId) (set_timed_out QueueTimeoutStatus QueueTimeout now) d)"

definition markStreamStarted :: "string \<Rightarrow> string \<Rightarrow> time \<Rightarrow> db \<Rightarrow> db" where
  "markStreamStarted requestId replicaId now d =
     update_requests (\<lambda>r. rq_id r = requestId)
       (\<lambda>r. r\<lparr>rq_status := Streaming, rq_replica_id := Some replicaId, rq_started_at := Some now,
              rq_last_token_at := Some now\<rparr>) d"

definition recordTokenEmitted :: "string \<Rightarrow> time \<Rightarrow> db \<Rightarrow> db" where
  "recordTokenEmitted requestId now d =
     update_requests (\<lambda>r. rq_id r = requestId)
       (\<lambda>r. r\<lparr>rq_last_token_at := Some now,
              rq_first_token_at := coalesce (rq_first_token_at r) (Some now)\<rparr>) d"

definition stall_due :: "int \<Rightarrow> time \<Rightarrow> request_row \<Rightarrow> bool" where
  "stall_due thresholdMs now r \<longleftrightarrow>
     rq_status r = Streaming \<and> rq_first_token_at r \<noteq> None \<and>
     older_than (rq_last_token_at r) (now - thresholdMs)"

definition sweepStallTimeouts :: "int \<Rightarrow> time \<Rightarrow> db \<Rightarrow> string list \<times> db" where
  "sweepStallTimeouts thresholdMs now d =
     (map rq_id (filter (stall_due thresholdMs now) (requests d)),
      update_requests (stall_due thresholdMs now) (set_timed_out StallTimeoutStatus StallTimeout now) d)"

text \<open>The join with the registry: the model's own allowance, or the default.\<close>

definition first_token_due :: "int \<Rightarrow> time \<Rightarrow> db \<Rightarrow> request_row \<Rightarrow> bool" where
  "first_token_due defaultMs now d r \<longleftrightarrow>
     list_ex (\<lambda>m. rq_routed_model r = Some (mr_id m) \<and> rq_status r = Streaming \<and>
                  rq_first_token_at r = None \<and>
                  older_than (rq_started_at r) (now - nullish (mr_first_token_timeout_ms m) defaultMs))
       (models d)"

definition sweepFirstTokenTimeouts :: "int \<Rightarrow> time \<Rightarrow> db \<Rightarrow> string list \<times> db" where
  "sweepFirstTokenTimeouts defaultMs now d =
     (map rq_id (filter (first_token_due defaultMs now d) (requests d)),
      update_requests (first_token_due defaultMs now d) (set_timed_out StallTimeoutStatus StallTimeout now) d)"

text \<open>Completion is one transaction: the request's row, then the replica it held.\<close>

definition MIN_SAMPLE_DURATION_MS :: int where "MIN_SAMPLE_DURATION_MS = 250"
definition MIN_SAMPLE_TOKENS :: int where "MIN_SAMPLE_TOKENS = 5"

definition completed_row :: "int \<Rightarrow> rat \<Rightarrow> time \<Rightarrow> request_row \<Rightarrow> request_row" where
  "completed_row outputTokens costUsd now r =
     r\<lparr>rq_status := Completed, rq_completed_at := Some now, rq_output_tokens := outputTokens,
       rq_cost_usd := Some costUsd,
       rq_duration_ms := Some (case rq_started_at r of None \<Rightarrow> 0 | Some s \<Rightarrow> max 0 (now - s))\<rparr>"

definition sampled :: "request_row \<Rightarrow> bool" where
  "sampled req \<longleftrightarrow>
     (case rq_duration_ms req of None \<Rightarrow> False
      | Some ms \<Rightarrow> MIN_SAMPLE_DURATION_MS \<le> ms \<and> MIN_SAMPLE_TOKENS \<le> rq_output_tokens req)"

definition throughput :: "request_row \<Rightarrow> rat" where
  "throughput req = of_int (rq_output_tokens req) / (of_int (nullish (rq_duration_ms req) 0) / 1000)"

definition ewma :: "rat \<Rightarrow> rat option \<Rightarrow> rat \<Rightarrow> rat" where
  "ewma alpha old sample = (case old of None \<Rightarrow> sample | Some t \<Rightarrow> (1 - alpha) * t + alpha * sample)"

definition free_slot :: "rat \<Rightarrow> time \<Rightarrow> request_row \<Rightarrow> replica_row \<Rightarrow> replica_row" where
  "free_slot alpha now req r =
     r\<lparr>rp_in_flight := max 0 (rp_in_flight r - 1),
       rp_tokens_per_sec :=
         (if sampled req then Some (ewma alpha (rp_tokens_per_sec r) (throughput req)) else rp_tokens_per_sec r),
       rp_tokens_per_sec_at := (if sampled req then Some now else rp_tokens_per_sec_at r),
       rp_updated_at := now\<rparr>"

definition completeRequest :: "settings \<Rightarrow> string \<Rightarrow> int \<Rightarrow> rat \<Rightarrow> time \<Rightarrow> db \<Rightarrow> db" where
  "completeRequest cfg requestId outputTokens costUsd now d =
     (let d1 = update_requests (\<lambda>r. rq_id r = requestId) (completed_row outputTokens costUsd now) d in
      case request_by d1 requestId of
        None \<Rightarrow> d1
      | Some req \<Rightarrow>
          (case rq_replica_id req of
             None \<Rightarrow> d1
           | Some replicaId \<Rightarrow>
               if replicaId = '''' then d1
               else update_replicas (\<lambda>r. rp_id r = replicaId) (free_slot (EWMA_ALPHA cfg) now req) d1))"

section \<open>What every sweep promises\<close>

text \<open>
  A sweep closes the requests that are due and reports their ids. It only ever touches a request that
  is still live, closes it for good, and leaves the replicas and everything else alone.
\<close>

locale request_sweep =
  fixes sweep :: "time \<Rightarrow> db \<Rightarrow> string list \<times> db"
    and due :: "time \<Rightarrow> db \<Rightarrow> request_row \<Rightarrow> bool"
    and close_row :: "time \<Rightarrow> request_row \<Rightarrow> request_row"
  assumes sweep_eq: "sweep now d = (map rq_id (filter (due now d) (requests d)),
                                    update_requests (due now d) (close_row now) d)"
    and due_live: "due now d r \<Longrightarrow> live (rq_status r)"
    and due_models: "models d' = models d \<Longrightarrow> due now d' = due now d"
    and closed: "\<not> live (rq_status (close_row now r)) \<and> rq_error_code (close_row now r) \<noteq> None \<and>
                 rq_completed_at (close_row now r) = Some now"
    and close_id: "rq_id (close_row now r) = rq_id r"
begin

lemma frame:
  "models (snd (sweep now d)) = models d" "replicas (snd (sweep now d)) = replicas d"
  "affinities (snd (sweep now d)) = affinities d" "signals (snd (sweep now d)) = signals d"
  "audit_contents (snd (sweep now d)) = audit_contents d"
  "logging_config (snd (sweep now d)) = logging_config d"
  by (simp_all add: sweep_eq)

lemma keeps_db_ok: "db_ok d \<Longrightarrow> db_ok (snd (sweep now d))"
  by (simp add: sweep_eq db_ok_update_requests close_id)

lemma row_after:
  "request_by (snd (sweep now d)) k =
   map_option (\<lambda>r. if due now d r then close_row now r else r) (request_by d k)"
  by (simp add: sweep_eq request_by_update_requests close_id)

lemma terminal_untouched:
  "request_by d k = Some r \<Longrightarrow> \<not> live (rq_status r) \<Longrightarrow> request_by (snd (sweep now d)) k = Some r"
  using due_live by (auto simp: row_after)

text \<open>Sweeping again at the same time finds nothing more to do.\<close>

lemma idempotent: "sweep now (snd (sweep now d)) = ([], snd (sweep now d))"
proof -
  have due': "due now (snd (sweep now d)) = due now d"
    by (rule due_models) (simp add: frame)
  have none: "\<not> due now d r" if "r \<in> set (requests (snd (sweep now d)))" for r
  proof -
    from that have "r \<in> (\<lambda>x. if due now d x then close_row now x else x) ` set (requests d)"
      by (simp add: sweep_eq set_update_where)
    then obtain x where "r = (if due now d x then close_row now x else x)" by blast
    then show ?thesis
      using due_live [of now d "close_row now x"] closed [of now x] by (cases "due now d x") auto
  qed
  then have "filter (due now d) (requests (snd (sweep now d))) = []"
    by (auto simp: filter_empty_conv)
  moreover have "update_requests (due now d) (close_row now) (snd (sweep now d)) = snd (sweep now d)"
    using none by (simp add: update_requests_def update_where_none)
  ultimately show ?thesis by (simp add: sweep_eq [of now "snd (sweep now d)"] due')
qed

lemma reported:
  assumes "unique_key rq_id (requests d)"
  shows "k \<in> set (fst (sweep now d)) \<longleftrightarrow> (\<exists>r. request_by d k = Some r \<and> due now d r)"
proof
  assume "k \<in> set (fst (sweep now d))"
  then obtain r where "r \<in> set (requests d)" "rq_id r = k" "due now d r" by (auto simp: sweep_eq)
  with row_of_unique [OF assms, of r] show "\<exists>r. request_by d k = Some r \<and> due now d r"
    by (auto simp: request_by_def)
next
  assume "\<exists>r. request_by d k = Some r \<and> due now d r"
  then show "k \<in> set (fst (sweep now d))" by (auto simp: sweep_eq dest!: request_by_Some)
qed

lemma reported_closed:
  assumes "unique_key rq_id (requests d)" "k \<in> set (fst (sweep now d))"
  shows "\<exists>r. request_by (snd (sweep now d)) k = Some r \<and> \<not> live (rq_status r) \<and>
             rq_completed_at r = Some now"
  using assms reported [OF assms(1)] closed by (auto simp: row_after)

lemma contract:
  assumes "db_ok d"
  shows "db_ok (snd (sweep now d)) \<and> replicas (snd (sweep now d)) = replicas d \<and>
         models (snd (sweep now d)) = models d \<and>
         (\<forall>k r. request_by d k = Some r \<and> \<not> live (rq_status r) \<longrightarrow> request_by (snd (sweep now d)) k = Some r) \<and>
         (\<forall>k \<in> set (fst (sweep now d)). \<exists>r. request_by (snd (sweep now d)) k = Some r \<and>
            \<not> live (rq_status r) \<and> rq_completed_at r = Some now) \<and>
         sweep now (snd (sweep now d)) = ([], snd (sweep now d))"
proof (intro conjI)
  have key: "unique_key rq_id (requests d)" using assms by (simp add: db_ok_def db_keys_ok_def)
  then show "\<forall>k \<in> set (fst (sweep now d)). \<exists>r. request_by (snd (sweep now d)) k = Some r \<and>
      \<not> live (rq_status r) \<and> rq_completed_at r = Some now"
    by (simp add: reported_closed)
qed (simp_all add: keeps_db_ok [OF assms] frame idempotent terminal_untouched)

end

text \<open>
  The clock sweeps: a request is due when the clock it is under was last restarted longer ago than its
  allowance. Activity inside the allowance keeps a request safe.
\<close>

locale clock_sweep = request_sweep sweep due close_row
  for sweep :: "time \<Rightarrow> db \<Rightarrow> string list \<times> db" and due close_row +
  fixes clock :: "request_row \<Rightarrow> time option"
    and allowance :: "db \<Rightarrow> request_row \<Rightarrow> int"
  assumes due_clock: "due now d r \<Longrightarrow> older_than (clock r) (now - allowance d r)"
    and due_later: "due now d r \<Longrightarrow> now \<le> later \<Longrightarrow> due later d r"
begin

lemma active_untouched:
  assumes "request_by d k = Some r" "clock r = Some t" "now - t \<le> allowance d r"
  shows "request_by (snd (sweep now d)) k = Some r"
proof -
  have "\<not> due now d r" using due_clock [of now d r] assms(2,3) by (auto simp: older_than_def)
  with assms(1) show ?thesis by (simp add: row_after)
qed

lemma no_clock_untouched:
  assumes "request_by d k = Some r" "clock r = None"
  shows "request_by (snd (sweep now d)) k = Some r"
proof -
  have "\<not> due now d r" using due_clock [of now d r] assms(2) by (auto simp: older_than_def)
  with assms(1) show ?thesis by (simp add: row_after)
qed

lemma later_sweep_covers:
  assumes "unique_key rq_id (requests d)" "now \<le> later" "k \<in> set (fst (sweep now d))"
  shows "k \<in> set (fst (sweep later d))"
  using assms due_later by (auto simp: reported)

end

lemma set_timed_out_simps [simp]:
  "rq_id (set_timed_out s c now r) = rq_id r" "rq_status (set_timed_out s c now r) = s"
  "rq_error_code (set_timed_out s c now r) = Some c" "rq_completed_at (set_timed_out s c now r) = Some now"
  "rq_replica_id (set_timed_out s c now r) = rq_replica_id r"
  by (simp_all add: set_timed_out_def)

lemma older_than_later: "older_than t b \<Longrightarrow> b \<le> c \<Longrightarrow> older_than t c"
  by (auto simp: older_than_def split: option.splits)

interpretation queue_sweep: clock_sweep "sweepQueueTimeouts timeoutMs" "\<lambda>now d. queue_due timeoutMs now"
    "set_timed_out QueueTimeoutStatus QueueTimeout" "\<lambda>r. Some (rq_arrived_at r)" "\<lambda>d r. timeoutMs"
  for timeoutMs
  by standard (auto simp: sweepQueueTimeouts_def queue_due_def older_than_def)

interpretation stall_sweep: clock_sweep "sweepStallTimeouts thresholdMs" "\<lambda>now d. stall_due thresholdMs now"
    "set_timed_out StallTimeoutStatus StallTimeout" rq_last_token_at "\<lambda>d r. thresholdMs"
  for thresholdMs
  by standard (auto simp: sweepStallTimeouts_def stall_due_def elim: older_than_later)

text \<open>The allowance of the model a request was routed to.\<close>

definition first_token_allowance :: "int \<Rightarrow> db \<Rightarrow> request_row \<Rightarrow> int" where
  "first_token_allowance defaultMs d r =
     (case filter (\<lambda>m. rq_routed_model r = Some (mr_id m)) (models d) of
        [] \<Rightarrow> defaultMs
      | ms \<Rightarrow> Min (set (map (\<lambda>m. nullish (mr_first_token_timeout_ms m) defaultMs) ms)))"

lemma first_token_allowance_le:
  assumes "m \<in> set (models d)" "rq_routed_model r = Some (mr_id m)"
  shows "first_token_allowance defaultMs d r \<le> nullish (mr_first_token_timeout_ms m) defaultMs"
proof -
  have "m \<in> set (filter (\<lambda>m. rq_routed_model r = Some (mr_id m)) (models d))" using assms by simp
  then show ?thesis
    unfolding first_token_allowance_def
    by (cases "filter (\<lambda>m. rq_routed_model r = Some (mr_id m)) (models d)") (auto intro!: Min_le)
qed

interpretation first_token_sweep: clock_sweep "sweepFirstTokenTimeouts defaultMs" "first_token_due defaultMs"
    "set_timed_out StallTimeoutStatus StallTimeout" rq_started_at "first_token_allowance defaultMs"
  for defaultMs
proof (standard, goal_cases)
  case (1 now d)
  show ?case by (simp add: sweepFirstTokenTimeouts_def)
next
  case (2 now d r)
  then show ?case by (auto simp: first_token_due_def list_ex_iff)
next
  case (3 d' d now)
  then show ?case by (auto simp: first_token_due_def)
next
  case (6 now d r)
  then obtain m where "m \<in> set (models d)" "rq_routed_model r = Some (mr_id m)"
    "older_than (rq_started_at r) (now - nullish (mr_first_token_timeout_ms m) defaultMs)"
    by (auto simp: first_token_due_def list_ex_iff)
  with first_token_allowance_le [of m d r defaultMs] show ?case
    by (auto elim: older_than_later)
next
  case (7 now d r later)
  then show ?case by (auto simp: first_token_due_def list_ex_iff elim!: older_than_later intro!: bexI)
qed simp_all

definition expireSweep :: "string \<Rightarrow> time \<Rightarrow> db \<Rightarrow> string list \<times> db" where
  "expireSweep requestId now d =
     (map rq_id (filter (expire_due requestId) (requests d)), snd (expireQueuedRequest requestId now d))"

interpretation expire_sweep: request_sweep "expireSweep requestId" "\<lambda>now d. expire_due requestId"
    "set_timed_out QueueTimeoutStatus QueueTimeout"
  for requestId
  by standard (auto simp: expireSweep_def expireQueuedRequest_def expire_due_def)


section \<open>Facts\<close>

lemma enqueueRequest_Inr:
  "enqueueRequest now inp d = Inr d' \<longleftrightarrow>
   request_by d (eq_id inp) = None \<and> d' = d\<lparr>requests := requests d @ [queued_row now inp]\<rparr>"
  by (auto simp: enqueueRequest_def)

lemma db_ok_enqueueRequest:
  assumes "db_ok d" "enqueueRequest now inp d = Inr d'"
  shows "db_ok d'"
  using assms
  by (auto simp: enqueueRequest_Inr db_ok_def db_keys_ok_def db_refs_ok_def db_checks_ok_def
      model_exists_def unique_key_append request_by_def queued_row_def)

lemma markStreamStarted_frame [frame_simps, simp]:
  "replicas (markStreamStarted k p now d) = replicas d" "models (markStreamStarted k p now d) = models d"
  "affinities (markStreamStarted k p now d) = affinities d" "signals (markStreamStarted k p now d) = signals d"
  by (simp_all add: markStreamStarted_def)

lemma recordTokenEmitted_frame [frame_simps, simp]:
  "replicas (recordTokenEmitted k now d) = replicas d" "models (recordTokenEmitted k now d) = models d"
  "affinities (recordTokenEmitted k now d) = affinities d" "signals (recordTokenEmitted k now d) = signals d"
  by (simp_all add: recordTokenEmitted_def)

lemma db_ok_markStreamStarted: "db_ok d \<Longrightarrow> db_ok (markStreamStarted k p now d)"
  by (simp add: markStreamStarted_def db_ok_update_requests)

lemma db_ok_recordTokenEmitted: "db_ok d \<Longrightarrow> db_ok (recordTokenEmitted k now d)"
  by (simp add: recordTokenEmitted_def db_ok_update_requests)

lemma request_by_markStreamStarted:
  "request_by (markStreamStarted k p now d) j =
   map_option (\<lambda>r. if rq_id r = k then r\<lparr>rq_status := Streaming, rq_replica_id := Some p,
     rq_started_at := Some now, rq_last_token_at := Some now\<rparr> else r) (request_by d j)"
  by (simp add: markStreamStarted_def request_by_update_requests)

lemma request_by_recordTokenEmitted:
  "request_by (recordTokenEmitted k now d) j =
   map_option (\<lambda>r. if rq_id r = k then r\<lparr>rq_last_token_at := Some now,
     rq_first_token_at := coalesce (rq_first_token_at r) (Some now)\<rparr> else r) (request_by d j)"
  by (simp add: recordTokenEmitted_def request_by_update_requests)

text \<open>The replica whose slot a request holds, as completion reads it.\<close>

definition held_replica :: "db \<Rightarrow> string \<Rightarrow> string option" where
  "held_replica d k =
     (case request_by d k of None \<Rightarrow> None
      | Some r \<Rightarrow> (case rq_replica_id r of None \<Rightarrow> None | Some p \<Rightarrow> if p = '''' then None else Some p))"

lemma completed_row_simps [simp]:
  "rq_id (completed_row n c now r) = rq_id r" "rq_replica_id (completed_row n c now r) = rq_replica_id r"
  "rq_status (completed_row n c now r) = Completed" "rq_error_code (completed_row n c now r) = rq_error_code r"
  "rq_output_tokens (completed_row n c now r) = n"
  by (simp_all add: completed_row_def)

lemma free_slot_simps [simp]:
  "rp_id (free_slot a now q r) = rp_id r" "rp_model_id (free_slot a now q r) = rp_model_id r"
  "rp_max_concurrency (free_slot a now q r) = rp_max_concurrency r"
  "rp_status (free_slot a now q r) = rp_status r"
  "rp_in_flight (free_slot a now q r) = max 0 (rp_in_flight r - 1)"
  by (simp_all add: free_slot_def)

lemma completeRequest_eq:
  "completeRequest cfg k n c now d =
     (let d1 = update_requests (\<lambda>r. rq_id r = k) (completed_row n c now) d in
      case held_replica d k of None \<Rightarrow> d1
      | Some p \<Rightarrow> update_replicas (\<lambda>r. rp_id r = p)
          (free_slot (EWMA_ALPHA cfg) now (completed_row n c now (the (request_by d k)))) d1)"
proof (cases "request_by d k")
  case None
  then show ?thesis
    by (simp add: completeRequest_def Let_def held_replica_def request_by_update_requests)
next
  case (Some r)
  with request_by_Some [OF Some] show ?thesis
    by (auto simp: completeRequest_def Let_def held_replica_def request_by_update_requests split: option.split)
qed

lemma completeRequest_frame [frame_simps, simp]:
  "models (completeRequest cfg k n c now d) = models d"
  "affinities (completeRequest cfg k n c now d) = affinities d"
  "signals (completeRequest cfg k n c now d) = signals d"
  "audit_contents (completeRequest cfg k n c now d) = audit_contents d"
  "logging_config (completeRequest cfg k n c now d) = logging_config d"
  "requests (completeRequest cfg k n c now d) = update_where (\<lambda>r. rq_id r = k) (completed_row n c now) (requests d)"
  by (simp_all add: completeRequest_eq Let_def split: option.split)

lemma db_ok_completeRequest: "db_ok d \<Longrightarrow> db_ok (completeRequest cfg k n c now d)"
  by (auto simp: completeRequest_eq Let_def db_ok_update_requests db_ok_update_replicas split: option.split)

lemma request_by_completeRequest:
  "request_by (completeRequest cfg k n c now d) j =
   map_option (\<lambda>r. if rq_id r = k then completed_row n c now r else r) (request_by d j)"
  by (simp add: request_by_def row_of_update_where)

lemma replica_by_completeRequest:
  "replica_by (completeRequest cfg k n c now d) p =
   map_option (\<lambda>r. if held_replica d k = Some p
       then free_slot (EWMA_ALPHA cfg) now (completed_row n c now (the (request_by d k))) r else r) (replica_by d p)"
  by (auto simp: completeRequest_eq Let_def replica_by_update_replicas replica_by_def map_option_case
      row_of_update_where dest: row_of_Some split: option.splits)

lemma ewma_bounds:
  assumes "0 \<le> alpha" "alpha \<le> 1"
  shows "min t s \<le> ewma alpha (Some t) s \<and> ewma alpha (Some t) s \<le> max t s"
proof -
  have "ewma alpha (Some t) s = t + alpha * (s - t)" by (simp add: ewma_def algebra_simps)
  moreover have "ewma alpha (Some t) s = s + (1 - alpha) * (t - s)" by (simp add: ewma_def algebra_simps)
  moreover have "t \<le> s \<Longrightarrow> 0 \<le> alpha * (s - t)" "s \<le> t \<Longrightarrow> alpha * (s - t) \<le> 0"
    "s \<le> t \<Longrightarrow> 0 \<le> (1 - alpha) * (t - s)" "t \<le> s \<Longrightarrow> (1 - alpha) * (t - s) \<le> 0"
    using assms by (simp_all add: mult_nonneg_nonpos mult_nonneg_nonneg)
  ultimately show ?thesis by (cases "t \<le> s") (auto simp: min_def max_def)
qed

section \<open>A stream under the clocks\<close>

text \<open>What happens to the table while one request streams: its tokens, and passes of all the sweeps.\<close>

datatype clock_event = TokenAt time | SweepAt time

definition all_sweeps :: "settings \<Rightarrow> time \<Rightarrow> db \<Rightarrow> db" where
  "all_sweeps cfg now d =
     snd (sweepFirstTokenTimeouts (FIRST_TOKEN_TIMEOUT_MS cfg) now
       (snd (sweepStallTimeouts (STALL_TIMEOUT_MS cfg) now
         (snd (sweepQueueTimeouts (QUEUE_TIMEOUT_MS cfg) now d)))))"

fun run_events :: "settings \<Rightarrow> string \<Rightarrow> clock_event list \<Rightarrow> db \<Rightarrow> db" where
  "run_events cfg k [] d = d"
| "run_events cfg k (TokenAt t # es) d = run_events cfg k es (recordTokenEmitted k t d)"
| "run_events cfg k (SweepAt t # es) d = run_events cfg k es (all_sweeps cfg t d)"

text \<open>No sweep happens later than the allowance after the last token.\<close>

fun progressing :: "int \<Rightarrow> time \<Rightarrow> clock_event list \<Rightarrow> bool" where
  "progressing allowance last_token [] = True"
| "progressing allowance last_token (TokenAt t # es) = progressing allowance t es"
| "progressing allowance last_token (SweepAt t # es) =
     (t - last_token \<le> allowance \<and> progressing allowance last_token es)"

definition generating :: "time \<Rightarrow> request_row \<Rightarrow> bool" where
  "generating t r \<longleftrightarrow> rq_status r = Streaming \<and> rq_first_token_at r \<noteq> None \<and> rq_last_token_at r = Some t"

lemma generating_sweeps:
  assumes "request_by d k = Some r" "generating t r" "now - t \<le> STALL_TIMEOUT_MS cfg"
  shows "request_by (all_sweeps cfg now d) k = Some r"
proof -
  let ?d1 = "snd (sweepQueueTimeouts (QUEUE_TIMEOUT_MS cfg) now d)"
  let ?d2 = "snd (sweepStallTimeouts (STALL_TIMEOUT_MS cfg) now ?d1)"
  have 1: "request_by ?d1 k = Some r"
    using assms by (simp add: queue_sweep.row_after queue_due_def generating_def)
  have 2: "request_by ?d2 k = Some r"
    using stall_sweep.active_untouched [OF 1] assms by (simp add: generating_def)
  have "\<not> first_token_due f now d' r" for f d'
    using assms(2) by (auto simp: first_token_due_def generating_def list_ex_iff)
  with 2 show ?thesis by (simp add: all_sweeps_def first_token_sweep.row_after)
qed


section \<open>Properties\<close>

definition ex_stream :: request_row where
  "ex_stream = (ex_row ''q0'' ''ornith'' Streaming)\<lparr>rq_replica_id := Some ''p0'', rq_started_at := Some 0,
     rq_first_token_at := Some 1000, rq_last_token_at := Some 1000\<rparr>"

definition ex_stream_db :: db where
  "ex_stream_db = ex_fleet_db\<lparr>requests := [ex_stream, ex_row ''q1'' ''ornith'' Queued, ex_row ''q2'' ''ornith'' Completed]\<rparr>"

text \<open>
  A pass of any of the sweeps, or the expiry of one caller's wait, leaves the registry and the
  replicas alone, keeps the schema's constraints, never touches a request that already has its
  outcome, gives every request it touches an outcome at that time, and, run again at once, finds
  nothing to do.\<close>

theorem sweeps_close_only_live:
  assumes "db_ok d" "sweep \<in> {sweepQueueTimeouts a, sweepStallTimeouts b, sweepFirstTokenTimeouts c, expireSweep q}"
  shows "db_ok (snd (sweep now d)) \<and> replicas (snd (sweep now d)) = replicas d \<and>
         models (snd (sweep now d)) = models d \<and>
         (\<forall>k r. request_by d k = Some r \<and> \<not> live (rq_status r) \<longrightarrow> request_by (snd (sweep now d)) k = Some r) \<and>
         (\<forall>k \<in> set (fst (sweep now d)). \<exists>r. request_by (snd (sweep now d)) k = Some r \<and>
            \<not> live (rq_status r) \<and> rq_completed_at r = Some now) \<and>
         sweep now (snd (sweep now d)) = ([], snd (sweep now d))"
proof -
  consider "sweep = sweepQueueTimeouts a" | "sweep = sweepStallTimeouts b"
    | "sweep = sweepFirstTokenTimeouts c" | "sweep = expireSweep q"
    using assms(2) by blast
  then show ?thesis
  proof cases
    case 1 show ?thesis unfolding 1 by (rule queue_sweep.contract [OF assms(1)])
  next
    case 2 show ?thesis unfolding 2 by (rule stall_sweep.contract [OF assms(1)])
  next
    case 3 show ?thesis unfolding 3 by (rule first_token_sweep.contract [OF assms(1)])
  next
    case 4 show ?thesis unfolding 4 by (rule expire_sweep.contract [OF assms(1)])
  qed
qed

lemma db_ok_ex_stream_db: "db_ok ex_stream_db"
  by code_simp

lemma sweeps_close_only_live_witness:
  "fst (sweepQueueTimeouts 300000 400000 ex_stream_db) = [''q1''] \<and>
   replicas (snd (sweepQueueTimeouts 300000 400000 ex_stream_db)) = replicas ex_stream_db"
proof -
  have "fst (sweepQueueTimeouts 300000 400000 ex_stream_db) = [''q1'']" by code_simp
  with sweeps_close_only_live [OF db_ok_ex_stream_db, of "sweepQueueTimeouts 300000" 300000 0 0 "''''" 400000]
  show ?thesis by simp
qed

text \<open>
  The queue sweep reports exactly the requests that are still queued and older than the timeout,
  files them as queue timeouts, and leaves every other request as it is; the expiry of one caller's
  wait does the same to that caller's request only, and tells whether it was still queued.\<close>

theorem queue_timeouts_exact:
  assumes "db_ok d" "request_by d k = Some r"
  shows "(k \<in> set (fst (sweepQueueTimeouts timeoutMs now d)) \<longleftrightarrow>
            rq_status r = Queued \<and> rq_arrived_at r < now - timeoutMs) \<and>
         request_by (snd (sweepQueueTimeouts timeoutMs now d)) k =
           Some (if rq_status r = Queued \<and> rq_arrived_at r < now - timeoutMs
                 then r\<lparr>rq_status := QueueTimeoutStatus, rq_error_code := Some QueueTimeout, rq_completed_at := Some now\<rparr>
                 else r) \<and>
         (fst (expireQueuedRequest k now d) \<longleftrightarrow> rq_status r = Queued) \<and>
         request_by (snd (expireQueuedRequest q now d)) k =
           Some (if k = q \<and> rq_status r = Queued
                 then r\<lparr>rq_status := QueueTimeoutStatus, rq_error_code := Some QueueTimeout, rq_completed_at := Some now\<rparr>
                 else r)"
proof -
  have key: "unique_key rq_id (requests d)" using assms(1) by (simp add: db_ok_def db_keys_ok_def)
  have id: "rq_id r = k" using request_by_Some [OF assms(2)] by simp
  have "k \<in> set (fst (expireSweep k now d)) \<longleftrightarrow> rq_status r = Queued"
    using expire_sweep.reported [OF key, of k k now] assms(2) id by (auto simp: expire_due_def)
  moreover have "k \<in> set (fst (expireSweep k now d)) \<longleftrightarrow> fst (expireQueuedRequest k now d)"
    by (auto simp: expireSweep_def expireQueuedRequest_def list_ex_iff expire_due_def)
  moreover have "snd (expireQueuedRequest q now d) = snd (expireSweep q now d)"
    by (simp add: expireSweep_def)
  ultimately show ?thesis
    using queue_sweep.reported [OF key, of k timeoutMs now] assms(2) id
    by (auto simp: queue_due_def queue_sweep.row_after expire_sweep.row_after expire_due_def set_timed_out_def)
qed

lemma queue_timeouts_exact_witness:
  "fst (expireQueuedRequest ''q1'' 5 ex_stream_db) \<and>
   ''q1'' \<in> set (fst (sweepQueueTimeouts 300000 400000 ex_stream_db))"
proof -
  have r: "request_by ex_stream_db ''q1'' = Some (ex_row ''q1'' ''ornith'' Queued)" by code_simp
  have "rq_status (ex_row ''q1'' ''ornith'' Queued) = Queued" "rq_arrived_at (ex_row ''q1'' ''ornith'' Queued) = 0"
    by (simp_all add: ex_row_def)
  with queue_timeouts_exact [OF db_ok_ex_stream_db r, of 300000 400000]
    queue_timeouts_exact [OF db_ok_ex_stream_db r, of 300000 5]
  show ?thesis by simp
qed

text \<open>
  A slow but progressing generation is never cut off: as long as no pass of the sweeps comes more
  than the stall threshold after the last token, the request keeps streaming, however long it takes
  in total; and the first pass that does come later files it as a stall.\<close>

theorem progressing_stream_survives:
  assumes "request_by d k = Some r" "generating t0 r" "progressing (STALL_TIMEOUT_MS cfg) t0 evs"
  shows "\<exists>r' t. request_by (run_events cfg k evs d) k = Some r' \<and> generating t r' \<and>
           rq_replica_id r' = rq_replica_id r \<and> rq_error_code r' = rq_error_code r \<and>
           (\<forall>now. STALL_TIMEOUT_MS cfg < now - t \<longrightarrow>
              map_option rq_status (request_by (snd (sweepStallTimeouts (STALL_TIMEOUT_MS cfg) now (run_events cfg k evs d))) k)
                = Some StallTimeoutStatus)"
  using assms
proof (induction evs arbitrary: d r t0)
  case Nil
  have "STALL_TIMEOUT_MS cfg < now - t0 \<Longrightarrow> stall_due (STALL_TIMEOUT_MS cfg) now r" for now
    using Nil.prems(2) by (auto simp: generating_def stall_due_def older_than_def)
  with Nil.prems show ?case by (auto simp: stall_sweep.row_after)
next
  case (Cons e evs)
  show ?case
  proof (cases e)
    case (TokenAt t)
    let ?r = "r\<lparr>rq_last_token_at := Some t, rq_first_token_at := coalesce (rq_first_token_at r) (Some t)\<rparr>"
    have "request_by (recordTokenEmitted k t d) k = Some ?r"
      using Cons.prems(1) request_by_Some [OF Cons.prems(1)] by (simp add: request_by_recordTokenEmitted)
    moreover have "generating t ?r" using Cons.prems(2) by (auto simp: generating_def)
    moreover have "progressing (STALL_TIMEOUT_MS cfg) t evs" using Cons.prems(3) TokenAt by simp
    ultimately show ?thesis using Cons.IH [of "recordTokenEmitted k t d" ?r t] by (simp add: TokenAt)
  next
    case (SweepAt t)
    have "request_by (all_sweeps cfg t d) k = Some r"
      using generating_sweeps [OF Cons.prems(1,2)] Cons.prems(3) SweepAt by simp
    with Cons.IH [of "all_sweeps cfg t d" r t0] Cons.prems(2,3) SweepAt show ?thesis by simp
  qed
qed

lemma progressing_stream_survives_witness:
  "\<exists>r'. request_by (run_events default_settings ''q0'' [SweepAt 60000, TokenAt 61000, SweepAt 120000, TokenAt 900000]
         ex_stream_db) ''q0'' = Some r' \<and> rq_status r' = Streaming"
proof -
  have "request_by ex_stream_db ''q0'' = Some ex_stream" "generating 1000 ex_stream"
    by (simp_all add: ex_stream_db_def request_by_def row_of_def ex_stream_def ex_row_def generating_def)
  from progressing_stream_survives [OF this, of default_settings
      "[SweepAt 60000, TokenAt 61000, SweepAt 120000, TokenAt 900000]"]
  show ?thesis by (auto simp: default_settings_def generating_def)
qed

text \<open>
  A request waiting for its first token is not under the stall clock at all; it is timed out
  exactly when the allowance of the model it was routed to (the default where the model has none)
  has passed since it started.\<close>

theorem first_token_allowance_exact:
  assumes "db_ok d" "request_by d k = Some r" "rq_status r = Streaming" "rq_first_token_at r = None"
    and "rq_started_at r = Some t" "rq_routed_model r = Some (mr_id m)" "m \<in> set (models d)"
  shows "request_by (snd (sweepStallTimeouts thresholdMs now d)) k = Some r \<and>
         (k \<in> set (fst (sweepFirstTokenTimeouts defaultMs now d)) \<longleftrightarrow>
            t < now - nullish (mr_first_token_timeout_ms m) defaultMs)"
proof -
  have key: "unique_key rq_id (requests d)" "unique_key mr_id (models d)"
    using assms(1) by (simp_all add: db_ok_def db_keys_ok_def)
  have only: "m' = m" if "m' \<in> set (models d)" "mr_id m' = mr_id m" for m'
    using row_of_unique [OF key(2) that(1)] row_of_unique [OF key(2) assms(7)]
    by (metis option.inject that(2))
  have "list_ex (\<lambda>m'. rq_routed_model r = Some (mr_id m') \<and> P m') (models d) \<longleftrightarrow> P m" for P
    unfolding list_ex_iff assms(6) using only assms(7) by (metis option.inject)
  then have "first_token_due defaultMs now d r \<longleftrightarrow> t < now - nullish (mr_first_token_timeout_ms m) defaultMs"
    unfolding first_token_due_def by (simp add: assms(3-5) older_than_def)
  then show ?thesis
    using first_token_sweep.reported [OF key(1), of k defaultMs now] assms(2,4)
    by (auto simp: stall_sweep.row_after stall_due_def)
qed

lemma first_token_allowance_exact_witness:
  "let r = ex_stream\<lparr>rq_first_token_at := None\<rparr>; d = ex_fleet_db\<lparr>requests := [r]\<rparr> in
     request_by (snd (sweepStallTimeouts 60000 500000 d)) ''q0'' = Some r \<and>
     ''q0'' \<notin> set (fst (sweepFirstTokenTimeouts 600000 500000 d))"
proof -
  let ?r = "ex_stream\<lparr>rq_first_token_at := None\<rparr>" and ?m = "ex_alias ''ornith'' None"
  let ?d = "ex_fleet_db\<lparr>requests := [?r]\<rparr>"
  have d: "db_ok ?d" "request_by ?d ''q0'' = Some ?r" by code_simp+
  have r: "rq_status ?r = Streaming" "rq_first_token_at ?r = None" "rq_started_at ?r = Some 0"
    "rq_routed_model ?r = Some (mr_id ?m)" "?m \<in> set (models ?d)"
    by (simp_all add: ex_stream_def ex_row_def ex_alias_def ex_fleet_db_def)
  have "\<not> 0 < 500000 - nullish (mr_first_token_timeout_ms ?m) 600000" by (simp add: ex_alias_def)
  with first_token_allowance_exact [OF d r, of 60000 500000 600000] show ?thesis
    unfolding Let_def by blast
qed


text \<open>
  Completing a request gives exactly that request its outcome (with the time since it started, or
  zero), frees exactly one slot on exactly the replica it held, never below zero, and leaves every
  other request and replica as it was.\<close>

theorem completeRequest_effect:
  assumes "db_ok d" "request_by d k = Some r" "d' = completeRequest cfg k n c now d"
  shows "db_ok d' \<and>
         (\<exists>r'. request_by d' k = Some r' \<and> rq_status r' = Completed \<and> rq_completed_at r' = Some now \<and>
            rq_output_tokens r' = n \<and> rq_cost_usd r' = Some c \<and> rq_replica_id r' = rq_replica_id r \<and>
            (\<exists>ms. rq_duration_ms r' = Some ms \<and> 0 \<le> ms \<and> (\<forall>s \<le> now. rq_started_at r = Some s \<longrightarrow> ms = now - s))) \<and>
         (\<forall>j. j \<noteq> k \<longrightarrow> request_by d' j = request_by d j) \<and>
         (\<forall>p. map_option rp_in_flight (replica_by d' p) =
               map_option (\<lambda>x. if held_replica d k = Some p then max 0 (rp_in_flight x - 1) else rp_in_flight x)
                 (replica_by d p)) \<and>
         (\<forall>p. held_replica d k \<noteq> Some p \<longrightarrow> replica_by d' p = replica_by d p)"
proof -
  have "rq_id r = k" using request_by_Some [OF assms(2)] by simp
  moreover have "request_by d' j = request_by d j" if "j \<noteq> k" for j
    using that by (cases "request_by d j") (auto simp: assms(3) request_by_completeRequest dest: request_by_Some)
  moreover have "map_option rp_in_flight (replica_by d' p) =
      map_option (\<lambda>x. if held_replica d k = Some p then max 0 (rp_in_flight x - 1) else rp_in_flight x) (replica_by d p)"
    "held_replica d k \<noteq> Some p \<longrightarrow> replica_by d' p = replica_by d p" for p
    by (cases "replica_by d p"; simp add: assms(3) replica_by_completeRequest)+
  ultimately show ?thesis
    using assms(1,2) by (auto simp: assms(3) db_ok_completeRequest request_by_completeRequest completed_row_def
        split: option.split)
qed

lemma completeRequest_effect_witness:
  "map_option rp_in_flight (replica_by (completeRequest default_settings ''q0'' 90 0 31000 ex_stream_db) ''p0'') = Some 0 \<and>
   map_option rp_in_flight (replica_by (completeRequest default_settings ''q0'' 90 0 31000 ex_stream_db) ''p1'') = Some 1"
proof -
  have r: "request_by ex_stream_db ''q0'' = Some ex_stream" by code_simp
  have "map_option rp_in_flight (replica_by ex_stream_db ''p0'') = Some 1"
    "map_option rp_in_flight (replica_by ex_stream_db ''p1'') = Some 1"
    "held_replica ex_stream_db ''q0'' = Some ''p0''" by code_simp+
  with completeRequest_effect [OF db_ok_ex_stream_db r refl, of default_settings 90 0 31000]
  show ?thesis by (auto simp: map_option_case split: option.splits)
qed

text \<open>
  The throughput a replica is ranked by moves only on samples long and large enough to mean
  something, is then stamped with the time, and always lies between the previous average and the new
  sample.\<close>

theorem completeRequest_throughput:
  assumes "0 \<le> EWMA_ALPHA cfg" "EWMA_ALPHA cfg \<le> 1"
    and "request_by d k = Some r" "held_replica d k = Some p" "replica_by d p = Some x"
    and "rq_started_at r = Some s" "s \<le> now"
  shows "\<exists>x'. replica_by (completeRequest cfg k n c now d) p = Some x' \<and>
          (if 250 \<le> now - s \<and> 5 \<le> n
           then rp_tokens_per_sec_at x' = Some now \<and>
             (\<exists>v. rp_tokens_per_sec x' = Some v \<and>
               (case rp_tokens_per_sec x of
                  None \<Rightarrow> v = of_int n * 1000 / of_int (now - s)
                | Some t \<Rightarrow> min t (of_int n * 1000 / of_int (now - s)) \<le> v \<and>
                           v \<le> max t (of_int n * 1000 / of_int (now - s))))
           else rp_tokens_per_sec x' = rp_tokens_per_sec x \<and> rp_tokens_per_sec_at x' = rp_tokens_per_sec_at x)"
proof -
  let ?q = "completed_row n c now r"
  have dur: "rq_duration_ms ?q = Some (now - s)" "rq_output_tokens ?q = n"
    using assms(6,7) by (simp_all add: completed_row_def)
  then have "sampled ?q \<longleftrightarrow> 250 \<le> now - s \<and> 5 \<le> n" "throughput ?q = of_int n * 1000 / of_int (now - s)"
    by (simp_all add: sampled_def throughput_def MIN_SAMPLE_DURATION_MS_def MIN_SAMPLE_TOKENS_def)
  moreover have "replica_by (completeRequest cfg k n c now d) p = Some (free_slot (EWMA_ALPHA cfg) now ?q x)"
    using assms(3-5) by (simp add: replica_by_completeRequest)
  ultimately show ?thesis
    using ewma_bounds [OF assms(1,2), of _ "throughput ?q"]
    by (auto simp: free_slot_def ewma_def split: option.split)
qed

lemma completeRequest_throughput_witness:
  "map_option rp_tokens_per_sec_at (replica_by (completeRequest default_settings ''q0'' 90 0 30000 ex_stream_db) ''p0'')
     = Some (Some 30000)"
proof -
  have "request_by ex_stream_db ''q0'' = Some ex_stream" "held_replica ex_stream_db ''q0'' = Some ''p0''"
    "replica_by ex_stream_db ''p0'' = Some (ex_replica ''p0'' ''ornith'' 1 1)" "rq_started_at ex_stream = Some 0"
    by code_simp+
  from completeRequest_throughput [OF _ _ this, of default_settings 30000 90 0]
  show ?thesis by (auto simp: default_settings_def)
qed

text \<open>
  Completion does not look at the outcome a request already has: a request the stall sweep has
  closed and whose generation then finishes is filed as completed, and keeps the error code of the
  timeout.\<close>

theorem late_completion_keeps_error:
  assumes "db_ok d" "k \<in> set (fst (sweepStallTimeouts thresholdMs t d))"
    and "d' = completeRequest cfg k n c now (snd (sweepStallTimeouts thresholdMs t d))"
  shows "\<exists>r. request_by d' k = Some r \<and> rq_status r = Completed \<and> rq_error_code r = Some StallTimeout"
proof -
  have "unique_key rq_id (requests d)" using assms(1) by (simp add: db_ok_def db_keys_ok_def)
  from stall_sweep.reported [OF this, of k thresholdMs t] assms(2) obtain r where
    r: "request_by d k = Some r" "stall_due thresholdMs t r" by blast
  with request_by_Some [OF r(1)] show ?thesis
    by (simp add: assms(3) request_by_completeRequest stall_sweep.row_after)
qed

lemma late_completion_keeps_error_witness:
  "\<exists>r. request_by (completeRequest default_settings ''q0'' 9 0 99000 (snd (sweepStallTimeouts 60000 70000 ex_stream_db))) ''q0''
     = Some r \<and> rq_status r = Completed \<and> rq_error_code r = Some StallTimeout"
proof -
  have "''q0'' \<in> set (fst (sweepStallTimeouts 60000 70000 ex_stream_db))" by code_simp
  from late_completion_keeps_error [OF db_ok_ex_stream_db this refl] show ?thesis .
qed

end
