(* ===== verification/Placement.thy ===== *)
theory Placement
  imports Queue
begin

text \<open>
  Least-loaded placement, \<open>server/src/scheduler/place-request.ts\<close>. The rows that other transactions
  hold locked at the moment of a claim, which \<open>FOR UPDATE SKIP LOCKED\<close> passes over, are the
  parameter \<open>locked\<close> (a list of replica ids); the theorems hold for every such list. Texts are ordered
  by code unit.
\<close>

datatype place_result = Placed replica bool | NeedsQueue

definition toReplica :: "replica_row \<Rightarrow> replica" where
  "toReplica r =
     \<lparr>rep_id = rp_id r, rep_modelId = rp_model_id r, rep_status = rp_status r,
      rep_inFlight = rp_in_flight r, rep_loadPct = rp_load_pct r,
      rep_tokensPerSec = rp_tokens_per_sec r, rep_endpointUrl = rp_endpoint_url r\<rparr>"

section \<open>Claiming a slot\<close>

definition claimable :: "string \<Rightarrow> replica_row \<Rightarrow> bool" where
  "claimable modelId r \<longleftrightarrow>
     rp_model_id r = modelId \<and> rp_status r = Ready \<and> rp_in_flight r < rp_max_concurrency r"

definition take_slot :: "time \<Rightarrow> replica_row \<Rightarrow> replica_row" where
  "take_slot now r = r\<lparr>rp_in_flight := rp_in_flight r + 1, rp_updated_at := now\<rparr>"

text \<open>A claim of the selected row: the row before the increment, and the table after it.\<close>

definition claim_row :: "time \<Rightarrow> replica_row option \<Rightarrow> db \<Rightarrow> replica_row option \<times> db" where
  "claim_row now selected d =
     (case selected of
        None \<Rightarrow> (None, d)
      | Some s \<Rightarrow> (Some s, update_replicas (\<lambda>r. rp_id r = rp_id s) (take_slot now) d))"

definition claimAffine :: "string list \<Rightarrow> string \<Rightarrow> time \<Rightarrow> string \<Rightarrow> db \<Rightarrow> replica_row option \<times> db" where
  "claimAffine locked target now modelId d =
     claim_row now
       (find (\<lambda>r. rp_id r = target \<and> claimable modelId r \<and> rp_id r \<notin> set locked) (replicas d)) d"

text \<open>The throughput that counts: a measurement that has aged out is no measurement.\<close>

definition fresh_throughput :: "settings \<Rightarrow> time \<Rightarrow> replica_row \<Rightarrow> rat option" where
  "fresh_throughput cfg now r =
     (case rp_tokens_per_sec_at r of
        None \<Rightarrow> None
      | Some t \<Rightarrow> if now - THROUGHPUT_FRESH_MS cfg < t then rp_tokens_per_sec r else None)"

text \<open>\<open>DESC NULLS FIRST\<close>, as an ascending key.\<close>

definition desc_nulls_first :: "rat option \<Rightarrow> nat \<times> rat" where
  "desc_nulls_first t = (case t of None \<Rightarrow> (0, 0) | Some v \<Rightarrow> (1, - v))"

definition placement_key :: "settings \<Rightarrow> time \<Rightarrow> replica_row \<Rightarrow> int \<times> (nat \<times> rat) \<times> rat \<times> string" where
  "placement_key cfg now r =
     (rp_in_flight r, desc_nulls_first (fresh_throughput cfg now r), rp_load_pct r, rp_id r)"

definition candidates :: "string list \<Rightarrow> string \<Rightarrow> db \<Rightarrow> replica_row list" where
  "candidates locked modelId d =
     filter (\<lambda>r. claimable modelId r \<and> rp_id r \<notin> set locked) (replicas d)"

definition claimLeastLoaded :: "settings \<Rightarrow> string list \<Rightarrow> time \<Rightarrow> string \<Rightarrow> db \<Rightarrow> replica_row option \<times> db" where
  "claimLeastLoaded cfg locked now modelId d =
     claim_row now
       (case sort_key (placement_key cfg now) (candidates locked modelId d) of [] \<Rightarrow> None | r # _ \<Rightarrow> Some r) d"

section \<open>Placement\<close>

definition usable_key :: "settings \<Rightarrow> string option \<Rightarrow> string option" where
  "usable_key cfg affinityKey =
     (case affinityKey of None \<Rightarrow> None | Some k \<Rightarrow> if k \<noteq> '''' \<and> affinityEnabled cfg then Some k else None)"

definition affinity_target :: "settings \<Rightarrow> time \<Rightarrow> string option \<Rightarrow> string \<Rightarrow> db \<Rightarrow> string option" where
  "affinity_target cfg now affinityKey modelId d =
     (case usable_key cfg affinityKey of
        None \<Rightarrow> None
      | Some k \<Rightarrow> (case lookupAffinity cfg now k modelId d of
                    None \<Rightarrow> None | Some t \<Rightarrow> if t = '''' then None else Some t))"

definition remember :: "settings \<Rightarrow> time \<Rightarrow> string option \<Rightarrow> string \<Rightarrow> string \<Rightarrow> db \<Rightarrow> db" where
  "remember cfg now affinityKey modelId replicaId d =
     (case usable_key cfg affinityKey of None \<Rightarrow> d | Some k \<Rightarrow> recordAffinity now k modelId replicaId d)"

definition signal_if_idle :: "keda_client \<Rightarrow> time \<Rightarrow> string \<Rightarrow> replica_row \<Rightarrow> db \<Rightarrow> db" where
  "signal_if_idle keda now modelId before d =
     (if rp_in_flight before = 0 then requestScaleUp keda now modelId d else d)"

definition placeLeastLoaded ::
  "keda_client \<Rightarrow> settings \<Rightarrow> string list \<Rightarrow> time \<Rightarrow> string \<Rightarrow> string option \<Rightarrow> db \<Rightarrow> place_result \<times> db" where
  "placeLeastLoaded keda cfg locked now modelId affinityKey d =
     (case claimLeastLoaded cfg locked now modelId d of
        (None, d1) \<Rightarrow> (NeedsQueue, d1)
      | (Some row, d1) \<Rightarrow>
          (Placed (toReplica (take_slot now row)) False,
           signal_if_idle keda now modelId row (remember cfg now affinityKey modelId (rp_id row) d1)))"

definition placeRequest ::
  "keda_client \<Rightarrow> settings \<Rightarrow> string list \<Rightarrow> time \<Rightarrow> string \<Rightarrow> string option \<Rightarrow> db \<Rightarrow> place_result \<times> db" where
  "placeRequest keda cfg locked now modelId affinityKey d =
     (case affinity_target cfg now affinityKey modelId d of
        None \<Rightarrow> placeLeastLoaded keda cfg locked now modelId affinityKey d
      | Some target \<Rightarrow>
          (case claimAffine locked target now modelId d of
             (None, d1) \<Rightarrow> placeLeastLoaded keda cfg locked now modelId affinityKey d1
           | (Some row, d1) \<Rightarrow>
               (Placed (toReplica (take_slot now row)) True,
                remember cfg now affinityKey modelId (rp_id row) (signal_if_idle keda now modelId row d1))))"

section \<open>What a claim promises\<close>

definition within_capacity :: "db \<Rightarrow> bool" where
  "within_capacity d \<longleftrightarrow> (\<forall>r \<in> set (replicas d). 0 \<le> rp_in_flight r \<and> rp_in_flight r \<le> rp_max_concurrency r)"

definition total_in_flight :: "db \<Rightarrow> int" where
  "total_in_flight d = sum_list (map rp_in_flight (replicas d))"

lemma take_slot_simps [simp]:
  "rp_id (take_slot now r) = rp_id r" "rp_model_id (take_slot now r) = rp_model_id r"
  "rp_max_concurrency (take_slot now r) = rp_max_concurrency r" "rp_status (take_slot now r) = rp_status r"
  "rp_in_flight (take_slot now r) = rp_in_flight r + 1"
  by (simp_all add: take_slot_def)

locale slot_claim =
  fixes claim :: "time \<Rightarrow> string \<Rightarrow> db \<Rightarrow> replica_row option \<times> db"
  assumes claim_None: "claim now m d = (None, d') \<Longrightarrow> d' = d"
    and claim_Some: "claim now m d = (Some row, d') \<Longrightarrow>
      row \<in> set (replicas d) \<and> claimable m row \<and>
      d' = update_replicas (\<lambda>r. rp_id r = rp_id row) (take_slot now) d"
begin

lemma frame:
  assumes "claim now m d = (res, d')"
  shows "models d' = models d" "requests d' = requests d" "affinities d' = affinities d" "signals d' = signals d"
  using assms claim_None claim_Some by (cases res; fastforce)+

lemma keeps_db_ok: "claim now m d = (res, d') \<Longrightarrow> db_ok d \<Longrightarrow> db_ok d'"
  using claim_None [of now m d d'] claim_Some [of now m d _ d']
  by (cases res) (auto intro!: db_ok_update_replicas)

text \<open>A slot is only handed out where there is one: the ceiling of no replica is passed.\<close>

lemma keeps_capacity:
  assumes "claim now m d = (res, d')" "unique_key rp_id (replicas d)" "within_capacity d"
  shows "within_capacity d'"
proof (cases res)
  case None
  with assms claim_None [of now m d d'] show ?thesis by simp
next
  case (Some row)
  with claim_Some assms(1) have c: "row \<in> set (replicas d)" "claimable m row"
    "d' = update_replicas (\<lambda>r. rp_id r = rp_id row) (take_slot now) d" by blast+
  have "r = row" if "r \<in> set (replicas d)" "rp_id r = rp_id row" for r
    using row_of_unique [OF assms(2) that(1)] row_of_unique [OF assms(2) c(1)]
    by (metis option.inject that(2))
  with c(2) have "rp_in_flight r < rp_max_concurrency r" if "r \<in> set (replicas d)" "rp_id r = rp_id row" for r
    using that by (metis claimable_def)
  with assms(3) show ?thesis
    by (auto simp: c(3) within_capacity_def set_update_where add1_zle_eq)
qed

lemma takes_one_slot:
  assumes "claim now m d = (Some row, d')" "unique_key rp_id (replicas d)"
  shows "replica_by d (rp_id row) = Some row" "replica_by d' (rp_id row) = Some (take_slot now row)"
    "p \<noteq> rp_id row \<Longrightarrow> replica_by d' p = replica_by d p"
    "total_in_flight d' = total_in_flight d + 1"
proof -
  from claim_Some [OF assms(1)] have c: "row \<in> set (replicas d)"
    "d' = update_replicas (\<lambda>r. rp_id r = rp_id row) (take_slot now) d" by blast+
  show row: "replica_by d (rp_id row) = Some row"
    using row_of_unique [OF assms(2) c(1)] by (simp add: replica_by_def)
  then show "replica_by d' (rp_id row) = Some (take_slot now row)"
    by (simp add: c(2) replica_by_update_replicas)
  show "p \<noteq> rp_id row \<Longrightarrow> replica_by d' p = replica_by d p"
    by (cases "replica_by d p") (auto simp: c(2) replica_by_update_replicas dest: replica_by_Some)
  show "total_in_flight d' = total_in_flight d + 1"
    by (simp add: total_in_flight_def c(2) sum_list_update_unique [OF assms(2) c(1)])
qed

end

lemma claim_row_None: "claim_row now sel d = (None, d') \<longleftrightarrow> sel = None \<and> d' = d"
  by (auto simp: claim_row_def split: option.splits)

lemma claim_row_Some:
  "claim_row now sel d = (Some row, d') \<longleftrightarrow>
   sel = Some row \<and> d' = update_replicas (\<lambda>r. rp_id r = rp_id row) (take_slot now) d"
  by (auto simp: claim_row_def split: option.splits)

interpretation affine_claim: slot_claim "claimAffine locked target" for locked target
proof (standard, goal_cases)
  case (1 now m d d')
  then show ?case by (simp add: claimAffine_def claim_row_None)
next
  case (2 now m d row d')
  then show ?case
    by (auto simp: claimAffine_def claim_row_Some find_Some_iff)
qed

lemma sort_key_hd_min:
  assumes "sort_key f xs = y # ys"
  shows "y \<in> set xs \<and> (\<forall>x \<in> set xs. f y \<le> f x)"
proof -
  have "sorted (map f (y # ys))" "set (y # ys) = set xs"
    by (metis assms sorted_sort_key) (metis assms set_sort)
  then show ?thesis by auto
qed

lemma sort_key_Nil: "sort_key f xs = [] \<longleftrightarrow> xs = []"
  by (metis length_0_conv length_sort)

interpretation least_loaded_claim: slot_claim "claimLeastLoaded cfg locked" for cfg locked
proof (standard, goal_cases)
  case (1 now m d d')
  then show ?case by (simp add: claimLeastLoaded_def claim_row_None)
next
  case (2 now m d row d')
  then show ?case
    by (auto simp: claimLeastLoaded_def claim_row_Some candidates_def split: list.splits dest!: sort_key_hd_min)
qed


section \<open>The composed placement\<close>

lemma remember_frame [frame_simps, simp]:
  "models (remember cfg now ak m p d) = models d" "replicas (remember cfg now ak m p d) = replicas d"
  "requests (remember cfg now ak m p d) = requests d" "signals (remember cfg now ak m p d) = signals d"
  by (simp_all add: remember_def split: option.split)

lemma signal_if_idle_frame [frame_simps, simp]:
  "models (signal_if_idle keda now m r d) = models d" "replicas (signal_if_idle keda now m r d) = replicas d"
  "requests (signal_if_idle keda now m r d) = requests d" "affinities (signal_if_idle keda now m r d) = affinities d"
  by (simp_all add: signal_if_idle_def)

lemma db_ok_remember: "db_ok d \<Longrightarrow> db_ok (remember cfg now ak m p d)"
  by (simp add: remember_def db_ok_recordAffinity split: option.split)

lemma db_ok_signal_if_idle: "db_ok d \<Longrightarrow> db_ok (signal_if_idle keda now m r d)"
  by (simp add: signal_if_idle_def db_ok_requestScaleUp)

lemma signals_requestScaleUp_cong:
  "signals d = signals d' \<Longrightarrow> signals (requestScaleUp keda now m d) = signals (requestScaleUp keda now m d')"
  by (cases keda) (simp_all add: signalScaleUp_def)

text \<open>
  A placement is nothing, or one claim followed by bookkeeping: the affinity of the conversation, and
  the scale-up signal when the replica was idle.
\<close>

definition claims ::
  "settings \<Rightarrow> string list \<Rightarrow> time \<Rightarrow> string \<Rightarrow> db \<Rightarrow> replica_row option \<times> db \<Rightarrow> bool" where
  "claims cfg locked now m d c \<longleftrightarrow>
     c = claimLeastLoaded cfg locked now m d \<or> (\<exists>t. c = claimAffine locked t now m d)"

lemma claims_slot:
  assumes "claims cfg locked now m d (Some row, d1)" "unique_key rp_id (replicas d)"
  shows "row \<in> set (candidates locked m d)" "replica_by d (rp_id row) = Some row"
    "replica_by d1 (rp_id row) = Some (take_slot now row)"
    "\<And>p. p \<noteq> rp_id row \<Longrightarrow> replica_by d1 p = replica_by d p"
    "total_in_flight d1 = total_in_flight d + 1"
    "requests d1 = requests d" "models d1 = models d" "affinities d1 = affinities d" "signals d1 = signals d"
    "within_capacity d \<Longrightarrow> within_capacity d1" "db_ok d \<Longrightarrow> db_ok d1"
proof -
  have "row \<in> set (candidates locked m d) \<and> replica_by d (rp_id row) = Some row \<and>
    replica_by d1 (rp_id row) = Some (take_slot now row) \<and>
    (\<forall>p. p \<noteq> rp_id row \<longrightarrow> replica_by d1 p = replica_by d p) \<and>
    total_in_flight d1 = total_in_flight d + 1 \<and> requests d1 = requests d \<and> models d1 = models d \<and>
    affinities d1 = affinities d \<and> signals d1 = signals d \<and>
    (within_capacity d \<longrightarrow> within_capacity d1) \<and> (db_ok d \<longrightarrow> db_ok d1)"
  proof (cases "(Some row, d1) = claimLeastLoaded cfg locked now m d")
    case True
    note c = True [symmetric]
    have "row \<in> set (candidates locked m d)"
      using c by (auto simp: claimLeastLoaded_def claim_row_Some split: list.splits dest!: sort_key_hd_min)
    with least_loaded_claim.takes_one_slot [OF c assms(2)] least_loaded_claim.frame [OF c]
      least_loaded_claim.keeps_capacity [OF c assms(2)] least_loaded_claim.keeps_db_ok [OF c]
    show ?thesis by blast
  next
    case False
    with assms(1) obtain t where "(Some row, d1) = claimAffine locked t now m d" by (auto simp: claims_def)
    note c = this [symmetric]
    have "row \<in> set (candidates locked m d)"
      using c by (auto simp: claimAffine_def claim_row_Some find_Some_iff candidates_def)
    with affine_claim.takes_one_slot [OF c assms(2)] affine_claim.frame [OF c]
      affine_claim.keeps_capacity [OF c assms(2)] affine_claim.keeps_db_ok [OF c]
    show ?thesis by blast
  qed
  then show "row \<in> set (candidates locked m d)" "replica_by d (rp_id row) = Some row"
    "replica_by d1 (rp_id row) = Some (take_slot now row)"
    "\<And>p. p \<noteq> rp_id row \<Longrightarrow> replica_by d1 p = replica_by d p"
    "total_in_flight d1 = total_in_flight d + 1"
    "requests d1 = requests d" "models d1 = models d" "affinities d1 = affinities d" "signals d1 = signals d"
    "within_capacity d \<Longrightarrow> within_capacity d1" "db_ok d \<Longrightarrow> db_ok d1"
    by blast+
qed

lemma claimAffine_None_same: "claimAffine locked t now m d = (None, d1) \<Longrightarrow> d1 = d"
  by (rule affine_claim.claim_None)

lemma placeRequest_NeedsQueue:
  "fst (placeRequest keda cfg locked now m ak d) = NeedsQueue \<longleftrightarrow> candidates locked m d = []"
proof -
  have ll: "fst (placeLeastLoaded keda cfg locked now m ak d) = NeedsQueue \<longleftrightarrow> candidates locked m d = []"
    by (auto simp: placeLeastLoaded_def claimLeastLoaded_def claim_row_def sort_key_Nil split: list.splits)
  show ?thesis
  proof (cases "affinity_target cfg now ak m d")
    case None
    with ll show ?thesis by (simp add: placeRequest_def)
  next
    case (Some t)
    obtain c d1 where c: "claimAffine locked t now m d = (c, d1)" by fastforce
    show ?thesis
    proof (cases c)
      case None
      with c claimAffine_None_same [of locked t now m d d1] ll Some show ?thesis
        by (simp add: placeRequest_def)
    next
      case (Some row)
      with c have "row \<in> set (candidates locked m d)"
        by (auto simp: claimAffine_def claim_row_Some find_Some_iff candidates_def)
      with Some c \<open>affinity_target cfg now ak m d = Some t\<close> show ?thesis
        by (auto simp: placeRequest_def)
    qed
  qed
qed

lemma placeRequest_queue_same:
  "placeRequest keda cfg locked now m ak d = (NeedsQueue, d') \<Longrightarrow> d' = d"
  by (auto simp: placeRequest_def placeLeastLoaded_def claimLeastLoaded_def claimAffine_def claim_row_def
      split: option.splits list.splits prod.splits)

lemma placeRequest_Placed:
  assumes "placeRequest keda cfg locked now m ak d = (Placed rep hit, d')"
  obtains row d1 where "claims cfg locked now m d (Some row, d1)" "rep = toReplica (take_slot now row)"
    "hit \<longleftrightarrow> (\<exists>t. affinity_target cfg now ak m d = Some t \<and> claimAffine locked t now m d = (Some row, d1))"
    "\<not> hit \<Longrightarrow> claimLeastLoaded cfg locked now m d = (Some row, d1)"
    "d' = signal_if_idle keda now m row (remember cfg now ak m (rp_id row) d1) \<or>
     d' = remember cfg now ak m (rp_id row) (signal_if_idle keda now m row d1)"
proof -
  note result = that
  have ll: thesis
    if ll: "placeLeastLoaded keda cfg locked now m ak d = (Placed rep hit, d')"
      and no: "\<And>t row d1. affinity_target cfg now ak m d = Some t \<Longrightarrow> claimAffine locked t now m d \<noteq> (Some row, d1)"
  proof -
    from ll obtain row d1 where "claimLeastLoaded cfg locked now m d = (Some row, d1)"
      "rep = toReplica (take_slot now row)" "\<not> hit"
      "d' = signal_if_idle keda now m row (remember cfg now ak m (rp_id row) d1)"
      by (auto simp: placeLeastLoaded_def split: option.splits prod.splits)
    with no show thesis by (intro result [of row d1]) (auto simp: claims_def)
  qed
  show thesis
  proof (cases "affinity_target cfg now ak m d")
    case None
    with assms ll show ?thesis by (simp add: placeRequest_def)
  next
    case (Some t)
    obtain c d1 where c: "claimAffine locked t now m d = (c, d1)" by fastforce
    show ?thesis
    proof (cases c)
      case None
      with c claimAffine_None_same [of locked t now m d d1]
      have none: "claimAffine locked t now m d = (None, d)" by simp
      with Some assms have "placeLeastLoaded keda cfg locked now m ak d = (Placed rep hit, d')"
        by (simp add: placeRequest_def)
      then show ?thesis by (rule ll) (use none Some in auto)
    next
      case (Some row)
      with c assms \<open>affinity_target cfg now ak m d = Some t\<close>
      have "rep = toReplica (take_slot now row)" "hit" "claimAffine locked t now m d = (Some row, d1)"
        "d' = remember cfg now ak m (rp_id row) (signal_if_idle keda now m row d1)"
        by (auto simp: placeRequest_def)
      moreover from c Some have "claims cfg locked now m d (Some row, d1)"
        unfolding claims_def by metis
      ultimately show ?thesis
        using \<open>affinity_target cfg now ak m d = Some t\<close> by (intro result [of row d1]) auto
    qed
  qed
qed


lemma claimAffine_possible:
  assumes "unique_key rp_id (replicas d)"
  shows "(\<exists>row d1. claimAffine locked t now m d = (Some row, d1)) \<longleftrightarrow>
      (\<exists>row. replica_by d t = Some row \<and> claimable m row \<and> t \<notin> set locked)"
proof
  assume "\<exists>row d1. claimAffine locked t now m d = (Some row, d1)"
  then obtain row d1 where c: "claimAffine locked t now m d = (Some row, d1)" by blast
  then have "rp_id row = t" "claimable m row" "t \<notin> set locked"
    by (auto simp: claimAffine_def claim_row_Some find_Some_iff)
  with affine_claim.takes_one_slot(1) [OF c assms]
  show "\<exists>row. replica_by d t = Some row \<and> claimable m row \<and> t \<notin> set locked" by blast
next
  assume "\<exists>row. replica_by d t = Some row \<and> claimable m row \<and> t \<notin> set locked"
  then obtain row where "replica_by d t = Some row" "claimable m row" "t \<notin> set locked" by blast
  with request_by_Some replica_by_Some [of d t row]
  have "find (\<lambda>r. rp_id r = t \<and> claimable m r \<and> rp_id r \<notin> set locked) (replicas d) \<noteq> None"
    by (auto simp: find_None_iff)
  then show "\<exists>row d1. claimAffine locked t now m d = (Some row, d1)"
    by (auto simp: claimAffine_def claim_row_Some)
qed

lemma signals_placed:
  fixes d d1 d' :: db
  assumes "signals d1 = signals d"
    and "d' = signal_if_idle keda now m row (remember cfg now ak m p d1) \<or>
         d' = remember cfg now ak m p (signal_if_idle keda now m row d1)"
  shows "signals d' = (if rp_in_flight row = 0 then signals (requestScaleUp keda now m d) else signals d)"
proof -
  have "signals (signal_if_idle keda now m row e) =
        (if rp_in_flight row = 0 then signals (requestScaleUp keda now m d) else signals d)"
    if "signals e = signals d" for e
    using that signals_requestScaleUp_cong [OF that] by (simp add: signal_if_idle_def)
  with assms show ?thesis by (metis remember_frame(4))
qed

lemma lookup_remembered:
  fixes d d1 d' :: db
  assumes "unique_key af_key (affinities d)" "usable_key cfg (Some k) = Some k" "0 < AFFINITY_TTL_MS cfg"
    and "affinities d1 = affinities d"
    and "d' = signal_if_idle keda now m row (remember cfg now (Some k) m p d1) \<or>
         d' = remember cfg now (Some k) m p (signal_if_idle keda now m row d1)"
  shows "lookupAffinity cfg now k m d' = Some p"
proof -
  have "affinities d' = affinities (recordAffinity now k m p d)"
    using assms(4,5) by (auto simp: remember_def assms(2) recordAffinity_def)
  then have "lookupAffinity cfg now k m d' = lookupAffinity cfg now k m (recordAffinity now k m p d)"
    by (simp add: lookupAffinity_def)
  also have "\<dots> = Some p"
    using assms(3) affinity_store.ok_store [OF assms(1), of k "(m, p, now)"]
    by (simp add: recordAffinity_store lookupAffinity_entry affinity_store.lookup_same [OF assms(1)])
  finally show ?thesis .
qed

section \<open>Properties\<close>

definition ex_fleet3 :: db where
  "ex_fleet3 = ex_fleet_db\<lparr>replicas :=
     [ex_replica ''p0'' ''ornith'' 1 2,
      (ex_replica ''p1'' ''ornith'' 0 2)\<lparr>rp_tokens_per_sec := Some 40, rp_tokens_per_sec_at := Some 990000\<rparr>,
      (ex_replica ''p2'' ''ornith'' 0 2)\<lparr>rp_tokens_per_sec := Some 9, rp_tokens_per_sec_at := Some 100\<rparr>,
      ex_replica ''p3'' ''other'' 0 2],
     affinities := [\<lparr>af_key = ''conv'', af_model_id = ''ornith'', af_replica_id = ''p0'', af_last_used_at = 900000\<rparr>]\<rparr>"

lemma db_ok_ex_fleet3: "db_ok (ex_fleet3\<lparr>models := ex_alias ''other'' None # models ex_fleet3\<rparr>)"
  by code_simp

text \<open>
  A request is sent to the queue exactly when no ready replica of its model that is not locked by
  another placement has a free slot, and then nothing is changed; otherwise it is placed.\<close>

theorem placeRequest_queues_iff_full:
  "(fst (placeRequest keda cfg locked now m ak d) = NeedsQueue \<longleftrightarrow>
      \<not> (\<exists>r \<in> set (replicas d). rp_model_id r = m \<and> rp_status r = Ready \<and>
            rp_in_flight r < rp_max_concurrency r \<and> rp_id r \<notin> set locked)) \<and>
   (fst (placeRequest keda cfg locked now m ak d) = NeedsQueue \<longrightarrow>
      snd (placeRequest keda cfg locked now m ak d) = d)"
proof -
  have "candidates locked m d = [] \<longleftrightarrow>
        \<not> (\<exists>r \<in> set (replicas d). rp_model_id r = m \<and> rp_status r = Ready \<and>
              rp_in_flight r < rp_max_concurrency r \<and> rp_id r \<notin> set locked)"
    by (auto simp: candidates_def filter_empty_conv claimable_def)
  moreover have "fst (placeRequest keda cfg locked now m ak d) = NeedsQueue \<Longrightarrow>
      snd (placeRequest keda cfg locked now m ak d) = d"
    by (rule placeRequest_queue_same [of keda cfg locked now m ak]) (simp add: prod_eq_iff)
  ultimately show ?thesis by (auto simp: placeRequest_NeedsQueue)
qed

lemma placeRequest_queues_iff_full_witness:
  "snd (placeRequest NoopKedaClient default_settings [''p0'', ''p1'', ''p2''] 1000000 ''ornith'' None ex_fleet3) = ex_fleet3"
proof -
  have "fst (placeRequest NoopKedaClient default_settings [''p0'', ''p1'', ''p2''] 1000000 ''ornith'' None ex_fleet3) = NeedsQueue"
    by code_simp
  with placeRequest_queues_iff_full [of NoopKedaClient default_settings "[''p0'', ''p1'', ''p2'']" 1000000 "''ornith''" None ex_fleet3]
  show ?thesis by simp
qed

text \<open>
  C17: a placement takes exactly one slot, on exactly the replica it names, that was ready and below its
  ceiling; no replica ever goes above its ceiling, no request row and no other replica changes, and
  the autoscaler is signalled exactly when the replica had been idle.
\<close>

theorem placeRequest_takes_one_slot:
  assumes "db_ok d" "placeRequest keda cfg locked now m ak d = (Placed rep hit, d')"
  shows "\<exists>row. replica_by d (rep_id rep) = Some row \<and> claimable m row \<and> rep_id rep \<notin> set locked \<and>
           rep_inFlight rep = rp_in_flight row + 1 \<and> rep_endpointUrl rep = rp_endpoint_url row \<and>
           replica_by d' (rep_id rep) = Some (take_slot now row) \<and>
           (\<forall>p. p \<noteq> rep_id rep \<longrightarrow> replica_by d' p = replica_by d p) \<and>
           total_in_flight d' = total_in_flight d + 1 \<and>
           (within_capacity d \<longrightarrow> within_capacity d') \<and>
           db_ok d' \<and> requests d' = requests d \<and> models d' = models d \<and>
           signals d' = (if rp_in_flight row = 0 then signals (requestScaleUp keda now m d) else signals d)"
proof -
  have key: "unique_key rp_id (replicas d)" using assms(1) by (simp add: db_ok_def db_keys_ok_def)
  from placeRequest_Placed [OF assms(2)] obtain row d1 where
    c: "claims cfg locked now m d (Some row, d1)" and rep: "rep = toReplica (take_slot now row)" and
    d': "d' = signal_if_idle keda now m row (remember cfg now ak m (rp_id row) d1) \<or>
         d' = remember cfg now ak m (rp_id row) (signal_if_idle keda now m row d1)"
    by metis
  note f = claims_slot [OF c key]
  have repf: "rep_id rep = rp_id row" "rep_inFlight rep = rp_in_flight row + 1"
    "rep_endpointUrl rep = rp_endpoint_url row"
    by (simp_all add: rep toReplica_def take_slot_def)
  have same: "replicas d' = replicas d1" "requests d' = requests d1" "models d' = models d1"
    using d' by auto
  have rd: "replica_by d' = replica_by d1" by (rule replica_by_cong) (rule same)
  have "db_ok d'" using d' f(11) [OF assms(1)] by (auto simp: db_ok_signal_if_idle db_ok_remember)
  moreover have "signals d' = (if rp_in_flight row = 0 then signals (requestScaleUp keda now m d) else signals d)"
    by (rule signals_placed [OF f(9) d'])
  moreover have "within_capacity d' = within_capacity d1" "total_in_flight d' = total_in_flight d1"
    by (simp_all only: within_capacity_def total_in_flight_def same)
  moreover from this have "within_capacity d \<longrightarrow> within_capacity d'" "total_in_flight d' = total_in_flight d + 1"
    using f(5,10) by simp_all
  moreover have "claimable m row" "rp_id row \<notin> set locked" using f(1) by (simp_all add: candidates_def)
  ultimately show ?thesis
    unfolding repf rd same(2,3) f(6,7) using f(2,3,4)
    by (intro exI [of _ row] conjI refl; (assumption | blast))
qed

lemma placeRequest_takes_one_slot_witness:
  "let d = ex_fleet3\<lparr>models := ex_alias ''other'' None # models ex_fleet3\<rparr> in
   total_in_flight (snd (placeRequest NoopKedaClient default_settings [] 1000000 ''ornith'' None d)) = total_in_flight d + 1"
proof -
  let ?d = "ex_fleet3\<lparr>models := ex_alias ''other'' None # models ex_fleet3\<rparr>"
  let ?r = "placeRequest NoopKedaClient default_settings [] 1000000 ''ornith'' None ?d"
  have "fst ?r \<noteq> NeedsQueue" by code_simp
  then obtain rep hit where "?r = (Placed rep hit, snd ?r)" by (cases "fst ?r") (auto simp: prod_eq_iff)
  from placeRequest_takes_one_slot [OF db_ok_ex_fleet3 this] show ?thesis by (auto simp: Let_def)
qed

text \<open>
  Without an affinity the replica chosen is minimal among all the replicas that could take the
  request: fewest requests in flight first; among equals a replica with no measurement, or one that
  has aged out, before any measured one; then the faster; then the lower load; then the smaller id.\<close>

theorem placeRequest_least_loaded:
  assumes "placeRequest keda cfg locked now m ak d = (Placed rep False, d')"
    and "r \<in> set (replicas d)" "claimable m r" "rp_id r \<notin> set locked" "unique_key rp_id (replicas d)"
  shows "\<exists>row. replica_by d (rep_id rep) = Some row \<and>
          (rp_in_flight row < rp_in_flight r \<or>
           rp_in_flight row = rp_in_flight r \<and>
             (case (fresh_throughput cfg now row, fresh_throughput cfg now r) of
                (None, Some _) \<Rightarrow> True
              | (Some _, None) \<Rightarrow> False
              | (Some v, Some w) \<Rightarrow> w < v \<or> v = w \<and> (rp_load_pct row, rp_id row) \<le> (rp_load_pct r, rp_id r)
              | (None, None) \<Rightarrow> (rp_load_pct row, rp_id row) \<le> (rp_load_pct r, rp_id r)))"
proof -
  from placeRequest_Placed [OF assms(1)] obtain row d1 where
    c: "claimLeastLoaded cfg locked now m d = (Some row, d1)" and rep: "rep = toReplica (take_slot now row)"
    by metis
  have "r \<in> set (candidates locked m d)" using assms(2-4) by (simp add: candidates_def)
  with c have "placement_key cfg now row \<le> placement_key cfg now r" 
    by (auto simp: claimLeastLoaded_def claim_row_Some split: list.splits dest!: sort_key_hd_min)
  moreover have "replica_by d (rp_id row) = Some row"
    using least_loaded_claim.takes_one_slot(1) [OF c assms(5)] .
  ultimately show ?thesis
    by (intro exI [of _ row])
      (auto simp: rep toReplica_def take_slot_def placement_key_def desc_nulls_first_def less_eq_prod_def less_prod_def
        split: option.splits)
qed

lemma placeRequest_least_loaded_witness:
  "let r = placeRequest NoopKedaClient default_settings [] 1000000 ''ornith'' None ex_fleet3 in
   \<exists>rep row. fst r = Placed rep False \<and> rep_id rep = ''p2'' \<and> replica_by ex_fleet3 (rep_id rep) = Some row \<and>
     rp_in_flight row \<le> 0"
proof -
  let ?r = "placeRequest NoopKedaClient default_settings [] 1000000 ''ornith'' None ex_fleet3"
  let ?p1 = "(ex_replica ''p1'' ''ornith'' 0 2)\<lparr>rp_tokens_per_sec := Some 40, rp_tokens_per_sec_at := Some 990000\<rparr>"
  have r: "(case fst ?r of Placed rep hit \<Rightarrow> rep_id rep = ''p2'' \<and> \<not> hit | NeedsQueue \<Rightarrow> False)" by code_simp
  then obtain rep where rep: "?r = (Placed rep False, snd ?r)" "rep_id rep = ''p2''"
    by (cases "fst ?r") (auto simp: prod_eq_iff)
  have "?p1 \<in> set (replicas ex_fleet3)" by (simp add: ex_fleet3_def)
  moreover have "claimable ''ornith'' ?p1" "unique_key rp_id (replicas ex_fleet3)" "rp_in_flight ?p1 = 0"
    by code_simp+
  ultimately obtain row where "replica_by ex_fleet3 (rep_id rep) = Some row" "rp_in_flight row \<le> 0"
    using placeRequest_least_loaded [OF rep(1), of ?p1] by fastforce
  with rep show ?thesis by (auto simp: Let_def prod_eq_iff)
qed


text \<open>
  Affinity is a preference and never a pin. A conversation returns to the replica that holds its
  cache exactly when that replica is ready, below its ceiling and not locked; otherwise it is placed
  like any other request. Either way the replica it lands on is the one remembered for its next turn.\<close>

theorem placeRequest_affinity:
  assumes "db_ok d" "affinityEnabled cfg" "k \<noteq> ''''" "0 < AFFINITY_TTL_MS cfg"
    and "placeRequest keda cfg locked now m (Some k) d = (Placed rep hit, d')"
  shows "(hit \<longleftrightarrow> (\<exists>t row. lookupAffinity cfg now k m d = Some t \<and> t \<noteq> '''' \<and> replica_by d t = Some row \<and>
                      claimable m row \<and> t \<notin> set locked)) \<and>
         (hit \<longrightarrow> lookupAffinity cfg now k m d = Some (rep_id rep)) \<and>
         (\<not> hit \<longrightarrow> fst (placeRequest keda cfg locked now m None d) = Placed rep False) \<and>
         lookupAffinity cfg now k m d' = Some (rep_id rep)"
proof -
  have key: "unique_key rp_id (replicas d)" "unique_key af_key (affinities d)"
    using assms(1) by (simp_all add: db_ok_def db_keys_ok_def)
  have use: "usable_key cfg (Some k) = Some k" using assms(2,3) by (simp add: usable_key_def)
  then have target: "affinity_target cfg now (Some k) m d = Some t \<longleftrightarrow> lookupAffinity cfg now k m d = Some t \<and> t \<noteq> ''''" for t
    by (auto simp: affinity_target_def split: option.split)
  note affine = claimAffine_possible [OF key(1)]
  from placeRequest_Placed [OF assms(5)] obtain row d1 where
    c: "claims cfg locked now m d (Some row, d1)" and rep: "rep = toReplica (take_slot now row)" and
    hit: "hit \<longleftrightarrow> (\<exists>t. affinity_target cfg now (Some k) m d = Some t \<and> claimAffine locked t now m d = (Some row, d1))" and
    miss: "\<not> hit \<Longrightarrow> claimLeastLoaded cfg locked now m d = (Some row, d1)" and
    d': "d' = signal_if_idle keda now m row (remember cfg now (Some k) m (rp_id row) d1) \<or>
         d' = remember cfg now (Some k) m (rp_id row) (signal_if_idle keda now m row d1)"
    by metis
  have id: "rep_id rep = rp_id row" by (simp add: rep toReplica_def)
  have none: "affinity_target cfg now None m d = None" by (simp add: affinity_target_def usable_key_def)
  have "lookupAffinity cfg now k m d' = Some (rep_id rep)"
    unfolding id by (rule lookup_remembered [OF key(2) use assms(4) claims_slot(8) [OF c key(1)] d'])
  moreover have "\<not> hit \<Longrightarrow> fst (placeRequest keda cfg locked now m None d) = Placed rep False"
    using miss by (simp add: placeRequest_def none placeLeastLoaded_def rep)
  moreover have "hit \<Longrightarrow> lookupAffinity cfg now k m d = Some (rep_id rep)"
    using hit by (auto simp: target id claimAffine_def claim_row_Some find_Some_iff)
  moreover have "hit \<longleftrightarrow> (\<exists>t row. lookupAffinity cfg now k m d = Some t \<and> t \<noteq> '''' \<and> replica_by d t = Some row \<and>
                      claimable m row \<and> t \<notin> set locked)"
  proof
    assume hit
    with hit affine target show "\<exists>t row. lookupAffinity cfg now k m d = Some t \<and> t \<noteq> '''' \<and>
        replica_by d t = Some row \<and> claimable m row \<and> t \<notin> set locked" by blast
  next
    assume "\<exists>t row. lookupAffinity cfg now k m d = Some t \<and> t \<noteq> '''' \<and> replica_by d t = Some row \<and>
                      claimable m row \<and> t \<notin> set locked"
    then obtain t x d2 where "affinity_target cfg now (Some k) m d = Some t" "claimAffine locked t now m d = (Some x, d2)"
      using affine target by blast
    with assms(5) show hit by (simp add: placeRequest_def)
  qed
  ultimately show ?thesis by blast
qed

lemma placeRequest_affinity_witness:
  "let d = ex_fleet3\<lparr>models := ex_alias ''other'' None # models ex_fleet3\<rparr>;
       r = placeRequest NoopKedaClient default_settings [] 1000000 ''ornith'' (Some ''conv'') d in
   \<exists>rep. fst r = Placed rep True \<and> lookupAffinity default_settings 1000000 ''conv'' ''ornith'' (snd r) = Some (rep_id rep)"
proof -
  let ?d = "ex_fleet3\<lparr>models := ex_alias ''other'' None # models ex_fleet3\<rparr>"
  let ?r = "placeRequest NoopKedaClient default_settings [] 1000000 ''ornith'' (Some ''conv'') ?d"
  have "(case fst ?r of Placed rep hit \<Rightarrow> hit | NeedsQueue \<Rightarrow> False)" by code_simp
  then obtain rep where rep: "?r = (Placed rep True, snd ?r)"
    by (cases "fst ?r") (auto simp: prod_eq_iff)
  have "affinityEnabled default_settings" "0 < AFFINITY_TTL_MS default_settings"
    by (simp_all add: default_settings_def)
  from placeRequest_affinity [OF db_ok_ex_fleet3 this(1) _ this(2) rep] rep show ?thesis
    by (auto simp: Let_def prod_eq_iff)
qed

end
