(* ===== verification/Reconcile.thy ===== *)
theory Reconcile
  imports Placement
begin

text \<open>
  The fleet: where a model's replicas are (\<open>server/src/replicas/discovery.ts\<close>), what the Kubernetes API
  says of its pods (\<open>kubernetes.ts\<close>), and the reconciler that keeps the \<open>replicas\<close> table in step with
  what the backends answer (\<open>reconcile.ts\<close>). The environment, the URL parser of the platform and every
  network answer are fields of the record \<open>world\<close>.
\<close>

section \<open>Configured endpoints\<close>

definition env_key :: "string \<Rightarrow> string" where
  "env_key modelId =
     ''MODEL_REPLICAS_'' @ map (\<lambda>c. if c = CHR ''-'' then CHR ''_'' else c) (to_upper modelId)"

definition clean_url :: "string \<Rightarrow> string" where
  "clean_url u = strip_trailing (CHR ''/'') (trim u)"

definition replicaEndpointsFor :: "(string \<Rightarrow> string option) \<Rightarrow> model_config \<Rightarrow> string list" where
  "replicaEndpointsFor env model =
     (let configured = nullish (env (env_key (m_id model))) '''';
          urls = filter (\<lambda>u. u \<noteq> '''') (map clean_url (split_on (CHR '','') configured));
          single = clean_url (m_endpointUrl model) in
      if configured \<noteq> '''' \<and> urls \<noteq> [] then urls
      else if single \<noteq> '''' then [single] else [])"

definition is_slug_char :: "char \<Rightarrow> bool" where
  "is_slug_char c \<longleftrightarrow> is_lower_az c \<or> is_digit c"

text \<open>Every run of other characters becomes one dash.\<close>

fun dash_runs :: "bool \<Rightarrow> string \<Rightarrow> string" where
  "dash_runs in_run [] = []"
| "dash_runs in_run (c # cs) =
     (if is_slug_char c then c # dash_runs False cs
      else if in_run then dash_runs True cs else CHR ''-'' # dash_runs True cs)"

definition slug :: "string \<Rightarrow> string" where
  "slug host =
     take 40 (strip_trailing (CHR ''-'') (strip_leading (CHR ''-'') (dash_runs False (to_lower host))))"

text \<open>\<open>url_parse\<close> gives the host name and the explicit port (empty when there is none), if it is a URL.\<close>

definition replicaIdFor :: "(string \<Rightarrow> (string \<times> string) option) \<Rightarrow> string \<Rightarrow> string \<Rightarrow> string" where
  "replicaIdFor url_parse modelId endpointUrl =
     (let host = (case url_parse endpointUrl of
                    None \<Rightarrow> endpointUrl
                  | Some (hostname, port) \<Rightarrow> if port \<noteq> '''' then hostname @ ''-'' @ port else hostname) in
      modelId @ ''-'' @ slug host)"

section \<open>Pods\<close>

record pod =
  pod_name :: string
  pod_deletionTimestamp :: "string option"
  pod_podIP :: "string option"
  pod_phase :: "string option"
  pod_conditions :: "(string \<times> string) list option"
  pod_restarts :: "int option list option"

record discovered_pod =
  dp_name :: string
  dp_endpointUrl :: string
  dp_ready :: bool
  dp_restartCount :: int

definition truthy :: "string option \<Rightarrow> bool" where
  "truthy s \<longleftrightarrow> s \<noteq> None \<and> s \<noteq> Some ''''"

definition routable_pod :: "pod \<Rightarrow> bool" where
  "routable_pod p \<longleftrightarrow>
     truthy (pod_podIP p) \<and> pod_phase p = Some ''Running'' \<and> \<not> truthy (pod_deletionTimestamp p)"

definition listModelPods :: "int \<Rightarrow> pod list \<Rightarrow> discovered_pod list" where
  "listModelPods port items =
     map (\<lambda>p. \<lparr>dp_name = pod_name p,
               dp_endpointUrl = ''http://'' @ nullish (pod_podIP p) '''' @ '':'' @ show_int port,
               dp_ready = list_ex (\<lambda>(ty, st). ty = ''Ready'' \<and> st = ''True'') (nullish (pod_conditions p) []),
               dp_restartCount = sum_list (map (\<lambda>n. nullish n 0) (nullish (pod_restarts p) []))\<rparr>)
       (filter routable_pod items)"

text \<open>Quantities, with NaN as \<open>None\<close>.\<close>

definition scale_number :: "rat \<Rightarrow> string \<Rightarrow> rat option" where
  "scale_number factor s = map_option (\<lambda>x. x * factor) (js_number s)"

definition parseCpuToMillicores :: "string option \<Rightarrow> rat option" where
  "parseCpuToMillicores raw =
     (case raw of
        None \<Rightarrow> Some 0
      | Some s \<Rightarrow>
          if s = '''' then Some 0
          else if ends_with ''n'' s then scale_number (1 / 1000000) (butlast s)
          else if ends_with ''u'' s then scale_number (1 / 1000) (butlast s)
          else if ends_with ''m'' s then js_number (butlast s)
          else scale_number 1000 s)"

definition MEMORY_UNITS :: "(string \<times> rat) list" where
  "MEMORY_UNITS =
     [(''Ki'', 1024), (''Mi'', 1024 ^ 2), (''Gi'', 1024 ^ 3), (''Ti'', 1024 ^ 4),
      (''K'', 1000), (''M'', 1000 ^ 2), (''G'', 1000 ^ 3), (''T'', 1000 ^ 4)]"

definition parseMemoryToBytes :: "string option \<Rightarrow> rat option" where
  "parseMemoryToBytes raw =
     (case raw of
        None \<Rightarrow> Some 0
      | Some s \<Rightarrow>
          if s = '''' then Some 0
          else (case find (\<lambda>(suffix, factor). ends_with suffix s) MEMORY_UNITS of
                  Some (suffix, factor) \<Rightarrow> scale_number factor (take (length s - length suffix) s)
                | None \<Rightarrow> js_number s))"

record pod_metrics =
  pm_name :: string
  pm_cpuMillicores :: "rat option"
  pm_memoryBytes :: "rat option"

record container_usage =
  cu_cpu :: "string option"
  cu_memory :: "string option"

fun nan_plus :: "rat option \<Rightarrow> rat option \<Rightarrow> rat option" where
  "nan_plus (Some a) (Some b) = Some (a + b)"
| "nan_plus _ _ = None"

definition nan_sum :: "rat option list \<Rightarrow> rat option" where
  "nan_sum xs = foldl nan_plus (Some 0) xs"

text \<open>
  The answer of the metrics API: \<open>None\<close> when the request failed; otherwise whether it was a success,
  and its items if the body has any.
\<close>

definition listPodMetrics ::
  "(bool \<times> (string \<times> container_usage list) list option) option \<Rightarrow> pod_metrics list option" where
  "listPodMetrics res =
     (case res of
        None \<Rightarrow> None
      | Some (ok, items) \<Rightarrow>
          if \<not> ok then None
          else map_option (map (\<lambda>(name, cs).
                 \<lparr>pm_name = name,
                  pm_cpuMillicores = nan_sum (map (\<lambda>c. parseCpuToMillicores (cu_cpu c)) cs),
                  pm_memoryBytes = nan_sum (map (\<lambda>c. parseMemoryToBytes (cu_memory c)) cs)\<rparr>)) items)"

section \<open>Probing\<close>

record probe_result =
  pr_status :: replica_status
  pr_maxConcurrency :: "int option"

text \<open>An answer is a status and its JSON body, if it has one; no answer is \<open>None\<close>.\<close>

definition probeReplica :: "(nat \<times> json option) option \<Rightarrow> probe_result" where
  "probeReplica answer =
     (case answer of
        None \<Rightarrow> \<lparr>pr_status = ErrorStatus, pr_maxConcurrency = None\<rparr>
      | Some (status, body) \<Rightarrow>
          (let maxConcurrency =
                 (case as_number (jpath ''maxConcurrency'' body) of
                    None \<Rightarrow> None
                  | Some n \<Rightarrow> if 1 \<le> n then Some \<lfloor>n\<rfloor> else None) in
           \<lparr>pr_status = (if 200 \<le> status \<and> status < 300 then Ready
                         else if status = 503 then Loading else ErrorStatus),
            pr_maxConcurrency = maxConcurrency\<rparr>))"


section \<open>One pass of the reconciler\<close>

record world =
  w_env :: "string \<Rightarrow> string option"
  w_url_parse :: "string \<Rightarrow> (string \<times> string) option"
  w_in_cluster :: bool
  w_pods :: "string \<Rightarrow> pod list option"
  w_pod_metrics :: "string \<Rightarrow> (bool \<times> (string \<times> container_usage list) list option) option"
  w_health :: "string \<Rightarrow> (nat \<times> json option) option"
  w_models :: "string \<Rightarrow> json option"

record candidate =
  ca_id :: string
  ca_endpointUrl :: string
  ca_restartCount :: "int option"

datatype reconcile_error = RowError db_error | NotANumber

record summary =
  su_models :: nat
  su_ready :: nat
  su_loading :: nat
  su_error :: nat
  su_removed :: nat

record pass =
  ps_db :: db
  ps_summary :: summary
  ps_seen :: "string list"
  ps_reports :: upstream_reports

text \<open>
  The workloads to probe, in the order their first entry appears: the entry that owns the workload where
  the registry has it.
\<close>

definition backends_of :: "model_config list \<Rightarrow> model_config list" where
  "backends_of ms =
     map (\<lambda>b. case find (\<lambda>m. m_id m = b) ms of
                 Some owner \<Rightarrow> owner
               | None \<Rightarrow> the (find (\<lambda>m. m_backendModelId m = b) ms))
       (rev (remdups (rev (map m_backendModelId ms))))"

text \<open>A failed pod list keeps the previous view of the fleet.\<close>

definition candidates_for :: "world \<Rightarrow> db \<Rightarrow> model_config \<Rightarrow> candidate list" where
  "candidates_for w d model =
     (if w_in_cluster w then
        (case w_pods w (m_backendModelId model) of
           Some items \<Rightarrow>
             map (\<lambda>p. \<lparr>ca_id = dp_name p, ca_endpointUrl = dp_endpointUrl p, ca_restartCount = Some (dp_restartCount p)\<rparr>)
               (listModelPods (m_port model) items)
         | None \<Rightarrow>
             map (\<lambda>r. \<lparr>ca_id = rp_id r, ca_endpointUrl = rp_endpoint_url r, ca_restartCount = None\<rparr>)
               (filter (\<lambda>r. rp_model_id r = m_backendModelId model) (replicas d)))
      else
        map (\<lambda>u. \<lparr>ca_id = replicaIdFor (w_url_parse w) (m_backendModelId model) u, ca_endpointUrl = u,
                  ca_restartCount = None\<rparr>)
          (replicaEndpointsFor (w_env w) model))"

definition metrics_for :: "world \<Rightarrow> model_config \<Rightarrow> string \<Rightarrow> pod_metrics option" where
  "metrics_for w model name =
     (if w_in_cluster w \<and> w_pods w (m_backendModelId model) \<noteq> None then
        (case listPodMetrics (w_pod_metrics w (m_backendModelId model)) of
           None \<Rightarrow> None
         | Some ms \<Rightarrow> map_of (rev (map (\<lambda>m. (pm_name m, m)) ms)) name)
      else None)"

definition load_percent :: "int \<Rightarrow> int \<Rightarrow> rat" where
  "load_percent inFlight slots =
     (if slots > 0 then min 100 (of_int inFlight / of_int slots * 100) else 0)"

definition new_replica ::
  "time \<Rightarrow> string \<Rightarrow> candidate \<Rightarrow> probe_result \<Rightarrow> rat option option \<Rightarrow> int option \<Rightarrow> replica_row" where
  "new_replica now backend c p cpu memory =
     \<lparr>rp_id = ca_id c, rp_model_id = backend, rp_status = pr_status p, rp_in_flight = 0, rp_load_pct = 0,
      rp_tokens_per_sec = None, rp_tokens_per_sec_at = None, rp_endpoint_url = ca_endpointUrl c,
      rp_max_concurrency = nullish (pr_maxConcurrency p) 1, rp_cpu_millicores = cpu,
      rp_memory_bytes = memory, rp_restart_count = nullish (ca_restartCount c) 0,
      rp_last_seen_at = Some now, rp_updated_at = now\<rparr>"

definition refresh_replica ::
  "time \<Rightarrow> string \<Rightarrow> candidate \<Rightarrow> probe_result \<Rightarrow> rat option option \<Rightarrow> int option \<Rightarrow> replica_row \<Rightarrow> replica_row" where
  "refresh_replica now backend c p cpu memory r =
     (let slots = nullish (pr_maxConcurrency p) (rp_max_concurrency r) in
      r\<lparr>rp_model_id := backend, rp_status := pr_status p, rp_endpoint_url := ca_endpointUrl c,
        rp_cpu_millicores := coalesce cpu (rp_cpu_millicores r),
        rp_memory_bytes := coalesce memory (rp_memory_bytes r),
        rp_restart_count := nullish (ca_restartCount c) (rp_restart_count r),
        rp_max_concurrency := slots, rp_last_seen_at := Some now,
        rp_load_pct := load_percent (rp_in_flight r) slots, rp_updated_at := now\<rparr>)"

text \<open>
  The upsert of one probed candidate. A memory figure that is NaN is refused by the column's type, a
  backend that is no registry entry by the foreign key.
\<close>

definition upsert_probe ::
  "time \<Rightarrow> string \<Rightarrow> pod_metrics option \<Rightarrow> candidate \<times> probe_result \<Rightarrow> db \<Rightarrow> reconcile_error + db" where
  "upsert_probe now backend sample probe d =
     (let (c, p) = probe;
          cpu = map_option pm_cpuMillicores sample;
          store = (\<lambda>memory.
            if \<not> model_exists d backend then Inl (RowError ForeignKeyViolation)
            else Inr (d\<lparr>replicas := upsert rp_id (new_replica now backend c p cpu memory)
                                     (refresh_replica now backend c p cpu memory) (replicas d)\<rparr>)) in
      case sample of
        None \<Rightarrow> store None
      | Some s \<Rightarrow> (case pm_memoryBytes s of None \<Rightarrow> Inl NotANumber | Some bytes \<Rightarrow> store (Some \<lfloor>bytes + 1 / 2\<rfloor>)))"

definition count_probe :: "replica_status \<Rightarrow> summary \<Rightarrow> summary" where
  "count_probe status s =
     (if status = Ready then s\<lparr>su_ready := su_ready s + 1\<rparr>
      else if status = Loading then s\<lparr>su_loading := su_loading s + 1\<rparr>
      else s\<lparr>su_error := su_error s + 1\<rparr>)"

definition reconcile_probe ::
  "world \<Rightarrow> time \<Rightarrow> model_config \<Rightarrow> candidate \<times> probe_result \<Rightarrow> pass \<Rightarrow> reconcile_error + pass" where
  "reconcile_probe w now model probe st =
     (case upsert_probe now (m_backendModelId model) (metrics_for w model (ca_id (fst probe))) probe (ps_db st) of
        Inl e \<Rightarrow> Inl e
      | Inr d \<Rightarrow> Inr (st\<lparr>ps_db := d, ps_summary := count_probe (pr_status (snd probe)) (ps_summary st),
                          ps_seen := ps_seen st @ [ca_id (fst probe)]\<rparr>))"

definition verify_names ::
  "world \<Rightarrow> model_config list \<Rightarrow> model_config \<Rightarrow> (candidate \<times> probe_result) list \<Rightarrow> upstream_reports \<Rightarrow> upstream_reports" where
  "verify_names w ms model probes reports =
     (case find (\<lambda>(c, p). pr_status p = Ready) probes of
        None \<Rightarrow> reports
      | Some (c, p) \<Rightarrow>
          (let available = listUpstreamNames (w_models w (ca_endpointUrl c)) in
           fold (\<lambda>entry reps. fst (recordUpstreamCheck (m_id entry) (checkUpstreamName entry available) reps))
             (filter (\<lambda>entry. m_backendModelId entry = m_backendModelId model) ms) reports))"

definition probe_candidate :: "world \<Rightarrow> candidate \<Rightarrow> candidate \<times> probe_result" where
  "probe_candidate w c = (c, probeReplica (w_health w (ca_endpointUrl c)))"

definition reconcile_backend ::
  "world \<Rightarrow> time \<Rightarrow> model_config list \<Rightarrow> model_config \<Rightarrow> pass \<Rightarrow> reconcile_error + pass" where
  "reconcile_backend w now ms model st =
     (let probes = map (probe_candidate w) (candidates_for w (ps_db st) model) in
      fold_sum (reconcile_probe w now model) probes
        (st\<lparr>ps_reports := verify_names w ms model probes (ps_reports st)\<rparr>))"

definition reconcileReplicas ::
  "world \<Rightarrow> time \<Rightarrow> upstream_reports \<Rightarrow> db \<Rightarrow> reconcile_error + (summary \<times> upstream_reports \<times> db)" where
  "reconcileReplicas w now reports d =
     (let ms = listModels d;
          st0 = \<lparr>ps_db = d,
                 ps_summary = \<lparr>su_models = length ms, su_ready = 0, su_loading = 0, su_error = 0, su_removed = 0\<rparr>,
                 ps_seen = [], ps_reports = reports\<rparr> in
      case fold_sum (reconcile_backend w now ms) (backends_of ms) st0 of
        Inl e \<Rightarrow> Inl e
      | Inr st \<Rightarrow>
          (let gone = (\<lambda>r. rp_id r \<notin> set (ps_seen st));
               d1 = ps_db st in
           Inr ((ps_summary st)\<lparr>su_removed := length (filter gone (replicas d1))\<rparr>, ps_reports st,
                d1\<lparr>replicas := delete_where gone (replicas d1)\<rparr>)))"


section \<open>What a pass keeps\<close>

text \<open>The scheduler owns the slots and the measurements: a pass never moves them.\<close>

definition same_schedule :: "replica_row option \<Rightarrow> replica_row \<Rightarrow> bool" where
  "same_schedule old r =
     (case old of
        None \<Rightarrow> rp_in_flight r = 0 \<and> rp_tokens_per_sec r = None \<and> rp_tokens_per_sec_at r = None
      | Some r0 \<Rightarrow> rp_in_flight r = rp_in_flight r0 \<and> rp_tokens_per_sec r = rp_tokens_per_sec r0 \<and>
                   rp_tokens_per_sec_at r = rp_tokens_per_sec_at r0)"

lemma same_scheduleD:
  "same_schedule old r' \<Longrightarrow>
   case old of
     None \<Rightarrow> rp_in_flight r' = 0 \<and> rp_tokens_per_sec r' = None
   | Some r \<Rightarrow> rp_in_flight r' = rp_in_flight r \<and> rp_tokens_per_sec r' = rp_tokens_per_sec r \<and>
               rp_tokens_per_sec_at r' = rp_tokens_per_sec_at r"
  by (auto simp: same_schedule_def split: option.splits)

text \<open>The reconciler owns the status: it is what the replica's own address last answered.\<close>

definition as_probed :: "world \<Rightarrow> time \<Rightarrow> replica_row \<Rightarrow> bool" where
  "as_probed w now r \<longleftrightarrow>
     (let p = probeReplica (w_health w (rp_endpoint_url r)) in
      rp_status r = pr_status p \<and> rp_last_seen_at r = Some now \<and>
      (\<forall>n. pr_maxConcurrency p = Some n \<longrightarrow> rp_max_concurrency r = n) \<and>
      (0 \<le> rp_in_flight r \<longrightarrow> 0 \<le> rp_load_pct r \<and> rp_load_pct r \<le> 100))"

definition pass_ok :: "world \<Rightarrow> time \<Rightarrow> db \<Rightarrow> pass \<Rightarrow> bool" where
  "pass_ok w now d0 st \<longleftrightarrow>
     db_ok (ps_db st) \<and> (\<exists>rs. ps_db st = d0\<lparr>replicas := rs\<rparr>) \<and>
     (\<forall>p r. replica_by (ps_db st) p = Some r \<longrightarrow>
        same_schedule (replica_by d0 p) r \<and> (p \<in> set (ps_seen st) \<longrightarrow> as_probed w now r)) \<and>
     (\<forall>p. p \<notin> set (ps_seen st) \<longrightarrow> replica_by (ps_db st) p = replica_by d0 p) \<and>
     (\<forall>p \<in> set (ps_seen st). replica_by (ps_db st) p \<noteq> None)"

lemma probe_max_ge1: "pr_maxConcurrency (probeReplica a) = Some n \<Longrightarrow> 1 \<le> n"
  by (auto simp: probeReplica_def Let_def le_floor_iff split: option.splits prod.splits if_splits)

lemma load_percent_bounds: "0 \<le> n \<Longrightarrow> 0 \<le> load_percent n k \<and> load_percent n k \<le> 100"
  by (simp add: load_percent_def)

lemma rp_id_upsert [simp]:
  "rp_id (new_replica now b c p cpu mem) = ca_id c"
  "rp_id (refresh_replica now b c p cpu mem r) = rp_id r"
  by (simp_all add: new_replica_def refresh_replica_def Let_def)

lemma upsert_probe_Inr:
  assumes "upsert_probe now b sample (c, p) d = Inr d'"
  obtains cpu mem where "model_exists d b"
    "d' = d\<lparr>replicas := upsert rp_id (new_replica now b c p cpu mem) (refresh_replica now b c p cpu mem) (replicas d)\<rparr>"
  using assms by (auto simp: upsert_probe_def Let_def split: option.splits if_splits)

lemma replica_by_upsert:
  assumes "upsert_probe now b sample (c, p) d = Inr d'"
  shows "\<exists>cpu mem. replica_by d' (ca_id c) =
           Some (case replica_by d (ca_id c) of None \<Rightarrow> new_replica now b c p cpu mem
                 | Some r \<Rightarrow> refresh_replica now b c p cpu mem r)"
    "k \<noteq> ca_id c \<Longrightarrow> replica_by d' k = replica_by d k"
proof -
  from upsert_probe_Inr [OF assms] obtain cpu mem where
    d': "d' = d\<lparr>replicas := upsert rp_id (new_replica now b c p cpu mem) (refresh_replica now b c p cpu mem) (replicas d)\<rparr>"
    by metis
  show "\<exists>cpu mem. replica_by d' (ca_id c) =
           Some (case replica_by d (ca_id c) of None \<Rightarrow> new_replica now b c p cpu mem
                 | Some r \<Rightarrow> refresh_replica now b c p cpu mem r)"
    using row_of_upsert_same [of rp_id "new_replica now b c p cpu mem" "refresh_replica now b c p cpu mem" "replicas d"]
    by (auto simp: d' replica_by_def)
  show "k \<noteq> ca_id c \<Longrightarrow> replica_by d' k = replica_by d k"
    using row_of_upsert_other [of rp_id "new_replica now b c p cpu mem" "refresh_replica now b c p cpu mem" k "replicas d"]
    by (simp add: d' replica_by_def)
qed

lemma db_ok_upsert_probe:
  assumes "upsert_probe now b sample (probe_candidate w c) d = Inr d'" "db_ok d"
  shows "db_ok d'"
proof -
  let ?p = "probeReplica (w_health w (ca_endpointUrl c))"
  from assms(1) upsert_probe_Inr obtain cpu mem where
    m: "model_exists d b" and
    d': "d' = d\<lparr>replicas := upsert rp_id (new_replica now b c ?p cpu mem) (refresh_replica now b c ?p cpu mem) (replicas d)\<rparr>"
    unfolding probe_candidate_def by metis
  have new: "1 \<le> rp_max_concurrency (new_replica now b c ?p cpu mem)"
    using probe_max_ge1 [of "w_health w (ca_endpointUrl c)"]
    by (cases "pr_maxConcurrency ?p") (simp_all add: new_replica_def)
  have upd: "1 \<le> rp_max_concurrency r \<Longrightarrow> 1 \<le> rp_max_concurrency (refresh_replica now b c ?p cpu mem r)" for r
    using probe_max_ge1 [of "w_health w (ca_endpointUrl c)"]
    by (cases "pr_maxConcurrency ?p") (simp_all add: refresh_replica_def Let_def)
  have model: "rp_model_id (new_replica now b c ?p cpu mem) = b" "rp_model_id (refresh_replica now b c ?p cpu mem r) = b" for r
    by (simp_all add: new_replica_def refresh_replica_def Let_def)
  have key: "unique_key rp_id (replicas d)" using assms(2) by (simp add: db_ok_def db_keys_ok_def)
  show ?thesis unfolding d'
  proof (rule db_ok_set_replicas [OF assms(2)])
    fix r assume "r \<in> set (upsert rp_id (new_replica now b c ?p cpu mem) (refresh_replica now b c ?p cpu mem) (replicas d))"
    then consider "r = new_replica now b c ?p cpu mem" | "r \<in> set (replicas d)"
      | r0 where "r0 \<in> set (replicas d)" "r = refresh_replica now b c ?p cpu mem r0"
      using set_upsert [of rp_id "new_replica now b c ?p cpu mem"] by blast
    then show "model_exists d (rp_model_id r) \<and> 1 \<le> rp_max_concurrency r"
      by cases (simp_all add: m model new upd db_ok_replica [OF assms(2)])
  qed (simp add: unique_key_upsert key)
qed

lemma as_probed_upsert:
  assumes "p = probeReplica (w_health w (ca_endpointUrl c))"
  shows "as_probed w now (new_replica now b c p cpu mem)" "as_probed w now (refresh_replica now b c p cpu mem r)"
  by (simp_all add: assms as_probed_def new_replica_def refresh_replica_def Let_def load_percent_bounds)

lemma same_schedule_upsert:
  "same_schedule None (new_replica now b c p cpu mem)"
  "same_schedule old r \<Longrightarrow> same_schedule old (refresh_replica now b c p cpu mem r)"
  by (auto simp: same_schedule_def new_replica_def refresh_replica_def Let_def split: option.splits)

lemma pass_ok_probe:
  assumes "pass_ok w now d0 st" "reconcile_probe w now model (probe_candidate w c) st = Inr st'"
  shows "pass_ok w now d0 st' \<and> set (ps_seen st') = insert (ca_id c) (set (ps_seen st))"
proof -
  let ?p = "probeReplica (w_health w (ca_endpointUrl c))"
  from assms(2) obtain d' where
    u: "upsert_probe now (m_backendModelId model) (metrics_for w model (ca_id c)) (c, ?p) (ps_db st) = Inr d'" and
    st': "ps_db st' = d'" "ps_seen st' = ps_seen st @ [ca_id c]"
    by (auto simp: reconcile_probe_def probe_candidate_def split: sum.splits)
  have frame: "\<exists>rs. d' = d0\<lparr>replicas := rs\<rparr>"
  proof -
    from assms(1) obtain rs where "ps_db st = d0\<lparr>replicas := rs\<rparr>" by (auto simp: pass_ok_def)
    moreover from upsert_probe_Inr [OF u] obtain rs' where "d' = (ps_db st)\<lparr>replicas := rs'\<rparr>" by metis
    ultimately show ?thesis by auto
  qed
  have ok: "db_ok d'"
    using db_ok_upsert_probe [OF u [folded probe_candidate_def]] assms(1) by (simp add: pass_ok_def)
  obtain r' where r': "replica_by d' (ca_id c) = Some r'" "as_probed w now r'"
      "same_schedule (replica_by d0 (ca_id c)) r'"
  proof -
    from replica_by_upsert(1) [OF u] obtain cpu mem where
      row: "replica_by d' (ca_id c) =
           Some (case replica_by (ps_db st) (ca_id c) of None \<Rightarrow> new_replica now (m_backendModelId model) c ?p cpu mem
                 | Some r \<Rightarrow> refresh_replica now (m_backendModelId model) c ?p cpu mem r)" by blast
    show thesis
    proof (cases "replica_by (ps_db st) (ca_id c)")
      case None
      then have "replica_by d0 (ca_id c) = None" using assms(1) by (metis pass_ok_def)
      moreover from row None have "replica_by d' (ca_id c) = Some (new_replica now (m_backendModelId model) c ?p cpu mem)"
        by simp
      ultimately show ?thesis using that as_probed_upsert(1) same_schedule_upsert(1) by metis
    next
      case (Some r)
      then have "same_schedule (replica_by d0 (ca_id c)) r" using assms(1) by (simp add: pass_ok_def)
      moreover from row Some
      have "replica_by d' (ca_id c) = Some (refresh_replica now (m_backendModelId model) c ?p cpu mem r)"
        by simp
      ultimately show ?thesis using that as_probed_upsert(2) same_schedule_upsert(2) by metis
    qed
  qed
  have other: "replica_by d' k = replica_by (ps_db st) k" if "k \<noteq> ca_id c" for k
    using replica_by_upsert(2) [OF u that] .
  have rows: "same_schedule (replica_by d0 k) r \<and> (k \<in> set (ps_seen st') \<longrightarrow> as_probed w now r)"
    if "replica_by d' k = Some r" for k r
    using that r' other [of k] assms(1) by (cases "k = ca_id c") (auto simp: pass_ok_def st')
  moreover have "replica_by d' k = replica_by d0 k" if "k \<notin> set (ps_seen st')" for k
    using that other [of k] assms(1) by (simp add: pass_ok_def st')
  moreover have "replica_by d' k \<noteq> None" if "k \<in> set (ps_seen st')" for k
    using that r'(1) other [of k] assms(1) by (cases "k = ca_id c") (auto simp: pass_ok_def st')
  ultimately show ?thesis
    using frame ok by (simp add: pass_ok_def st'(1)) (simp add: st'(2))
qed


lemma pass_ok_probes:
  assumes "pass_ok w now d0 st" "fold_sum (reconcile_probe w now model) (map (probe_candidate w) cs) st = Inr st'"
  shows "pass_ok w now d0 st' \<and> set (ps_seen st') = set (ps_seen st) \<union> ca_id ` set cs"
  using assms
proof (induction cs arbitrary: st)
  case Nil
  then show ?case by simp
next
  case (Cons c cs)
  from Cons.prems(2) obtain st1 where
    s: "reconcile_probe w now model (probe_candidate w c) st = Inr st1"
      "fold_sum (reconcile_probe w now model) (map (probe_candidate w) cs) st1 = Inr st'"
    by (auto split: sum.splits)
  from pass_ok_probe [OF Cons.prems(1) s(1)] Cons.IH [OF _ s(2)] show ?case by auto
qed

lemma pass_ok_backend:
  assumes "pass_ok w now d0 st" "reconcile_backend w now ms model st = Inr st'"
  shows "pass_ok w now d0 st' \<and>
         set (ps_seen st') = set (ps_seen st) \<union> ca_id ` set (candidates_for w (ps_db st) model)"
proof -
  have "pass_ok w now d0 (st\<lparr>ps_reports := reps\<rparr>)" for reps
    using assms(1) by (simp add: pass_ok_def)
  from pass_ok_probes [OF this] assms(2) show ?thesis
    by (fastforce simp: reconcile_backend_def Let_def)
qed

lemma pass_ok_backends:
  assumes "pass_ok w now d0 st" "fold_sum (reconcile_backend w now ms) bs st = Inr st'"
  shows "pass_ok w now d0 st' \<and> set (ps_seen st) \<subseteq> set (ps_seen st')"
  by (rule fold_sum_inv [OF _ _ assms(2)]) (use assms(1) pass_ok_backend in fastforce)+

definition first_pass :: "model_config list \<Rightarrow> upstream_reports \<Rightarrow> db \<Rightarrow> pass" where
  "first_pass ms reports d =
     \<lparr>ps_db = d,
      ps_summary = \<lparr>su_models = length ms, su_ready = 0, su_loading = 0, su_error = 0, su_removed = 0\<rparr>,
      ps_seen = [], ps_reports = reports\<rparr>"

lemma pass_ok_first:
  assumes "db_ok d"
  shows "pass_ok w now d (first_pass ms reports d)"
proof -
  have "\<exists>rs. d = d\<lparr>replicas := rs\<rparr>" by (rule exI [of _ "replicas d"]) simp
  moreover have "same_schedule (Some r) r" for r by (simp add: same_schedule_def)
  ultimately show ?thesis using assms by (simp add: pass_ok_def first_pass_def)
qed

text \<open>A successful pass: the rows that were seen, each as the pass left it, and no others.\<close>

lemma reconcile_Inr:
  assumes "reconcileReplicas w now reports d = Inr (s, reps, d')" "db_ok d"
  obtains st where "fold_sum (reconcile_backend w now (listModels d)) (backends_of (listModels d))
      (first_pass (listModels d) reports d) = Inr st" "pass_ok w now d st"
    "\<And>p. replica_by d' p = (if p \<in> set (ps_seen st) then replica_by (ps_db st) p else None)"
    "db_ok d'" "requests d' = requests d" "models d' = models d" "affinities d' = affinities d"
proof -
  from assms(1) obtain st where
    st: "fold_sum (reconcile_backend w now (listModels d)) (backends_of (listModels d))
      (first_pass (listModels d) reports d) = Inr st" and
    d': "d' = (ps_db st)\<lparr>replicas := delete_where (\<lambda>r. rp_id r \<notin> set (ps_seen st)) (replicas (ps_db st))\<rparr>"
    by (auto simp: reconcileReplicas_def Let_def first_pass_def split: sum.splits)
  from pass_ok_backends [OF pass_ok_first [OF assms(2)] st] have ok: "pass_ok w now d st" by simp
  then obtain rs where rs: "ps_db st = d\<lparr>replicas := rs\<rparr>" and db: "db_ok (ps_db st)"
    by (auto simp: pass_ok_def)
  have key: "unique_key rp_id (replicas (ps_db st))" using db by (simp add: db_ok_def db_keys_ok_def)
  have "db_ok d'" unfolding d'
    by (rule db_ok_set_replicas [OF db]) (use key db_ok_replica [OF db] in \<open>auto simp: unique_key_delete_where\<close>)
  moreover have "replica_by d' p = (if p \<in> set (ps_seen st) then replica_by (ps_db st) p else None)" for p
    using row_of_Some [of rp_id p "replicas (ps_db st)"]
    by (auto simp: d' replica_by_def row_of_delete_where [OF key] split: option.split)
  moreover have "requests d' = requests d" "models d' = models d" "affinities d' = affinities d"
    by (simp_all add: d' rs)
  ultimately show thesis using that [OF st ok] by blast
qed

text \<open>Which replicas a pass sees.\<close>

lemma seen_configured:
  assumes "pass_ok w now d0 st" "fold_sum (reconcile_backend w now ms) bs st = Inr st'" "\<not> w_in_cluster w"
  shows "set (ps_seen st') = set (ps_seen st) \<union>
           (\<Union>m \<in> set bs. replicaIdFor (w_url_parse w) (m_backendModelId m) ` set (replicaEndpointsFor (w_env w) m))"
  using assms(1,2)
proof (induction bs arbitrary: st)
  case Nil
  then show ?case by simp
next
  case (Cons m bs)
  from Cons.prems(2) obtain st1 where
    s: "reconcile_backend w now ms m st = Inr st1" "fold_sum (reconcile_backend w now ms) bs st1 = Inr st'"
    by (auto split: sum.splits)
  have "ca_id ` set (candidates_for w (ps_db st) m) =
        replicaIdFor (w_url_parse w) (m_backendModelId m) ` set (replicaEndpointsFor (w_env w) m)"
    using assms(3) by (auto simp: candidates_for_def image_image)
  with pass_ok_backend [OF Cons.prems(1) s(1)] Cons.IH [OF _ s(2)] show ?case by auto
qed

lemma seen_kept:
  assumes "pass_ok w now d0 st" "fold_sum (reconcile_backend w now ms) bs st = Inr st'"
    and "m \<in> set bs" "w_in_cluster w" "w_pods w (m_backendModelId m) = None"
    and "replica_by d0 p = Some r" "rp_model_id r = m_backendModelId m"
  shows "p \<in> set (ps_seen st')"
proof -
  from split_list [OF assms(3)] obtain xs ys where bs: "bs = xs @ m # ys" by blast
  from assms(2) obtain st1 st2 where
    s: "fold_sum (reconcile_backend w now ms) xs st = Inr st1" "reconcile_backend w now ms m st1 = Inr st2"
      "fold_sum (reconcile_backend w now ms) ys st2 = Inr st'"
    unfolding bs fold_sum_append by (auto split: sum.splits)
  from pass_ok_backends [OF assms(1) s(1)] have ok1: "pass_ok w now d0 st1" by simp
  from pass_ok_backend [OF ok1 s(2)] pass_ok_backends [OF _ s(3)]
  have mono: "set (ps_seen st1) \<union> ca_id ` set (candidates_for w (ps_db st1) m) \<subseteq> set (ps_seen st')" by auto
  show ?thesis
  proof (cases "p \<in> set (ps_seen st1)")
    case False
    with ok1 assms(6) have "replica_by (ps_db st1) p = Some r" by (simp add: pass_ok_def)
    with replica_by_Some [OF this] assms(4,5,7)
    have "p \<in> ca_id ` set (candidates_for w (ps_db st1) m)"
      by (auto simp: candidates_for_def image_image intro!: image_eqI [of _ _ r])
    with mono show ?thesis by blast
  qed (use mono in blast)
qed

section \<open>Properties\<close>

definition ex_world :: world where
  "ex_world =
     \<lparr>w_env = (\<lambda>k. if k = ''MODEL_REPLICAS_ORNITH'' then Some ''http://a:1, http://b:2/'' else None),
      w_url_parse = (\<lambda>u. if u = ''http://a:1'' then Some (''a'', ''1'') else if u = ''http://b:2'' then Some (''b'', ''2'') else None),
      w_in_cluster = False, w_pods = (\<lambda>_. None), w_pod_metrics = (\<lambda>_. None),
      w_health = (\<lambda>u. if u = ''http://a:1'' then Some (200, Some (JObj [(''maxConcurrency'', JNum 4)]))
                      else if u = ''http://b:2'' then Some (503, None) else None),
      w_models = (\<lambda>_. None)\<rparr>"

definition ex_before :: db where
  "ex_before = ex_fleet_db\<lparr>replicas := [ex_replica ''ornith-a-1'' ''ornith'' 1 2, ex_replica ''old'' ''ornith'' 1 1]\<rparr>"

definition reconciled :: "world \<Rightarrow> time \<Rightarrow> db \<Rightarrow> db" where
  "reconciled w now d = (case reconcileReplicas w now [] d of Inl e \<Rightarrow> d | Inr (s, reps, d') \<Rightarrow> d')"

lemma db_ok_ex_before: "db_ok ex_before"
  by code_simp

lemma ex_reconciles: "\<exists>s reps. reconcileReplicas ex_world 7 [] ex_before = Inr (s, reps, reconciled ex_world 7 ex_before)"
proof -
  have "\<not> isl (reconcileReplicas ex_world 7 [] ex_before)" by code_simp
  then show ?thesis
    by (cases "reconcileReplicas ex_world 7 [] ex_before") (auto simp: reconciled_def split: prod.splits)
qed

text \<open>
  The reconciler and the scheduler own different columns. A pass of the reconciler keeps the slots
  and the measured throughput of every replica that stays, starts every new one at zero, leaves the
  requests, the registry and the affinities alone, and keeps the schema's constraints.\<close>

theorem reconcile_keeps_schedule:
  assumes "db_ok d" "reconcileReplicas w now reports d = Inr (s, reps, d')"
  shows "db_ok d' \<and> requests d' = requests d \<and> models d' = models d \<and> affinities d' = affinities d \<and>
         (\<forall>p r'. replica_by d' p = Some r' \<longrightarrow>
           (case replica_by d p of
              None \<Rightarrow> rp_in_flight r' = 0 \<and> rp_tokens_per_sec r' = None
            | Some r \<Rightarrow> rp_in_flight r' = rp_in_flight r \<and> rp_tokens_per_sec r' = rp_tokens_per_sec r \<and>
                        rp_tokens_per_sec_at r' = rp_tokens_per_sec_at r))"
proof -
  from reconcile_Inr [OF assms(2,1)] obtain st where
    st: "pass_ok w now d st" "db_ok d'" "requests d' = requests d" "models d' = models d" "affinities d' = affinities d"
    and rows: "\<And>p. replica_by d' p = (if p \<in> set (ps_seen st) then replica_by (ps_db st) p else None)"
    by metis
  have "case replica_by d p of
              None \<Rightarrow> rp_in_flight r' = 0 \<and> rp_tokens_per_sec r' = None
            | Some r \<Rightarrow> rp_in_flight r' = rp_in_flight r \<and> rp_tokens_per_sec r' = rp_tokens_per_sec r \<and>
                        rp_tokens_per_sec_at r' = rp_tokens_per_sec_at r" if "replica_by d' p = Some r'" for p r'
  proof (rule same_scheduleD)
    show "same_schedule (replica_by d p) r'"
      using st(1) that by (auto simp: rows pass_ok_def split: if_splits)
  qed
  with st(2-5) show ?thesis by blast
qed

lemma reconcile_keeps_schedule_witness:
  "map_option rp_in_flight (replica_by (reconciled ex_world 7 ex_before) ''ornith-a-1'') = Some 1 \<and>
   requests (reconciled ex_world 7 ex_before) = requests ex_before"
proof -
  from ex_reconciles obtain s reps where
    "reconcileReplicas ex_world 7 [] ex_before = Inr (s, reps, reconciled ex_world 7 ex_before)" by blast
  note k = reconcile_keeps_schedule [OF db_ok_ex_before this]
  have "replica_by (reconciled ex_world 7 ex_before) ''ornith-a-1'' \<noteq> None"
    "map_option rp_in_flight (replica_by ex_before ''ornith-a-1'') = Some 1" by code_simp+
  with k show ?thesis by (fastforce split: option.splits)
qed

text \<open>
  After a pass, every replica's status is what its own address answered just now: ready exactly
  when its health endpoint answered with success, so that placement only ever targets such replicas.
  A reported ceiling is adopted, every ceiling is at least one, and the load is a percentage.\<close>

theorem reconcile_reflects_probes:
  assumes "db_ok d" "reconcileReplicas w now reports d = Inr (s, reps, d')" "replica_by d' p = Some r"
  shows "(rp_status r = Ready \<longleftrightarrow>
            (\<exists>status body. w_health w (rp_endpoint_url r) = Some (status, body) \<and> 200 \<le> status \<and> status < 300)) \<and>
         (\<forall>m. claimable m r \<longrightarrow> w_health w (rp_endpoint_url r) \<noteq> None) \<and>
         rp_last_seen_at r = Some now \<and> 1 \<le> rp_max_concurrency r \<and>
         (\<forall>n. pr_maxConcurrency (probeReplica (w_health w (rp_endpoint_url r))) = Some n \<longrightarrow> rp_max_concurrency r = n) \<and>
         (0 \<le> rp_in_flight r \<longrightarrow> 0 \<le> rp_load_pct r \<and> rp_load_pct r \<le> 100)"
proof -
  from reconcile_Inr [OF assms(2,1)] obtain st where
    st: "pass_ok w now d st" "db_ok d'"
    and rows: "\<And>p. replica_by d' p = (if p \<in> set (ps_seen st) then replica_by (ps_db st) p else None)"
    by metis
  have "as_probed w now r" using st(1) assms(3) by (auto simp: rows pass_ok_def split: if_splits)
  moreover have "1 \<le> rp_max_concurrency r"
    using db_ok_replica [OF st(2)] replica_by_Some [OF assms(3)] by blast
  ultimately show ?thesis
    by (auto simp: as_probed_def Let_def probeReplica_def claimable_def split: option.splits prod.splits if_splits)
qed

lemma reconcile_reflects_probes_witness:
  "map_option rp_status (replica_by (reconciled ex_world 7 ex_before) ''ornith-b-2'') \<noteq> Some Ready"
proof -
  from ex_reconciles obtain s reps where
    rec: "reconcileReplicas ex_world 7 [] ex_before = Inr (s, reps, reconciled ex_world 7 ex_before)" by blast
  have "map_option rp_endpoint_url (replica_by (reconciled ex_world 7 ex_before) ''ornith-b-2'') = Some ''http://b:2''"
    by code_simp
  then obtain r where r: "replica_by (reconciled ex_world 7 ex_before) ''ornith-b-2'' = Some r" "rp_endpoint_url r = ''http://b:2''"
    by auto
  from reconcile_reflects_probes [OF db_ok_ex_before rec r(1)] r show ?thesis
    by (simp add: ex_world_def)
qed


text \<open>
  Outside a cluster the fleet after a pass is exactly the configured endpoints of the workloads; in
  a cluster, a pod list that fails takes no replica of that workload away.\<close>

theorem reconcile_fleet:
  assumes "db_ok d" "reconcileReplicas w now reports d = Inr (s, reps, d')"
  shows "(\<not> w_in_cluster w \<longrightarrow>
            rp_id ` set (replicas d') =
            (\<Union>m \<in> set (backends_of (listModels d)).
               replicaIdFor (w_url_parse w) (m_backendModelId m) ` set (replicaEndpointsFor (w_env w) m))) \<and>
         (w_in_cluster w \<longrightarrow>
            (\<forall>m \<in> set (backends_of (listModels d)). w_pods w (m_backendModelId m) = None \<longrightarrow>
               (\<forall>p r. replica_by d p = Some r \<and> rp_model_id r = m_backendModelId m \<longrightarrow> replica_by d' p \<noteq> None)))"
proof -
  from reconcile_Inr [OF assms(2,1)] obtain st where
    f: "fold_sum (reconcile_backend w now (listModels d)) (backends_of (listModels d))
          (first_pass (listModels d) reports d) = Inr st" and st: "pass_ok w now d st"
    and rows: "\<And>p. replica_by d' p = (if p \<in> set (ps_seen st) then replica_by (ps_db st) p else None)"
    by metis
  note first = pass_ok_first [OF assms(1)]
  have in_db: "replica_by d' p \<noteq> None \<longleftrightarrow> p \<in> set (ps_seen st)" for p
    using st by (auto simp: rows pass_ok_def)
  moreover have "p \<in> rp_id ` set (replicas d') \<longleftrightarrow> replica_by d' p \<noteq> None" for p
    by (auto simp: replica_by_def row_of_None)
  ultimately have "rp_id ` set (replicas d') = set (ps_seen st)" by blast
  with seen_configured [OF first f] seen_kept [OF first f] in_db show ?thesis
    by (auto simp: first_pass_def)
qed

lemma reconcile_fleet_witness:
  "rp_id ` set (replicas (reconciled ex_world 7 ex_before)) = {''ornith-a-1'', ''ornith-b-2''}"
proof -
  from ex_reconciles obtain s reps where
    rec: "reconcileReplicas ex_world 7 [] ex_before = Inr (s, reps, reconciled ex_world 7 ex_before)" by blast
  have "\<not> w_in_cluster ex_world" by (simp add: ex_world_def)
  moreover have "map (\<lambda>m. map (replicaIdFor (w_url_parse ex_world) (m_backendModelId m)) (replicaEndpointsFor (w_env ex_world) m))
      (backends_of (listModels ex_before)) = [[''ornith-a-1'', ''ornith-b-2'']]" by code_simp
  then have "(\<Union>m \<in> set (backends_of (listModels ex_before)).
       replicaIdFor (w_url_parse ex_world) (m_backendModelId m) ` set (replicaEndpointsFor (w_env ex_world) m)) =
     {''ornith-a-1'', ''ornith-b-2''}"
    by (auto simp: map_eq_Cons_conv)
  ultimately show ?thesis using reconcile_fleet [OF db_ok_ex_before rec] by simp
qed

text \<open>
  C20: a replica that one pass does not see and a later one sees again starts from zero slots, although
  the requests that were streaming from it still hold theirs: the rows of the requests are untouched.
\<close>

theorem reconcile_forgets_slots:
  assumes "db_ok d" "reconcileReplicas w t reports d = Inr (s, reps, d1)" "replica_by d1 p = None"
    and "reconcileReplicas w' t' reports' d1 = Inr (s', reps', d2)" "replica_by d2 p = Some r"
  shows "rp_in_flight r = 0 \<and> requests d2 = requests d"
proof -
  from reconcile_Inr [OF assms(2,1)] have d1: "db_ok d1" "requests d1 = requests d" by metis+
  from reconcile_Inr [OF assms(4) d1(1)] obtain st where
    st: "pass_ok w' t' d1 st" "requests d2 = requests d1"
    and rows: "\<And>p. replica_by d2 p = (if p \<in> set (ps_seen st) then replica_by (ps_db st) p else None)"
    by metis
  have "same_schedule (replica_by d1 p) r" using st(1) assms(5) by (auto simp: rows pass_ok_def split: if_splits)
  with assms(3) d1(2) st(2) show ?thesis by (simp add: same_schedule_def)
qed

definition ex_world_gone :: world where
  "ex_world_gone = ex_world\<lparr>w_env := (\<lambda>_. None)\<rparr>"

lemma reconcile_forgets_slots_witness:
  "let d1 = reconciled ex_world_gone 3 ex_before; d2 = reconciled ex_world 7 d1 in
     map_option rp_in_flight (replica_by ex_before ''ornith-a-1'') = Some 1 \<and>
     map_option rp_in_flight (replica_by d2 ''ornith-a-1'') = Some 0"
proof -
  let ?d1 = "reconciled ex_world_gone 3 ex_before" and ?d2 = "reconciled ex_world 7 (reconciled ex_world_gone 3 ex_before)"
  have "\<not> isl (reconcileReplicas ex_world_gone 3 [] ex_before)" "\<not> isl (reconcileReplicas ex_world 7 [] ?d1)"
    by code_simp+
  then obtain s reps s' reps' where
    r1: "reconcileReplicas ex_world_gone 3 [] ex_before = Inr (s, reps, ?d1)" and
    r2: "reconcileReplicas ex_world 7 [] ?d1 = Inr (s', reps', ?d2)"
    by (cases "reconcileReplicas ex_world_gone 3 [] ex_before"; cases "reconcileReplicas ex_world 7 [] ?d1")
      (auto simp: reconciled_def split: prod.splits)
  have "replica_by ?d1 ''ornith-a-1'' = None" "replica_by ?d2 ''ornith-a-1'' \<noteq> None"
    "map_option rp_in_flight (replica_by ex_before ''ornith-a-1'') = Some 1" by code_simp+
  with reconcile_forgets_slots [OF db_ok_ex_before r1 _ r2, of "''ornith-a-1''"] show ?thesis
    by (auto simp: Let_def)
qed


text \<open>Quantities.\<close>

lemma ends_with_append_Cons:
  "ends_with p (s @ t) \<longleftrightarrow> starts_with (rev p) (rev t @ rev s)"
  by (simp add: ends_with_def)

lemma rev_digits: obtains c cs where "rev (digits_of n) = c # cs" "is_digit c"
proof (cases "rev (digits_of n)")
  case (Cons c cs)
  then have "c \<in> set (digits_of n)" by (metis list.set_intros(1) set_rev)
  with Cons that show ?thesis by (simp add: digits_of_digits)
qed simp

lemma parse_cpu_suffix:
  "parseCpuToMillicores (Some (digits_of k @ ''n'')) = Some (of_nat k / 1000000)"
  "parseCpuToMillicores (Some (digits_of k @ ''u'')) = Some (of_nat k / 1000)"
  "parseCpuToMillicores (Some (digits_of k @ ''m'')) = Some (of_nat k)"
  by (simp_all add: parseCpuToMillicores_def ends_with_append_Cons scale_number_def js_number_show butlast_append)

lemma parse_cpu_bare: "parseCpuToMillicores (Some (digits_of k)) = Some (of_nat k * 1000)"
proof -
  obtain c cs where c: "rev (digits_of k) = c # cs" "is_digit c" by (rule rev_digits)
  then have "c \<noteq> CHR ''n''" "c \<noteq> CHR ''u''" "c \<noteq> CHR ''m''" by (auto simp: is_digit_def code_def)
  then show ?thesis
    by (simp add: parseCpuToMillicores_def ends_with_def c(1) scale_number_def js_number_show)
qed

lemma parse_memory_suffix:
  "parseMemoryToBytes (Some (digits_of k @ ''Ki'')) = Some (of_nat k * 1024)"
  "parseMemoryToBytes (Some (digits_of k @ ''Mi'')) = Some (of_nat k * 1024 ^ 2)"
  "parseMemoryToBytes (Some (digits_of k @ ''Gi'')) = Some (of_nat k * 1024 ^ 3)"
  "parseMemoryToBytes (Some (digits_of k @ ''M'')) = Some (of_nat k * 1000 ^ 2)"
  "parseMemoryToBytes (Some (digits_of k @ ''G'')) = Some (of_nat k * 1000 ^ 3)"
  by (simp_all add: parseMemoryToBytes_def MEMORY_UNITS_def ends_with_append_Cons scale_number_def js_number_show)

lemma parse_memory_bare: "parseMemoryToBytes (Some (digits_of k)) = Some (of_nat k)"
proof -
  obtain c cs where c: "rev (digits_of k) = c # cs" "is_digit c" by (rule rev_digits)
  then have "c \<noteq> CHR ''i''" "c \<noteq> CHR ''K''" "c \<noteq> CHR ''M''" "c \<noteq> CHR ''G''" "c \<noteq> CHR ''T''"
    by (auto simp: is_digit_def code_def)
  then show ?thesis
    by (simp add: parseMemoryToBytes_def MEMORY_UNITS_def ends_with_def c(1) js_number_show)
qed

lemma trim_no_ws: "\<forall>c \<in> set s. \<not> is_ws c \<Longrightarrow> trim s = s"
proof -
  assume a: "\<forall>c \<in> set s. \<not> is_ws c"
  then have "dropWhile is_ws s = s" by (cases s) auto
  moreover have "dropWhile is_ws (rev s) = rev s"
    using a by (cases "rev s") (auto dest: arg_cong [where f = set])
  ultimately show ?thesis by (simp add: trim_def trim_start_def trim_end_def)
qed

lemma js_number_lower_k: "js_number (digits_of n @ ''k'') = None"
proof -
  obtain c cs where ds: "digits_of n = c # cs" by (cases "digits_of n") auto
  have dig: "\<forall>x \<in> set (digits_of n). is_digit x" by (simp add: digits_of_digits)
  have "is_digit x \<Longrightarrow> \<not> is_ws x" for x by (auto simp: is_digit_def is_ws_def Let_def)
  moreover have k: "\<not> is_ws (CHR ''k'')" "\<not> is_digit (CHR ''k'')" by code_simp+
  ultimately have trim: "trim (digits_of n @ ''k'') = digits_of n @ ''k''"
    using dig by (intro trim_no_ws) auto
  have "takeWhile is_digit (digits_of n @ ''k'') = digits_of n" "dropWhile is_digit (digits_of n @ ''k'') = ''k''"
    using dig k by (simp_all add: takeWhile_append2 dropWhile_append2)
  then have "parse_unsigned (digits_of n @ ''k'') = None"
    by (simp add: parse_unsigned_def parse_exponent_def)
  moreover have "c \<noteq> CHR ''-''" "c \<noteq> CHR ''+''"
    using dig ds by (auto simp: is_digit_def code_def)
  ultimately show ?thesis using trim by (simp add: js_number_def ds)
qed

text \<open>
  C28: the quantities of the Kubernetes API are scaled by their unit: nanocores, microcores, millicores
  and cores all give millicores, and binary and decimal units, with which \<open>Mi\<close> and \<open>M\<close> are different
  numbers, give bytes. Kubernetes' own decimal kilo, the lower case \<open>k\<close>, is not among them and gives NaN.
\<close>

theorem quantities_by_unit:
  "parseCpuToMillicores (Some (digits_of n @ ''n'')) = Some (of_nat n / 1000000) \<and>
   parseCpuToMillicores (Some (digits_of n @ ''u'')) = Some (of_nat n / 1000) \<and>
   parseCpuToMillicores (Some (digits_of n @ ''m'')) = Some (of_nat n) \<and>
   parseCpuToMillicores (Some (digits_of n)) = Some (of_nat n * 1000) \<and>
   parseMemoryToBytes (Some (digits_of n @ ''Ki'')) = Some (of_nat n * 1024) \<and>
   parseMemoryToBytes (Some (digits_of n @ ''Mi'')) = Some (of_nat n * 1024 ^ 2) \<and>
   parseMemoryToBytes (Some (digits_of n @ ''M'')) = Some (of_nat n * 1000 ^ 2) \<and>
   parseMemoryToBytes (Some (digits_of n)) = Some (of_nat n) \<and>
   parseMemoryToBytes (Some (digits_of n @ ''k'')) = None"
proof -
  have "parseMemoryToBytes (Some (digits_of n @ ''k'')) = None"
    by (simp add: parseMemoryToBytes_def MEMORY_UNITS_def ends_with_append_Cons js_number_lower_k)
  then show ?thesis
    by (simp only: parse_cpu_suffix parse_cpu_bare parse_memory_suffix parse_memory_bare simp_thms)
qed

end
