(* ===== verification/Auth.thy ===== *)
theory Auth
  imports Types
begin

text \<open>
  Authentication: \<open>server/src/auth/verify.ts\<close>, \<open>server/src/auth/jwks-source.ts\<close> (the probe),
  \<open>server/src/http/auth-middleware.ts\<close>, \<open>server/src/config.ts\<close> and the token mint of
  \<open>server/src/http/routes/system.ts\<close>. The verification of a signed token by the jose library is the
  parameter \<open>jwtVerify\<close>: from the token and the options of the call, the claims or an error.
\<close>

section \<open>Configuration\<close>

record config =
  cf_simMode :: bool
  cf_audience :: "string list"
  cf_issuer :: string
  cf_jwksUri :: string
  cf_tenantId :: string
  cf_teamClaim :: string

text \<open>The defaults of the configuration.\<close>

definition default_audience :: string where "default_audience = ''api://llm-gateway''"
definition default_issuer :: string where
  "default_issuer = ''https://login.microsoftonline.com/dev-tenant/v2.0''"

definition config_of_env :: "(string \<Rightarrow> string option) \<Rightarrow> config" where
  "config_of_env env =
     \<lparr>cf_simMode = (env ''SIM_MODE'' = Some ''true'' \<or> env ''USE_FAKE_ADAPTERS'' = Some ''true''),
      cf_audience = filter (\<lambda>a. a \<noteq> '''')
        (map trim (split_on (CHR '','') (nullish (env ''ENTRA_AUDIENCE'') default_audience))),
      cf_issuer = nullish (env ''ENTRA_ISSUER'') default_issuer,
      cf_jwksUri = nullish (env ''ENTRA_JWKS_URI'') '''',
      cf_tenantId = nullish (env ''ENTRA_TENANT_ID'') '''',
      cf_teamClaim = nullish (env ''TEAM_CLAIM'') ''department''\<rparr>"

datatype jwks_source = LocalDevKey | RemoteJwks string

definition getJwksSource :: "config \<Rightarrow> jwks_source option" where
  "getJwksSource cfg =
     (if cf_simMode cfg then Some LocalDevKey
      else if cf_jwksUri cfg = '''' then None
      else Some (RemoteJwks (cf_jwksUri cfg)))"

text \<open>
  The startup probe of the key endpoint: no answer, an answer with its status, or one with a body whose
  \<open>keys\<close> are given.
\<close>

definition probeJwks :: "(nat \<times> json) option \<Rightarrow> bool" where
  "probeJwks answer =
     (case answer of
        None \<Rightarrow> False
      | Some (status, body) \<Rightarrow>
          200 \<le> status \<and> status < 300 \<and>
          (case as_array (jfield ''keys'' body) of None \<Rightarrow> False | Some keys \<Rightarrow> keys \<noteq> []))"

section \<open>Verifying a bearer token\<close>

datatype jwt_error =
    JWTExpired
  | JWTClaimValidationFailed string string
  | JWSSignatureVerificationFailed
  | OtherJwtError string

type_synonym claims = "(string \<times> json) list"

record verify_call =
  vc_issuer :: string
  vc_audience :: "string list"
  vc_algorithms :: "string list"
  vc_clockTolerance :: int

record verify_options =
  vo_audience :: "string list"
  vo_issuer :: string
  vo_teamClaim :: "string option"
  vo_tenantId :: "string option"
  vo_clockToleranceSec :: "int option"

definition authInvalid :: "string \<Rightarrow> standard_error" where
  "authInvalid message = \<lparr>err_type = AuthError, err_code = AuthInvalid, err_message = message\<rparr>"

definition firstString :: "json option \<Rightarrow> string option" where
  "firstString v =
     (case as_string v of None \<Rightarrow> None | Some s \<Rightarrow> if trim s \<noteq> '''' then Some s else None)"

definition is_line_end :: "char \<Rightarrow> bool" where
  "is_line_end c \<longleftrightarrow> c = CHR 0x0A \<or> c = CHR 0x0D"

text \<open>
  \<open>/^Bearer\s+(.+)$/\<close>, then trimmed. The greedy blanks take all there are unless nothing else follows,
  and the group then holds only blanks; it must not contain a line end.
\<close>

definition extractBearerToken :: "string option \<Rightarrow> string option" where
  "extractBearerToken header =
     (case header of
        None \<Rightarrow> None
      | Some h \<Rightarrow>
          (let r = drop 6 h; rest = dropWhile is_ws r; token = trim rest in
           if starts_with ''Bearer'' h \<and> r \<noteq> [] \<and> is_ws (hd r) \<and> rest \<noteq> [] \<and>
              \<not> list_ex is_line_end rest \<and> token \<noteq> ''''
           then Some token else None))"

definition jwt_error_message :: "jwt_error \<Rightarrow> string" where
  "jwt_error_message e =
     (case e of
        JWTExpired \<Rightarrow> ''Token has expired.''
      | JWTClaimValidationFailed claim reason \<Rightarrow>
          ''Token claim validation failed: '' @ claim @ '' ('' @ reason @ '').''
      | JWSSignatureVerificationFailed \<Rightarrow> ''Token signature verification failed.''
      | OtherJwtError message \<Rightarrow> ''Token verification failed: '' @ message)"

definition missing_header_message :: string where
  "missing_header_message =
     ''Missing or malformed Authorization header; expected '' @ [CHR 0x22] @ ''Bearer <token>'' @ [CHR 0x22] @ ''.''"

definition missing_oid_message :: string where
  "missing_oid_message = ''Token is missing the required '' @ [CHR 0x22] @ ''oid'' @ [CHR 0x22] @ '' claim.''"

definition wrong_tenant_message :: string where
  "wrong_tenant_message = ''Token was issued by a different tenant than this gateway accepts.''"

definition verify_call_of :: "verify_options \<Rightarrow> verify_call" where
  "verify_call_of opts =
     \<lparr>vc_issuer = vo_issuer opts, vc_audience = vo_audience opts, vc_algorithms = [''RS256''],
      vc_clockTolerance = nullish (vo_clockToleranceSec opts) 60\<rparr>"

definition display_name :: "claims \<Rightarrow> string \<Rightarrow> string" where
  "display_name payload oid =
     nullish (coalesce (firstString (map_of payload ''name''))
       (coalesce (firstString (map_of payload ''preferred_username''))
         (coalesce (firstString (map_of payload ''upn'')) (firstString (map_of payload ''email''))))) oid"

text \<open>The checks on the claims of a token whose signature, dates, issuer and audience hold.\<close>

definition identity_of :: "verify_options \<Rightarrow> claims \<Rightarrow> standard_error + caller_identity" where
  "identity_of opts payload =
     (let oid = nullish (as_string (map_of payload ''oid'')) '''';
          pinned = nullish (vo_tenantId opts) '''' in
      if oid = '''' then Inl (authInvalid missing_oid_message)
      else if pinned \<noteq> '''' \<and> as_string (map_of payload ''tid'') \<noteq> Some pinned
      then Inl (authInvalid wrong_tenant_message)
      else Inr \<lparr>ci_oid = oid, ci_name = display_name payload oid,
                ci_team = firstString (map_of payload (nullish (vo_teamClaim opts) ''department''))\<rparr>)"

definition verifyBearerToken ::
  "(string \<Rightarrow> verify_call \<Rightarrow> jwt_error + claims) \<Rightarrow> string option \<Rightarrow> verify_options \<Rightarrow>
   standard_error + caller_identity" where
  "verifyBearerToken jwtVerify header opts =
     (case extractBearerToken header of
        None \<Rightarrow> Inl (authInvalid missing_header_message)
      | Some token \<Rightarrow>
          (case jwtVerify token (verify_call_of opts) of
             Inl e \<Rightarrow> Inl (authInvalid (jwt_error_message e))
           | Inr payload \<Rightarrow> identity_of opts payload))"

text \<open>The pre-handler of every API route: an error status, or the identity the handler sees.\<close>

definition options_of_config :: "config \<Rightarrow> verify_options" where
  "options_of_config cfg =
     \<lparr>vo_audience = cf_audience cfg, vo_issuer = cf_issuer cfg, vo_teamClaim = Some (cf_teamClaim cfg),
      vo_tenantId = (if cf_tenantId cfg \<noteq> '''' then Some (cf_tenantId cfg) else None),
      vo_clockToleranceSec = None\<rparr>"

definition authPreHandler ::
  "(string \<Rightarrow> verify_call \<Rightarrow> jwt_error + claims) \<Rightarrow> config \<Rightarrow> string option \<Rightarrow>
   (nat \<times> standard_error) + caller_identity" where
  "authPreHandler jwtVerify cfg header =
     (case verifyBearerToken jwtVerify header (options_of_config cfg) of
        Inl e \<Rightarrow> Inl (statusForError e, e)
      | Inr identity \<Rightarrow> Inr identity)"

section \<open>The token mint of sim mode\<close>

record dev_token_body =
  dt_oid :: "string option"
  dt_name :: "string option"
  dt_team :: "string option"

text \<open>The claims the route signs; the route exists in sim mode only.\<close>

definition dev_claims :: "config \<Rightarrow> dev_token_body \<Rightarrow> claims" where
  "dev_claims cfg b =
     AList.update (cf_teamClaim cfg) (JStr (nullish (dt_team b) ''platform''))
       [(''oid'', JStr (nullish (dt_oid b) ''dev-user-oid'')),
        (''name'', JStr (nullish (dt_name b) ''Dev User'')),
        (''preferred_username'', JStr (nullish (dt_name b) ''dev.user@example.com''))]"

definition devToken :: "(claims \<Rightarrow> string \<Rightarrow> string list \<Rightarrow> string) \<Rightarrow> config \<Rightarrow> dev_token_body \<Rightarrow> string option" where
  "devToken sign cfg b =
     (if cf_simMode cfg then Some (sign (dev_claims cfg b) (cf_issuer cfg) (take 1 (cf_audience cfg))) else None)"

section \<open>Facts\<close>

lemma authInvalid_status: "statusForError (authInvalid msg) = 401"
  by (simp add: authInvalid_def statusForError_def)

lemma firstString_Some: "firstString v = Some s \<Longrightarrow> v = Some (JStr s) \<and> trim s \<noteq> ''''"
  by (auto simp: firstString_def as_string_def split: option.splits json.splits if_splits)

lemma display_name_cases:
  "display_name payload oid = oid \<or>
   (\<exists>k \<in> {''name'', ''preferred_username'', ''upn'', ''email''}.
      map_of payload k = Some (JStr (display_name payload oid)) \<and> trim (display_name payload oid) \<noteq> '''')"
  by (auto simp: display_name_def coalesce_def nullish_def dest!: firstString_Some split: option.splits)

lemma dropWhile_no_ws_hd: "\<not> is_ws (hd s) \<Longrightarrow> dropWhile is_ws s = s"
  by (cases s) auto

lemma identity_of_Inr:
  assumes "identity_of opts payload = Inr identity"
  shows "map_of payload ''oid'' = Some (JStr (ci_oid identity)) \<and> ci_oid identity \<noteq> [] \<and>
         (\<forall>t. vo_tenantId opts = Some t \<longrightarrow> t \<noteq> [] \<longrightarrow> map_of payload ''tid'' = Some (JStr t)) \<and>
         ci_name identity = display_name payload (ci_oid identity) \<and>
         ci_team identity = firstString (map_of payload (nullish (vo_teamClaim opts) ''department''))"
proof -
  have str: "as_string v = Some s \<longleftrightarrow> v = Some (JStr s)" for v s
    by (auto simp: as_string_def split: option.splits json.splits)
  show ?thesis
    using assms
    by (cases "as_string (map_of payload ''oid'')"; cases "vo_tenantId opts")
      (auto simp: identity_of_def Let_def str split: if_splits)
qed

lemma trim_id_hd:
  assumes "trim s = s" "s \<noteq> []"
  shows "\<not> is_ws (hd s)"
proof
  assume ws: "is_ws (hd s)"
  obtain c cs where s: "s = c # cs" using assms(2) by (cases s) auto
  have "length (trim s) \<le> length (dropWhile is_ws s)"
    unfolding trim_def trim_start_def trim_end_def by (metis length_dropWhile_le length_rev)
  also have "\<dots> \<le> length cs" using ws by (simp add: s length_dropWhile_le)
  finally show False using assms(1) by (simp add: s)
qed

lemma trim_end_last: "trim_end s = [] \<or> \<not> is_ws (last (trim_end s))"
  using hd_dropWhile [of is_ws "rev s"] by (auto simp: trim_end_def last_rev)

lemma trim_end_id: "s \<noteq> [] \<Longrightarrow> \<not> is_ws (last s) \<Longrightarrow> trim_end s = s"
  by (simp add: trim_end_def) (metis dropWhile_no_ws_hd hd_rev rev_rev_ident)

lemma trim_hd: "trim s = [] \<or> \<not> is_ws (hd (trim s))"
proof (cases "trim s")
  case (Cons c cs)
  let ?t = "dropWhile is_ws s"
  have "\<exists>ys. ?t = trim s @ ys"
    unfolding trim_def trim_start_def trim_end_def
    by (metis rev_append rev_rev_ident takeWhile_dropWhile_id)
  then obtain ys where "?t = trim s @ ys" by blast
  then have "?t \<noteq> []" "hd ?t = c" using Cons by auto
  then show ?thesis using hd_dropWhile [of is_ws s] Cons by auto
qed simp

lemma trim_idem: "trim (trim s) = trim s"
proof (cases "trim s = []")
  case False
  then have "dropWhile is_ws (trim s) = trim s"
    using trim_hd [of s] by (intro dropWhile_no_ws_hd) blast
  moreover have "\<not> is_ws (last (trim s))"
    using False trim_end_last [of "trim_start s"] by (auto simp: trim_def)
  ultimately show ?thesis using False
    by (subst trim_def) (simp add: trim_start_def trim_end_id)
qed simp

section \<open>Properties\<close>

text \<open>
  Every token a client can present is read back from its header, whatever blanks separate it, and
  what is read is never empty and never carries blanks around it; anything else reads as no token.\<close>

theorem extractBearerToken_roundtrip:
  assumes "tok \<noteq> ''''" "trim tok = tok" "\<not> list_ex is_line_end tok" "ws \<noteq> ''''" "list_all is_ws ws"
  shows "extractBearerToken (Some (''Bearer'' @ ws @ tok)) = Some tok \<and>
         (\<forall>h t. extractBearerToken h = Some t \<longrightarrow> t \<noteq> '''' \<and> trim t = t)"
proof -
  have "dropWhile is_ws (ws @ tok) = dropWhile is_ws tok"
    using assms(5) by (simp add: dropWhile_append2 list_all_iff)
  also have "\<dots> = tok" using trim_id_hd [OF assms(2,1)] by (rule dropWhile_no_ws_hd)
  finally have "dropWhile is_ws (ws @ tok) = tok" .
  moreover have "is_ws (hd (ws @ tok))" using assms(4,5) by (cases ws) auto
  ultimately have "extractBearerToken (Some (''Bearer'' @ ws @ tok)) = Some tok"
    using assms by (simp add: extractBearerToken_def del: dropWhile_eq_Nil_conv)
  then show ?thesis
    by (auto simp: extractBearerToken_def Let_def trim_idem split: option.splits if_splits)
qed

lemma extractBearerToken_roundtrip_witness:
  "extractBearerToken (Some ''Bearer  a.b.c'') = Some ''a.b.c''"
proof -
  have "trim ''a.b.c'' = ''a.b.c''" "\<not> list_ex is_line_end ''a.b.c''" "list_all is_ws ''  ''" by code_simp+
  with extractBearerToken_roundtrip [of "''a.b.c''" "''  ''"] show ?thesis by simp
qed

text \<open>
  C19: a request gets an identity only from a token that the verifier accepted under the pinned
  algorithm, the configured issuer and the configured audiences, with a non-empty object id and, when
  a tenant is pinned, that tenant; the identity is read from its claims, the team is never blank; and
  every refusal is a 401.
\<close>

theorem authPreHandler_sound:
  "(case authPreHandler jwtVerify cfg header of
      Inl (status, e) \<Rightarrow> status = 401 \<and> err_code e = AuthInvalid \<and> err_type e = AuthError
    | Inr identity \<Rightarrow>
        (\<exists>token payload. extractBearerToken header = Some token \<and>
           jwtVerify token \<lparr>vc_issuer = cf_issuer cfg, vc_audience = cf_audience cfg,
                            vc_algorithms = [''RS256''], vc_clockTolerance = 60\<rparr> = Inr payload \<and>
           map_of payload ''oid'' = Some (JStr (ci_oid identity)) \<and> ci_oid identity \<noteq> '''' \<and>
           (cf_tenantId cfg \<noteq> '''' \<longrightarrow> map_of payload ''tid'' = Some (JStr (cf_tenantId cfg))) \<and>
           (ci_name identity = ci_oid identity \<or>
              (\<exists>k \<in> {''name'', ''preferred_username'', ''upn'', ''email''}. map_of payload k = Some (JStr (ci_name identity)))) \<and>
           (\<forall>team. ci_team identity = Some team \<longrightarrow>
              trim team \<noteq> '''' \<and> map_of payload (cf_teamClaim cfg) = Some (JStr team))))"
proof (cases "authPreHandler jwtVerify cfg header")
  case (Inl x)
  obtain status e where x: "x = (status, e)" by (cases x)
  with Inl have "verifyBearerToken jwtVerify header (options_of_config cfg) = Inl e" "status = statusForError e"
    by (auto simp: authPreHandler_def split: sum.splits)
  moreover from this(1) obtain msg where "e = authInvalid msg"
    by (auto simp: verifyBearerToken_def identity_of_def Let_def split: option.splits sum.splits if_splits)
  ultimately show ?thesis using Inl x by (simp add: authInvalid_status) (simp add: authInvalid_def)
next
  case (Inr identity)
  then obtain token payload where t: "extractBearerToken header = Some token"
    "jwtVerify token (verify_call_of (options_of_config cfg)) = Inr payload"
    "identity_of (options_of_config cfg) payload = Inr identity"
    by (auto simp: authPreHandler_def verifyBearerToken_def split: option.splits sum.splits)
  from identity_of_Inr [OF t(3)] Inr t(1,2) display_name_cases [of payload "ci_oid identity"]
  show ?thesis
    by (auto simp: verify_call_of_def options_of_config_def dest!: firstString_Some)
qed

text \<open>
  A deployment that sets neither of the two switches mints no token and never trusts the local
  development key: its keys come from the configured endpoint, or it does not start. In sim mode a
  minted token, once the verifier hands back its claims, gives the identity it was asked for.\<close>

theorem sim_mode_gates_minting:
  assumes "devToken sign cfg b = Some token" "extractBearerToken header = Some token"
    and "jwtVerify token (verify_call_of (options_of_config cfg)) = Inr (dev_claims cfg b)"
    and "cf_teamClaim cfg \<notin> {''oid'', ''name'', ''preferred_username''}" "cf_tenantId cfg = ''''"
    and "dt_oid b = Some oid" "dt_name b = Some name" "dt_team b = Some team"
    and "oid \<noteq> ''''" "trim name \<noteq> ''''" "trim team \<noteq> ''''"
  shows "cf_simMode cfg \<and>
         authPreHandler jwtVerify cfg header = Inr \<lparr>ci_oid = oid, ci_name = name, ci_team = Some team\<rparr> \<and>
         (\<forall>env. env ''SIM_MODE'' \<noteq> Some ''true'' \<and> env ''USE_FAKE_ADAPTERS'' \<noteq> Some ''true'' \<longrightarrow>
            devToken sign (config_of_env env) b = None \<and>
            getJwksSource (config_of_env env) \<noteq> Some LocalDevKey)"
proof -
  let ?c = "dev_claims cfg b"
  have sim: "cf_simMode cfg" using assms(1) by (auto simp: devToken_def split: if_splits)
  have team: "map_of ?c (cf_teamClaim cfg) = Some (JStr team)"
    using assms(8) by (simp add: dev_claims_def update_conv')
  have others: "map_of ?c ''oid'' = Some (JStr oid)" "map_of ?c ''name'' = Some (JStr name)"
    using assms(4,6,7) by (auto simp: dev_claims_def update_conv')
  have "verifyBearerToken jwtVerify header (options_of_config cfg) =
        identity_of (options_of_config cfg) ?c"
    using assms(2,3) by (simp add: verifyBearerToken_def)
  also have "\<dots> = Inr \<lparr>ci_oid = oid, ci_name = name, ci_team = Some team\<rparr>"
    using others team assms(5,9-11)
    by (simp add: identity_of_def options_of_config_def display_name_def firstString_def)
  finally show ?thesis
    using sim by (simp add: authPreHandler_def devToken_def config_of_env_def getJwksSource_def)
qed

definition ex_sim_config :: config where
  "ex_sim_config = config_of_env (\<lambda>k. if k = ''SIM_MODE'' then Some ''true'' else None)"

definition ex_dev_body :: dev_token_body where
  "ex_dev_body = \<lparr>dt_oid = Some ''o'', dt_name = Some ''Ann'', dt_team = Some ''ml''\<rparr>"

lemma sim_mode_gates_minting_witness:
  "authPreHandler (\<lambda>token opts. Inr (dev_claims ex_sim_config ex_dev_body)) ex_sim_config (Some ''Bearer tok'') =
     Inr \<lparr>ci_oid = ''o'', ci_name = ''Ann'', ci_team = Some ''ml''\<rparr>"
proof -
  let ?v = "\<lambda>token opts. Inr (dev_claims ex_sim_config ex_dev_body)"
  have sim: "cf_simMode ex_sim_config" and claim: "cf_teamClaim ex_sim_config \<notin> {''oid'', ''name'', ''preferred_username''}"
    and tenant: "cf_tenantId ex_sim_config = []"
    by (simp_all add: ex_sim_config_def config_of_env_def)
  have tok: "devToken (\<lambda>c i a. ''tok'') ex_sim_config ex_dev_body = Some ''tok''"
    using sim by (simp add: devToken_def)
  have header: "extractBearerToken (Some ''Bearer tok'') = Some ''tok''" by code_simp
  have names: "trim ''Ann'' \<noteq> []" "trim ''ml'' \<noteq> []" by code_simp+
  have body: "dt_oid ex_dev_body = Some ''o''" "dt_name ex_dev_body = Some ''Ann''" "dt_team ex_dev_body = Some ''ml''"
    by (simp_all add: ex_dev_body_def)
  have "?v ''tok'' (verify_call_of (options_of_config ex_sim_config)) = Inr (dev_claims ex_sim_config ex_dev_body)"
    by (rule refl)
  from sim_mode_gates_minting [where jwtVerify = ?v, OF tok header this claim tenant body _ names]
  show ?thesis by blast
qed

definition ex_pinned_config :: config where
  "ex_pinned_config = config_of_env (\<lambda>k. if k = ''ENTRA_TENANT_ID'' then Some ''t1'' else None)"

definition ex_claims :: claims where
  "ex_claims = [(''oid'', JStr ''o''), (''tid'', JStr ''t1''), (''upn'', JStr ''ann''), (''department'', JStr ''ml'')]"

definition ex_verify :: "string \<Rightarrow> verify_call \<Rightarrow> jwt_error + claims" where
  "ex_verify token opts = Inr ex_claims"

definition ex_ann :: caller_identity where
  "ex_ann = \<lparr>ci_oid = ''o'', ci_name = ''ann'', ci_team = Some ''ml''\<rparr>"

lemma ex_pinned_admits: "authPreHandler ex_verify ex_pinned_config (Some ''Bearer tok'') = Inr ex_ann"
  by code_simp

lemma authPreHandler_sound_witness:
  "authPreHandler ex_verify ex_pinned_config (Some ''Bearer tok'') = Inr ex_ann \<and>
   (\<exists>payload. ex_verify ''tok'' (verify_call_of (options_of_config ex_pinned_config)) = Inr payload \<and>
      map_of payload ''tid'' = Some (JStr ''t1'') \<and> map_of payload ''department'' = Some (JStr ''ml''))"
proof -
  have cfg: "cf_tenantId ex_pinned_config = ''t1''" "cf_teamClaim ex_pinned_config = ''department''" by code_simp+
  have ann: "ci_team ex_ann = Some ''ml''" by code_simp
  have "\<exists>payload. (cf_tenantId ex_pinned_config \<noteq> '''' \<longrightarrow> map_of payload ''tid'' = Some (JStr (cf_tenantId ex_pinned_config))) \<and>
    (\<forall>team. ci_team ex_ann = Some team \<longrightarrow> trim team \<noteq> '''' \<and>
       map_of payload (cf_teamClaim ex_pinned_config) = Some (JStr team)) \<and>
    (\<exists>token opts. ex_verify token opts = Inr payload)"
    using authPreHandler_sound [where jwtVerify = ex_verify and cfg = ex_pinned_config and header = "Some ''Bearer tok''"]
    unfolding ex_pinned_admits sum.case by blast
  then obtain payload where "map_of payload ''tid'' = Some (JStr ''t1'')" "map_of payload ''department'' = Some (JStr ''ml'')"
    "\<exists>token opts. ex_verify token opts = Inr payload"
    unfolding cfg ann by auto
  then show ?thesis using ex_pinned_admits by (auto simp: ex_verify_def)
qed

end
