(* ===== verification/AuditTrail.thy ===== *)
theory AuditTrail
  imports Store
begin

text \<open>
  The audit trail, \<open>server/src/audit\<close>: the logging scopes (\<open>logging-scope.ts\<close>), the captured content
  (\<open>content.ts\<close>), the filtered listing (\<open>entries.ts\<close>) and the retention action (\<open>retention.ts\<close>). The
  scopes are refined from an abstract set: a scope is global, a team, a model or a key, and it is on
  or off.
\<close>

section \<open>Scopes\<close>

fun scope_type_text :: "scope_type \<Rightarrow> string" where
  "scope_type_text GlobalScope = ''global''"
| "scope_type_text TeamScope = ''team''"
| "scope_type_text ModelScope = ''model''"
| "scope_type_text KeyScope = ''key''"

text \<open>Scope types are stored, and sorted, by their text.\<close>

lemma scope_type_text_inj: "scope_type_text a = scope_type_text b \<longleftrightarrow> a = b"
  by (cases a; cases b) simp_all

instantiation scope_type :: linorder
begin

definition less_eq_scope_type :: "scope_type \<Rightarrow> scope_type \<Rightarrow> bool" where
  "less_eq_scope_type a b \<longleftrightarrow> scope_type_text a \<le> scope_type_text b"

definition less_scope_type :: "scope_type \<Rightarrow> scope_type \<Rightarrow> bool" where
  "less_scope_type a b \<longleftrightarrow> scope_type_text a < scope_type_text b"

instance
  by standard (auto simp: less_eq_scope_type_def less_scope_type_def scope_type_text_inj [symmetric])

end

definition present :: "string option \<Rightarrow> string option" where
  "present s = (case s of None \<Rightarrow> None | Some t \<Rightarrow> if t = '''' then None else Some t)"

text \<open>The rows that apply to a request: the global one, and those of what it names.\<close>

definition applies :: "string option \<Rightarrow> string option \<Rightarrow> string option \<Rightarrow> logging_row \<Rightarrow> bool" where
  "applies team modelId apiKey r \<longleftrightarrow>
     lg_scope_type r = GlobalScope \<and> lg_scope_key r = '''' \<or>
     lg_scope_type r = TeamScope \<and> present team = Some (lg_scope_key r) \<or>
     lg_scope_type r = ModelScope \<and> present modelId = Some (lg_scope_key r) \<or>
     lg_scope_type r = KeyScope \<and> present apiKey = Some (lg_scope_key r)"

definition isContentLoggingEnabled :: "string option \<Rightarrow> string option \<Rightarrow> string option \<Rightarrow> db \<Rightarrow> bool" where
  "isContentLoggingEnabled team modelId apiKey d =
     list_ex (\<lambda>r. lg_enabled r \<and> applies team modelId apiKey r) (logging_config d)"

definition setLoggingScope :: "scope_type \<Rightarrow> string \<Rightarrow> bool \<Rightarrow> db \<Rightarrow> db" where
  "setLoggingScope scopeType scopeKey enabled d =
     (let key = (if scopeType = GlobalScope then '''' else scopeKey) in
      d\<lparr>logging_config := upsert logging_key
          \<lparr>lg_scope_type = scopeType, lg_scope_key = key, lg_enabled = enabled\<rparr>
          (\<lambda>r. r\<lparr>lg_enabled := enabled\<rparr>) (logging_config d)\<rparr>)"

text \<open>\<open>GET /api/audit/logging-config\<close>: the rows, ordered by type and key.\<close>

definition loggingConfig :: "db \<Rightarrow> logging_row list" where
  "loggingConfig d = sort_key logging_key (logging_config d)"

section \<open>Captured content\<close>

definition put_audit :: "time \<Rightarrow> string \<Rightarrow> string \<Rightarrow> string \<Rightarrow> db \<Rightarrow> db" where
  "put_audit now requestId prompt response d =
     d\<lparr>audit_contents := upsert au_request_id
         \<lparr>au_request_id = requestId, au_prompt = prompt, au_response = response, au_created_at = now\<rparr>
         (\<lambda>a. a\<lparr>au_prompt := prompt, au_response := response, au_created_at := now\<rparr>) (audit_contents d)\<rparr>"

definition recordAuditContent :: "time \<Rightarrow> string \<Rightarrow> string \<Rightarrow> string \<Rightarrow> db \<Rightarrow> db_error + db" where
  "recordAuditContent now requestId prompt response d =
     (if request_by d requestId = None then Inl ForeignKeyViolation
      else Inr (put_audit now requestId prompt response d))"

section \<open>The listing\<close>

record audit_filter =
  fl_caller :: "string option"
  fl_model :: "string option"
  fl_team :: "string option"
  fl_status :: "string option"
  fl_since :: "time option"
  fl_until :: "time option"

record audit_entry =
  ae_id :: string
  ae_callerOid :: string
  ae_callerName :: string
  ae_team :: "string option"
  ae_requestedModel :: "string option"
  ae_routedModel :: "string option"
  ae_status :: request_status
  ae_errorCode :: "error_code option"
  ae_inputTokens :: int
  ae_outputTokens :: int
  ae_arrivedAt :: time
  ae_startedAt :: "time option"
  ae_completedAt :: "time option"
  ae_durationMs :: "int option"
  ae_costUsd :: "rat option"
  ae_logged :: bool

definition matches_filter :: "audit_filter \<Rightarrow> request_row \<Rightarrow> bool" where
  "matches_filter f r \<longleftrightarrow>
     (case present (fl_caller f) of None \<Rightarrow> True | Some c \<Rightarrow> rq_caller_oid r = c) \<and>
     (case present (fl_model f) of None \<Rightarrow> True | Some m \<Rightarrow> rq_routed_model r = Some m) \<and>
     (case present (fl_team f) of None \<Rightarrow> True | Some t \<Rightarrow> rq_team r = Some t) \<and>
     (case present (fl_status f) of None \<Rightarrow> True | Some s \<Rightarrow> status_text (rq_status r) = s) \<and>
     (case fl_since f of None \<Rightarrow> True | Some t \<Rightarrow> t \<le> rq_arrived_at r) \<and>
     (case fl_until f of None \<Rightarrow> True | Some t \<Rightarrow> rq_arrived_at r \<le> t)"

definition audit_entry_of :: "db \<Rightarrow> request_row \<Rightarrow> audit_entry" where
  "audit_entry_of d r =
     \<lparr>ae_id = rq_id r, ae_callerOid = rq_caller_oid r, ae_callerName = rq_caller_name r, ae_team = rq_team r,
      ae_requestedModel = rq_requested_model r, ae_routedModel = rq_routed_model r, ae_status = rq_status r,
      ae_errorCode = rq_error_code r, ae_inputTokens = rq_input_tokens r, ae_outputTokens = rq_output_tokens r,
      ae_arrivedAt = rq_arrived_at r, ae_startedAt = rq_started_at r, ae_completedAt = rq_completed_at r,
      ae_durationMs = rq_duration_ms r, ae_costUsd = rq_cost_usd r,
      ae_logged = list_ex (\<lambda>a. au_request_id a = rq_id r) (audit_contents d)\<rparr>"

definition getAuditEntries :: "audit_filter \<Rightarrow> nat option \<Rightarrow> nat option \<Rightarrow> db \<Rightarrow> audit_entry list" where
  "getAuditEntries f limit offset d =
     map (audit_entry_of d)
       (take (nullish limit 50) (drop (nullish offset 0)
         (sort_key (\<lambda>r. - rq_arrived_at r) (filter (matches_filter f) (requests d)))))"

section \<open>Retention\<close>

definition DAY_MS :: int where "DAY_MS = 24 * 60 * 60 * 1000"

definition deleteAuditHistory :: "int \<Rightarrow> time \<Rightarrow> db \<Rightarrow> nat \<times> db" where
  "deleteAuditHistory olderThanDays now d =
     (let old = (\<lambda>r. rq_arrived_at r < now - olderThanDays * DAY_MS) in
      (length (filter old (requests d)), delete_requests old d))"

section \<open>Scopes as an abstract store\<close>

datatype scope = Everything | Team string | Model string | Key string

fun scope_row :: "scope \<Rightarrow> scope_type \<times> string" where
  "scope_row Everything = (GlobalScope, '''')"
| "scope_row (Team t) = (TeamScope, t)"
| "scope_row (Model m) = (ModelScope, m)"
| "scope_row (Key k) = (KeyScope, k)"

definition scope_setting :: "db \<Rightarrow> scope \<Rightarrow> bool option" where
  "scope_setting d s = map_option lg_enabled (row_of logging_key (scope_row s) (logging_config d))"

definition set_scope :: "scope \<Rightarrow> bool \<Rightarrow> db \<Rightarrow> db" where
  "set_scope s enabled d = setLoggingScope (fst (scope_row s)) (snd (scope_row s)) enabled d"

definition logging_ok :: "db \<Rightarrow> bool" where
  "logging_ok d \<longleftrightarrow> unique_key logging_key (logging_config d)"

lemma scope_row_inj [simp]: "scope_row a = scope_row b \<longleftrightarrow> a = b"
  by (cases a; cases b) simp_all

lemma set_scope_upsert:
  "set_scope s e d = d\<lparr>logging_config := upsert logging_key
     \<lparr>lg_scope_type = fst (scope_row s), lg_scope_key = snd (scope_row s), lg_enabled = e\<rparr>
     (\<lambda>r. r\<lparr>lg_enabled := e\<rparr>) (logging_config d)\<rparr>"
  by (cases s) (simp_all add: set_scope_def setLoggingScope_def Let_def)

interpretation scope_store: keyed_store logging_ok scope_setting set_scope
proof (standard, goal_cases)
  case (1 d s e)
  then show ?case by (simp add: logging_ok_def set_scope_upsert unique_key_upsert logging_key_def)
next
  case (2 d s e)
  show ?case
    using row_of_upsert_same [of logging_key
        "\<lparr>lg_scope_type = fst (scope_row s), lg_scope_key = snd (scope_row s), lg_enabled = e\<rparr>"
        "\<lambda>r. r\<lparr>lg_enabled := e\<rparr>" "logging_config d"]
    by (simp add: scope_setting_def set_scope_upsert logging_key_def split: option.split)
next
  case (3 d s' s e)
  have "scope_row s' \<noteq> (fst (scope_row s), snd (scope_row s))" using 3(2) by simp
  with row_of_upsert_other [of logging_key
        "\<lparr>lg_scope_type = fst (scope_row s), lg_scope_key = snd (scope_row s), lg_enabled = e\<rparr>"
        "\<lambda>r. r\<lparr>lg_enabled := e\<rparr>" "scope_row s'" "logging_config d"]
  show ?case by (simp add: scope_setting_def set_scope_upsert logging_key_def)
qed

text \<open>Content, too, is a keyed store.\<close>

definition content_of :: "db \<Rightarrow> string \<Rightarrow> (string \<times> string \<times> time) option" where
  "content_of d k =
     map_option (\<lambda>a. (au_prompt a, au_response a, au_created_at a)) (row_of au_request_id k (audit_contents d))"

definition store_content :: "string \<Rightarrow> string \<times> string \<times> time \<Rightarrow> db \<Rightarrow> db" where
  "store_content k v d = put_audit (snd (snd v)) k (fst v) (fst (snd v)) d"

interpretation content_store: keyed_store "\<lambda>d. unique_key au_request_id (audit_contents d)" content_of store_content
proof (standard, goal_cases)
  case (1 d k v)
  then show ?case by (simp add: store_content_def put_audit_def unique_key_upsert)
next
  case (2 d k v)
  show ?case
    using row_of_upsert_same [of au_request_id
        "\<lparr>au_request_id = k, au_prompt = fst v, au_response = fst (snd v), au_created_at = snd (snd v)\<rparr>"
        "\<lambda>a. a\<lparr>au_prompt := fst v, au_response := fst (snd v), au_created_at := snd (snd v)\<rparr>" "audit_contents d"]
    by (simp add: content_of_def store_content_def put_audit_def split: option.split)
next
  case (3 d k' k v)
  then show ?case by (simp add: content_of_def store_content_def put_audit_def row_of_upsert_other)
qed


section \<open>Facts\<close>

text \<open>The scopes a request falls under.\<close>

definition scopes_of :: "string option \<Rightarrow> string option \<Rightarrow> string option \<Rightarrow> scope list" where
  "scopes_of team modelId apiKey =
     [Everything] @
     (case present team of None \<Rightarrow> [] | Some t \<Rightarrow> [Team t]) @
     (case present modelId of None \<Rightarrow> [] | Some m \<Rightarrow> [Model m]) @
     (case present apiKey of None \<Rightarrow> [] | Some k \<Rightarrow> [Key k])"

lemma applies_scope: "applies team m k r \<longleftrightarrow> (\<exists>s \<in> set (scopes_of team m k). logging_key r = scope_row s)"
  by (auto simp: applies_def scopes_of_def logging_key_def split: option.splits)

lemma enabled_iff_setting:
  assumes "logging_ok d"
  shows "isContentLoggingEnabled team m k d \<longleftrightarrow> (\<exists>s \<in> set (scopes_of team m k). scope_setting d s = Some True)"
proof -
  have row: "row_of logging_key (logging_key r) (logging_config d) = Some r" if "r \<in> set (logging_config d)" for r
    using row_of_unique [of logging_key] assms that by (auto simp: logging_ok_def)
  show ?thesis
  proof
    assume "isContentLoggingEnabled team m k d"
    then obtain r s where "r \<in> set (logging_config d)" "lg_enabled r" "s \<in> set (scopes_of team m k)"
      "logging_key r = scope_row s"
      by (auto simp: isContentLoggingEnabled_def list_ex_iff applies_scope)
    with row [of r] show "\<exists>s \<in> set (scopes_of team m k). scope_setting d s = Some True"
      by (auto simp: scope_setting_def intro!: bexI [of _ s])
  next
    assume "\<exists>s \<in> set (scopes_of team m k). scope_setting d s = Some True"
    then obtain s r where "s \<in> set (scopes_of team m k)" "row_of logging_key (scope_row s) (logging_config d) = Some r"
      "lg_enabled r"
      by (auto simp: scope_setting_def)
    with row_of_Some [of logging_key "scope_row s" "logging_config d" r] show "isContentLoggingEnabled team m k d"
      by (auto simp: isContentLoggingEnabled_def list_ex_iff applies_scope intro!: bexI [of _ r] bexI [of _ s])
  qed
qed

lemma put_audit_frame [frame_simps, simp]:
  "requests (put_audit now k p q d) = requests d" "replicas (put_audit now k p q d) = replicas d"
  "models (put_audit now k p q d) = models d" "affinities (put_audit now k p q d) = affinities d"
  "signals (put_audit now k p q d) = signals d" "logging_config (put_audit now k p q d) = logging_config d"
  by (simp_all add: put_audit_def)

lemma recordAuditContent_Inr:
  "recordAuditContent now k p q d = Inr d' \<longleftrightarrow> request_by d k \<noteq> None \<and> d' = put_audit now k p q d"
  by (auto simp: recordAuditContent_def)

lemma db_ok_recordAuditContent:
  assumes "db_ok d" "recordAuditContent now k p q d = Inr d'"
  shows "db_ok d'"
proof -
  have req: "\<exists>r \<in> set (requests d). rq_id r = k" and d': "d' = put_audit now k p q d"
    using assms(2) by (auto simp: recordAuditContent_Inr dest!: request_by_Some)
  let ?new = "\<lparr>au_request_id = k, au_prompt = p, au_response = q, au_created_at = now\<rparr>"
    and ?f = "\<lambda>a. a\<lparr>au_prompt := p, au_response := q, au_created_at := now\<rparr>"
  have "\<exists>r \<in> set (requests d). rq_id r = au_request_id a" if "a \<in> set (upsert au_request_id ?new ?f (audit_contents d))" for a
    using set_upsert [of au_request_id ?new ?f "audit_contents d"] that req assms(1)
    by (auto simp: db_ok_def db_refs_ok_def dest!: subsetD)
  with assms(1) show ?thesis
    by (simp add: d' put_audit_def db_ok_def db_keys_ok_def db_refs_ok_def db_checks_ok_def model_exists_def unique_key_upsert)
qed

lemma logged_content: "ae_logged (audit_entry_of d r) \<longleftrightarrow> content_of d (rq_id r) \<noteq> None"
  by (simp add: audit_entry_of_def content_of_def list_ex_row_of)

section \<open>Properties\<close>

text \<open>
  C21: whatever toggles were set, in whatever order, content is captured for a request exactly when the
  last toggle of one of the scopes it falls under is on; and the global toggle is the same whichever
  key the caller gives it.
\<close>

theorem logging_scopes_refine:
  assumes "logging_ok d"
  shows "(isContentLoggingEnabled team m k (fold (\<lambda>(s, e). set_scope s e) toggles d) \<longleftrightarrow>
           (\<exists>s \<in> set (scopes_of team m k).
              (case map_of (rev toggles) s of None \<Rightarrow> scope_setting d s | Some e \<Rightarrow> Some e) = Some True)) \<and>
         (\<forall>key e d. setLoggingScope GlobalScope key e d = set_scope Everything e d)"
proof -
  have "logging_ok (fold (\<lambda>(s, e). set_scope s e) toggles d)"
    by (rule scope_store.ok_stores [OF assms])
  moreover have "\<forall>key e d. setLoggingScope GlobalScope key e d = set_scope Everything e d"
    by (simp add: set_scope_def setLoggingScope_def Let_def)
  ultimately show ?thesis
    by (simp only: enabled_iff_setting scope_store.lookup_stores [OF assms]) blast
qed

lemma logging_scopes_refine_witness:
  "isContentLoggingEnabled (Some ''ml'') None None
     (fold (\<lambda>(s, e). set_scope s e) [(Everything, True), (Team ''ml'', True), (Everything, False)] empty_db)"
proof -
  have "logging_ok empty_db" by (simp add: logging_ok_def empty_db_def unique_key_def)
  from logging_scopes_refine [OF this, of "Some ''ml''" None None "[(Everything, True), (Team ''ml'', True), (Everything, False)]"]
  show ?thesis by (simp add: scopes_of_def present_def)
qed

text \<open>
  The retention action deletes exactly the requests that arrived before the cut-off, so the most
  recent days are what it keeps; their captured content goes with them and with nothing else, and the
  rest of the store is as before.\<close>

theorem deleteAuditHistory_exact:
  assumes "db_ok d" "deleteAuditHistory days now d = (n, d')"
  shows "db_ok d' \<and> n = length (requests d) - length (requests d') \<and>
         set (requests d') = {r \<in> set (requests d). now - days * DAY_MS \<le> rq_arrived_at r} \<and>
         (\<forall>a. a \<in> set (audit_contents d') \<longleftrightarrow>
            a \<in> set (audit_contents d) \<and> (\<exists>r \<in> set (requests d'). rq_id r = au_request_id a)) \<and>
         replicas d' = replicas d \<and> models d' = models d \<and> logging_config d' = logging_config d"
proof -
  let ?old = "\<lambda>r. rq_arrived_at r < now - days * DAY_MS"
  have d': "d' = delete_requests ?old d" and n: "n = length (filter ?old (requests d))"
    using assms(2) by (auto simp: deleteAuditHistory_def Let_def)
  have "length (filter ?old rs) + length (delete_where ?old rs) = length rs" for rs
    by (simp add: delete_where_def sum_length_filter_compl)
  from this [of "requests d"] have "n = length (requests d) - length (requests d')"
    by (simp add: n d')
  moreover have "set (requests d') = {r \<in> set (requests d). now - days * DAY_MS \<le> rq_arrived_at r}"
    by (auto simp: d' not_less)
  moreover have "a \<in> set (audit_contents d') \<longleftrightarrow>
      a \<in> set (audit_contents d) \<and> (\<exists>r \<in> set (requests d'). rq_id r = au_request_id a)" for a
    by (auto simp: d' delete_requests_def Let_def list_ex_iff)
  ultimately show ?thesis
    using db_ok_delete_requests [OF assms(1)] by (simp add: d')
qed

definition ex_audit_row :: "string \<Rightarrow> time \<Rightarrow> request_row" where
  "ex_audit_row k t =
     \<lparr>rq_id = k, rq_caller_oid = ''oid'', rq_caller_name = ''Ann'', rq_team = None, rq_requested_model = None,
      rq_routed_model = Some ''m'', rq_capabilities = [Chat], rq_status = Completed, rq_error_code = None,
      rq_replica_id = None, rq_input_tokens = 1, rq_output_tokens = 2, rq_arrived_at = t, rq_started_at = None,
      rq_completed_at = None, rq_last_token_at = None, rq_first_token_at = None, rq_duration_ms = None,
      rq_cost_usd = None, rq_affinity_hit = None\<rparr>"

definition ex_audit_db :: db where
  "ex_audit_db = empty_db\<lparr>requests := [ex_audit_row ''a'' 0, ex_audit_row ''b'' 900000000],
     audit_contents := [\<lparr>au_request_id = ''a'', au_prompt = ''p'', au_response = ''q'', au_created_at = 0\<rparr>]\<rparr>"

lemma deleteAuditHistory_exact_witness:
  "set (requests (snd (deleteAuditHistory 7 1000000000 ex_audit_db))) = {ex_audit_row ''b'' 900000000}"
proof -
  obtain n d' where e: "deleteAuditHistory 7 1000000000 ex_audit_db = (n, d')" by fastforce
  have "db_ok ex_audit_db" by code_simp
  from deleteAuditHistory_exact [OF this e]
  have "set (requests d') = {r \<in> set (requests ex_audit_db). 1000000000 - 7 * DAY_MS \<le> rq_arrived_at r}" by blast
  moreover have "requests ex_audit_db = [ex_audit_row ''a'' 0, ex_audit_row ''b'' 900000000]"
    "rq_arrived_at (ex_audit_row k t) = t" for k t
    by (simp_all add: ex_audit_db_def ex_audit_row_def)
  ultimately show ?thesis by (auto simp: e DAY_MS_def)
qed

text \<open>
  The pages of the audit listing are consecutive parts of one list, newest first; every entry
  satisfies the filter, and it says content was captured exactly when there is captured content,
  which is what was recorded last for that request.\<close>

theorem audit_pages:
  assumes "unique_key au_request_id (audit_contents d)" "recordAuditContent t k p q d = Inr d'"
  shows "getAuditEntries f (Some (n + m)) (Some i) d =
           getAuditEntries f (Some n) (Some i) d @ getAuditEntries f (Some m) (Some (i + n)) d \<and>
         sorted (map (\<lambda>e. - ae_arrivedAt e) (getAuditEntries f (Some n) (Some i) d)) \<and>
         (\<forall>e \<in> set (getAuditEntries f (Some n) (Some i) d).
            \<exists>r \<in> set (requests d). matches_filter f r \<and> e = audit_entry_of d r \<and>
              (ae_logged e \<longleftrightarrow> content_of d (rq_id r) \<noteq> None)) \<and>
         content_of d' k = Some (p, q, t) \<and> (\<forall>j. j \<noteq> k \<longrightarrow> content_of d' j = content_of d j)"
proof -
  let ?all = "sort_key (\<lambda>r. - rq_arrived_at r) (filter (matches_filter f) (requests d))"
  have "take (n + m) (drop i ?all) = take n (drop i ?all) @ take m (drop (i + n) ?all)"
    by (simp only: take_add drop_drop add.commute [of n i])
  then have "getAuditEntries f (Some (n + m)) (Some i) d =
      getAuditEntries f (Some n) (Some i) d @ getAuditEntries f (Some m) (Some (i + n)) d"
    by (simp add: getAuditEntries_def)
  moreover have "sorted (map (\<lambda>r. - rq_arrived_at r) (take n (drop i ?all)))"
    by (metis drop_map sorted_wrt_drop sorted_sort_key sorted_wrt_take take_map)
  then have "sorted (map (\<lambda>e. - ae_arrivedAt e) (getAuditEntries f (Some n) (Some i) d))"
    by (simp add: getAuditEntries_def audit_entry_of_def comp_def)
  moreover have "\<exists>r \<in> set (requests d). matches_filter f r \<and> e = audit_entry_of d r \<and>
        (ae_logged e \<longleftrightarrow> content_of d (rq_id r) \<noteq> None)"
    if "e \<in> set (getAuditEntries f (Some n) (Some i) d)" for e
  proof -
    from that obtain r where "r \<in> set (take n (drop i ?all))" and e: "e = audit_entry_of d r"
      by (auto simp: getAuditEntries_def)
    then have "r \<in> set ?all" by (meson in_set_dropD in_set_takeD)
    with logged_content show ?thesis by (auto simp: e)
  qed
  moreover have "d' = store_content k (p, q, t) d"
    using assms(2) by (simp add: recordAuditContent_Inr store_content_def)
  ultimately show ?thesis by (simp add: content_store.lookup_store [OF assms(1)])
qed

lemma audit_pages_witness:
  "getAuditEntries \<lparr>fl_caller = None, fl_model = Some ''m'', fl_team = None, fl_status = None, fl_since = None, fl_until = None\<rparr>
     (Some (1 + 1)) (Some 0) ex_audit_db =
   [audit_entry_of ex_audit_db (ex_audit_row ''b'' 900000000), audit_entry_of ex_audit_db (ex_audit_row ''a'' 0)]"
proof -
  let ?f = "\<lparr>fl_caller = None, fl_model = Some ''m'', fl_team = None, fl_status = None, fl_since = None, fl_until = None\<rparr>"
  have u: "unique_key au_request_id (audit_contents ex_audit_db)" by code_simp
  have "request_by ex_audit_db ''b'' \<noteq> None" by code_simp
  then have "recordAuditContent 5 ''b'' ''x'' ''y'' ex_audit_db = Inr (put_audit 5 ''b'' ''x'' ''y'' ex_audit_db)"
    by (simp add: recordAuditContent_Inr)
  note p = audit_pages [OF u this, of ?f 1 1 0]
  have "getAuditEntries ?f (Some 1) (Some 0) ex_audit_db = [audit_entry_of ex_audit_db (ex_audit_row ''b'' 900000000)]"
    "getAuditEntries ?f (Some 1) (Some (0 + 1)) ex_audit_db = [audit_entry_of ex_audit_db (ex_audit_row ''a'' 0)]"
    by code_simp+
  with p show ?thesis by simp
qed

end
