(* ===== verification/Adapter.thy ===== *)
theory Adapter
  imports Types
begin

text \<open>
  The model backend client, \<open>server/src/adapters/llama-swap.ts\<close>: the request body it sends, the parser
  of the event stream it reads, the classification of backend errors, and the contract of a stream
  that the request handlers rely on.

  Bytes are texts of code units, one text per read of the network. The text fields of a delta are
  strings or absent, and reported token counts are integers or absent.
\<close>

section \<open>Backend errors\<close>

datatype failure = BackendError nat string | OtherError string

text \<open>\<open>a ?? b ?? c\<close> over the places where backends put their sentence.\<close>

definition error_sentence :: "json \<Rightarrow> json option" where
  "error_sentence parsed =
     (case non_null (jpath ''message'' (jfield ''error'' parsed)) of
        Some v \<Rightarrow> Some v
      | None \<Rightarrow> (case non_null (jfield ''message'' parsed) of Some v \<Rightarrow> Some v | None \<Rightarrow> jfield ''error'' parsed))"

definition summarise :: "string \<Rightarrow> string" where
  "summarise body =
     (case json_parse body of
        None \<Rightarrow> take 300 body
      | Some parsed \<Rightarrow>
          (case as_string (error_sentence parsed) of
             Some message \<Rightarrow> if trim message \<noteq> '''' then take 300 message else take 300 body
           | None \<Rightarrow> take 300 body))"

definition failure_message :: "failure \<Rightarrow> string" where
  "failure_message e =
     (case e of
        BackendError status body \<Rightarrow> ''Model backend returned '' @ digits_of status @ '': '' @ summarise body
      | OtherError message \<Rightarrow> message)"

definition isCallerError :: "nat \<Rightarrow> bool" where
  "isCallerError status \<longleftrightarrow> 400 \<le> status \<and> status < 500"

definition overflow_codes :: "string list" where
  "overflow_codes =
     [''exceed_context_size_error'', ''context_length_exceeded'', ''maximum context length'', ''context window'']"

definition isContextOverflow :: "string \<Rightarrow> bool" where
  "isContextOverflow raw =
     (let body = to_lower raw; has = (\<lambda>p. str_includes p body) in
      list_ex has overflow_codes \<or>
      (has ''context'' \<or> has ''n_ctx'') \<and>
      (has ''exceed'' \<or> has ''too long'' \<or> has ''larger than'' \<or> has ''reduce the length''))"

section \<open>The request body\<close>

record stream_params =
  sp_endpointUrl :: string
  sp_model :: string
  sp_messages :: "chat_message list"
  sp_systemPrompt :: string
  sp_systemPromptMode :: prompt_mode
  sp_tools :: "json list option"
  sp_toolChoice :: "json option"
  sp_temperature :: "rat option"
  sp_topP :: "rat option"
  sp_maxTokens :: "int option"
  sp_stop :: "json option"
  sp_seed :: "int option"
  sp_presencePenalty :: "rat option"
  sp_frequencyPenalty :: "rat option"
  sp_responseFormat :: "json option"

definition isSystem :: "chat_message \<Rightarrow> bool" where
  "isSystem m \<longleftrightarrow> msg_role m = SystemRole \<or> msg_role m = DeveloperRole"

fun mergeText :: "content \<Rightarrow> string" where
  "mergeText (Text s) = s"
| "mergeText NullContent = ''''"
| "mergeText (Parts ps) = json_stringify (content_json (Parts ps))"

definition blank_line :: string where "blank_line = [CHR 0x0A, CHR 0x0A]"

definition preamble :: "chat_message list \<Rightarrow> string" where
  "preamble messages = join blank_line (map (\<lambda>m. mergeText (msg_content m)) (filter isSystem messages))"

fun merge_first_user :: "string \<Rightarrow> chat_message list \<Rightarrow> chat_message list" where
  "merge_first_user pre [] = []"
| "merge_first_user pre (m # ms) =
     (if msg_role m = UserRole then m\<lparr>msg_content := Text (pre @ blank_line @ mergeText (msg_content m))\<rparr> # ms
      else m # merge_first_user pre ms)"

definition mergeSystemIntoFirstUser :: "chat_message list \<Rightarrow> chat_message list" where
  "mergeSystemIntoFirstUser messages =
     (let pre = preamble messages; rest = filter (\<lambda>m. \<not> isSystem m) messages in
      if pre = '''' then messages
      else if \<not> list_ex (\<lambda>m. msg_role m = UserRole) rest
      then \<lparr>msg_role = UserRole, msg_content = Text pre, msg_extra = []\<rparr> # rest
      else merge_first_user pre rest)"

definition callerSetSystemPrompt :: "chat_message list \<Rightarrow> bool" where
  "callerSetSystemPrompt messages =
     list_ex (\<lambda>m. isSystem m \<and>
       (case msg_content m of Text s \<Rightarrow> trim s \<noteq> '''' | Parts ps \<Rightarrow> True | NullContent \<Rightarrow> False)) messages"

definition system_message :: "string \<Rightarrow> chat_message" where
  "system_message s = \<lparr>msg_role = SystemRole, msg_content = Text s, msg_extra = []\<rparr>"

definition with_default_prompt :: "stream_params \<Rightarrow> chat_message list" where
  "with_default_prompt p =
     (if sp_systemPrompt p \<noteq> '''' \<and> \<not> callerSetSystemPrompt (sp_messages p)
      then system_message (sp_systemPrompt p) # sp_messages p else sp_messages p)"

definition outgoing_messages :: "stream_params \<Rightarrow> chat_message list" where
  "outgoing_messages p =
     (if sp_systemPromptMode p = MergeMode then mergeSystemIntoFirstUser (with_default_prompt p)
      else with_default_prompt p)"

definition message_json :: "chat_message \<Rightarrow> json" where
  "message_json m =
     JObj ([(''role'', JStr (role_text (msg_role m))), (''content'', content_json (msg_content m))] @ msg_extra m)"

definition opt_field :: "string \<Rightarrow> json option \<Rightarrow> (string \<times> json) list" where
  "opt_field k v = (case v of None \<Rightarrow> [] | Some x \<Rightarrow> [(k, x)])"

definition num_json :: "rat option \<Rightarrow> json option" where
  "num_json x = map_option JNum x"

definition int_json :: "int option \<Rightarrow> json option" where
  "int_json x = map_option (\<lambda>n. JNum (of_int n)) x"

text \<open>The sampling fields go through exactly when the caller set them, tools only when there are any.\<close>

definition sampling_fields :: "stream_params \<Rightarrow> (string \<times> json) list" where
  "sampling_fields p =
     (case sp_tools p of Some ts \<Rightarrow> if ts \<noteq> [] then [(''tools'', JArr ts)] else [] | None \<Rightarrow> []) @
     opt_field ''tool_choice'' (sp_toolChoice p) @
     opt_field ''temperature'' (num_json (sp_temperature p)) @
     opt_field ''top_p'' (num_json (sp_topP p)) @
     opt_field ''max_tokens'' (int_json (sp_maxTokens p)) @
     opt_field ''stop'' (sp_stop p) @
     opt_field ''seed'' (int_json (sp_seed p)) @
     opt_field ''presence_penalty'' (num_json (sp_presencePenalty p)) @
     opt_field ''frequency_penalty'' (num_json (sp_frequencyPenalty p)) @
     opt_field ''response_format'' (sp_responseFormat p)"

definition buildChatRequestBody :: "stream_params \<Rightarrow> json" where
  "buildChatRequestBody p =
     JObj ((if sp_model p \<noteq> '''' then [(''model'', JStr (sp_model p))] else []) @
           [(''messages'', JArr (map message_json (outgoing_messages p))),
            (''stream'', JBool True),
            (''stream_options'', JObj [(''include_usage'', JBool True)])] @
           sampling_fields p)"

section \<open>The event stream\<close>

record upstream_usage =
  prompt_tokens :: int
  completion_tokens :: int
  total_tokens :: int

datatype chunk =
    TokenChunk string
  | ReasoningChunk string
  | ToolChunk "json list"
  | DoneChunk "string option" "upstream_usage option"

fun is_done :: "chunk \<Rightarrow> bool" where
  "is_done (DoneChunk f u) = True"
| "is_done _ = False"

type_synonym stream_state = "string option \<times> upstream_usage option"

definition first_choice :: "json \<Rightarrow> json option" where
  "first_choice parsed =
     (case jfield ''choices'' parsed of
        Some (JArr (c # cs)) \<Rightarrow> Some c | Some (JObj kvs) \<Rightarrow> map_of kvs ''0'' | _ \<Rightarrow> None)"

text \<open>A reported count; the floor only spells out that it is an integer.\<close>

definition as_count :: "json option \<Rightarrow> int option" where
  "as_count v = map_option floor (as_number v)"

definition read_usage :: "json \<Rightarrow> upstream_usage option" where
  "read_usage parsed =
     (case as_count (jpath ''prompt_tokens'' (jfield ''usage'' parsed)) of
        None \<Rightarrow> None
      | Some n \<Rightarrow>
          (let c = nullish (as_count (jpath ''completion_tokens'' (jfield ''usage'' parsed))) 0 in
           Some \<lparr>prompt_tokens = n, completion_tokens = c,
                 total_tokens = nullish (as_count (jpath ''total_tokens'' (jfield ''usage'' parsed))) (n + c)\<rparr>))"

definition delta_text :: "string \<Rightarrow> json option \<Rightarrow> string" where
  "delta_text k delta = nullish (as_string (jpath k delta)) ''''"

text \<open>
  One parsed frame: what it yields, and the finish reason and usage it leaves for the done frame. A
  frame that is not an object (a bare null throws, and is ignored) yields nothing.
\<close>

definition frame_chunks :: "json \<Rightarrow> chunk list" where
  "frame_chunks parsed =
     (let delta = jpath ''delta'' (first_choice parsed);
          token = delta_text ''content'' delta;
          reasoning = delta_text ''reasoning_content'' delta;
          toolCalls = as_array (jpath ''tool_calls'' delta);
          fromModel = nullish (as_string (jfield ''id'' parsed)) '''' \<noteq> '''' in
      if reasoning \<noteq> '''' \<and> token = '''' \<and> \<not> fromModel then []
      else (case toolCalls of Some ts \<Rightarrow> [ToolChunk ts] | None \<Rightarrow> []) @
           (if token \<noteq> '''' then [TokenChunk token]
            else if reasoning \<noteq> '''' \<and> toolCalls = None then [ReasoningChunk reasoning] else []))"

definition frame_state :: "json \<Rightarrow> stream_state \<Rightarrow> stream_state" where
  "frame_state parsed st =
     (coalesce (as_string (jpath ''finish_reason'' (first_choice parsed))) (fst st),
      coalesce (read_usage parsed) (snd st))"

datatype line_event = Skip | Done | Frame json

definition read_line :: "string \<Rightarrow> line_event" where
  "read_line line =
     (if \<not> starts_with ''data:'' line then Skip
      else (let data = trim (drop 5 line) in
            if data = ''[DONE]'' then Done
            else (case json_parse data of None \<Rightarrow> Skip | Some parsed \<Rightarrow> Frame parsed)))"

text \<open>The lines of the reads, up to the \<open>[DONE]\<close> line if there is one.\<close>

fun run_lines :: "line_event list \<Rightarrow> stream_state \<Rightarrow> chunk list \<times> stream_state \<times> bool" where
  "run_lines [] st = ([], st, False)"
| "run_lines (Skip # es) st = run_lines es st"
| "run_lines (Done # es) st = ([DoneChunk (fst st) (snd st)], st, True)"
| "run_lines (Frame parsed # es) st =
     (let (cs, st', fin) = run_lines es (frame_state parsed st) in (frame_chunks parsed @ cs, st', fin))"

definition newline :: char where "newline = CHR 0x0A"

text \<open>Every read is split into lines by itself.\<close>

definition lines_of_reads :: "string list \<Rightarrow> line_event list" where
  "lines_of_reads reads = concat (map (\<lambda>chunk. map read_line (split_on newline chunk)) reads)"

text \<open>
  What the backend answers: a failed request, an error status with its body, an answer without a body,
  or a body as a sequence of reads, which ends cleanly or breaks (a dropped connection, an abort).
\<close>

datatype backend_answer =
    FetchFails failure
  | ErrorAnswer nat string
  | NoBody
  | Body "string list" "failure option"

definition streamChat :: "backend_answer \<Rightarrow> chunk list \<times> failure option" where
  "streamChat answer =
     (case answer of
        FetchFails e \<Rightarrow> ([], Some e)
      | ErrorAnswer status detail \<Rightarrow> ([], Some (BackendError status detail))
      | NoBody \<Rightarrow> ([DoneChunk None None], None)
      | Body reads broken \<Rightarrow>
          (case run_lines (lines_of_reads reads) (None, None) of
             (cs, st, True) \<Rightarrow> (cs, None)
           | (cs, st, False) \<Rightarrow>
               (case broken of
                  Some e \<Rightarrow> (cs, Some e)
                | None \<Rightarrow> (cs @ [DoneChunk (fst st) (snd st)], None))))"

text \<open>
  The embeddings call: the error, or the vectors of the response, which \<open>vectors\<close> reads from the text of
  the body (an error when it is not the JSON the client expects).
\<close>

definition embed :: "backend_answer \<Rightarrow> (string \<Rightarrow> failure + 'v list) \<Rightarrow> failure + 'v list" where
  "embed answer vectors =
     (case answer of
        FetchFails e \<Rightarrow> Inl e
      | ErrorAnswer status detail \<Rightarrow> Inl (BackendError status detail)
      | NoBody \<Rightarrow> vectors []
      | Body reads broken \<Rightarrow> (case broken of Some e \<Rightarrow> Inl e | None \<Rightarrow> vectors (concat reads)))"

section \<open>The in-process backend\<close>

definition fake_reply :: "string \<Rightarrow> string" where
  "fake_reply prompt =
     ''This is a simulated response from the fake llama-swap adapter for: '' @ [CHR 0x22] @ take 80 prompt @ [CHR 0x22] @
     ''. Configure USE_FAKE_ADAPTERS=false and a real llama-swap endpoint to get live model output.''"

definition fakeStreamChat :: "chat_message list \<Rightarrow> chunk list \<times> failure option" where
  "fakeStreamChat messages =
     (let lastUser = find (\<lambda>m. msg_role m = UserRole) (rev messages);
          prompt = (case lastUser of
                      Some m \<Rightarrow> (case msg_content m of Text s \<Rightarrow> s | _ \<Rightarrow> ''your request'')
                    | None \<Rightarrow> ''your request'') in
      (map (\<lambda>w. TokenChunk (w @ '' '')) (split_on (CHR '' '') (fake_reply prompt)) @ [DoneChunk (Some ''stop'') None], None))"

datatype backend_kind = HttpLlamaSwapClient | FakeLlamaSwapClient

definition createLlamaSwapClient :: "(string \<Rightarrow> string option) \<Rightarrow> backend_kind" where
  "createLlamaSwapClient env =
     (if env ''MODEL_BACKEND'' = Some ''http'' then HttpLlamaSwapClient
      else if env ''MODEL_BACKEND'' = Some ''fake'' then FakeLlamaSwapClient
      else if env ''USE_FAKE_ADAPTERS'' = Some ''true'' then FakeLlamaSwapClient else HttpLlamaSwapClient)"


section \<open>What a stream promises\<close>

text \<open>
  The contract the request handlers rely on: a stream that ends without an error ends with its one done
  frame; a stream that breaks has not yielded one.
\<close>

locale chat_backend =
  fixes stream :: "'a \<Rightarrow> chunk list \<times> failure option"
  assumes finished: "stream a = (cs, None) \<Longrightarrow>
      \<exists>init f u. cs = init @ [DoneChunk f u] \<and> list_all (\<lambda>c. \<not> is_done c) init"
    and broken: "stream a = (cs, Some e) \<Longrightarrow> list_all (\<lambda>c. \<not> is_done c) cs"
begin

lemma done_iff_finished: "list_ex is_done (fst (stream a)) \<longleftrightarrow> snd (stream a) = None"
proof (cases "stream a")
  case (Pair cs e)
  then show ?thesis
  proof (cases e)
    case None
    with finished [of a cs] Pair show ?thesis by auto
  next
    case (Some x)
    with broken [of a cs x] Pair show ?thesis by (auto simp: list_all_iff list_ex_iff)
  qed
qed

lemma one_done_at_most: "length (filter is_done (fst (stream a))) \<le> 1"
proof (cases "stream a")
  case (Pair cs e)
  have none: "list_all (\<lambda>c. \<not> is_done c) xs \<Longrightarrow> filter is_done xs = []" for xs
    by (induction xs) auto
  show ?thesis
  proof (cases e)
    case None
    with finished [of a cs] Pair none show ?thesis by auto
  next
    case (Some x)
    with broken [of a cs x] Pair none show ?thesis by auto
  qed
qed

end

lemma frame_chunks_no_done: "list_all (\<lambda>c. \<not> is_done c) (frame_chunks parsed)"
  by (simp add: frame_chunks_def Let_def split: option.split)

lemma run_lines_done:
  "run_lines es st = (cs, st', fin) \<Longrightarrow>
   (if fin then \<exists>init f u. cs = init @ [DoneChunk f u] \<and> list_all (\<lambda>c. \<not> is_done c) init
    else list_all (\<lambda>c. \<not> is_done c) cs)"
proof (induction es st arbitrary: cs st' fin rule: run_lines.induct)
  case (4 parsed es st)
  obtain ds st1 fin1 where d: "run_lines es (frame_state parsed st) = (ds, st1, fin1)" by (metis prod_cases3)
  with "4.prems" have cs: "cs = frame_chunks parsed @ ds" "fin = fin1" by auto
  show ?case
  proof (cases fin)
    case True
    with "4.IH" [OF d] cs obtain init f u where "ds = init @ [DoneChunk f u]" "list_all (\<lambda>c. \<not> is_done c) init"
      by auto
    with True cs frame_chunks_no_done [of parsed] show ?thesis
      by (auto intro!: exI [of _ "frame_chunks parsed @ init"])
  next
    case False
    with "4.IH" [OF d] cs frame_chunks_no_done [of parsed] show ?thesis by simp
  qed
qed auto

interpretation http_backend: chat_backend streamChat
proof (standard, goal_cases)
  case (1 a cs)
  show ?case
  proof (cases a)
    case (Body reads br)
    obtain ds st fin where d: "run_lines (lines_of_reads reads) (None, None) = (ds, st, fin)" by (metis prod_cases3)
    show ?thesis
    proof (cases fin)
      case True
      with 1 d Body run_lines_done [OF d] show ?thesis by (auto simp: streamChat_def)
    next
      case False
      with 1 d Body have "cs = ds @ [DoneChunk (fst st) (snd st)]" "br = None"
        by (auto simp: streamChat_def split: option.splits)
      with False run_lines_done [OF d] show ?thesis by auto
    qed
  qed (use 1 in \<open>auto simp: streamChat_def\<close>)
next
  case (2 a cs e)
  show ?case
  proof (cases a)
    case (Body reads br)
    obtain ds st fin where d: "run_lines (lines_of_reads reads) (None, None) = (ds, st, fin)" by (metis prod_cases3)
    with 2 Body run_lines_done [OF d] show ?thesis
      by (auto simp: streamChat_def split: option.splits bool.splits)
  qed (use 2 in \<open>auto simp: streamChat_def\<close>)
qed

interpretation fake_backend: chat_backend fakeStreamChat
proof (standard, goal_cases)
  case (1 a cs)
  then show ?case by (fastforce simp: fakeStreamChat_def Let_def list_all_iff)
next
  case (2 a cs e)
  then show ?case by (simp add: fakeStreamChat_def Let_def)
qed

section \<open>Facts\<close>

lemma run_lines_skip: "run_lines (filter (\<lambda>e. e \<noteq> Skip) es) st = run_lines es st"
  by (induction es st rule: run_lines.induct) auto

lemma read_line_Nil: "read_line [] = Skip"
  by (simp add: read_line_def)

text \<open>Reads that end at a line end may as well be one read.\<close>

lemma split_on_snoc_sep: "split_on sep (s @ [sep]) = split_on sep s @ [[]]"
  using split_on_append_sep [of sep s "[]"] by simp

lemma lines_of_aligned_read:
  "filter (\<lambda>e. e \<noteq> Skip) (map read_line (split_on newline (s @ newline # t))) =
   filter (\<lambda>e. e \<noteq> Skip) (map read_line (split_on newline (s @ [newline])) @ map read_line (split_on newline t))"
  by (simp add: split_on_append_sep split_on_snoc_sep read_line_Nil)

lemma lines_of_aligned_reads:
  "list_all (\<lambda>r. r \<noteq> [] \<and> last r = newline) rs \<Longrightarrow>
   filter (\<lambda>e. e \<noteq> Skip) (lines_of_reads (rs @ [r])) = filter (\<lambda>e. e \<noteq> Skip) (lines_of_reads [concat rs @ r])"
proof (induction rs)
  case Nil
  then show ?case by simp
next
  case (Cons x rs)
  then obtain s where s: "x = s @ [newline]" by (cases x rule: rev_cases) auto
  have "filter (\<lambda>e. e \<noteq> Skip) (lines_of_reads [concat (x # rs) @ r]) =
        filter (\<lambda>e. e \<noteq> Skip) (map read_line (split_on newline (s @ newline # (concat rs @ r))))"
    by (simp add: lines_of_reads_def s)
  also have "\<dots> = filter (\<lambda>e. e \<noteq> Skip) (map read_line (split_on newline x)) @
                  filter (\<lambda>e. e \<noteq> Skip) (lines_of_reads [concat rs @ r])"
    unfolding lines_of_aligned_read [of s "concat rs @ r"] s filter_append by (simp add: lines_of_reads_def)
  finally show ?case using Cons by (simp add: lines_of_reads_def)
qed

lemma streamChat_cong:
  assumes "filter (\<lambda>e. e \<noteq> Skip) (lines_of_reads xs) = filter (\<lambda>e. e \<noteq> Skip) (lines_of_reads ys)"
  shows "streamChat (Body xs b) = streamChat (Body ys b)"
proof -
  have "run_lines (lines_of_reads xs) st = run_lines (lines_of_reads ys) st" for st
    using assms run_lines_skip [of "lines_of_reads xs" st] run_lines_skip [of "lines_of_reads ys" st] by simp
  then show ?thesis by (simp add: streamChat_def)
qed

lemma lines_of_reads_append: "lines_of_reads (xs @ ys) = lines_of_reads xs @ lines_of_reads ys"
  by (simp add: lines_of_reads_def)

lemma lines_of_read_line: "newline \<notin> set a \<Longrightarrow> lines_of_reads [a] = [read_line a]"
  by (simp add: lines_of_reads_def split_on_no_sep_id)

lemma lines_of_read_head:
  "newline \<notin> set a \<Longrightarrow> lines_of_reads [a @ newline # rest] = read_line a # lines_of_reads [rest]"
  by (simp add: lines_of_reads_def split_on_append_sep split_on_no_sep_id)

section \<open>Folding the system prompt\<close>

lemma merge_first_user_shape:
  assumes "list_ex (\<lambda>m. msg_role m = UserRole) ms"
  shows "\<exists>a m b. ms = a @ m # b \<and> msg_role m = UserRole \<and> list_all (\<lambda>x. msg_role x \<noteq> UserRole) a \<and>
         merge_first_user pre ms = a @ m\<lparr>msg_content := Text (pre @ blank_line @ mergeText (msg_content m))\<rparr> # b"
  using assms
proof (induction ms)
  case Nil
  then show ?case by simp
next
  case (Cons x ms)
  show ?case
  proof (cases "msg_role x = UserRole")
    case True
    then have "x # ms = [] @ x # ms \<and> msg_role x = UserRole \<and> list_all (\<lambda>y. msg_role y \<noteq> UserRole) [] \<and>
      merge_first_user pre (x # ms) = [] @ x\<lparr>msg_content := Text (pre @ blank_line @ mergeText (msg_content x))\<rparr> # ms"
      by simp
    then show ?thesis by blast
  next
    case False
    with Cons obtain a m b where "ms = a @ m # b" "msg_role m = UserRole" "list_all (\<lambda>x. msg_role x \<noteq> UserRole) a"
      "merge_first_user pre ms = a @ m\<lparr>msg_content := Text (pre @ blank_line @ mergeText (msg_content m))\<rparr> # b"
      by auto
    with False show ?thesis by (intro exI [of _ "x # a"] exI [of _ m] exI [of _ b]) simp
  qed
qed

lemma str_includes_self: "str_includes s s"
  using str_includes_iff [of s s] by (metis append_Nil append_Nil2)

lemma join_includes: "s \<in> set ss \<Longrightarrow> str_includes s (join sep ss)"
proof (induction sep ss rule: join.induct)
  case (3 sep x y zs)
  then show ?case
  proof (cases "s = x")
    case True
    then show ?thesis using str_includes_mono [of s s "[]"] by (simp add: str_includes_self)
  next
    case False
    with 3 have "str_includes s (join sep (y # zs))" by simp
    then show ?thesis using str_includes_mono [of s _ "x @ sep" "[]"] by simp
  qed
qed (simp_all add: str_includes_self)

lemma preamble_includes:
  "m \<in> set ms \<Longrightarrow> isSystem m \<Longrightarrow> str_includes (mergeText (msg_content m)) (preamble ms)"
  by (simp add: preamble_def join_includes)

lemma merged_not_system: "isSystem (m\<lparr>msg_content := c\<rparr>) = isSystem m"
  by (simp add: isSystem_def)

lemma preamble_no_system: "list_all (\<lambda>m. \<not> isSystem m) ms \<Longrightarrow> preamble ms = []"
  by (simp add: preamble_def list_all_iff)

lemma user_not_system: "msg_role m = UserRole \<Longrightarrow> \<not> isSystem m"
  by (simp add: isSystem_def)

section \<open>Properties\<close>

text \<open>
  Every stream of the real client keeps the contract the request handlers rely on: it ends without an
  error exactly when it has yielded its done frame, and it never yields two of them.\<close>
theorem stream_contract:
  "(list_ex is_done (fst (streamChat a)) \<longleftrightarrow> snd (streamChat a) = None) \<and>
   length (filter is_done (fst (streamChat a))) \<le> 1"
  using http_backend.done_iff_finished http_backend.one_done_at_most by simp

text \<open>
  As long as every read but the last ends at the end of a line, it does not matter how the network cuts
  the stream into reads: the client yields the same chunks as for one read of the whole body.\<close>
theorem aligned_reads_equivalent:
  assumes "list_all (\<lambda>r. r \<noteq> [] \<and> last r = newline) rs"
  shows "streamChat (Body (rs @ [r]) broken) = streamChat (Body [concat rs @ r] broken)"
  using assms lines_of_aligned_reads by (intro streamChat_cong)

definition ex_frame :: string where
  \<open>ex_frame = ''data: {"id":"c","choices":[{"delta":{"content":"Hi"}}]}''\<close>

lemma aligned_reads_equivalent_witness:
  "streamChat (Body [ex_frame @ [newline], ''data: [DONE]''] None) = streamChat (Body [ex_frame @ newline # ''data: [DONE]''] None) \<and>
   fst (streamChat (Body [ex_frame @ newline # ''data: [DONE]''] None)) = [TokenChunk ''Hi'', DoneChunk None None]"
proof
  show "streamChat (Body [ex_frame @ [newline], ''data: [DONE]''] None) = streamChat (Body [ex_frame @ newline # ''data: [DONE]''] None)"
    using aligned_reads_equivalent [of "[ex_frame @ [newline]]" "''data: [DONE]''" None] by simp
  show "fst (streamChat (Body [ex_frame @ newline # ''data: [DONE]''] None)) = [TokenChunk ''Hi'', DoneChunk None None]"
    by code_simp
qed

text \<open>
  C22: A frame that the network cuts in two reads is lost: when neither half is a frame by itself, the client
  yields what it would have yielded had the frame never been sent. The lines are not carried over from one
  read to the next.
\<close>
theorem split_frame_is_lost:
  assumes "newline \<notin> set a" "newline \<notin> set b" "starts_with ''data:'' a"
    and "trim (drop 5 a) \<noteq> ''[DONE]''" "json_parse (trim (drop 5 a)) = None" "\<not> starts_with ''data:'' b"
  shows "streamChat (Body (rs @ a # (b @ newline # rest) # rs') broken) = streamChat (Body (rs @ rest # rs') broken)"
proof (rule streamChat_cong)
  have "read_line a = Skip" "read_line b = Skip"
    using assms by (simp_all add: read_line_def)
  then have "filter (\<lambda>e. e \<noteq> Skip) (lines_of_reads ([a] @ [b @ newline # rest])) =
             filter (\<lambda>e. e \<noteq> Skip) (lines_of_reads [rest])"
    unfolding lines_of_reads_append using assms(1,2) by (simp add: lines_of_read_line lines_of_read_head)
  then show "filter (\<lambda>e. e \<noteq> Skip) (lines_of_reads (rs @ a # (b @ newline # rest) # rs')) =
             filter (\<lambda>e. e \<noteq> Skip) (lines_of_reads (rs @ rest # rs'))"
    using lines_of_reads_append [of rs "[a] @ [b @ newline # rest] @ rs'"]
      lines_of_reads_append [of "[a] @ [b @ newline # rest]" rs']
      lines_of_reads_append [of rs "[rest] @ rs'"] lines_of_reads_append [of "[rest]" rs']
    by simp
qed

text \<open>Cut anywhere in its JSON, the frame that carries the answer disappears from it.\<close>

lemma split_frame_is_lost_witness:
  "list_all (\<lambda>i. streamChat (Body [take i ex_frame, drop i ex_frame @ newline # ''data: [DONE]''] None) =
                 streamChat (Body [''data: [DONE]''] None)) [12, 30, 52] \<and>
   fst (streamChat (Body [''data: [DONE]''] None)) = [DoneChunk None None]"
proof -
  have cut: "streamChat (Body [take i ex_frame, drop i ex_frame @ newline # ''data: [DONE]''] None) =
             streamChat (Body [''data: [DONE]''] None)"
    if "newline \<notin> set (take i ex_frame) \<and> newline \<notin> set (drop i ex_frame) \<and> starts_with ''data:'' (take i ex_frame) \<and>
        trim (drop 5 (take i ex_frame)) \<noteq> ''[DONE]'' \<and> json_parse (trim (drop 5 (take i ex_frame))) = None \<and>
        \<not> starts_with ''data:'' (drop i ex_frame)" for i
    using split_frame_is_lost [of "take i ex_frame" "drop i ex_frame" "[]" "''data: [DONE]''" "[]" None] that by simp
  have "list_all (\<lambda>i. newline \<notin> set (take i ex_frame) \<and> newline \<notin> set (drop i ex_frame) \<and>
        starts_with ''data:'' (take i ex_frame) \<and>
        trim (drop 5 (take i ex_frame)) \<noteq> ''[DONE]'' \<and> json_parse (trim (drop 5 (take i ex_frame))) = None \<and>
        \<not> starts_with ''data:'' (drop i ex_frame)) [12, 30, 52]"
    by code_simp
  then have "list_all (\<lambda>i. streamChat (Body [take i ex_frame, drop i ex_frame @ newline # ''data: [DONE]''] None) =
                 streamChat (Body [''data: [DONE]''] None)) [12, 30, 52]"
    using cut by (simp only: list_all_iff) blast
  moreover have "fst (streamChat (Body [''data: [DONE]''] None)) = [DoneChunk None None]"
    by code_simp
  ultimately show ?thesis by blast
qed

text \<open>
  Folding the system prompt into the first user turn loses no instruction and no turn: no system message is
  left, every instruction is part of the first user turn, the other turns stay in their order and the number of
  user turns is unchanged unless there was none. Folding a second time changes nothing.\<close>
theorem merge_keeps_instructions:
  assumes "preamble ms \<noteq> ''''"
  defines "out \<equiv> mergeSystemIntoFirstUser ms"
  shows "list_all (\<lambda>m. \<not> isSystem m) out \<and>
         (\<exists>a u b t. out = a @ u # b \<and> msg_role u = UserRole \<and> list_all (\<lambda>x. msg_role x \<noteq> UserRole) a \<and>
            msg_content u = Text t \<and>
            list_all (\<lambda>m. str_includes (mergeText (msg_content m)) t) (filter isSystem ms)) \<and>
         filter (\<lambda>m. msg_role m \<noteq> UserRole) out = filter (\<lambda>m. \<not> isSystem m \<and> msg_role m \<noteq> UserRole) ms \<and>
         length (filter (\<lambda>m. msg_role m = UserRole) out) = max 1 (length (filter (\<lambda>m. msg_role m = UserRole) ms)) \<and>
         mergeSystemIntoFirstUser out = out"
proof -
  define rest where "rest = filter (\<lambda>m. \<not> isSystem m) ms"
  have rest: "list_all (\<lambda>m. \<not> isSystem m) rest" by (auto simp: rest_def list_all_iff)
  have others: "filter (\<lambda>m. msg_role m \<noteq> UserRole) rest = filter (\<lambda>m. \<not> isSystem m \<and> msg_role m \<noteq> UserRole) ms"
    by (simp add: rest_def conj_commute)
  have users: "filter (\<lambda>m. msg_role m = UserRole) rest = filter (\<lambda>m. msg_role m = UserRole) ms"
    using user_not_system by (auto simp: rest_def intro: filter_cong)
  have texts: "list_all (\<lambda>m. str_includes (mergeText (msg_content m)) (x @ preamble ms @ y)) (filter isSystem ms)" for x y
    by (auto simp: list_all_iff preamble_includes str_includes_mono)
  have once: "mergeSystemIntoFirstUser xs = xs" if "list_all (\<lambda>m. \<not> isSystem m) xs" for xs
    using that by (simp add: mergeSystemIntoFirstUser_def preamble_no_system)
  show ?thesis
  proof (cases "list_ex (\<lambda>m. msg_role m = UserRole) rest")
    case False
    let ?u = "\<lparr>msg_role = UserRole, msg_content = Text (preamble ms), msg_extra = []\<rparr>"
    have out: "out = ?u # rest" using assms(1) False by (simp add: out_def mergeSystemIntoFirstUser_def rest_def Let_def)
    have "filter (\<lambda>m. msg_role m = UserRole) rest = []" using False by (auto simp: list_ex_iff filter_empty_conv)
    with users have none: "filter (\<lambda>m. msg_role m = UserRole) rest = []" "filter (\<lambda>m. msg_role m = UserRole) ms = []"
      by simp_all
    have sys: "list_all (\<lambda>m. \<not> isSystem m) out" using rest by (simp add: out user_not_system)
    show ?thesis
      using sys once [OF sys] others none texts [of "[]" "[]"] by (auto simp: out intro!: exI [of _ "[]"])
  next
    case True
    then obtain a u b where r: "rest = a @ u # b" "msg_role u = UserRole" "list_all (\<lambda>x. msg_role x \<noteq> UserRole) a"
      and m: "merge_first_user (preamble ms) rest =
        a @ u\<lparr>msg_content := Text (preamble ms @ blank_line @ mergeText (msg_content u))\<rparr> # b"
      using merge_first_user_shape [of rest "preamble ms"] by blast
    let ?u = "u\<lparr>msg_content := Text (preamble ms @ blank_line @ mergeText (msg_content u))\<rparr>"
    have out: "out = a @ ?u # b"
      using assms(1) True m by (simp add: out_def mergeSystemIntoFirstUser_def rest_def Let_def)
    have sys: "list_all (\<lambda>m. \<not> isSystem m) out" using rest r(1) by (simp add: out merged_not_system)
    have "length (filter (\<lambda>m. msg_role m = UserRole) out) = length (filter (\<lambda>m. msg_role m = UserRole) ms)"
      using r(2) by (simp add: out r(1) flip: users)
    moreover have "1 \<le> length (filter (\<lambda>m. msg_role m = UserRole) ms)" using r(2) by (simp add: r(1) flip: users)
    moreover have "filter (\<lambda>m. msg_role m \<noteq> UserRole) out = filter (\<lambda>m. msg_role m \<noteq> UserRole) rest"
      using r(2) by (simp add: out r(1))
    moreover have "\<exists>a u b t. out = a @ u # b \<and> msg_role u = UserRole \<and> list_all (\<lambda>x. msg_role x \<noteq> UserRole) a \<and>
            msg_content u = Text t \<and>
            list_all (\<lambda>m. str_includes (mergeText (msg_content m)) t) (filter isSystem ms)"
      using r(2,3) texts [of "[]" "blank_line @ mergeText (msg_content u)"]
      by (intro exI [of _ a] exI [of _ ?u] exI [of _ b]) (simp add: out)
    ultimately show ?thesis using sys once [OF sys] others by simp
  qed
qed

definition ex_merge :: "chat_message list" where
  "ex_merge = [system_message ''Be brief.'', \<lparr>msg_role = UserRole, msg_content = Text ''Hi'', msg_extra = []\<rparr>]"

lemma merge_keeps_instructions_witness:
  "mergeSystemIntoFirstUser (mergeSystemIntoFirstUser ex_merge) = mergeSystemIntoFirstUser ex_merge \<and>
   map msg_content (mergeSystemIntoFirstUser ex_merge) = [Text (''Be brief.'' @ blank_line @ ''Hi'')]"
proof -
  have pre: "preamble ex_merge \<noteq> ''''" by code_simp
  have "map msg_content (mergeSystemIntoFirstUser ex_merge) = [Text (''Be brief.'' @ blank_line @ ''Hi'')]" by code_simp
  with merge_keeps_instructions [OF pre] show ?thesis by simp
qed

end
