(* ===== verification/Completions.thy ===== *)
theory Completions
  imports Placement Adapter AuditTrail Cost Routing Auth
begin

text \<open>
  The OpenAI-compatible routes, \<open>server/src/http/routes/v1.ts\<close>: the chat completion handler in its
  streaming, buffered and dry-run forms, the embeddings handler and the model listing, with the waiting
  loop, the two generation clocks, the failure paths and the settlement of a finished request.

  Everything outside the process is an argument: \<open>call_env\<close> holds the id a request gets, the times at
  which its steps run, what the other handlers do to the store between the polls of the waiting loop,
  what the backend yields and when, and which statements of the settlement the store refuses. A \<open>None\<close>
  result means that the handler is still waiting at the end of the polls it was given.
\<close>

section \<open>Failing a request\<close>

definition STATUS_FOR_ERROR_CODE :: "error_code \<Rightarrow> request_status option" where
  "STATUS_FOR_ERROR_CODE c =
     (case c of
        QueueTimeout \<Rightarrow> Some QueueTimeoutStatus
      | StallTimeout \<Rightarrow> Some StallTimeoutStatus
      | ReplicaUnavailable \<Rightarrow> Some ReplicaUnavailableStatus
      | _ \<Rightarrow> None)"

definition failed_row :: "standard_error \<Rightarrow> time \<Rightarrow> request_row \<Rightarrow> request_row" where
  "failed_row err now r =
     r\<lparr>rq_status := nullish (STATUS_FOR_ERROR_CODE (err_code err)) ErrorRequest,
       rq_error_code := Some (err_code err), rq_completed_at := Some now\<rparr>"

definition drop_slot :: "replica_row \<Rightarrow> replica_row" where
  "drop_slot r = r\<lparr>rp_in_flight := max 0 (rp_in_flight r - 1)\<rparr>"

definition failRequest :: "string \<Rightarrow> standard_error \<Rightarrow> string option \<Rightarrow> time \<Rightarrow> db \<Rightarrow> db" where
  "failRequest requestId err replicaId now d =
     (let d1 = update_requests (\<lambda>r. rq_id r = requestId) (failed_row err now) d in
      case present replicaId of
        None \<Rightarrow> d1
      | Some p \<Rightarrow> update_replicas (\<lambda>r. rp_id r = p) drop_slot d1)"

section \<open>Tool calls\<close>

record tool_delta =
  td_index :: "rat option"
  td_id :: "string option"
  td_type :: "string option"
  td_name :: "string option"
  td_arguments :: "string option"

record tool_call =
  tc_id :: "string option"
  tc_type :: string
  tc_name :: string
  tc_arguments :: string

definition tool_delta_of :: "json \<Rightarrow> tool_delta" where
  "tool_delta_of j =
     \<lparr>td_index = as_number (jfield ''index'' j), td_id = as_string (jfield ''id'' j),
      td_type = as_string (jfield ''type'' j),
      td_name = as_string (jpath ''name'' (jfield ''function'' j)),
      td_arguments = as_string (jpath ''arguments'' (jfield ''function'' j))\<rparr>"

definition new_call :: tool_call where
  "new_call = \<lparr>tc_id = None, tc_type = ''function'', tc_name = '''', tc_arguments = ''''\<rparr>"

definition merge_delta :: "tool_delta \<Rightarrow> tool_call \<Rightarrow> tool_call" where
  "merge_delta d c =
     \<lparr>tc_id = (case present (td_id d) of Some i \<Rightarrow> Some i | None \<Rightarrow> tc_id c),
      tc_type = nullish (present (td_type d)) (tc_type c),
      tc_name = nullish (present (td_name d)) (tc_name c),
      tc_arguments = tc_arguments c @ nullish (present (td_arguments d)) ''''\<rparr>"

definition call_index :: "tool_delta \<Rightarrow> rat" where
  "call_index d = nullish (td_index d) 0"

definition add_delta :: "tool_delta \<Rightarrow> (rat \<times> tool_call) list \<Rightarrow> (rat \<times> tool_call) list" where
  "add_delta d byIndex =
     (let i = call_index d in AList.update i (merge_delta d (nullish (map_of byIndex i) new_call)) byIndex)"

definition assembleToolCalls :: "tool_delta list \<Rightarrow> tool_call list" where
  "assembleToolCalls deltas = map snd (sort_key fst (fold add_delta deltas []))"

definition tool_call_json :: "tool_call \<Rightarrow> json" where
  "tool_call_json c =
     JObj ([(''type'', JStr (tc_type c)),
            (''function'', JObj [(''name'', JStr (tc_name c)), (''arguments'', JStr (tc_arguments c))])] @
           opt_field ''id'' (map_option JStr (tc_id c)))"

section \<open>What is recorded and charged\<close>

definition auditBody :: "string \<Rightarrow> string \<Rightarrow> json list \<Rightarrow> string" where
  "auditBody reasoning body toolCalls =
     join blank_line
       ((if reasoning \<noteq> '''' then [reasoning] else []) @ (if body \<noteq> '''' then [body] else []) @
        (if toolCalls \<noteq> [] then [json_stringify (JObj [(''tool_calls'', JArr toolCalls)])] else []))"

definition backendFailure :: "failure \<Rightarrow> standard_error" where
  "backendFailure e =
     (case e of
        BackendError status body \<Rightarrow>
          if isContextOverflow body then contextLengthExceeded (failure_message e)
          else if isCallerError status then invalidRequest (failure_message e)
          else replicaUnavailable (failure_message e)
      | OtherError message \<Rightarrow> replicaUnavailable (failure_message e))"

definition resolveUsage :: "upstream_usage option \<Rightarrow> int \<Rightarrow> int \<Rightarrow> int \<times> int \<times> bool" where
  "resolveUsage upstream estimatedPrompt countedCompletion =
     (case upstream of
        Some u \<Rightarrow> (prompt_tokens u, completion_tokens u, True)
      | None \<Rightarrow> (estimatedPrompt, countedCompletion, False))"

definition quarter_up :: "nat \<Rightarrow> int" where
  "quarter_up n = int ((n + 3) div 4)"

definition promptText :: "chat_message list \<Rightarrow> string" where
  "promptText ms =
     join [newline]
       (map (\<lambda>m. case msg_content m of
                    Text s \<Rightarrow> s
                  | NullContent \<Rightarrow> json_stringify (JStr '''')
                  | Parts ps \<Rightarrow> json_stringify (content_json (Parts ps))) ms)"

section \<open>The generation clocks\<close>

datatype deadline_reason = FirstTokenClock | StallClock

record deadline =
  dl_reason :: deadline_reason
  dl_expires :: time

definition generationDeadline :: "time \<Rightarrow> int \<Rightarrow> deadline" where
  "generationDeadline now firstTokenMs = \<lparr>dl_reason = FirstTokenClock, dl_expires = now + firstTokenMs\<rparr>"

definition sawToken :: "time \<Rightarrow> int \<Rightarrow> deadline \<Rightarrow> deadline" where
  "sawToken now stallMs dl = \<lparr>dl_reason = StallClock, dl_expires = now + stallMs\<rparr>"

definition aborted :: "time \<Rightarrow> deadline \<Rightarrow> bool" where
  "aborted now dl \<longleftrightarrow> dl_expires dl \<le> now"

text \<open>\<open>Math.round(ms / 1000)\<close>.\<close>

definition round_seconds :: "int \<Rightarrow> int" where
  "round_seconds ms = (ms + 500) div 1000"

definition first_token_ms :: "settings \<Rightarrow> model_config \<Rightarrow> int" where
  "first_token_ms cfg model = nullish (m_firstTokenTimeoutMs model) (FIRST_TOKEN_TIMEOUT_MS cfg)"

text \<open>The dash of the message is written as two hyphens.\<close>

definition timeoutError :: "settings \<Rightarrow> deadline_reason \<Rightarrow> model_config \<Rightarrow> standard_error" where
  "timeoutError cfg reason model =
     \<lparr>err_type = TimeoutError, err_code = StallTimeout,
      err_message =
        (case reason of
           FirstTokenClock \<Rightarrow>
             ''No first token within '' @ show_int (round_seconds (first_token_ms cfg model)) @
             ''s. For a large prompt this is usually prompt evaluation taking longer than the allowance'' @
             '' -- raise firstTokenTimeoutMs for '' @ [CHR 0x22] @ m_id model @ [CHR 0x22] @
             ''. For a cold start it is the model still loading its weights.''
         | StallClock \<Rightarrow>
             ''Generation stopped for more than '' @ show_int (round_seconds (STALL_TIMEOUT_MS cfg)) @
             ''s. The replica stopped producing tokens mid-answer.'')\<rparr>"

section \<open>Waiting for a replica\<close>

definition PLACEMENT_RETRY_MS :: int where "PLACEMENT_RETRY_MS = 200"

text \<open>
  A poll of the waiting loop: when it runs, which rows other transactions hold, and what the rest of the
  system did to the store since the previous one.
\<close>

record poll =
  po_now :: time
  po_locked :: "string list"
  po_others :: "db \<Rightarrow> db"

datatype placement =
    PlacedAt (pl_replicaId: string) (pl_endpointUrl: string) (pl_affinityHit: bool)
  | NotPlaced standard_error

definition noReplicaError :: "string \<Rightarrow> standard_error" where
  "noReplicaError modelId =
     queueTimeoutError (''No replica became available for model '' @ [CHR 0x22] @ modelId @ [CHR 0x22] @
       '' within the queue-wait timeout.'')"

fun waitForPlacement ::
  "keda_client \<Rightarrow> settings \<Rightarrow> time \<Rightarrow> string \<Rightarrow> string \<Rightarrow> string option \<Rightarrow> poll list \<Rightarrow> db \<Rightarrow> (placement \<times> db) option" where
  "waitForPlacement keda cfg deadline modelId requestId affinityKey [] d = None"
| "waitForPlacement keda cfg deadline modelId requestId affinityKey (p # ps) d =
     (let d0 = po_others p d in
      if po_now p < deadline then
        (case placeRequest keda cfg (po_locked p) (po_now p) modelId affinityKey d0 of
           (Placed r hit, d1) \<Rightarrow> Some (PlacedAt (rep_id r) (rep_endpointUrl r) hit, d1)
         | (NeedsQueue, d1) \<Rightarrow> waitForPlacement keda cfg deadline modelId requestId affinityKey ps d1)
      else Some (NotPlaced (noReplicaError modelId), snd (expireQueuedRequest requestId (po_now p) d0)))"

section \<open>Generating\<close>

text \<open>The backend over time: it yields a chunk, or it breaks. When its list ends it stays silent.\<close>

datatype backend_event = Yields time chunk | Breaks time failure

record generation =
  ge_tokens :: int
  ge_text :: string
  ge_reasoning :: string
  ge_tools :: "json list"
  ge_finish :: "string option"
  ge_usage :: "upstream_usage option"
  ge_sent :: "chunk list"
  ge_deadline :: deadline

datatype generation_end = Finished time | Failed time standard_error

definition new_generation :: "deadline \<Rightarrow> generation" where
  "new_generation dl =
     \<lparr>ge_tokens = 0, ge_text = '''', ge_reasoning = '''', ge_tools = [], ge_finish = None, ge_usage = None,
      ge_sent = [], ge_deadline = dl\<rparr>"

text \<open>A chunk that is not the done frame: counted, added to what it belongs to, and forwarded.\<close>

definition take_chunk :: "settings \<Rightarrow> time \<Rightarrow> chunk \<Rightarrow> generation \<Rightarrow> generation" where
  "take_chunk cfg t c g =
     (let g1 = g\<lparr>ge_tokens := ge_tokens g + 1, ge_deadline := sawToken t (STALL_TIMEOUT_MS cfg) (ge_deadline g),
                 ge_sent := ge_sent g @ [c]\<rparr> in
      case c of
        ToolChunk ts \<Rightarrow> g1\<lparr>ge_tools := ge_tools g @ ts\<rparr>
      | ReasoningChunk s \<Rightarrow> g1\<lparr>ge_reasoning := ge_reasoning g @ s\<rparr>
      | TokenChunk s \<Rightarrow> g1\<lparr>ge_text := ge_text g @ s\<rparr>
      | DoneChunk f u \<Rightarrow> g1)"

text \<open>
  The loop over the backend's chunks. The abort of the deadline ends it when the next event would come
  too late, or when there is none.
\<close>

fun generate ::
  "settings \<Rightarrow> model_config \<Rightarrow> string \<Rightarrow> backend_event list \<Rightarrow> generation \<Rightarrow> db \<Rightarrow> generation \<times> generation_end \<times> db" where
  "generate cfg model requestId [] g d =
     (g, Failed (dl_expires (ge_deadline g)) (timeoutError cfg (dl_reason (ge_deadline g)) model), d)"
| "generate cfg model requestId (Yields t c # es) g d =
     (if aborted t (ge_deadline g)
      then (g, Failed (dl_expires (ge_deadline g)) (timeoutError cfg (dl_reason (ge_deadline g)) model), d)
      else (case c of
              DoneChunk f u \<Rightarrow> (g\<lparr>ge_finish := f, ge_usage := u\<rparr>, Finished t, d)
            | _ \<Rightarrow> generate cfg model requestId es (take_chunk cfg t c g) (recordTokenEmitted requestId t d)))"
| "generate cfg model requestId (Breaks t e # es) g d =
     (if aborted t (ge_deadline g)
      then (g, Failed (dl_expires (ge_deadline g)) (timeoutError cfg (dl_reason (ge_deadline g)) model), d)
      else (g, Failed t (backendFailure e), d))"

section \<open>Settling a finished request\<close>

text \<open>The statements after the last token, in their order; \<open>raises\<close> says which of them the store refuses.\<close>

datatype settle_call = ReadCost | SetInputTokens | Complete | ReadScopes | WriteAudit

definition set_input_tokens :: "string \<Rightarrow> int \<Rightarrow> db \<Rightarrow> db" where
  "set_input_tokens requestId n d =
     update_requests (\<lambda>r. rq_id r = requestId) (\<lambda>r. r\<lparr>rq_input_tokens := n\<rparr>) d"

definition set_routed_model :: "string \<Rightarrow> string \<Rightarrow> db \<Rightarrow> db" where
  "set_routed_model requestId modelId d =
     update_requests (\<lambda>r. rq_id r = requestId) (\<lambda>r. r\<lparr>rq_routed_model := Some modelId\<rparr>) d"

definition set_affinity_hit :: "string \<Rightarrow> bool \<Rightarrow> db \<Rightarrow> db" where
  "set_affinity_hit requestId hit d =
     update_requests (\<lambda>r. rq_id r = requestId) (\<lambda>r. r\<lparr>rq_affinity_hit := Some hit\<rparr>) d"

definition charge :: "db \<Rightarrow> model_config \<Rightarrow> int \<Rightarrow> int \<Rightarrow> int \<Rightarrow> rat" where
  "charge d model inputTokens outputTokens durationMs =
     computeCost (snd (costConfigFor d model)) (fst (costConfigFor d model)) inputTokens outputTokens durationMs"

definition log_content ::
  "(settle_call \<Rightarrow> string option) \<Rightarrow> time \<Rightarrow> string option \<Rightarrow> string \<Rightarrow> string \<Rightarrow> string \<Rightarrow> string \<Rightarrow> db \<Rightarrow> failure option \<times> db" where
  "log_content raises now team modelId requestId prompt response d =
     (case raises ReadScopes of
        Some m \<Rightarrow> (Some (OtherError m), d)
      | None \<Rightarrow>
          if isContentLoggingEnabled team (Some modelId) None d
          then (case raises WriteAudit of
                  Some m \<Rightarrow> (Some (OtherError m), d)
                | None \<Rightarrow> (case recordAuditContent now requestId prompt response d of
                             Inl e \<Rightarrow> (Some (OtherError ''insert on audit_content violates foreign key''), d)
                           | Inr d' \<Rightarrow> (None, d')))
          else (None, d))"

definition settle ::
  "settings \<Rightarrow> (settle_call \<Rightarrow> string option) \<Rightarrow> model_config \<Rightarrow> string \<Rightarrow> time \<Rightarrow> time \<Rightarrow> int \<Rightarrow> int \<Rightarrow> db \<Rightarrow> failure option \<times> db" where
  "settle cfg raises model requestId startedAt now inputTokens outputTokens d =
     (case raises ReadCost of
        Some m \<Rightarrow> (Some (OtherError m), d)
      | None \<Rightarrow>
          (let costUsd = charge d model inputTokens outputTokens (now - startedAt) in
           case raises SetInputTokens of
             Some m \<Rightarrow> (Some (OtherError m), d)
           | None \<Rightarrow>
               (let d1 = set_input_tokens requestId inputTokens d in
                case raises Complete of
                  Some m \<Rightarrow> (Some (OtherError m), d1)
                | None \<Rightarrow> (None, completeRequest cfg requestId outputTokens costUsd now d1))))"

section \<open>Replies\<close>

datatype sse = SseData json | SseError standard_error | SseDone

datatype http_reply =
    JsonReply json
  | ErrorReply nat standard_error
  | SseReply "sse list"
  | Unhandled string

definition sse_chunk :: "string \<Rightarrow> int \<Rightarrow> string \<Rightarrow> json \<Rightarrow> json \<Rightarrow> sse" where
  "sse_chunk requestId created modelId delta finish =
     SseData (JObj [(''id'', JStr requestId), (''object'', JStr ''chat.completion.chunk''),
       (''created'', JNum (of_int created)), (''model'', JStr modelId),
       (''choices'', JArr [JObj [(''index'', JNum 0), (''delta'', delta), (''finish_reason'', finish)]])])"

definition chunk_delta :: "chunk \<Rightarrow> json" where
  "chunk_delta c =
     (case c of
        ToolChunk ts \<Rightarrow> JObj [(''tool_calls'', JArr ts)]
      | ReasoningChunk s \<Rightarrow> JObj [(''reasoning_content'', JStr s)]
      | TokenChunk s \<Rightarrow> JObj [(''content'', JStr s)]
      | DoneChunk f u \<Rightarrow> JObj [(''content'', JStr '''')])"

definition usage_json :: "int \<Rightarrow> int \<Rightarrow> json" where
  "usage_json inputTokens outputTokens =
     JObj [(''prompt_tokens'', JNum (of_int inputTokens)), (''completion_tokens'', JNum (of_int outputTokens)),
           (''total_tokens'', JNum (of_int (inputTokens + outputTokens)))]"

definition finish_reason :: "string option \<Rightarrow> bool \<Rightarrow> string" where
  "finish_reason upstream madeCalls = nullish upstream (if madeCalls then ''tool_calls'' else ''stop'')"

definition usage_chunk :: "string \<Rightarrow> int \<Rightarrow> string \<Rightarrow> int \<Rightarrow> int \<Rightarrow> sse" where
  "usage_chunk requestId created modelId inputTokens outputTokens =
     SseData (JObj [(''id'', JStr requestId), (''object'', JStr ''chat.completion.chunk''),
       (''created'', JNum (of_int created)), (''model'', JStr modelId), (''choices'', JArr []),
       (''usage'', usage_json inputTokens outputTokens)])"

section \<open>The chat completion handler\<close>

record call_env =
  en_requestId :: string
  en_now :: time
  en_polls :: "poll list"
  en_start :: time
  en_backend :: "stream_params \<Rightarrow> backend_event list"
  en_settle :: time
  en_raises :: "settle_call \<Rightarrow> string option"

definition stream_params_of :: "model_config \<Rightarrow> string \<Rightarrow> chat_request \<Rightarrow> stream_params" where
  "stream_params_of model targetUrl body =
     \<lparr>sp_endpointUrl = targetUrl, sp_model = m_upstreamModel model, sp_messages = cr_messages body,
      sp_systemPrompt = m_systemPrompt model, sp_systemPromptMode = m_systemPromptMode model,
      sp_tools = cr_tools body, sp_toolChoice = cr_tool_choice body, sp_temperature = cr_temperature body,
      sp_topP = cr_top_p body, sp_maxTokens = cr_max_tokens body, sp_stop = cr_stop body, sp_seed = cr_seed body,
      sp_presencePenalty = cr_presence_penalty body, sp_frequencyPenalty = cr_frequency_penalty body,
      sp_responseFormat = cr_response_format body\<rparr>"

definition mode_text :: "prompt_mode \<Rightarrow> string" where
  "mode_text m = (case m of Passthrough \<Rightarrow> ''passthrough'' | MergeMode \<Rightarrow> ''merge'')"

definition dryRun :: "model_config \<Rightarrow> chat_request \<Rightarrow> json" where
  "dryRun model body =
     JObj [(''object'', JStr ''controldeck.dry_run''), (''routed_model'', JStr (m_id model)),
       (''upstream'', JObj [(''url'', JStr (m_endpointUrl model @ ''/v1/chat/completions'')),
          (''system_prompt_mode'', JStr (mode_text (m_systemPromptMode model))),
          (''body'', buildChatRequestBody (stream_params_of model (m_endpointUrl model) body))])]"

definition run_generation ::
  "settings \<Rightarrow> call_env \<Rightarrow> model_config \<Rightarrow> string \<Rightarrow> chat_request \<Rightarrow> db \<Rightarrow> generation \<times> generation_end \<times> db" where
  "run_generation cfg env model targetUrl body d =
     generate cfg model (en_requestId env) (en_backend env (stream_params_of model targetUrl body))
       (new_generation (generationDeadline (en_start env) (first_token_ms cfg model))) d"

definition created_at :: "call_env \<Rightarrow> int" where
  "created_at env = en_start env div 1000"

definition turn_usage :: "chat_request \<Rightarrow> generation \<Rightarrow> int \<times> int \<times> bool" where
  "turn_usage body g =
     resolveUsage (ge_usage g) (quarter_up (length (promptText (cr_messages body)))) (ge_tokens g)"

definition completion_json :: "call_env \<Rightarrow> model_config \<Rightarrow> generation \<Rightarrow> tool_call list \<Rightarrow> int \<Rightarrow> int \<Rightarrow> json" where
  "completion_json env model g toolCalls inputTokens outputTokens =
     JObj [(''id'', JStr (en_requestId env)), (''object'', JStr ''chat.completion''),
       (''created'', JNum (of_int (created_at env))), (''model'', JStr (m_id model)),
       (''choices'', JArr [JObj [(''index'', JNum 0),
          (''message'', JObj ([(''role'', JStr ''assistant''),
             (''content'', if ge_text g \<noteq> '''' then JStr (ge_text g)
                           else if toolCalls \<noteq> [] then JNull else JStr '''')] @
             (if ge_reasoning g \<noteq> '''' then [(''reasoning_content'', JStr (ge_reasoning g))] else []) @
             (if toolCalls \<noteq> [] then [(''tool_calls'', JArr (map tool_call_json toolCalls))] else []))),
          (''finish_reason'', JStr (finish_reason (ge_finish g) (toolCalls \<noteq> [])))]]),
       (''usage'', usage_json inputTokens outputTokens)]"

definition buffered ::
  "settings \<Rightarrow> call_env \<Rightarrow> caller_identity \<Rightarrow> model_config \<Rightarrow> chat_request \<Rightarrow> string \<Rightarrow> string \<Rightarrow> db \<Rightarrow> http_reply \<times> db" where
  "buffered cfg env identity model body targetUrl replicaId d =
     (case run_generation cfg env model targetUrl body d of
        (g, Failed t err, d1) \<Rightarrow>
          (ErrorReply (statusForError err) err, failRequest (en_requestId env) err (Some replicaId) t d1)
      | (g, Finished t, d1) \<Rightarrow>
          (let toolCalls = assembleToolCalls (map tool_delta_of (ge_tools g)) in
           case turn_usage body g of (inputTokens, outputTokens, measured) \<Rightarrow>
           (case settle cfg (en_raises env) model (en_requestId env) (en_start env) (en_settle env) inputTokens outputTokens d1 of
              (Some e, d2) \<Rightarrow> (Unhandled (failure_message e), d2)
            | (None, d2) \<Rightarrow>
                (case log_content (en_raises env) (en_settle env) (ci_team identity) (m_id model) (en_requestId env)
                        (promptText (cr_messages body))
                        (auditBody (ge_reasoning g) (ge_text g) (map tool_call_json toolCalls)) d2 of
                   (Some e, d3) \<Rightarrow> (Unhandled (failure_message e), d3)
                 | (None, d3) \<Rightarrow> (JsonReply (completion_json env model g toolCalls inputTokens outputTokens), d3)))))"

definition opening_chunk :: "call_env \<Rightarrow> model_config \<Rightarrow> sse" where
  "opening_chunk env model =
     sse_chunk (en_requestId env) (created_at env) (m_id model)
       (JObj [(''role'', JStr ''assistant''), (''content'', JStr '''')]) JNull"

definition sent_frames :: "call_env \<Rightarrow> model_config \<Rightarrow> generation \<Rightarrow> sse list" where
  "sent_frames env model g =
     opening_chunk env model #
     map (\<lambda>c. sse_chunk (en_requestId env) (created_at env) (m_id model) (chunk_delta c) JNull) (ge_sent g)"

definition closing_frames :: "call_env \<Rightarrow> model_config \<Rightarrow> chat_request \<Rightarrow> generation \<Rightarrow> int \<Rightarrow> int \<Rightarrow> sse list" where
  "closing_frames env model body g inputTokens outputTokens =
     sse_chunk (en_requestId env) (created_at env) (m_id model) (JObj [])
       (JStr (finish_reason (ge_finish g) (ge_tools g \<noteq> []))) #
     (if cr_include_usage body
      then [usage_chunk (en_requestId env) (created_at env) (m_id model) inputTokens outputTokens] else []) @
     [SseDone]"

definition streamed ::
  "settings \<Rightarrow> call_env \<Rightarrow> caller_identity \<Rightarrow> model_config \<Rightarrow> chat_request \<Rightarrow> string \<Rightarrow> string \<Rightarrow> db \<Rightarrow> http_reply \<times> db" where
  "streamed cfg env identity model body targetUrl replicaId d =
     (case run_generation cfg env model targetUrl body d of
        (g, Failed t err, d1) \<Rightarrow>
          (SseReply (sent_frames env model g @ [SseError err]),
           failRequest (en_requestId env) err (Some replicaId) t d1)
      | (g, Finished t, d1) \<Rightarrow>
          (case turn_usage body g of (inputTokens, outputTokens, measured) \<Rightarrow>
           (let frames = sent_frames env model g @ closing_frames env model body g inputTokens outputTokens;
                (r, d3) =
                  (case settle cfg (en_raises env) model (en_requestId env) (en_start env) (en_settle env) inputTokens outputTokens d1 of
                     (Some e, d2) \<Rightarrow> (Some e, d2)
                   | (None, d2) \<Rightarrow>
                       log_content (en_raises env) (en_settle env) (ci_team identity) (m_id model) (en_requestId env)
                         (promptText (cr_messages body)) (auditBody (ge_reasoning g) (ge_text g) (ge_tools g)) d2) in
            case r of
              None \<Rightarrow> (SseReply frames, d3)
            | Some e \<Rightarrow>
                (let sseErr = (if aborted (en_settle env) (ge_deadline g)
                               then timeoutError cfg (dl_reason (ge_deadline g)) model else backendFailure e) in
                 (SseReply (frames @ [SseError sseErr]),
                  failRequest (en_requestId env) sseErr (Some replicaId) (en_settle env) d3)))))"

definition enqueue_chat :: "call_env \<Rightarrow> caller_identity \<Rightarrow> model_config \<Rightarrow> chat_request \<Rightarrow> db \<Rightarrow> db_error + db" where
  "enqueue_chat env identity model body d =
     map_sum id (set_routed_model (en_requestId env) (m_id model))
       (enqueueRequest (en_now env)
          \<lparr>eq_id = en_requestId env, eq_callerOid = ci_oid identity, eq_callerName = ci_name identity,
           eq_team = ci_team identity, eq_requestedModel = cr_model body,
           eq_capabilities = Some (m_capabilities model)\<rparr> d)"

definition start_stream :: "call_env \<Rightarrow> string \<Rightarrow> bool \<Rightarrow> db \<Rightarrow> db" where
  "start_stream env replicaId hit d =
     set_affinity_hit (en_requestId env) hit (markStreamStarted (en_requestId env) replicaId (en_start env) d)"

definition messages_required :: standard_error where
  "messages_required = invalidRequest ''messages[] is required.''"

text \<open>An admitted request: its row, its replica, its turn.\<close>

definition answer_chat ::
  "settings \<Rightarrow> call_env \<Rightarrow> caller_identity \<Rightarrow> model_config \<Rightarrow> chat_request \<Rightarrow> string \<Rightarrow> string \<Rightarrow> db \<Rightarrow> http_reply \<times> db" where
  "answer_chat cfg env identity model body targetUrl replicaId d =
     (if cr_stream body then streamed cfg env identity model body targetUrl replicaId d
      else buffered cfg env identity model body targetUrl replicaId d)"

definition place_chat ::
  "keda_client \<Rightarrow> settings \<Rightarrow> (string \<Rightarrow> string) \<Rightarrow> call_env \<Rightarrow> caller_identity \<Rightarrow> model_config \<Rightarrow> chat_request \<Rightarrow> db \<Rightarrow> (placement \<times> db) option" where
  "place_chat keda cfg sha256_hex env identity model body d =
     waitForPlacement keda cfg (en_now env + QUEUE_TIMEOUT_MS cfg) (m_backendModelId model) (en_requestId env)
       (affinityKeyFor sha256_hex (ci_oid identity) (m_backendModelId model) (cr_messages body)) (en_polls env) d"

definition serve_chat ::
  "keda_client \<Rightarrow> settings \<Rightarrow> (string \<Rightarrow> string) \<Rightarrow> call_env \<Rightarrow> caller_identity \<Rightarrow> model_config \<Rightarrow> chat_request \<Rightarrow> db \<Rightarrow> (http_reply \<times> db) option" where
  "serve_chat keda cfg sha256_hex env identity model body d =
     (case enqueue_chat env identity model body d of
        Inl e \<Rightarrow> Some (Unhandled ''duplicate request id'', d)
      | Inr d1 \<Rightarrow>
          (case place_chat keda cfg sha256_hex env identity model body d1 of
             None \<Rightarrow> None
           | Some (NotPlaced err, d2) \<Rightarrow> Some (ErrorReply (statusForError err) err, d2)
           | Some (PlacedAt replicaId url hit, d2) \<Rightarrow>
               Some (answer_chat cfg env identity model body (if url \<noteq> '''' then url else m_endpointUrl model) replicaId
                       (start_stream env replicaId hit d2))))"

definition selected_model :: "string \<Rightarrow> db \<Rightarrow> model_config" where
  "selected_model modelId d = the (find (\<lambda>m. m_id m = modelId) (listModels d))"

definition chatCompletions ::
  "keda_client \<Rightarrow> settings \<Rightarrow> (string \<Rightarrow> string) \<Rightarrow> call_env \<Rightarrow> caller_identity \<Rightarrow> chat_request \<Rightarrow> bool \<Rightarrow> db \<Rightarrow> (http_reply \<times> db) option" where
  "chatCompletions keda cfg sha256_hex env identity body dry_run d =
     (if cr_messages body = [] then Some (ErrorReply 400 messages_required, d)
      else
        (case selectModel body (listModels d) ChatEndpoint of
           Rejected err \<Rightarrow> Some (ErrorReply (statusForError err) err, d)
         | Selected modelId reason \<Rightarrow>
             if dry_run then Some (JsonReply (dryRun (selected_model modelId d) body), d)
             else serve_chat keda cfg sha256_hex env identity (selected_model modelId d) body d))"

section \<open>Embeddings and the model listing\<close>

datatype embed_input = NoInput | OneText string | Texts "string list"

definition has_input :: "embed_input \<Rightarrow> bool" where
  "has_input i = (case i of NoInput \<Rightarrow> False | OneText s \<Rightarrow> s \<noteq> '''' | Texts ss \<Rightarrow> True)"

definition input_texts :: "embed_input \<Rightarrow> string list" where
  "input_texts i = (case i of NoInput \<Rightarrow> [] | OneText s \<Rightarrow> [s] | Texts ss \<Rightarrow> ss)"

definition embed_tokens :: "embed_input \<Rightarrow> int" where
  "embed_tokens i = sum_list (map (\<lambda>t. quarter_up (length t)) (input_texts i))"

definition input_required :: standard_error where
  "input_required = invalidRequest ''input is required.''"

text \<open>The request the router sees: the named model and no messages.\<close>

definition bare_request :: "string option \<Rightarrow> chat_request" where
  "bare_request model =
     \<lparr>cr_model = model, cr_messages = [], cr_tools = None, cr_tool_choice = None, cr_stream = False,
      cr_include_usage = False, cr_temperature = None, cr_top_p = None, cr_max_tokens = None, cr_stop = None,
      cr_seed = None, cr_presence_penalty = None, cr_frequency_penalty = None, cr_response_format = None\<rparr>"

definition embeddings_json :: "model_config \<Rightarrow> json list \<Rightarrow> int \<Rightarrow> json" where
  "embeddings_json model vectors inputTokens =
     JObj [(''object'', JStr ''list''), (''model'', JStr (m_id model)),
       (''data'', JArr (map (\<lambda>(i, v). JObj [(''object'', JStr ''embedding''), (''index'', JNum (of_nat i)), (''embedding'', v)])
                         (enumerate 0 vectors))),
       (''usage'', JObj [(''prompt_tokens'', JNum (of_int inputTokens)), (''total_tokens'', JNum (of_int inputTokens))])]"

text \<open>
  The embeddings handler. There is no error handling around the backend call: when it throws, the
  exception leaves the handler.
\<close>

definition finish_embeddings ::
  "settings \<Rightarrow> call_env \<Rightarrow> (string \<Rightarrow> failure + json list) \<Rightarrow> model_config \<Rightarrow> embed_input \<Rightarrow> string \<Rightarrow> db \<Rightarrow> http_reply \<times> db" where
  "finish_embeddings cfg env backend model inp targetUrl d =
     (case backend targetUrl of
        Inl e \<Rightarrow> (Unhandled (failure_message e), d)
      | Inr vectors \<Rightarrow>
          (case settle cfg (en_raises env) model (en_requestId env) (en_start env) (en_settle env) (embed_tokens inp) 0 d of
             (Some e, d') \<Rightarrow> (Unhandled (failure_message e), d')
           | (None, d') \<Rightarrow> (JsonReply (embeddings_json model vectors (embed_tokens inp)), d')))"

definition serve_embeddings ::
  "keda_client \<Rightarrow> settings \<Rightarrow> call_env \<Rightarrow> (string \<Rightarrow> failure + json list) \<Rightarrow> caller_identity \<Rightarrow> string option \<Rightarrow> embed_input \<Rightarrow>
   model_config \<Rightarrow> db \<Rightarrow> (http_reply \<times> db) option" where
  "serve_embeddings keda cfg env backend identity requested inp model d =
     (case enqueueRequest (en_now env)
             \<lparr>eq_id = en_requestId env, eq_callerOid = ci_oid identity, eq_callerName = ci_name identity,
              eq_team = ci_team identity, eq_requestedModel = requested, eq_capabilities = Some [Embeddings]\<rparr> d of
        Inl e \<Rightarrow> Some (Unhandled ''duplicate request id'', d)
      | Inr d0 \<Rightarrow>
          (case waitForPlacement keda cfg (en_now env + QUEUE_TIMEOUT_MS cfg) (m_backendModelId model)
                  (en_requestId env) None (en_polls env) (set_routed_model (en_requestId env) (m_id model) d0) of
             None \<Rightarrow> None
           | Some (NotPlaced err, d2) \<Rightarrow> Some (ErrorReply (statusForError err) err, d2)
           | Some (PlacedAt replicaId url hit, d2) \<Rightarrow>
               Some (finish_embeddings cfg env backend model inp (if url \<noteq> '''' then url else m_endpointUrl model)
                       (markStreamStarted (en_requestId env) replicaId (en_start env) d2))))"

definition embeddings ::
  "keda_client \<Rightarrow> settings \<Rightarrow> call_env \<Rightarrow> (string \<Rightarrow> failure + json list) \<Rightarrow> caller_identity \<Rightarrow> string option \<Rightarrow> embed_input \<Rightarrow> db
   \<Rightarrow> (http_reply \<times> db) option" where
  "embeddings keda cfg env backend identity requested inp d =
     (if \<not> has_input inp then Some (ErrorReply 400 input_required, d)
      else
        (case selectModel (bare_request requested) (listModels d) EmbeddingsEndpoint of
           Rejected err \<Rightarrow> Some (ErrorReply (statusForError err) err, d)
         | Selected modelId reason \<Rightarrow>
             serve_embeddings keda cfg env backend identity requested inp (selected_model modelId d) d))"

definition class_text :: "model_class \<Rightarrow> string" where
  "class_text c = (case c of Large \<Rightarrow> ''large'' | Fast \<Rightarrow> ''fast'' | VisionClass \<Rightarrow> ''vision'' | Embedding \<Rightarrow> ''embedding'')"

definition modelsRoute :: "time \<Rightarrow> db \<Rightarrow> json" where
  "modelsRoute now d =
     JObj [(''object'', JStr ''list''),
       (''data'', JArr (map (\<lambda>m. JObj [(''id'', JStr (m_id m)), (''object'', JStr ''model''),
          (''created'', JNum (of_int (now div 1000))), (''owned_by'', JStr ''controldeck''),
          (''capabilities'', JArr (map (\<lambda>c. JStr (capability_text c)) (m_capabilities m))),
          (''model_class'', JStr (class_text (m_modelClass m)))]) (listModels d)))]"

text \<open>The routes behind the authentication handler.\<close>

definition chatRoute ::
  "(string \<Rightarrow> verify_call \<Rightarrow> jwt_error + claims) \<Rightarrow> config \<Rightarrow> keda_client \<Rightarrow> settings \<Rightarrow> (string \<Rightarrow> string) \<Rightarrow> call_env \<Rightarrow>
   string option \<Rightarrow> chat_request \<Rightarrow> bool \<Rightarrow> db \<Rightarrow> (http_reply \<times> db) option" where
  "chatRoute jwtVerify conf keda cfg sha256_hex env header body dry_run d =
     (case authPreHandler jwtVerify conf header of
        Inl (status, err) \<Rightarrow> Some (ErrorReply status err, d)
      | Inr identity \<Rightarrow> chatCompletions keda cfg sha256_hex env identity body dry_run d)"

section \<open>Facts\<close>

lemma drop_slot_simps [simp]:
  "rp_id (drop_slot r) = rp_id r" "rp_model_id (drop_slot r) = rp_model_id r"
  "rp_max_concurrency (drop_slot r) = rp_max_concurrency r" "rp_status (drop_slot r) = rp_status r"
  "rp_in_flight (drop_slot r) = max 0 (rp_in_flight r - 1)"
  by (simp_all add: drop_slot_def)

lemma failed_row_simps [simp]:
  "rq_id (failed_row e now r) = rq_id r" "rq_replica_id (failed_row e now r) = rq_replica_id r"
  "rq_error_code (failed_row e now r) = Some (err_code e)" "rq_completed_at (failed_row e now r) = Some now"
  by (simp_all add: failed_row_def)

lemma failed_not_live [simp]: "\<not> live (rq_status (failed_row e now r))"
  by (simp add: failed_row_def STATUS_FOR_ERROR_CODE_def split: error_code.split)

lemma failRequest_frame [frame_simps, simp]:
  "models (failRequest k e p now d) = models d" "affinities (failRequest k e p now d) = affinities d"
  "signals (failRequest k e p now d) = signals d" "audit_contents (failRequest k e p now d) = audit_contents d"
  "requests (failRequest k e p now d) = update_where (\<lambda>r. rq_id r = k) (failed_row e now) (requests d)"
  by (simp_all add: failRequest_def Let_def split: option.split)

lemma request_by_failRequest:
  "request_by (failRequest k e p now d) j = map_option (\<lambda>r. if rq_id r = k then failed_row e now r else r) (request_by d j)"
  by (simp add: request_by_def row_of_update_where)

lemma replica_by_failRequest:
  "replica_by (failRequest k e (Some p) now d) q =
   map_option (\<lambda>r. if rp_id r = p \<and> p \<noteq> '''' then drop_slot r else r) (replica_by d q)"
  by (auto simp: failRequest_def Let_def present_def replica_by_def row_of_update_where map_option_case
      split: option.splits)

lemma set_request_column_frame [frame_simps, simp]:
  "replicas (set_input_tokens k n d) = replicas d" "models (set_input_tokens k n d) = models d"
  "replicas (set_routed_model k m d) = replicas d" "models (set_routed_model k m d) = models d"
  "replicas (set_affinity_hit k h d) = replicas d" "models (set_affinity_hit k h d) = models d"
  by (simp_all add: set_input_tokens_def set_routed_model_def set_affinity_hit_def)

end
