(* ===== verification/CompletionFacts.thy ===== *)
theory CompletionFacts
  imports Completions
begin

text \<open>
  What the completion handlers of \<open>Completions\<close> guarantee: the clocks of a live generation, the waiting
  loop, the classification of backend failures, and the accounting of slots and outcomes over whole
  requests.
\<close>

section \<open>The store while tokens arrive\<close>

definition emit :: "string \<Rightarrow> time list \<Rightarrow> db \<Rightarrow> db" where
  "emit k ts d = fold (recordTokenEmitted k) ts d"

lemma emit_simps [simp]: "emit k [] d = d" "emit k (t # ts) d = emit k ts (recordTokenEmitted k t d)"
  by (simp_all add: emit_def)

lemma recordTokenEmitted_content_frame [frame_simps, simp]:
  "audit_contents (recordTokenEmitted k now d) = audit_contents d"
  "logging_config (recordTokenEmitted k now d) = logging_config d"
  "cost_configs (recordTokenEmitted k now d) = cost_configs d"
  by (simp_all add: recordTokenEmitted_def)

lemma emit_frame [frame_simps, simp]:
  "replicas (emit k ts d) = replicas d" "models (emit k ts d) = models d" "affinities (emit k ts d) = affinities d"
  "signals (emit k ts d) = signals d" "audit_contents (emit k ts d) = audit_contents d"
  "logging_config (emit k ts d) = logging_config d" "cost_configs (emit k ts d) = cost_configs d"
  by (induction ts arbitrary: d) simp_all

lemma db_ok_emit: "db_ok d \<Longrightarrow> db_ok (emit k ts d)"
  by (induction ts arbitrary: d) (simp_all add: db_ok_recordTokenEmitted)

lemma request_by_emit_other: "j \<noteq> k \<Longrightarrow> request_by (emit k ts d) j = request_by d j"
proof (induction ts arbitrary: d)
  case (Cons t ts)
  have "request_by (recordTokenEmitted k t d) j = request_by d j"
    using Cons.prems by (cases "request_by d j") (auto simp: request_by_recordTokenEmitted dest: request_by_Some)
  with Cons show ?case by simp
qed simp

lemma request_by_emit:
  "request_by d k = Some r \<Longrightarrow>
   \<exists>l f. request_by (emit k ts d) k = Some (r\<lparr>rq_last_token_at := l, rq_first_token_at := f\<rparr>)"
proof (induction ts arbitrary: d r)
  case Nil
  then have "request_by (emit k [] d) k = Some (r\<lparr>rq_last_token_at := rq_last_token_at r, rq_first_token_at := rq_first_token_at r\<rparr>)"
    by simp
  then show ?case by blast
next
  case (Cons t ts)
  let ?r = "r\<lparr>rq_last_token_at := Some t, rq_first_token_at := coalesce (rq_first_token_at r) (Some t)\<rparr>"
  have "request_by (recordTokenEmitted k t d) k = Some ?r"
    using Cons.prems request_by_Some [OF Cons.prems] by (simp add: request_by_recordTokenEmitted)
  from Cons.IH [OF this] obtain l f where
    "request_by (emit k ts (recordTokenEmitted k t d)) k = Some (?r\<lparr>rq_last_token_at := l, rq_first_token_at := f\<rparr>)"
    by blast
  then have "request_by (emit k (t # ts) d) k = Some (r\<lparr>rq_last_token_at := l, rq_first_token_at := f\<rparr>)" by simp
  then show ?case by blast
qed

lemma generate_emits: "\<exists>ts. snd (snd (generate cfg model k es g d)) = emit k ts d"
proof (induction cfg model k es g d rule: generate.induct)
  case (1 cfg model k g d)
  have "snd (snd (generate cfg model k [] g d)) = emit k [] d" by simp
  then show ?case by blast
next
  case (2 cfg model k t c es g d)
  show ?case
  proof (cases "aborted t (ge_deadline g) \<or> is_done c")
    case True
    then have "snd (snd (generate cfg model k (Yields t c # es) g d)) = emit k [] d"
      by (cases c) auto
    then show ?thesis by blast
  next
    case False
    then have "generate cfg model k (Yields t c # es) g d =
        generate cfg model k es (take_chunk cfg t c g) (recordTokenEmitted k t d)"
      by (cases c) auto
    moreover from False 2 obtain ts where
      "snd (snd (generate cfg model k es (take_chunk cfg t c g) (recordTokenEmitted k t d))) =
       emit k ts (recordTokenEmitted k t d)"
      by (cases c) auto
    ultimately have "snd (snd (generate cfg model k (Yields t c # es) g d)) = emit k (t # ts) d" by simp
    then show ?thesis by blast
  qed
next
  case (3 cfg model k t e es g d)
  have "snd (snd (generate cfg model k (Breaks t e # es) g d)) = emit k [] d" by simp
  then show ?case by blast
qed

section \<open>The clocks of a live generation\<close>

text \<open>Chunks that arrive before the clock that is running when they arrive.\<close>

fun keeps_pace :: "int \<Rightarrow> time \<Rightarrow> (time \<times> chunk) list \<Rightarrow> bool" where
  "keeps_pace stallMs expires [] = True"
| "keeps_pace stallMs expires ((t, c) # cs) = (t < expires \<and> \<not> is_done c \<and> keeps_pace stallMs (t + stallMs) cs)"

definition clock_after :: "int \<Rightarrow> deadline \<Rightarrow> (time \<times> chunk) list \<Rightarrow> deadline" where
  "clock_after stallMs dl cs = (if cs = [] then dl else \<lparr>dl_reason = StallClock, dl_expires = fst (last cs) + stallMs\<rparr>)"

lemma take_chunk_deadline [simp]:
  "ge_deadline (take_chunk cfg t c g) = \<lparr>dl_reason = StallClock, dl_expires = t + STALL_TIMEOUT_MS cfg\<rparr>"
  "ge_tokens (take_chunk cfg t c g) = ge_tokens g + 1" "ge_sent (take_chunk cfg t c g) = ge_sent g @ [c]"
  by (simp_all add: take_chunk_def Let_def sawToken_def split: chunk.split)

definition take_chunks :: "settings \<Rightarrow> (time \<times> chunk) list \<Rightarrow> generation \<Rightarrow> generation" where
  "take_chunks cfg cs g = fold (\<lambda>(t, c). take_chunk cfg t c) cs g"

lemma take_chunks_simps [simp]:
  "take_chunks cfg [] g = g" "take_chunks cfg ((t, c) # cs) g = take_chunks cfg cs (take_chunk cfg t c g)"
  by (simp_all add: take_chunks_def)

lemma take_chunks_effect:
  "ge_tokens (take_chunks cfg cs g) = ge_tokens g + int (length cs)"
  "ge_sent (take_chunks cfg cs g) = ge_sent g @ map snd cs"
  "ge_deadline (take_chunks cfg cs g) = clock_after (STALL_TIMEOUT_MS cfg) (ge_deadline g) cs"
  by (induction cs arbitrary: g) (auto simp: clock_after_def)

lemma generate_paced:
  assumes "keeps_pace (STALL_TIMEOUT_MS cfg) (dl_expires (ge_deadline g)) cs"
  shows "generate cfg model k (map (\<lambda>(t, c). Yields t c) cs @ es) g d =
         generate cfg model k es (take_chunks cfg cs g) (emit k (map fst cs) d)"
  using assms
proof (induction cs arbitrary: g d)
  case Nil
  then show ?case by simp
next
  case (Cons x cs)
  obtain t c where x: "x = (t, c)" by (cases x)
  with Cons.prems have now: "\<not> aborted t (ge_deadline g)" "\<not> is_done c"
    and later: "keeps_pace (STALL_TIMEOUT_MS cfg) (dl_expires (ge_deadline (take_chunk cfg t c g))) cs"
    by (auto simp: aborted_def)
  have "generate cfg model k (map (\<lambda>(t, c). Yields t c) (x # cs) @ es) g d =
    generate cfg model k (map (\<lambda>(t, c). Yields t c) cs @ es) (take_chunk cfg t c g) (recordTokenEmitted k t d)"
    using now x by (cases c) simp_all
  with Cons.IH [OF later, of "recordTokenEmitted k t d"] x show ?case by simp
qed

section \<open>Slots and outcomes\<close>

definition slots :: "db \<Rightarrow> string \<Rightarrow> int option" where
  "slots d p = map_option rp_in_flight (replica_by d p)"

text \<open>One slot of a replica more, or less.\<close>

definition plus_one :: "string \<Rightarrow> string \<Rightarrow> int option \<Rightarrow> int option" where
  "plus_one q p n = (if p = q then map_option (\<lambda>x. x + 1) n else n)"

definition minus_one :: "string \<Rightarrow> string \<Rightarrow> int option \<Rightarrow> int option" where
  "minus_one q p n = (if p = q then map_option (\<lambda>x. max 0 (x - 1)) n else n)"

lemma minus_plus_one: "(\<And>x. n = Some x \<Longrightarrow> 0 \<le> x) \<Longrightarrow> minus_one q p (plus_one q p n) = n"
  by (cases n) (auto simp: minus_one_def plus_one_def)

definition same_others :: "string \<Rightarrow> db \<Rightarrow> db \<Rightarrow> bool" where
  "same_others k d d' \<longleftrightarrow> (\<forall>j. j \<noteq> k \<longrightarrow> request_by d' j = request_by d j)"

lemma same_others_refl [simp]: "same_others k d d"
  by (simp add: same_others_def)

lemma same_others_trans: "same_others k a b \<Longrightarrow> same_others k b c \<Longrightarrow> same_others k a c"
  by (simp add: same_others_def)

lemma same_others_update:
  assumes "\<And>r. rq_id (f r) = rq_id r"
  shows "same_others k d (update_requests (\<lambda>r. rq_id r = k) f d)"
  unfolding same_others_def
proof (intro allI impI)
  fix j
  assume "j \<noteq> k"
  then show "request_by (update_requests (\<lambda>r. rq_id r = k) f d) j = request_by d j"
    by (cases "request_by d j") (auto simp: request_by_update_requests assms dest: request_by_Some)
qed

lemma same_others_requests: "requests d' = requests d \<Longrightarrow> same_others k d d'"
  by (simp add: same_others_def request_by_def)

lemma slots_cong: "replicas d' = replicas d \<Longrightarrow> slots d' = slots d"
  by (rule ext) (simp add: slots_def replica_by_def)

lemma same_others_emit: "same_others k d (emit k ts d)"
  by (simp add: same_others_def request_by_emit_other)

lemma slots_failRequest: "p \<noteq> '''' \<Longrightarrow> slots (failRequest k e (Some p) now d) q = minus_one p q (slots d q)"
  by (cases "replica_by d q") (auto simp: slots_def replica_by_failRequest minus_one_def dest: replica_by_Some)

lemma same_others_failRequest: "same_others k d (failRequest k e p now d)"
  unfolding same_others_def
proof (intro allI impI)
  fix j
  assume "j \<noteq> k"
  then show "request_by (failRequest k e p now d) j = request_by d j"
    by (cases "request_by d j") (auto simp: request_by_failRequest dest: request_by_Some)
qed

lemma slots_completeRequest:
  "slots (completeRequest cfg k n c now d) q =
   (case held_replica d k of None \<Rightarrow> slots d q | Some p \<Rightarrow> minus_one p q (slots d q))"
  by (cases "replica_by d q")
     (auto simp: slots_def replica_by_completeRequest minus_one_def split: option.split)

lemma same_others_completeRequest: "same_others k d (completeRequest cfg k n c now d)"
  unfolding same_others_def
proof (intro allI impI)
  fix j
  assume "j \<noteq> k"
  then show "request_by (completeRequest cfg k n c now d) j = request_by d j"
    by (cases "request_by d j") (auto simp: request_by_completeRequest dest: request_by_Some)
qed

lemma request_by_set_input_tokens:
  "request_by (set_input_tokens k n d) j =
   map_option (\<lambda>r. if rq_id r = k then r\<lparr>rq_input_tokens := n\<rparr> else r) (request_by d j)"
  by (simp add: set_input_tokens_def request_by_update_requests)

lemma held_set_input_tokens [simp]: "held_replica (set_input_tokens k n d) j = held_replica d j"
  by (simp add: held_replica_def request_by_set_input_tokens split: option.split)

lemma held_emit [simp]: "held_replica (emit k ts d) k = held_replica d k"
proof (cases "request_by d k")
  case None
  have "request_by (emit k ts d) k = None"
    using None by (induction ts arbitrary: d) (simp_all add: request_by_recordTokenEmitted)
  with None show ?thesis by (simp add: held_replica_def)
next
  case (Some r)
  from request_by_emit [OF Some, of ts] obtain l f where
    "request_by (emit k ts d) k = Some (r\<lparr>rq_last_token_at := l, rq_first_token_at := f\<rparr>)" by blast
  with Some show ?thesis by (simp add: held_replica_def)
qed

text \<open>What a settlement does when the store accepts it.\<close>

lemma settle_None:
  assumes "settle cfg raises model k s now i u d = (None, d')" "held_replica d k = Some p"
  shows "slots d' q = minus_one p q (slots d q)" "same_others k d d'"
    "request_by d k = Some r \<Longrightarrow> \<exists>r'. request_by d' k = Some r' \<and> rq_status r' = Completed \<and>
       rq_output_tokens r' = u \<and> rq_input_tokens r' = i \<and> rq_cost_usd r' = Some (charge d model i u (now - s))"
    "models d' = models d" "logging_config d' = logging_config d"
proof -
  from assms(1) have d': "d' = completeRequest cfg k u (charge d model i u (now - s)) now (set_input_tokens k i d)"
    by (auto simp: settle_def Let_def split: option.splits)
  show "slots d' q = minus_one p q (slots d q)"
    using assms(2) by (simp add: d' slots_completeRequest) (simp add: slots_def replica_by_def)
  show "same_others k d d'"
    unfolding d' set_input_tokens_def
    by (rule same_others_trans [OF same_others_update same_others_completeRequest]) simp
  show "models d' = models d" "logging_config d' = logging_config d"
    by (simp_all add: d' set_input_tokens_def)
  assume r: "request_by d k = Some r"
  with request_by_Some [OF r] show "\<exists>r'. request_by d' k = Some r' \<and> rq_status r' = Completed \<and>
       rq_output_tokens r' = u \<and> rq_input_tokens r' = i \<and> rq_cost_usd r' = Some (charge d model i u (now - s))"
    by (simp add: d' request_by_completeRequest request_by_set_input_tokens) (simp add: completed_row_def)
qed

lemma log_content_frame:
  assumes "log_content raises now team m k prompt response d = (e, d')"
  shows "requests d' = requests d" "replicas d' = replicas d"
  using assms
  by (auto simp: log_content_def recordAuditContent_def put_audit_def split: option.splits if_splits sum.splits)

lemma settle_Some:
  assumes "settle cfg raises model k s now i u d = (Some e, d')"
  shows "replicas d' = replicas d" "same_others k d d'" "held_replica d' k = held_replica d k"
    "request_by d k \<noteq> None \<Longrightarrow> request_by d' k \<noteq> None"
proof -
  from assms have d': "d' = d \<or> d' = set_input_tokens k i d"
    by (auto simp: settle_def Let_def split: option.splits)
  then show "replicas d' = replicas d" "held_replica d' k = held_replica d k" by auto
  show "same_others k d d'"
    using d' unfolding set_input_tokens_def by (auto intro: same_others_update)
  show "request_by d k \<noteq> None \<Longrightarrow> request_by d' k \<noteq> None"
    using d' by (auto simp: request_by_set_input_tokens)
qed

section \<open>Whole turns\<close>

text \<open>How many slots a turn gives back: one, except where a stream fails after its settlement.\<close>

definition late_failure ::
  "settings \<Rightarrow> call_env \<Rightarrow> caller_identity \<Rightarrow> model_config \<Rightarrow> chat_request \<Rightarrow> string \<Rightarrow> db \<Rightarrow> bool" where
  "late_failure cfg env identity model body targetUrl d =
     (case run_generation cfg env model targetUrl body d of
        (g, Failed t err, d1) \<Rightarrow> False
      | (g, Finished t, d1) \<Rightarrow>
          (case turn_usage body g of (i, u, measured) \<Rightarrow>
           (case settle cfg (en_raises env) model (en_requestId env) (en_start env) (en_settle env) i u d1 of
              (Some e, d2) \<Rightarrow> False
            | (None, d2) \<Rightarrow>
                fst (log_content (en_raises env) (en_settle env) (ci_team identity) (m_id model) (en_requestId env)
                  (promptText (cr_messages body)) (auditBody (ge_reasoning g) (ge_text g) (ge_tools g)) d2) \<noteq> None)))"

lemma failRequest_closes:
  assumes "request_by d k \<noteq> None"
  shows "\<exists>r. request_by (failRequest k e p now d) k = Some r \<and> \<not> live (rq_status r) \<and> rq_error_code r = Some (err_code e)"
proof -
  obtain r where r: "request_by d k = Some r" using assms by blast
  with request_by_Some [OF r] have "request_by (failRequest k e p now d) k = Some (failed_row e now r)"
    by (simp add: request_by_failRequest)
  then show ?thesis by simp
qed

text \<open>A turn that ends in \<open>failRequest\<close>.\<close>

lemma failed_turn:
  assumes "same_others k d d2" "slots d2 q = n" "request_by d2 k \<noteq> None" "p \<noteq> ''''"
  shows "slots (failRequest k e (Some p) now d2) q = minus_one p q n \<and>
         same_others k d (failRequest k e (Some p) now d2) \<and>
         (\<exists>r. request_by (failRequest k e (Some p) now d2) k = Some r \<and> \<not> live (rq_status r))"
  using slots_failRequest [OF assms(4), of k e now d2 q] assms(2)
    same_others_trans [OF assms(1) same_others_failRequest] failRequest_closes [OF assms(3), of e "Some p" now]
  by blast

lemma held_row: "held_replica d k = Some p \<Longrightarrow> request_by d k \<noteq> None \<and> p \<noteq> ''''"
  by (auto simp: held_replica_def split: option.splits if_splits)

lemma run_generation_emits:
  assumes "run_generation cfg env model url body d = (g, e, d1)"
  obtains ts where "d1 = emit (en_requestId env) ts d"
  using assms generate_emits [of cfg model "en_requestId env" "en_backend env (stream_params_of model url body)"]
  unfolding run_generation_def by (metis snd_conv)

lemma streamed_turn:
  assumes "streamed cfg env identity model body url p d = (reply, d')"
    and "held_replica d (en_requestId env) = Some p"
  shows "slots d' q = (if late_failure cfg env identity model body url d
                       then minus_one p q (minus_one p q (slots d q)) else minus_one p q (slots d q))"
    and "same_others (en_requestId env) d d'"
    and "\<exists>r. request_by d' (en_requestId env) = Some r \<and> \<not> live (rq_status r)"
proof -
  let ?k = "en_requestId env"
  obtain g e d1 where gen: "run_generation cfg env model url body d = (g, e, d1)" by (metis prod_cases3)
  from run_generation_emits [OF gen] obtain ts where d1: "d1 = emit ?k ts d" .
  have h1: "held_replica d1 ?k = Some p" "slots d1 q = slots d q" "same_others ?k d d1"
    using assms(2) by (simp_all add: d1 slots_def replica_by_def same_others_emit)
  have p: "p \<noteq> ''''" "request_by d1 ?k \<noteq> None" using held_row [OF h1(1)] by simp_all
  have main: "slots d' q = (if late_failure cfg env identity model body url d
                       then minus_one p q (minus_one p q (slots d q)) else minus_one p q (slots d q)) \<and>
     same_others ?k d d' \<and> (\<exists>r. request_by d' ?k = Some r \<and> \<not> live (rq_status r))"
  proof (cases e)
    case (Failed t err)
    with assms(1) gen have d': "d' = failRequest ?k err (Some p) t d1" by (simp add: streamed_def)
    with gen Failed failed_turn [OF h1(3) h1(2) p(2) p(1), of err t] show ?thesis
      by (simp add: late_failure_def)
  next
    case (Finished t)
    obtain i u m where usage: "turn_usage body g = (i, u, m)" by (metis prod_cases3)
    obtain se d2 where st: "settle cfg (en_raises env) model ?k (en_start env) (en_settle env) i u d1 = (se, d2)"
      by fastforce
    show ?thesis
    proof (cases se)
      case (Some x)
      with assms(1) gen Finished usage st obtain err where
        d': "d' = failRequest ?k err (Some p) (en_settle env) d2"
        by (auto simp: streamed_def Let_def)
      note st_Some = settle_Some [OF st [unfolded Some]]
      note fr = st_Some(1,2) st_Some(4) [OF p(2)]
      from slots_cong [OF fr(1)] have "slots d2 q = slots d q" using h1(2) by simp
      moreover have "\<not> late_failure cfg env identity model body url d"
        using gen Finished usage st Some by (simp add: late_failure_def)
      ultimately show ?thesis
        using d' failed_turn [OF same_others_trans [OF h1(3) fr(2)] _ fr(3) p(1), of q "slots d q" err "en_settle env"]
        by simp
    next
      case None
      note settled = settle_None [OF st [unfolded None] h1(1)]
      obtain r where r: "request_by d1 ?k = Some r" using p(2) by blast
      obtain le d3 where lg: "log_content (en_raises env) (en_settle env) (ci_team identity) (m_id model) ?k
          (promptText (cr_messages body)) (auditBody (ge_reasoning g) (ge_text g) (ge_tools g)) d2 = (le, d3)"
        by fastforce
      note fr = log_content_frame [OF lg]
      have s3: "slots d3 q = minus_one p q (slots d q)"
        using slots_cong [OF fr(2)] settled(1) h1(2) by simp
      have o3: "same_others ?k d d3"
        using same_others_requests [OF fr(1), of ?k] settled(2) h1(3) by (blast intro: same_others_trans)
      have r3: "request_by d3 = request_by d2" by (rule request_by_cong) (rule fr(1))
      have late: "late_failure cfg env identity model body url d = (le \<noteq> None)"
        using gen Finished usage st None lg by (simp add: late_failure_def)
      show ?thesis
      proof (cases le)
        case None
        with assms(1) gen Finished usage st \<open>se = None\<close> lg have "d' = d3"
          by (auto simp: streamed_def Let_def)
        then show ?thesis using late None s3 o3 settled(3) [OF r] r3 by auto
      next
        case (Some x)
        with assms(1) gen Finished usage st \<open>se = None\<close> lg obtain err where
          d': "d' = failRequest ?k err (Some p) (en_settle env) d3"
          by (auto simp: streamed_def Let_def)
        have "request_by d3 ?k \<noteq> None" using settled(3) [OF r] r3 by auto
        then show ?thesis
          using d' late Some failed_turn [OF o3 s3 _ p(1), of err "en_settle env"] by simp
      qed
    qed
  qed
  then show "slots d' q = (if late_failure cfg env identity model body url d
                       then minus_one p q (minus_one p q (slots d q)) else minus_one p q (slots d q))"
    "same_others ?k d d'" "\<exists>r. request_by d' ?k = Some r \<and> \<not> live (rq_status r)"
    by blast+
qed

lemma log_content_ok:
  assumes "raises ReadScopes = None" "raises WriteAudit = None" "request_by d k \<noteq> None"
  shows "fst (log_content raises now team m k prompt response d) = None"
  using assms by (auto simp: log_content_def recordAuditContent_def split: sum.splits)

lemma settle_accepts:
  assumes "raises ReadCost = None" "raises SetInputTokens = None" "raises Complete = None"
  shows "fst (settle cfg raises model k s now i u d) = None"
  using assms by (simp add: settle_def Let_def)

lemma buffered_turn:
  assumes "buffered cfg env identity model body url p d = (reply, d')"
    and "held_replica d (en_requestId env) = Some p"
    and "en_raises env ReadCost = None" "en_raises env SetInputTokens = None" "en_raises env Complete = None"
  shows "slots d' q = minus_one p q (slots d q) \<and> same_others (en_requestId env) d d' \<and>
         (\<exists>r. request_by d' (en_requestId env) = Some r \<and> \<not> live (rq_status r))"
proof -
  let ?k = "en_requestId env"
  obtain g e d1 where gen: "run_generation cfg env model url body d = (g, e, d1)" by (metis prod_cases3)
  from run_generation_emits [OF gen] obtain ts where d1: "d1 = emit ?k ts d" .
  have h1: "held_replica d1 ?k = Some p" "slots d1 q = slots d q" "same_others ?k d d1"
    using assms(2) by (simp_all add: d1 slots_def replica_by_def same_others_emit)
  have p: "p \<noteq> ''''" "request_by d1 ?k \<noteq> None" using held_row [OF h1(1)] by simp_all
  show ?thesis
  proof (cases e)
    case (Failed t err)
    with assms(1) gen have "d' = failRequest ?k err (Some p) t d1" by (simp add: buffered_def)
    with failed_turn [OF h1(3) h1(2) p(2) p(1), of err t] show ?thesis by simp
  next
    case (Finished t)
    obtain i u m where usage: "turn_usage body g = (i, u, m)" by (metis prod_cases3)
    obtain se d2 where st: "settle cfg (en_raises env) model ?k (en_start env) (en_settle env) i u d1 = (se, d2)"
      by fastforce
    with settle_accepts [OF assms(3-5), of cfg model ?k "en_start env" "en_settle env" i u d1] have "se = None" by simp
    note settled = settle_None [OF st [unfolded this] h1(1)]
    obtain r where r: "request_by d1 ?k = Some r" using p(2) by blast
    let ?calls = "map tool_call_json (assembleToolCalls (map tool_delta_of (ge_tools g)))"
    obtain le d3 where lg: "log_content (en_raises env) (en_settle env) (ci_team identity) (m_id model) ?k
        (promptText (cr_messages body)) (auditBody (ge_reasoning g) (ge_text g) ?calls) d2 = (le, d3)"
      by fastforce
    note fr = log_content_frame [OF lg]
    have "d' = d3"
      using assms(1) gen Finished usage st \<open>se = None\<close> lg
      by (auto simp: buffered_def Let_def split: option.splits)
    moreover have "request_by d3 = request_by d2" by (rule request_by_cong) (rule fr(1))
    ultimately show ?thesis
      using slots_cong [OF fr(2)] settled(1,2) settled(3) [OF r] h1(2,3)
      by (auto simp: same_others_def)
  qed
qed

text \<open>The settlement of a turn that has generated its whole reply is refused: one of its three statements fails.\<close>

definition settle_refused :: "settings \<Rightarrow> call_env \<Rightarrow> model_config \<Rightarrow> chat_request \<Rightarrow> string \<Rightarrow> db \<Rightarrow> bool" where
  "settle_refused cfg env model body targetUrl d =
     (case run_generation cfg env model targetUrl body d of
        (g, Failed t err, d1) \<Rightarrow> False
      | (g, Finished t, d1) \<Rightarrow> \<exists>c \<in> {ReadCost, SetInputTokens, Complete}. en_raises env c \<noteq> None)"

lemma settle_refuses:
  "fst (settle cfg raises model k s now i u d) \<noteq> None \<longleftrightarrow> (\<exists>c \<in> {ReadCost, SetInputTokens, Complete}. raises c \<noteq> None)"
  by (auto simp: settle_def Let_def split: option.splits)

lemma settle_Some_row:
  assumes "settle cfg raises model k s now i u d = (Some e, d')" "request_by d k = Some r"
  shows "\<exists>r'. request_by d' k = Some r' \<and> rq_status r' = rq_status r \<and> rq_replica_id r' = rq_replica_id r"
proof -
  from assms(1) have "d' = d \<or> d' = set_input_tokens k i d"
    by (auto simp: settle_def Let_def split: option.splits)
  with assms(2) show ?thesis by (auto simp: request_by_set_input_tokens)
qed

text \<open>Whether the content can be logged does not depend on the content.\<close>

lemma log_content_error:
  "fst (log_content raises now team m k prompt response d) = fst (log_content raises now team m k prompt response' d)"
  by (auto simp: log_content_def recordAuditContent_def split: option.splits sum.splits if_splits)

lemma log_content_refuses:
  assumes "fst (log_content raises now team m k prompt response d) \<noteq> None" "request_by d k \<noteq> None"
  shows "\<exists>c \<in> {ReadScopes, WriteAudit}. raises c \<noteq> None"
  using assms by (auto simp: log_content_def recordAuditContent_def split: option.splits sum.splits if_splits)

lemma late_failure_refused:
  assumes "late_failure cfg env identity model body url d" "held_replica d (en_requestId env) = Some p"
  shows "\<exists>c \<in> {ReadScopes, WriteAudit}. en_raises env c \<noteq> None"
proof -
  obtain g e d1 where gen: "run_generation cfg env model url body d = (g, e, d1)" by (metis prod_cases3)
  from run_generation_emits [OF gen] obtain ts where "d1 = emit (en_requestId env) ts d" .
  with assms(2) have h1: "held_replica d1 (en_requestId env) = Some p" by simp
  obtain i u me where usage: "turn_usage body g = (i, u, me)" by (metis prod_cases3)
  obtain se d2 where st: "settle cfg (en_raises env) model (en_requestId env) (en_start env) (en_settle env) i u d1 = (se, d2)"
    by fastforce
  from assms(1) gen usage st have se: "se = None"
    and log: "fst (log_content (en_raises env) (en_settle env) (ci_team identity) (m_id model) (en_requestId env)
        (promptText (cr_messages body)) (auditBody (ge_reasoning g) (ge_text g) (ge_tools g)) d2) \<noteq> None"
    by (auto simp: late_failure_def split: generation_end.splits option.splits)
  have "request_by d2 (en_requestId env) \<noteq> None"
    using settle_None(3) [OF st [unfolded se] h1] held_row [OF h1] by auto
  with log_content_refuses [OF log] show ?thesis .
qed

text \<open>A buffered turn: one whose settlement is refused answers 500 and keeps the row and the slot as they are.\<close>

lemma buffered_ends:
  assumes "buffered cfg env identity model body url p d = (reply, d')"
    and "request_by d (en_requestId env) = Some r" "rq_replica_id r = Some p" "p \<noteq> ''''"
  shows "same_others (en_requestId env) d d' \<and>
    (if settle_refused cfg env model body url d
     then (\<exists>m. reply = Unhandled m) \<and> (\<forall>q. slots d' q = slots d q) \<and>
          (\<exists>r'. request_by d' (en_requestId env) = Some r' \<and> rq_status r' = rq_status r \<and> rq_replica_id r' = Some p)
     else (\<forall>q. slots d' q = minus_one p q (slots d q)) \<and>
          (\<exists>r'. request_by d' (en_requestId env) = Some r' \<and> \<not> live (rq_status r')))"
proof (cases "settle_refused cfg env model body url d")
  case True
  let ?k = "en_requestId env"
  obtain g e d1 where gen: "run_generation cfg env model url body d = (g, e, d1)" by (metis prod_cases3)
  from run_generation_emits [OF gen] obtain ts where d1: "d1 = emit ?k ts d" .
  from request_by_emit [OF assms(2), of ts] assms(3) obtain r1 where
    r1: "request_by d1 ?k = Some r1" "rq_status r1 = rq_status r" "rq_replica_id r1 = Some p"
    by (auto simp: d1)
  obtain i u m where usage: "turn_usage body g = (i, u, m)" by (metis prod_cases3)
  obtain se d2 where st: "settle cfg (en_raises env) model ?k (en_start env) (en_settle env) i u d1 = (se, d2)"
    by fastforce
  from True gen obtain t where fin: "e = Finished t" by (auto simp: settle_refused_def split: generation_end.splits)
  with True gen have "\<exists>c \<in> {ReadCost, SetInputTokens, Complete}. en_raises env c \<noteq> None" by (simp add: settle_refused_def)
  with settle_refuses [of cfg "en_raises env" model ?k "en_start env" "en_settle env" i u d1] st
  obtain x where se: "se = Some x" by auto
  have run: "reply = Unhandled (failure_message x)" "d' = d2"
    using assms(1) gen fin usage st se by (simp_all add: buffered_def Let_def)
  note stuck = settle_Some [OF st [unfolded se]]
  from settle_Some_row [OF st [unfolded se] r1(1)] r1 obtain r' where
    "request_by d2 ?k = Some r'" "rq_status r' = rq_status r" "rq_replica_id r' = Some p" by auto
  moreover have "slots d2 q = slots d q" for q
    using slots_cong [OF stuck(1)] by (simp add: d1 slots_def replica_by_def)
  moreover have "same_others ?k d d2"
    using same_others_trans [OF same_others_emit stuck(2) [unfolded d1]] by blast
  ultimately show ?thesis using True run by simp
next
  case False
  let ?k = "en_requestId env"
  have held: "held_replica d ?k = Some p" using assms(2-4) by (simp add: held_replica_def)
  obtain g e d1 where gen: "run_generation cfg env model url body d = (g, e, d1)" by (metis prod_cases3)
  show ?thesis
  proof (cases e)
    case (Failed t err)
    from run_generation_emits [OF gen] obtain ts where d1: "d1 = emit ?k ts d" .
    have h1: "held_replica d1 ?k = Some p" "\<And>q. slots d1 q = slots d q" "same_others ?k d d1"
      using held by (simp_all add: d1 slots_def replica_by_def same_others_emit)
    from gen Failed assms(1) have "d' = failRequest ?k err (Some p) t d1" by (simp add: buffered_def)
    with failed_turn [OF h1(3) h1(2) _ assms(4), of err t] held_row [OF h1(1)] False show ?thesis by simp
  next
    case (Finished t)
    with False gen have "en_raises env ReadCost = None" "en_raises env SetInputTokens = None" "en_raises env Complete = None"
      by (auto simp: settle_refused_def)
    from buffered_turn [OF assms(1) held this] False show ?thesis by simp
  qed
qed

section \<open>Waiting on a store that nobody else uses\<close>

definition quiet :: "poll list \<Rightarrow> bool" where
  "quiet ps \<longleftrightarrow> list_all (\<lambda>p. po_others p = id) ps"

lemma placed_slots:
  assumes "placeRequest keda cfg locked now m ak d = (Placed rep hit, d')" "db_ok d"
  shows "requests d' = requests d" "db_ok d'" "models d' = models d" "slots d' q = plus_one (rep_id rep) q (slots d q)"
    "slots d (rep_id rep) \<noteq> None"
proof -
  have uk: "unique_key rp_id (replicas d)" using assms(2) by (simp add: db_ok_def db_keys_ok_def)
  from placeRequest_Placed [OF assms(1)] obtain row d1 where c: "claims cfg locked now m d (Some row, d1)"
    and rep: "rep = toReplica (take_slot now row)"
    and d': "d' = signal_if_idle keda now m row (remember cfg now ak m (rp_id row) d1) \<or>
             d' = remember cfg now ak m (rp_id row) (signal_if_idle keda now m row d1)" by metis
  note s = claims_slot [OF c uk]
  have id: "rep_id rep = rp_id row" by (simp add: rep toReplica_def)
  have d1': "requests d' = requests d1" "models d' = models d1" "replicas d' = replicas d1" using d' by auto
  with s show "requests d' = requests d" "models d' = models d" by simp_all
  show "db_ok d'" using d' s(11) [OF assms(2)] by (auto intro: db_ok_signal_if_idle db_ok_remember)
  have "slots d' = slots d1" by (rule slots_cong) (rule d1'(3))
  then show "slots d' q = plus_one (rep_id rep) q (slots d q)"
    using s(2,3) s(4) [of q] by (cases "q = rp_id row") (simp_all add: slots_def plus_one_def id)
  show "slots d (rep_id rep) \<noteq> None" using s(2) by (simp add: slots_def id)
qed

lemma wait_quiet_placed:
  assumes "waitForPlacement keda cfg dl m k ak ps d = Some (PlacedAt p url hit, d')" "quiet ps" "db_ok d"
  shows "requests d' = requests d \<and> db_ok d' \<and> models d' = models d \<and> (\<forall>q. slots d' q = plus_one p q (slots d q)) \<and>
         slots d p \<noteq> None"
  using assms
proof (induction ps)
  case Nil
  then show ?case by simp
next
  case (Cons x ps)
  have others: "po_others x d = d" and "quiet ps" using Cons.prems(2) by (simp_all add: quiet_def)
  obtain res d1 where pl: "placeRequest keda cfg (po_locked x) (po_now x) m ak d = (res, d1)" by fastforce
  from Cons.prems(1) others have early: "po_now x < dl" by (auto simp: Let_def split: if_splits)
  show ?case
  proof (cases res)
    case (Placed rep h)
    with pl Cons.prems(1) others early have "p = rep_id rep" "d' = d1" by simp_all
    with placed_slots [OF pl [unfolded Placed] Cons.prems(3)] show ?thesis by blast
  next
    case NeedsQueue
    with pl have "d1 = d" by (simp add: placeRequest_queue_same)
    with Cons.prems(1) others early pl NeedsQueue
    have "waitForPlacement keda cfg dl m k ak ps d = Some (PlacedAt p url hit, d')" by simp
    with Cons.IH \<open>quiet ps\<close> Cons.prems(3) show ?thesis by blast
  qed
qed

lemma wait_quiet_expired:
  assumes "waitForPlacement keda cfg dl m k ak ps d = Some (NotPlaced err, d')" "quiet ps"
  shows "err = noReplicaError m \<and> (\<exists>t. d' = snd (expireQueuedRequest k t d))"
  using assms
proof (induction ps)
  case Nil
  then show ?case by simp
next
  case (Cons x ps)
  have others: "po_others x d = d" and "quiet ps" using Cons.prems(2) by (simp_all add: quiet_def)
  obtain res d1 where pl: "placeRequest keda cfg (po_locked x) (po_now x) m ak d = (res, d1)" by fastforce
  show ?case
  proof (cases "po_now x < dl")
    case False
    with Cons.prems(1) others show ?thesis by auto
  next
    case True
    with Cons.prems(1) others pl have "res = NeedsQueue" by (cases res) auto
    with pl have "d1 = d" by (simp add: placeRequest_queue_same)
    with Cons.prems(1) others True pl \<open>res = NeedsQueue\<close>
    have "waitForPlacement keda cfg dl m k ak ps d = Some (NotPlaced err, d')" by simp
    with Cons.IH \<open>quiet ps\<close> show ?thesis by blast
  qed
qed

section \<open>Termination of the waiting loop\<close>

lemma wait_ends:
  assumes "\<And>i. i < length ps \<Longrightarrow> now + int i * step \<le> po_now (ps ! i)"
    and "0 < step" "dl - now \<le> int (length ps - 1) * step" "ps \<noteq> []"
  shows "waitForPlacement keda cfg dl m k ak ps d \<noteq> None"
  using assms
proof (induction ps arbitrary: now d)
  case Nil
  then show ?case by simp
next
  case (Cons x ps)
  obtain res d1 where pl: "placeRequest keda cfg (po_locked x) (po_now x) m ak (po_others x d) = (res, d1)" by fastforce
  show ?case
  proof (cases "po_now x < dl \<and> res = NeedsQueue")
    case False
    with pl show ?thesis by (cases res) (auto simp: Let_def)
  next
    case True
    have "now \<le> po_now x" using Cons.prems(1) [of 0] by simp
    with True Cons.prems(2,3) have ne: "ps \<noteq> []" by auto
    then have len: "int (length (x # ps) - 1) = int (length ps - 1) + 1" by (cases ps) auto
    have "now + step + int i * step \<le> po_now (ps ! i)" if "i < length ps" for i
      using Cons.prems(1) [of "Suc i"] that by (simp add: algebra_simps)
    moreover have "dl - (now + step) \<le> int (length ps - 1) * step"
      using Cons.prems(3) unfolding len by (simp add: algebra_simps)
    ultimately have "waitForPlacement keda cfg dl m k ak ps d1 \<noteq> None"
      using Cons.IH [of "now + step" d1] Cons.prems(2) ne by blast
    with True pl show ?thesis by simp
  qed
qed

section \<open>Reassembling tool calls\<close>

text \<open>
  The specification: the calls in the order of their indices, each made from the fragments under its own
  index, in the order in which they came.
\<close>

definition call_of :: "tool_delta list \<Rightarrow> rat \<Rightarrow> tool_call" where
  "call_of deltas i = fold merge_delta (filter (\<lambda>d. call_index d = i) deltas) new_call"

definition calls_spec :: "tool_delta list \<Rightarrow> tool_call list" where
  "calls_spec deltas = map (call_of deltas) (sorted_list_of_set (call_index ` set deltas))"

lemma keys_add_delta: "fst ` set (add_delta d m) = insert (call_index d) (fst ` set m)"
  by (simp add: add_delta_def Let_def dom_update)

lemma distinct_add_delta: "distinct (map fst m) \<Longrightarrow> distinct (map fst (add_delta d m))"
  by (simp add: add_delta_def Let_def distinct_update)

lemma map_of_add_delta:
  "map_of (add_delta d m) i =
   (if i = call_index d then Some (merge_delta d (nullish (map_of m i) new_call)) else map_of m i)"
  by (auto simp: add_delta_def Let_def update_conv')

lemma call_of_snoc: "call_of (ds @ [x]) i = (if call_index x = i then merge_delta x (call_of ds i) else call_of ds i)"
  by (simp add: call_of_def)

lemma call_of_none: "i \<notin> call_index ` set ds \<Longrightarrow> call_of ds i = new_call"
  by (induction ds) (auto simp: call_of_def)

lemma add_deltas_inv:
  "distinct (map fst (fold add_delta ds [])) \<and> fst ` set (fold add_delta ds []) = call_index ` set ds \<and>
   (\<forall>i \<in> call_index ` set ds. map_of (fold add_delta ds []) i = Some (call_of ds i))"
proof (induction ds rule: rev_induct)
  case Nil
  then show ?case by simp
next
  case (snoc x ds)
  let ?m = "fold add_delta ds []"
  have m': "fold add_delta (ds @ [x]) [] = add_delta x ?m" by simp
  have "distinct (map fst (add_delta x ?m))"
    using snoc by (simp add: distinct_add_delta)
  moreover have "fst ` set (add_delta x ?m) = call_index ` set (ds @ [x])"
    using snoc by (simp add: keys_add_delta)
  moreover have "map_of (add_delta x ?m) i = Some (call_of (ds @ [x]) i)" if "i \<in> call_index ` set (ds @ [x])" for i
  proof (cases "i \<in> call_index ` set ds")
    case True
    with snoc have "map_of ?m i = Some (call_of ds i)" by blast
    then show ?thesis unfolding map_of_add_delta call_of_snoc by auto
  next
    case False
    then have "map_of ?m i = None" using snoc by (simp add: map_of_eq_None_iff)
    with False that show ?thesis by (auto simp: map_of_add_delta call_of_snoc call_of_none)
  qed
  ultimately show ?case unfolding m' by blast
qed

lemma assembleToolCalls_spec: "assembleToolCalls ds = calls_spec ds"
proof -
  let ?m = "fold add_delta ds []"
  have inv: "distinct (map fst ?m)" "fst ` set ?m = call_index ` set ds"
    "\<And>i. i \<in> call_index ` set ds \<Longrightarrow> map_of ?m i = Some (call_of ds i)"
    using add_deltas_inv [of ds] by blast+
  have "map fst (sort_key fst ?m) = sorted_list_of_set (call_index ` set ds)"
  proof (rule sorted_distinct_set_unique)
    show "sorted (map fst (sort_key fst ?m))" by simp
    show "distinct (map fst (sort_key fst ?m))"
      using inv(1) by (metis distinct_map distinct_sort set_sort)
    show "set (map fst (sort_key fst ?m)) = set (sorted_list_of_set (call_index ` set ds))"
      using inv(2) by simp
  qed simp_all
  moreover have "snd x = call_of ds (fst x)" if "x \<in> set (sort_key fst ?m)" for x
  proof -
    from that have x: "x \<in> set ?m" by simp
    with inv(1) have "map_of ?m (fst x) = Some (snd x)" by simp
    moreover have "fst x \<in> call_index ` set ds" using x inv(2) by blast
    ultimately show ?thesis using inv(3) by simp
  qed
  then have "map snd (sort_key fst ?m) = map (call_of ds) (map fst (sort_key fst ?m))"
    by simp
  ultimately show ?thesis by (simp add: assembleToolCalls_def calls_spec_def)
qed

section \<open>Properties\<close>

text \<open>
  C6: A generation whose chunks each arrive before the clock then running is never cut off, however long it
  takes in total: it finishes with the backend's done frame, with every chunk counted and forwarded in order.
  When the next event does not come in time, or never comes, it fails exactly when that clock runs out, with
  the error that names the clock: the first-token allowance before any chunk, the inactivity limit after.
\<close>
theorem generation_clock_exact:
  fixes d :: db and k :: string
  assumes "keeps_pace (STALL_TIMEOUT_MS cfg) (start + first_token_ms cfg model) cs"
  defines "dl \<equiv> (if cs = [] then \<lparr>dl_reason = FirstTokenClock, dl_expires = start + first_token_ms cfg model\<rparr>
                 else \<lparr>dl_reason = StallClock, dl_expires = fst (last cs) + STALL_TIMEOUT_MS cfg\<rparr>)"
    and "run \<equiv> \<lambda>rest. generate cfg model k (map (\<lambda>(t, c). Yields t c) cs @ rest)
                 (new_generation (generationDeadline start (first_token_ms cfg model))) d"
  shows "\<exists>g. ge_tokens g = int (length cs) \<and> ge_sent g = map snd cs \<and>
           (t < dl_expires dl \<longrightarrow>
              run (Yields t (DoneChunk f u) # rest) = (g\<lparr>ge_finish := f, ge_usage := u\<rparr>, Finished t, emit k (map fst cs) d)) \<and>
           (dl_expires dl \<le> t \<longrightarrow>
              run (Yields t c # rest) =
                (g, Failed (dl_expires dl) (timeoutError cfg (dl_reason dl) model), emit k (map fst cs) d)) \<and>
           run [] = (g, Failed (dl_expires dl) (timeoutError cfg (dl_reason dl) model), emit k (map fst cs) d)"
proof -
  let ?fresh = "new_generation (generationDeadline start (first_token_ms cfg model))"
  let ?g = "take_chunks cfg cs ?fresh"
  have "keeps_pace (STALL_TIMEOUT_MS cfg) (dl_expires (ge_deadline ?fresh)) cs"
    using assms(1) by (simp add: new_generation_def generationDeadline_def)
  note any = generate_paced [OF this, of model k _ d]
  have g: "ge_deadline ?g = dl" "ge_tokens ?g = int (length cs)" "ge_sent ?g = map snd cs"
    by (simp_all add: take_chunks_effect dl_def clock_after_def new_generation_def generationDeadline_def)
  have "run (Yields t (DoneChunk f u) # rest) = (?g\<lparr>ge_finish := f, ge_usage := u\<rparr>, Finished t, emit k (map fst cs) d)"
    if "t < dl_expires dl"
    unfolding run_def any using that g(1) by (simp add: aborted_def)
  moreover have "run (Yields t c # rest) = (?g, Failed (dl_expires dl) (timeoutError cfg (dl_reason dl) model), emit k (map fst cs) d)"
    if "dl_expires dl \<le> t"
    unfolding run_def any using that g(1) by (simp add: aborted_def)
  moreover have "run [] = (?g, Failed (dl_expires dl) (timeoutError cfg (dl_reason dl) model), emit k (map fst cs) d)"
    unfolding run_def any using g(1) by simp
  ultimately show ?thesis using g(2,3) by blast
qed

definition ex_paced :: "(time \<times> chunk) list" where
  "ex_paced = [(590000, ReasoningChunk ''hm''), (640000, TokenChunk ''a''), (690000, TokenChunk ''b'')]"

lemma generation_clock_exact_witness:
  "let m = ex_model ''ornith'' Large [Chat];
       run = \<lambda>rest. generate default_settings m ''q'' (map (\<lambda>(t, c). Yields t c) ex_paced @ rest)
               (new_generation (generationDeadline 0 (first_token_ms default_settings m))) empty_db in
   (\<exists>g. run [Yields 749999 (DoneChunk None None)] = (g, Finished 749999, emit ''q'' (map fst ex_paced) empty_db) \<and> ge_tokens g = 3) \<and>
   (\<exists>g. run [] = (g, Failed 750000 (timeoutError default_settings StallClock m), emit ''q'' (map fst ex_paced) empty_db))"
proof -
  let ?m = "ex_model ''ornith'' Large [Chat]"
  have pace: "keeps_pace (STALL_TIMEOUT_MS default_settings) (0 + first_token_ms default_settings ?m) ex_paced"
    by code_simp
  have dl: "ex_paced \<noteq> []" "fst (last ex_paced) + STALL_TIMEOUT_MS default_settings = 750000" "length ex_paced = 3" by code_simp+
  show ?thesis
    using generation_clock_exact [OF pace, where k = "''q''" and t = 749999 and f = None and u = None and rest = "[]" and d = empty_db] dl
    by (auto simp: Let_def)
qed

text \<open>
  C7: The wait for a replica ends. As long as the polls come no closer together than the retry interval, a
  handler that is given a poll for every interval of the queue timeout, and one more, has its answer: a
  replica, or the error that its wait has expired.
\<close>
theorem waiting_ends:
  assumes "\<And>i. i < length ps \<Longrightarrow> now + int i * PLACEMENT_RETRY_MS \<le> po_now (ps ! i)"
    and "QUEUE_TIMEOUT_MS cfg \<le> int (length ps - 1) * PLACEMENT_RETRY_MS" "ps \<noteq> []"
  shows "\<exists>r d'. waitForPlacement keda cfg (now + QUEUE_TIMEOUT_MS cfg) m k ak ps d = Some (r, d')"
  using wait_ends [of ps now PLACEMENT_RETRY_MS "now + QUEUE_TIMEOUT_MS cfg" keda cfg m k ak d] assms
  by (simp add: PLACEMENT_RETRY_MS_def)

definition ex_poll :: "time \<Rightarrow> poll" where
  "ex_poll t = \<lparr>po_now = t, po_locked = [], po_others = id\<rparr>"

lemma waiting_ends_witness:
  "\<exists>r d'. waitForPlacement NoopKedaClient (default_settings\<lparr>QUEUE_TIMEOUT_MS := 400\<rparr>) 400 ''nowhere'' ''q'' None
            (map ex_poll [0, 200, 450]) empty_db = Some (r, d')"
proof -
  have step: "0 + int i * PLACEMENT_RETRY_MS \<le> po_now (map ex_poll [0, 200, 450] ! i)"
    if "i < length (map ex_poll [0, 200, 450])" for i
  proof -
    from that consider "i = 0" | "i = 1" | "i = 2" by fastforce
    then show ?thesis by cases (simp_all add: ex_poll_def PLACEMENT_RETRY_MS_def)
  qed
  show ?thesis
    using waiting_ends [OF step, of "default_settings\<lparr>QUEUE_TIMEOUT_MS := 400\<rparr>" NoopKedaClient "''nowhere''" "''q''" None empty_db]
    by (simp add: PLACEMENT_RETRY_MS_def)
qed

text \<open>
  C11: However the backend cuts its tool calls into fragments and interleaves them, the assembled calls are the
  ones of the specification: one call per index, in the order of the indices, whose argument text is the
  concatenation of the fragments under that index.
\<close>
theorem assembleToolCalls_correct:
  "assembleToolCalls ds = calls_spec ds \<and>
   map tc_arguments (assembleToolCalls ds) =
     map (\<lambda>i. concat (map (\<lambda>d. nullish (present (td_arguments d)) '''') (filter (\<lambda>d. call_index d = i) ds)))
       (sorted_list_of_set (call_index ` set ds))"
proof -
  have "tc_arguments (fold merge_delta xs c) = tc_arguments c @ concat (map (\<lambda>d. nullish (present (td_arguments d)) '''') xs)"
    for xs c
    by (induction xs arbitrary: c) (simp_all add: merge_delta_def)
  then have "tc_arguments (call_of ds i) =
      concat (map (\<lambda>d. nullish (present (td_arguments d)) '''') (filter (\<lambda>d. call_index d = i) ds))" for i
    by (simp add: call_of_def new_call_def)
  then show ?thesis by (simp add: assembleToolCalls_spec calls_spec_def)
qed

text \<open>
  A failure of the backend reaches the caller as what it is: a request that cannot succeed is answered with
  status 400 and never with one that asks for a retry, a prompt that does not fit by its own code, and every
  other failure as an unavailable replica.\<close>
theorem backendFailure_classifies:
  "(statusForError (backendFailure e) = 400 \<longleftrightarrow>
      (case e of BackendError s b \<Rightarrow> isCallerError s \<or> isContextOverflow b | OtherError m \<Rightarrow> False)) \<and>
   (statusForError (backendFailure e) = 503 \<longleftrightarrow> statusForError (backendFailure e) \<noteq> 400) \<and>
   (err_code (backendFailure e) = ContextLengthExceeded \<longleftrightarrow>
      (case e of BackendError s b \<Rightarrow> isContextOverflow b | OtherError m \<Rightarrow> False)) \<and>
   err_message (backendFailure e) = failure_message e \<and>
   STATUS_FOR_ERROR_CODE (err_code (backendFailure e)) =
     (if statusForError (backendFailure e) = 503 then Some ReplicaUnavailableStatus else None)"
  by (cases e) (auto simp: backendFailure_def statusForError_def error_defs STATUS_FOR_ERROR_CODE_def)

text \<open>
  A timeout is filed the same way whoever notices it first: the row that the live handler writes when one
  of its clocks runs out is the row that the periodic sweep writes, and a caller whose wait expires leaves the
  row that the queue sweep would leave.\<close>
theorem live_timeout_as_swept:
  "failed_row (timeoutError cfg reason model) now r = set_timed_out StallTimeoutStatus StallTimeout now r \<and>
   failed_row (noReplicaError m) now r = set_timed_out QueueTimeoutStatus QueueTimeout now r"
  by (simp add: failed_row_def set_timed_out_def timeoutError_def noReplicaError_def error_defs STATUS_FOR_ERROR_CODE_def)

text \<open>
  C9: However a streamed turn ends, its request has an outcome, no other request is touched, and the slot it
  holds is given back once. The one exception is a failure after the settlement, while the content is being
  logged: the handler has already completed the request and fails it again, which takes a second slot off the
  replica, one that belongs to another request.
\<close>
theorem stream_slots_exact:
  fixes cfg :: settings and identity :: caller_identity and model :: model_config and body :: chat_request and url :: string
  assumes "held_replica d (en_requestId env) = Some p"
  defines "d' \<equiv> snd (streamed cfg env identity model body url p d)"
  shows "slots d' q = (if late_failure cfg env identity model body url d
                       then minus_one p q (minus_one p q (slots d q)) else minus_one p q (slots d q)) \<and>
         same_others (en_requestId env) d d' \<and>
         (\<exists>r. request_by d' (en_requestId env) = Some r \<and> \<not> live (rq_status r))"
  using streamed_turn [OF _ assms(1), of cfg identity model body url _ d'] unfolding d'_def by (metis prod.collapse)

definition ex_env :: call_env where
  "ex_env = \<lparr>en_requestId = ''q9'', en_now = 1000, en_polls = [ex_poll 1000], en_start = 1100,
     en_backend = (\<lambda>p. [Yields 2000 (TokenChunk ''Hi''), Yields 3000 (DoneChunk (Some ''stop'') None)]),
     en_settle = 3100, en_raises = (\<lambda>c. None)\<rparr>"

definition ex_caller :: caller_identity where
  "ex_caller = \<lparr>ci_oid = ''oid'', ci_name = ''Ann'', ci_team = None\<rparr>"

definition ex_streaming_db :: db where
  "ex_streaming_db = ex_fleet_db\<lparr>replicas := [ex_replica ''p0'' ''ornith'' 2 4],
     requests := [ex_stream, (ex_row ''q9'' ''ornith'' Streaming)\<lparr>rq_replica_id := Some ''p0'', rq_started_at := Some 1100\<rparr>]\<rparr>"

text \<open>Two requests hold a slot each; one of them fails late, and both slots are gone.\<close>

lemma stream_slots_exact_witness:
  "let env = ex_env\<lparr>en_raises := (\<lambda>c. if c = ReadScopes then Some ''connection lost'' else None)\<rparr>;
       m = ex_model ''ornith'' Large [Chat]; body = ex_request None (Text ''Hello'');
       run = \<lambda>env. snd (streamed default_settings env ex_caller m body ''http://p0'' ''p0'' ex_streaming_db) in
   slots ex_streaming_db ''p0'' = Some 2 \<and> slots (run ex_env) ''p0'' = Some 1 \<and> slots (run env) ''p0'' = Some 0"
proof -
  let ?env = "ex_env\<lparr>en_raises := (\<lambda>c. if c = ReadScopes then Some ''connection lost'' else None)\<rparr>"
    and ?m = "ex_model ''ornith'' Large [Chat]" and ?body = "ex_request None (Text ''Hello'')"
  have held: "held_replica ex_streaming_db (en_requestId ex_env) = Some ''p0''"
    "held_replica ex_streaming_db (en_requestId ?env) = Some ''p0''" by code_simp+
  have late: "\<not> late_failure default_settings ex_env ex_caller ?m ?body ''http://p0'' ex_streaming_db"
    "late_failure default_settings ?env ex_caller ?m ?body ''http://p0'' ex_streaming_db" by code_simp+
  have two: "slots ex_streaming_db ''p0'' = Some 2" by code_simp
  show ?thesis
    using stream_slots_exact [OF held(1), where q = "''p0''" and cfg = default_settings and identity = ex_caller
        and model = ?m and body = ?body and url = "''http://p0''"]
      stream_slots_exact [OF held(2), where q = "''p0''" and cfg = default_settings and identity = ex_caller
        and model = ?m and body = ?body and url = "''http://p0''"] late two
    by (simp add: Let_def minus_one_def)
qed

lemma log_content_requests:
  "requests (snd (log_content raises now team m k prompt response d)) = requests d"
  "replicas (snd (log_content raises now team m k prompt response d)) = replicas d"
  using log_content_frame [of raises now team m k prompt response d] by (metis prod.collapse)+

lemma refusing_none: "en_raises env = (\<lambda>c. None) \<Longrightarrow> \<not> settle_refused cfg env model body url d"
  by (simp add: settle_refused_def split: prod.split generation_end.split)

lemma late_none: "en_raises env = (\<lambda>c. None) \<Longrightarrow> held_replica d (en_requestId env) = Some p \<Longrightarrow>
  \<not> late_failure cfg env identity model body url d"
  using late_failure_refused by fastforce

lemma failRequest_cong:
  assumes "requests a = requests b" "replicas a = replicas b"
  shows "requests (failRequest k err p now a) = requests (failRequest k err p now b) \<and>
    replicas (failRequest k err p now a) = replicas (failRequest k err p now b)"
  using assms by (cases "present p") (simp_all add: failRequest_def update_requests_def update_replicas_def Let_def)

text \<open>
  C10: The streaming and the buffered form of a turn are the same turn until the store refuses a statement of its
  settlement. Unless that happens, they leave the same requests and the same replicas behind, one reports an error
  exactly when the other does, and then the same one; and the stream is closed by its terminator exactly when the
  buffered form answers. When a statement is refused (of the settlement, or of the logging of content after it), the
  buffered form answers 500 and stops there, while the stream, already terminated, sends an error after the terminator
  and leaves behind what failing the request makes of the store of the buffered form: the slot that the buffered
  form keeps is given back, and after the settlement a second one is taken off.
\<close>
theorem stream_and_buffer_agree:
  fixes cfg :: settings and identity :: caller_identity and model :: model_config and body :: chat_request and url :: string
  assumes "held_replica d (en_requestId env) = Some p"
  defines "s \<equiv> streamed cfg env identity model body url p d"
    and "b \<equiv> buffered cfg env identity model body url p d"
    and "refused \<equiv> settle_refused cfg env model body url d \<or> late_failure cfg env identity model body url d"
  shows "(\<not> refused \<longrightarrow> requests (snd s) = requests (snd b) \<and> replicas (snd s) = replicas (snd b) \<and>
         (\<exists>frames. (\<exists>j. fst b = JsonReply j \<and> fst s = SseReply (frames @ [SseDone])) \<or>
                   (\<exists>err. fst b = ErrorReply (statusForError err) err \<and> fst s = SseReply (frames @ [SseError err])))) \<and>
     (refused \<longrightarrow> (\<exists>m frames err. fst b = Unhandled m \<and> fst s = SseReply (frames @ [SseDone, SseError err]) \<and>
         requests (snd s) = requests (failRequest (en_requestId env) err (Some p) (en_settle env) (snd b)) \<and>
         replicas (snd s) = replicas (failRequest (en_requestId env) err (Some p) (en_settle env) (snd b)))) \<and>
     (refused \<longrightarrow> (\<exists>c. en_raises env c \<noteq> None))"
proof -
  let ?k = "en_requestId env"
  obtain g e d1 where gen: "run_generation cfg env model url body d = (g, e, d1)" by (metis prod_cases3)
  from run_generation_emits [OF gen] obtain ts where d1: "d1 = emit ?k ts d" .
  have "settle_refused cfg env model body url d \<longrightarrow> (\<exists>c. en_raises env c \<noteq> None)"
    by (auto simp: settle_refused_def split: prod.splits generation_end.splits)
  moreover have "late_failure cfg env identity model body url d \<longrightarrow> (\<exists>c. en_raises env c \<noteq> None)"
    using late_failure_refused [OF _ assms(1)] by blast
  ultimately have why: "refused \<longrightarrow> (\<exists>c. en_raises env c \<noteq> None)" unfolding refused_def by blast
  show ?thesis
  proof (cases e)
    case (Failed t err)
    with gen have "s = (SseReply (sent_frames env model g @ [SseError err]), failRequest ?k err (Some p) t d1)"
      "b = (ErrorReply (statusForError err) err, failRequest ?k err (Some p) t d1)" "\<not> refused"
      by (simp_all add: s_def b_def streamed_def buffered_def refused_def settle_refused_def late_failure_def)
    then show ?thesis by auto
  next
    case (Finished t)
    obtain i u m where usage: "turn_usage body g = (i, u, m)" by (metis prod_cases3)
    obtain se d2 where st: "settle cfg (en_raises env) model ?k (en_start env) (en_settle env) i u d1 = (se, d2)"
      by fastforce
    let ?frames = "sent_frames env model g @ closing_frames env model body g i u"
    obtain fs where frames: "?frames = fs @ [SseDone]"
      unfolding closing_frames_def by (metis append_Cons append_assoc)
    let ?log = "\<lambda>calls. log_content (en_raises env) (en_settle env) (ci_team identity) (m_id model) ?k
        (promptText (cr_messages body)) (auditBody (ge_reasoning g) (ge_text g) calls) d2"
    let ?calls = "assembleToolCalls (map tool_delta_of (ge_tools g))"
    obtain le da where la: "?log (ge_tools g) = (le, da)" by fastforce
    obtain db where lb: "?log (map tool_call_json ?calls) = (le, db)"
      using la log_content_error by (metis fst_conv prod.collapse)
    have same: "requests da = requests db" "replicas da = replicas db"
      using log_content_frame [OF la] log_content_frame [OF lb] by simp_all
    show ?thesis
    proof (cases se)
      case None
      have late: "refused \<longleftrightarrow> le \<noteq> None"
        using gen Finished usage st None la settle_refuses [of cfg "en_raises env" model ?k "en_start env" "en_settle env" i u d1]
        by (auto simp: refused_def settle_refused_def late_failure_def)
      show ?thesis
      proof (cases le)
        case None
        with \<open>se = None\<close> have "s = (SseReply ?frames, da)" "b = (JsonReply (completion_json env model g ?calls i u), db)"
          using gen Finished usage st la lb by (simp_all add: s_def b_def streamed_def buffered_def Let_def)
        with late None same frames show ?thesis by auto
      next
        case (Some x)
        let ?err = "if aborted (en_settle env) (ge_deadline g) then timeoutError cfg (dl_reason (ge_deadline g)) model else backendFailure x"
        from Some \<open>se = None\<close> have s: "s = (SseReply (?frames @ [SseError ?err]), failRequest ?k ?err (Some p) (en_settle env) da)"
          and b: "b = (Unhandled (failure_message x), db)"
          using gen Finished usage st la lb by (simp_all add: s_def b_def streamed_def buffered_def Let_def)
        have "requests (failRequest ?k ?err (Some p) (en_settle env) da) = requests (failRequest ?k ?err (Some p) (en_settle env) db)"
          "replicas (failRequest ?k ?err (Some p) (en_settle env) da) = replicas (failRequest ?k ?err (Some p) (en_settle env) db)"
          using failRequest_cong [OF same] by blast+
        with late Some s b frames why show ?thesis by auto
      qed
    next
      case (Some x)
      let ?err = "if aborted (en_settle env) (ge_deadline g) then timeoutError cfg (dl_reason (ge_deadline g)) model else backendFailure x"
      have "refused"
        using gen Finished usage st Some settle_refuses [of cfg "en_raises env" model ?k "en_start env" "en_settle env" i u d1]
        by (auto simp: refused_def settle_refused_def)
      moreover from Some have s: "s = (SseReply (?frames @ [SseError ?err]), failRequest ?k ?err (Some p) (en_settle env) d2)"
        and b: "b = (Unhandled (failure_message x), d2)"
        using gen Finished usage st by (simp_all add: s_def b_def streamed_def buffered_def Let_def)
      ultimately show ?thesis using frames why by auto
    qed
  qed
qed

lemma stream_and_buffer_agree_witness:
  "requests (snd (streamed default_settings ex_env ex_caller (ex_model ''ornith'' Large [Chat]) (ex_request None (Text ''Hello'')) ''u'' ''p0'' ex_streaming_db)) =
   requests (snd (buffered default_settings ex_env ex_caller (ex_model ''ornith'' Large [Chat]) (ex_request None (Text ''Hello'')) ''u'' ''p0'' ex_streaming_db))"
proof -
  let ?m = "ex_model ''ornith'' Large [Chat]" and ?b = "ex_request None (Text ''Hello'')"
  have env: "en_raises ex_env = (\<lambda>c. None)" and held: "held_replica ex_streaming_db (en_requestId ex_env) = Some ''p0''"
    by (simp add: ex_env_def) code_simp
  from stream_and_buffer_agree [OF held, where cfg = default_settings and identity = ex_caller and model = ?m and body = ?b and url = "''u''"]
    refusing_none [OF env, where cfg = default_settings and model = ?m and body = ?b and url = "''u''" and d = ex_streaming_db]
    late_none [OF env held, where cfg = default_settings and identity = ex_caller and model = ?m and body = ?b and url = "''u''"]
  show ?thesis by blast
qed

section \<open>Whole requests\<close>

lemma enqueue_chat_Inr:
  assumes "enqueue_chat env identity model body d = Inr d1"
  shows "slots d1 = slots d" "same_others (en_requestId env) d d1"
    "\<exists>r. request_by d1 (en_requestId env) = Some r \<and> rq_status r = Queued" "db_ok d \<Longrightarrow> db_ok d1" "replicas d1 = replicas d"
proof -
  let ?k = "en_requestId env"
  let ?inp = "\<lparr>eq_id = ?k, eq_callerOid = ci_oid identity, eq_callerName = ci_name identity,
    eq_team = ci_team identity, eq_requestedModel = cr_model body, eq_capabilities = Some (m_capabilities model)\<rparr>"
  from assms obtain d0 where e: "enqueueRequest (en_now env) ?inp d = Inr d0"
    and d1: "d1 = set_routed_model ?k (m_id model) d0"
    by (cases "enqueueRequest (en_now env) ?inp d") (simp_all add: enqueue_chat_def)
  from e have new: "request_by d ?k = None" and d0: "d0 = d\<lparr>requests := requests d @ [queued_row (en_now env) ?inp]\<rparr>"
    by (simp_all add: enqueueRequest_Inr)
  have row: "request_by d0 j = (if j = ?k then Some (queued_row (en_now env) ?inp) else request_by d j)" for j
    using new by (auto simp: d0 request_by_def row_of_append row_of_single queued_row_def split: option.split)
  show "replicas d1 = replicas d" by (simp add: d1 d0)
  then show "slots d1 = slots d" by (rule slots_cong)
  have r1: "request_by d1 j = map_option (\<lambda>r. if rq_id r = ?k then r\<lparr>rq_routed_model := Some (m_id model)\<rparr> else r) (request_by d0 j)" for j
    by (simp add: d1 set_routed_model_def request_by_update_requests)
  show "same_others ?k d d1"
    unfolding same_others_def
  proof (intro allI impI)
    fix j
    assume "j \<noteq> ?k"
    then show "request_by d1 j = request_by d j"
      by (cases "request_by d j") (auto simp: r1 row dest: request_by_Some)
  qed
  show "\<exists>r. request_by d1 ?k = Some r \<and> rq_status r = Queued"
    by (simp add: r1 row queued_row_def)
  show "db_ok d \<Longrightarrow> db_ok d1"
    using db_ok_enqueueRequest [OF _ e] by (simp add: d1 set_routed_model_def db_ok_update_requests)
qed

lemma start_stream_held:
  assumes "request_by d (en_requestId env) = Some r" "p \<noteq> ''''"
  shows "held_replica (start_stream env p hit d) (en_requestId env) = Some p"
    "slots (start_stream env p hit d) = slots d" "same_others (en_requestId env) d (start_stream env p hit d)"
proof -
  let ?k = "en_requestId env"
  show "slots (start_stream env p hit d) = slots d" by (rule slots_cong) (simp add: start_stream_def)
  show "held_replica (start_stream env p hit d) ?k = Some p"
    using assms request_by_Some [OF assms(1)]
    by (simp add: start_stream_def set_affinity_hit_def held_replica_def request_by_update_requests request_by_markStreamStarted)
  show "same_others ?k d (start_stream env p hit d)"
    unfolding start_stream_def set_affinity_hit_def markStreamStarted_def
    by (rule same_others_trans [OF same_others_update same_others_update]) simp_all
qed

lemma expired_request:
  assumes "request_by d k = Some r" "rq_status r = Queued" "d' = snd (expireQueuedRequest k t d)"
  shows "slots d' = slots d" "same_others k d d'" "\<exists>r. request_by d' k = Some r \<and> rq_status r = QueueTimeoutStatus"
proof -
  have d': "d' = update_requests (expire_due k) (set_timed_out QueueTimeoutStatus QueueTimeout t) d"
    using assms(3) by (simp add: expireQueuedRequest_def)
  then show "slots d' = slots d" by (intro slots_cong) simp
  have row: "request_by d' j = map_option (\<lambda>r. if expire_due k r then set_timed_out QueueTimeoutStatus QueueTimeout t r else r) (request_by d j)" for j
    unfolding d' by (rule request_by_update_requests) simp
  show "same_others k d d'"
    unfolding same_others_def
  proof (intro allI impI)
    fix j
    assume "j \<noteq> k"
    then show "request_by d' j = request_by d j"
      by (cases "request_by d j") (auto simp: row expire_due_def dest: request_by_Some)
  qed
  show "\<exists>r. request_by d' k = Some r \<and> rq_status r = QueueTimeoutStatus"
    using assms(1,2) request_by_Some [OF assms(1)] by (simp add: row expire_due_def)
qed

lemma slots_nonneg: "\<forall>r \<in> set (replicas d). 0 \<le> rp_in_flight r \<Longrightarrow> slots d q = Some n \<Longrightarrow> 0 \<le> n"
  by (auto simp: slots_def dest: replica_by_Some)

text \<open>How an admitted turn ends, whatever the store refuses of its settlement.\<close>

definition turn_ends :: "call_env \<Rightarrow> chat_request \<Rightarrow> string \<Rightarrow> db \<Rightarrow> http_reply \<Rightarrow> db \<Rightarrow> bool" where
  "turn_ends env body p d reply d' \<longleftrightarrow>
     (let k = en_requestId env; ended = (\<exists>r. request_by d' k = Some r \<and> \<not> live (rq_status r)) in
        ended \<and> (\<forall>q. slots d' q = minus_one p q (slots d q)) \<or>
        \<not> cr_stream body \<and> (\<exists>c \<in> {ReadCost, SetInputTokens, Complete}. en_raises env c \<noteq> None) \<and> (\<exists>m. reply = Unhandled m) \<and>
          (\<exists>r. request_by d' k = Some r \<and> rq_status r = Streaming \<and> rq_replica_id r = Some p) \<and> (\<forall>q. slots d' q = slots d q) \<or>
        cr_stream body \<and> (\<exists>c \<in> {ReadScopes, WriteAudit}. en_raises env c \<noteq> None) \<and> ended \<and>
          (\<forall>q. slots d' q = minus_one p q (minus_one p q (slots d q))))"

lemma turn_end:
  assumes "answer_chat cfg env identity model body url p d = (reply, d')"
    and "request_by d (en_requestId env) = Some r" "rq_status r = Streaming" "rq_replica_id r = Some p" "p \<noteq> ''''"
  shows "same_others (en_requestId env) d d'" "turn_ends env body p d reply d'"
proof -
  have held: "held_replica d (en_requestId env) = Some p" using assms(2,4,5) by (simp add: held_replica_def)
  have "same_others (en_requestId env) d d' \<and> turn_ends env body p d reply d'"
  proof (cases "cr_stream body")
    case True
    with assms(1) have s: "streamed cfg env identity model body url p d = (reply, d')" by (simp add: answer_chat_def)
    show ?thesis
    proof (cases "late_failure cfg env identity model body url d")
      case late: True
      from streamed_turn [OF s held] late_failure_refused [OF late held] True late show ?thesis
        unfolding turn_ends_def Let_def by simp
    next
      case False
      with streamed_turn [OF s held] show ?thesis unfolding turn_ends_def Let_def by simp
    qed
  next
    case False
    with assms(1) have b: "buffered cfg env identity model body url p d = (reply, d')" by (simp add: answer_chat_def)
    have why: "settle_refused cfg env model body url d \<longrightarrow> (\<exists>c \<in> {ReadCost, SetInputTokens, Complete}. en_raises env c \<noteq> None)"
      by (auto simp: settle_refused_def split: prod.splits generation_end.splits)
    from buffered_ends [OF b assms(2,4,5)] why False assms(3) show ?thesis
      unfolding turn_ends_def Let_def by (cases "settle_refused cfg env model body url d") simp_all
  qed
  then show "same_others (en_requestId env) d d'" "turn_ends env body p d reply d'" by blast+
qed

lemma start_stream_row:
  assumes "request_by d (en_requestId env) = Some r"
  shows "\<exists>r'. request_by (start_stream env p hit d) (en_requestId env) = Some r' \<and> rq_status r' = Streaming \<and> rq_replica_id r' = Some p"
  using assms request_by_Some [OF assms]
  by (simp add: start_stream_def set_affinity_hit_def request_by_update_requests request_by_markStreamStarted)

lemma plus_then_minus:
  assumes "\<And>q n. slots d q = Some n \<Longrightarrow> 0 \<le> n" "\<And>q. slots d2 q = plus_one p q (slots d q)"
  shows "minus_one p q (slots d2 q) = slots d q"
  using assms(1) [of q] assms(2) [of q] by (simp add: minus_plus_one)

text \<open>
  C3: What a chat request that runs alone leaves behind, from arrival to reply. No other request is touched. Either
  it is refused without a trace; or it has its outcome and every replica has as many slots taken as before, whatever the
  backend does (answers, fails, stalls or stays silent). There are two ways out of this, and both need the
  store to refuse a statement after the generation: a buffered request whose settlement is refused answers 500,
  stays in the streaming state and keeps its slot; a streamed one whose content cannot be logged has its
  outcome and takes a second slot off the replica, one that belongs to somebody else.
\<close>
theorem chat_slots_exact:
  assumes "chatCompletions keda cfg sha256_hex env identity body dry_run d = Some (reply, d')"
    and "db_ok d" "quiet (en_polls env)" "request_by d (en_requestId env) = None"
    and "\<forall>r \<in> set (replicas d). rp_id r \<noteq> '''' \<and> 0 \<le> rp_in_flight r"
  shows "same_others (en_requestId env) d d' \<and>
    (d' = d \<or>
     (\<exists>r. request_by d' (en_requestId env) = Some r \<and> \<not> live (rq_status r)) \<and> (\<forall>q. slots d' q = slots d q) \<or>
     \<not> cr_stream body \<and> (\<exists>c \<in> {ReadCost, SetInputTokens, Complete}. en_raises env c \<noteq> None) \<and> (\<exists>m. reply = Unhandled m) \<and>
       (\<exists>p r. request_by d' (en_requestId env) = Some r \<and> rq_status r = Streaming \<and> rq_replica_id r = Some p \<and>
          (\<forall>q. slots d' q = plus_one p q (slots d q))) \<or>
     cr_stream body \<and> (\<exists>c \<in> {ReadScopes, WriteAudit}. en_raises env c \<noteq> None) \<and>
       (\<exists>r. request_by d' (en_requestId env) = Some r \<and> \<not> live (rq_status r)) \<and>
       (\<exists>p. \<forall>q. slots d' q = minus_one p q (slots d q)))"
proof (cases "d' = d")
  case True
  then show ?thesis by simp
next
  case False
  let ?k = "en_requestId env"
  from assms(1) False have ne: "cr_messages body \<noteq> []" by (auto simp: chatCompletions_def)
  from assms(1) ne False obtain modelId reason where sel: "selectModel body (listModels d) ChatEndpoint = Selected modelId reason"
    by (auto simp: chatCompletions_def split: select_result.splits)
  define model where "model = selected_model modelId d"
  from assms(1) ne sel False have run: "serve_chat keda cfg sha256_hex env identity model body d = Some (reply, d')"
    by (auto simp: chatCompletions_def model_def split: if_splits)
  with False obtain d1 where e: "enqueue_chat env identity model body d = Inr d1"
    by (auto simp: serve_chat_def split: sum.splits)
  note en = enqueue_chat_Inr [OF e]
  obtain r1 where r1: "request_by d1 ?k = Some r1" "rq_status r1 = Queued" using en(3) by blast
  from run e obtain pl d2 where w: "place_chat keda cfg sha256_hex env identity model body d1 = Some (pl, d2)"
    by (auto simp: serve_chat_def split: option.splits)
  note w' = w [unfolded place_chat_def]
  show ?thesis
  proof (cases pl)
    case (NotPlaced err)
    with run e w have "d' = d2" by (simp add: serve_chat_def)
    moreover from wait_quiet_expired [OF w' [unfolded NotPlaced] assms(3)] obtain t where
      t: "d2 = snd (expireQueuedRequest ?k t d1)" by blast
    note ex = expired_request [OF r1 t]
    moreover have "same_others ?k d d2" using en(2) ex(2) by (rule same_others_trans)
    moreover obtain r where "request_by d2 ?k = Some r" "\<not> live (rq_status r)" using ex(3) by auto
    ultimately show ?thesis using en(1) by simp
  next
    case (PlacedAt p url hit)
    from wait_quiet_placed [OF w' [unfolded PlacedAt] assms(3) en(4) [OF assms(2)]]
    have p2: "requests d2 = requests d1" "\<And>q. slots d2 q = plus_one p q (slots d1 q)" "slots d1 p \<noteq> None" by blast+
    from p2(3) en(5) assms(5) have p: "p \<noteq> ''''"
      by (auto simp: slots_def replica_by_def dest!: row_of_Some)
    have r2: "request_by d2 ?k = Some r1" using r1(1) request_by_cong [OF p2(1)] by simp
    let ?ds = "start_stream env p hit d2"
    note st = start_stream_held [OF r2 p, of hit]
    obtain rs where rs: "request_by ?ds ?k = Some rs" "rq_status rs = Streaming" "rq_replica_id rs = Some p"
      using start_stream_row [OF r2] by blast
    from run e w PlacedAt have "answer_chat cfg env identity model body (if url \<noteq> '''' then url else m_endpointUrl model) p ?ds = (reply, d')"
      by (simp add: serve_chat_def)
    note turn = turn_end [OF this rs p]
    have same: "same_others ?k d d'"
      using en(2) same_others_requests [OF p2(1), of ?k] st(3) turn(1) by (blast intro: same_others_trans)
    have up: "slots ?ds q = plus_one p q (slots d q)" for q using st(2) p2(2) en(1) by simp
    have nonneg: "0 \<le> n" if "slots d q = Some n" for q n
      using slots_nonneg [of d q n] assms(5) that by blast
    have down: "minus_one p q (slots ?ds q) = slots d q" for q
      using nonneg up by (rule plus_then_minus)
    from turn(2) [unfolded turn_ends_def Let_def down, unfolded up] have "(\<exists>r. request_by d' ?k = Some r \<and> \<not> live (rq_status r)) \<and> (\<forall>q. slots d' q = slots d q) \<or>
        \<not> cr_stream body \<and> (\<exists>c \<in> {ReadCost, SetInputTokens, Complete}. en_raises env c \<noteq> None) \<and> (\<exists>m. reply = Unhandled m) \<and>
          (\<exists>r. request_by d' ?k = Some r \<and> rq_status r = Streaming \<and> rq_replica_id r = Some p) \<and>
          (\<forall>q. slots d' q = plus_one p q (slots d q)) \<or>
        cr_stream body \<and> (\<exists>c \<in> {ReadScopes, WriteAudit}. en_raises env c \<noteq> None) \<and>
          (\<exists>r. request_by d' ?k = Some r \<and> \<not> live (rq_status r)) \<and> (\<forall>q. slots d' q = minus_one p q (slots d q))"
      .
    with same show ?thesis by blast
  qed
qed

definition ex_idle_db :: db where
  "ex_idle_db = ex_fleet_db\<lparr>replicas := [ex_replica ''p0'' ''ornith'' 1 4], requests := [ex_stream]\<rparr>"

text \<open>A request that is served, and one whose settlement the store refuses.\<close>

lemma chat_slots_exact_witness:
  "let body = ex_request (Some ''ornith'') (Text ''Hello'');
       run = (\<lambda>env. snd (the (chatCompletions NoopKedaClient default_settings id env ex_caller body False ex_idle_db)));
       refusing = ex_env\<lparr>en_raises := (\<lambda>c. if c = Complete then Some ''connection lost'' else None)\<rparr> in
   slots ex_idle_db ''p0'' = Some 1 \<and> slots (run ex_env) ''p0'' = Some 1 \<and>
   map_option rq_status (request_by (run ex_env) ''q9'') = Some Completed \<and> same_others ''q9'' ex_idle_db (run ex_env) \<and>
   slots (run refusing) ''p0'' = Some 2 \<and> map_option rq_status (request_by (run refusing) ''q9'') = Some Streaming \<and>
   same_others ''q9'' ex_idle_db (run refusing)"
proof -
  let ?body = "ex_request (Some ''ornith'') (Text ''Hello'')"
  let ?chat = "\<lambda>env. chatCompletions NoopKedaClient default_settings id env ex_caller ?body False ex_idle_db"
  let ?run = "\<lambda>env. snd (the (?chat env))"
  let ?bad = "ex_env\<lparr>en_raises := (\<lambda>c. if c = Complete then Some ''connection lost'' else None)\<rparr>"
  have ok: "db_ok ex_idle_db" "request_by ex_idle_db ''q9'' = None"
    "\<forall>r \<in> set (replicas ex_idle_db). rp_id r \<noteq> '''' \<and> 0 \<le> rp_in_flight r" by code_simp+
  have env: "en_requestId ex_env = ''q9''" "en_requestId ?bad = ''q9''" "quiet (en_polls ex_env)" "quiet (en_polls ?bad)"
    by (simp_all add: ex_env_def quiet_def ex_poll_def)
  have some: "?chat ex_env \<noteq> None" "?chat ?bad \<noteq> None" by code_simp+
  then obtain a d1 b d2 where run: "?chat ex_env = Some (a, d1)" "?chat ?bad = Some (b, d2)" by fastforce
  have "same_others ''q9'' ex_idle_db d1"
    using chat_slots_exact [OF run(1) ok(1) env(3) _ ok(3)] ok(2) by (simp add: env(1))
  moreover have "same_others ''q9'' ex_idle_db d2"
    using chat_slots_exact [OF run(2) ok(1) env(4) _ ok(3)] ok(2) by (simp add: env(1,2))
  moreover have "slots ex_idle_db ''p0'' = Some 1" "slots (?run ex_env) ''p0'' = Some 1" "slots (?run ?bad) ''p0'' = Some 2"
    "map_option rq_status (request_by (?run ex_env) ''q9'') = Some Completed"
    "map_option rq_status (request_by (?run ?bad) ''q9'') = Some Streaming" by code_simp+
  ultimately show ?thesis unfolding Let_def run option.sel snd_conv by blast
qed

lemma all_sweeps_replicas: "replicas (all_sweeps cfg t d) = replicas d"
  by (simp add: all_sweeps_def first_token_sweep.frame stall_sweep.frame queue_sweep.frame)

text \<open>
  C12: An embeddings request whose backend call fails after it was placed is never settled: the exception leaves
  the handler, the row stays in the streaming state and the replica's slot stays taken. The periodic sweeps may
  file the row, but they do not give the slot back.
\<close>
theorem embeddings_failure_leaks:
  assumes "embeddings keda cfg env backend identity requested inp d = Some (Unhandled msg, d')"
    and "\<And>url. backend url = Inl e"
    and "db_ok d" "quiet (en_polls env)" "request_by d (en_requestId env) = None" "\<forall>r \<in> set (replicas d). rp_id r \<noteq> ''''"
  shows "msg = failure_message e \<and>
         (\<exists>p r. request_by d' (en_requestId env) = Some r \<and> rq_status r = Streaming \<and> rq_replica_id r = Some p \<and>
            (\<forall>q. slots d' q = plus_one p q (slots d q)) \<and> (\<forall>t q. slots (all_sweeps cfg t d') q = plus_one p q (slots d q)))"
proof -
  let ?k = "en_requestId env"
  let ?inp = "\<lparr>eq_id = ?k, eq_callerOid = ci_oid identity, eq_callerName = ci_name identity,
      eq_team = ci_team identity, eq_requestedModel = requested, eq_capabilities = Some [Embeddings]\<rparr>"
  from assms(1) obtain model where run: "serve_embeddings keda cfg env backend identity requested inp model d = Some (Unhandled msg, d')"
    by (auto simp: embeddings_def split: if_splits select_result.splits)
  define d0 where "d0 = d\<lparr>requests := requests d @ [queued_row (en_now env) ?inp]\<rparr>"
  define d1 where "d1 = set_routed_model ?k (m_id model) d0"
  have e: "enqueueRequest (en_now env) ?inp d = Inr d0"
    using assms(5) by (simp add: enqueueRequest_Inr d0_def)
  have rep: "replicas d1 = replicas d" by (simp add: d1_def d0_def)
  have row: "request_by d1 ?k \<noteq> None"
    by (simp add: d1_def d0_def set_routed_model_def request_by_update_requests)
       (simp add: request_by_def row_of_append row_of_single queued_row_def split: option.split)
  have ok: "db_ok d1"
    using db_ok_enqueueRequest [OF assms(3) e] by (simp add: d1_def set_routed_model_def db_ok_update_requests)
  from run e obtain p url hit d2 where
    w: "waitForPlacement keda cfg (en_now env + QUEUE_TIMEOUT_MS cfg) (m_backendModelId model) ?k None (en_polls env) d1 =
        Some (PlacedAt p url hit, d2)"
    and fin: "finish_embeddings cfg env backend model inp (if url \<noteq> '''' then url else m_endpointUrl model)
        (markStreamStarted ?k p (en_start env) d2) = (Unhandled msg, d')"
    by (auto simp: serve_embeddings_def d1_def split: option.splits placement.splits)
  from wait_quiet_placed [OF w assms(4) ok]
  have p2: "requests d2 = requests d1" "\<And>q. slots d2 q = plus_one p q (slots d1 q)" by blast+
  from fin assms(2) have d': "d' = markStreamStarted ?k p (en_start env) d2" "msg = failure_message e"
    by (simp_all add: finish_embeddings_def)
  obtain r where r: "request_by d2 ?k = Some r" using row request_by_cong [OF p2(1)] by auto
  have "request_by d' ?k = Some (r\<lparr>rq_status := Streaming, rq_replica_id := Some p, rq_started_at := Some (en_start env),
      rq_last_token_at := Some (en_start env)\<rparr>)"
    using r request_by_Some [OF r] by (simp add: d' request_by_markStreamStarted)
  moreover have s: "slots d' q = plus_one p q (slots d q)" for q
  proof -
    have "slots d' = slots d2" by (rule slots_cong) (simp add: d')
    with p2(2) [of q] show ?thesis using slots_cong [OF rep] by simp
  qed
  moreover have "slots (all_sweeps cfg t d') q = plus_one p q (slots d q)" for t q
    using s slots_cong [OF all_sweeps_replicas] by simp
  ultimately show ?thesis using d'(2) by auto
qed

definition ex_embed_db :: db where
  "ex_embed_db = empty_db\<lparr>models := [(ex_alias ''nomic'' None)\<lparr>mr_capabilities := [Embeddings]\<rparr>],
     replicas := [ex_replica ''p0'' ''nomic'' 0 4]\<rparr>"

lemma embeddings_failure_leaks_witness:
  "\<exists>d'. embeddings NoopKedaClient default_settings ex_env (\<lambda>url. Inl (OtherError ''fetch failed'')) ex_caller
          (Some ''nomic'') (OneText ''Hello'') ex_embed_db = Some (Unhandled ''fetch failed'', d') \<and>
        slots ex_embed_db ''p0'' = Some 0 \<and> (\<exists>p. slots d' p = plus_one p p (slots ex_embed_db p))"
proof -
  let ?run = "embeddings NoopKedaClient default_settings ex_env (\<lambda>url. Inl (OtherError ''fetch failed'')) ex_caller
          (Some ''nomic'') (OneText ''Hello'') ex_embed_db"
  have "map_option fst ?run = Some (Unhandled ''fetch failed'')" by code_simp
  then obtain d' where run: "?run = Some (Unhandled ''fetch failed'', d')" by auto
  have ok: "db_ok ex_embed_db" "request_by ex_embed_db (en_requestId ex_env) = None"
    "\<forall>r \<in> set (replicas ex_embed_db). rp_id r \<noteq> ''''" "slots ex_embed_db ''p0'' = Some 0" by code_simp+
  have "quiet (en_polls ex_env)" by (simp add: ex_env_def quiet_def ex_poll_def)
  from embeddings_failure_leaks [OF run refl ok(1) this ok(2,3)] run ok(4) show ?thesis by blast
qed

end
