(* ===== verification/Gateway.thy ===== *)
theory Gateway
  imports CompletionFacts Reconcile
begin

text \<open>
  The gateway as a whole: any number of request handlers, in any number of router processes, interleaved
  statement by statement over one store, together with the periodic work of \<open>server/src/index.ts\<close> (the
  sweeps, the reconciler, the config sync and the deletion of old history). A handler is a phase, which records the point it has reached and the replica
  whose slot it holds. \<open>step\<close> is what happens when the store accepts every statement and no replica
  disappears; \<open>mishap\<close> are the steps that lose track of a slot.
\<close>

section \<open>Handlers\<close>

datatype phase =
    Waiting string
  | Claimed string
  | Serving string
  | Settled string
  | Failing string
  | Refailing string
  | Abandoned string
  | Closed

text \<open>The replica whose slot a handler holds. A handler that was abandoned by an exception still holds it.\<close>

fun holding :: "phase \<Rightarrow> string option" where
  "holding (Claimed p) = Some p"
| "holding (Serving p) = Some p"
| "holding (Failing p) = Some p"
| "holding (Abandoned p) = Some p"
| "holding _ = None"

record handler =
  h_id :: string
  h_phase :: phase

record gateway =
  gw_db :: db
  gw_handlers :: "handler list"

definition move :: "string \<Rightarrow> phase \<Rightarrow> handler list \<Rightarrow> handler list" where
  "move k ph hs = update_where (\<lambda>h. h_id h = k) (\<lambda>h. h\<lparr>h_phase := ph\<rparr>) hs"

definition standing :: "gateway \<Rightarrow> string \<Rightarrow> phase \<Rightarrow> bool" where
  "standing g k ph \<longleftrightarrow> row_of h_id k (gw_handlers g) = Some \<lparr>h_id = k, h_phase = ph\<rparr>"

definition holders :: "handler list \<Rightarrow> string \<Rightarrow> int" where
  "holders hs p = sum_list (map (\<lambda>h. if holding (h_phase h) = Some p then 1 else 0) hs)"

definition idle_gateway :: "db \<Rightarrow> gateway" where
  "idle_gateway d = \<lparr>gw_db = d, gw_handlers = []\<rparr>"

section \<open>Steps\<close>

text \<open>The statements by which a handler annotates its own row, without effect on its state.\<close>

datatype remark = RoutedModel string | AffinityHit bool | InputTokens int

fun annotate :: "string \<Rightarrow> remark \<Rightarrow> db \<Rightarrow> db" where
  "annotate k (RoutedModel m) d = set_routed_model k m d"
| "annotate k (AffinityHit h) d = set_affinity_hit k h d"
| "annotate k (InputTokens n) d = set_input_tokens k n d"

definition fail_row :: "string \<Rightarrow> standard_error \<Rightarrow> time \<Rightarrow> db \<Rightarrow> db" where
  "fail_row k err now d = update_requests (\<lambda>r. rq_id r = k) (failed_row err now) d"

definition fail_slot :: "string \<Rightarrow> db \<Rightarrow> db" where
  "fail_slot p d = update_replicas (\<lambda>r. rp_id r = p) drop_slot d"

inductive step :: "keda_client \<Rightarrow> settings \<Rightarrow> gateway \<Rightarrow> gateway \<Rightarrow> bool"
  for keda cfg where
  arrive: "enqueueRequest now inp (gw_db g) = Inr d \<Longrightarrow> eq_id inp = k \<Longrightarrow> row_of h_id k (gw_handlers g) = None \<Longrightarrow>
     step keda cfg g \<lparr>gw_db = d, gw_handlers = gw_handlers g @ [\<lparr>h_id = k, h_phase = Waiting m\<rparr>]\<rparr>"
| annotate: "row_of h_id k (gw_handlers g) = Some h \<Longrightarrow> step keda cfg g (g\<lparr>gw_db := annotate k nt (gw_db g)\<rparr>)"
| place: "standing g k (Waiting m) \<Longrightarrow> placeRequest keda cfg locked now m ak (gw_db g) = (Placed r hit, d) \<Longrightarrow>
     step keda cfg g \<lparr>gw_db = d, gw_handlers = move k (Claimed (rep_id r)) (gw_handlers g)\<rparr>"
| give_up: "standing g k (Waiting m) \<Longrightarrow>
     step keda cfg g \<lparr>gw_db = snd (expireQueuedRequest k now (gw_db g)), gw_handlers = move k Closed (gw_handlers g)\<rparr>"
| start: "standing g k (Claimed p) \<Longrightarrow>
     step keda cfg g \<lparr>gw_db = markStreamStarted k p now (gw_db g), gw_handlers = move k (Serving p) (gw_handlers g)\<rparr>"
| token: "standing g k (Serving p) \<Longrightarrow> step keda cfg g (g\<lparr>gw_db := recordTokenEmitted k now (gw_db g)\<rparr>)"
| complete: "standing g k (Serving p) \<Longrightarrow>
     step keda cfg g \<lparr>gw_db = completeRequest cfg k n c now (gw_db g), gw_handlers = move k (Settled p) (gw_handlers g)\<rparr>"
| log: "standing g k (Settled p) \<Longrightarrow> log_content raises now team m k prompt response (gw_db g) = (None, d) \<Longrightarrow>
     step keda cfg g \<lparr>gw_db = d, gw_handlers = move k Closed (gw_handlers g)\<rparr>"
| finish: "standing g k (Settled p) \<Longrightarrow> step keda cfg g (g\<lparr>gw_handlers := move k Closed (gw_handlers g)\<rparr>)"
| fail: "standing g k (Serving p) \<Longrightarrow>
     step keda cfg g \<lparr>gw_db = fail_row k err now (gw_db g), gw_handlers = move k (Failing p) (gw_handlers g)\<rparr>"
| free: "standing g k (Failing p) \<Longrightarrow>
     step keda cfg g \<lparr>gw_db = fail_slot p (gw_db g), gw_handlers = move k Closed (gw_handlers g)\<rparr>"
| sweep_queue: "step keda cfg g (g\<lparr>gw_db := snd (sweepQueueTimeouts (QUEUE_TIMEOUT_MS cfg) now (gw_db g))\<rparr>)"
| sweep_stall: "step keda cfg g (g\<lparr>gw_db := snd (sweepStallTimeouts (STALL_TIMEOUT_MS cfg) now (gw_db g))\<rparr>)"
| sweep_first: "step keda cfg g (g\<lparr>gw_db := snd (sweepFirstTokenTimeouts (FIRST_TOKEN_TIMEOUT_MS cfg) now (gw_db g))\<rparr>)"
| forget: "step keda cfg g (g\<lparr>gw_db := snd (sweepAffinities ttl now (gw_db g))\<rparr>)"
| reconcile: "reconcileReplicas w now reports (gw_db g) = Inr (s, reports', d) \<Longrightarrow>
     \<forall>r \<in> set (replicas d). rp_id r \<noteq> '''' \<Longrightarrow> rp_id ` set (replicas (gw_db g)) \<subseteq> rp_id ` set (replicas d) \<Longrightarrow>
     step keda cfg g (g\<lparr>gw_db := d\<rparr>)"
| resync: "d = snd (syncModelsFromConfig ns ms (gw_db g)) \<Longrightarrow> replicas d = replicas (gw_db g) \<Longrightarrow>
     step keda cfg g (g\<lparr>gw_db := d\<rparr>)"
| purge: "d = snd (deleteAuditHistory days now (gw_db g)) \<Longrightarrow>
     \<forall>h \<in> set (gw_handlers g). h_phase h \<noteq> Closed \<longrightarrow> request_by d (h_id h) \<noteq> None \<Longrightarrow>
     step keda cfg g \<lparr>gw_db = d, gw_handlers = filter (\<lambda>h. request_by d (h_id h) \<noteq> None) (gw_handlers g)\<rparr>"

text \<open>
  The steps that lose a slot: a failure after the settlement, which releases a second one; an exception that
  leaves a handler (the embeddings handler, or a buffered chat whose settlement is refused); a pass of the
  reconciler that does not see a replica; and a config sync that removes the model of one.
\<close>

inductive mishap :: "keda_client \<Rightarrow> settings \<Rightarrow> gateway \<Rightarrow> gateway \<Rightarrow> bool"
  for keda cfg where
  late_fail: "standing g k (Settled p) \<Longrightarrow>
     mishap keda cfg g \<lparr>gw_db = fail_row k err now (gw_db g), gw_handlers = move k (Refailing p) (gw_handlers g)\<rparr>"
| second_free: "standing g k (Refailing p) \<Longrightarrow>
     mishap keda cfg g \<lparr>gw_db = fail_slot p (gw_db g), gw_handlers = move k Closed (gw_handlers g)\<rparr>"
| abandon: "standing g k (Serving p) \<Longrightarrow> mishap keda cfg g (g\<lparr>gw_handlers := move k (Abandoned p) (gw_handlers g)\<rparr>)"
| unseen: "reconcileReplicas w now reports (gw_db g) = Inr (s, reports', d) \<Longrightarrow>
     \<forall>r \<in> set (replicas d). rp_id r \<noteq> '''' \<Longrightarrow> mishap keda cfg g (g\<lparr>gw_db := d\<rparr>)"
| remove: "mishap keda cfg g (g\<lparr>gw_db := snd (syncModelsFromConfig ns ms (gw_db g))\<rparr>)"

definition any_step :: "keda_client \<Rightarrow> settings \<Rightarrow> gateway \<Rightarrow> gateway \<Rightarrow> bool" where
  "any_step keda cfg g g' \<longleftrightarrow> step keda cfg g g' \<or> mishap keda cfg g g'"

section \<open>Counting holders\<close>

lemma holders_simps [simp]:
  "holders [] p = 0"
  "holders (hs @ [h]) p = holders hs p + (if holding (h_phase h) = Some p then 1 else 0)"
  by (simp_all add: holders_def)

lemma holders_nonneg [simp]: "0 \<le> holders hs p"
  by (auto simp: holders_def intro!: sum_list_nonneg)

lemma standingD: "standing g k ph \<Longrightarrow> \<lparr>h_id = k, h_phase = ph\<rparr> \<in> set (gw_handlers g)"
  by (auto simp: standing_def dest: row_of_Some)

lemma holders_move:
  assumes "unique_key h_id (gw_handlers g)" "standing g k ph"
  shows "holders (move k ph' (gw_handlers g)) p =
         holders (gw_handlers g) p - (if holding ph = Some p then 1 else 0) + (if holding ph' = Some p then 1 else 0)"
  using sum_list_update_unique [OF assms(1) standingD [OF assms(2)], of "\<lambda>h. if holding (h_phase h) = Some p then 1 else 0"
      "\<lambda>h. h\<lparr>h_phase := ph'\<rparr>"]
  by (simp add: holders_def move_def)

lemma holders_ge1:
  assumes "standing g k ph" "holding ph = Some p"
  shows "1 \<le> holders (gw_handlers g) p"
proof -
  obtain a b where "gw_handlers g = a @ \<lparr>h_id = k, h_phase = ph\<rparr> # b"
    using standingD [OF assms(1)] by (meson split_list)
  then have "holders (gw_handlers g) p = holders a p + 1 + holders b p"
    using assms(2) by (simp add: holders_def)
  with holders_nonneg [of a p] holders_nonneg [of b p] show ?thesis by linarith
qed

lemma unique_move: "unique_key h_id hs \<Longrightarrow> unique_key h_id (move k ph hs)"
  unfolding move_def by (subst unique_key_update_where) simp_all

lemma row_of_move:
  "row_of h_id j (move k ph hs) = map_option (\<lambda>h. if h_id h = k then h\<lparr>h_phase := ph\<rparr> else h) (row_of h_id j hs)"
  by (simp add: move_def row_of_update_where)

section \<open>The invariant\<close>

text \<open>A row may be annotated, and it may be closed; it keeps the replica it names.\<close>

definition row_le :: "request_row \<Rightarrow> request_row \<Rightarrow> bool" where
  "row_le r r' \<longleftrightarrow> rq_replica_id r' = rq_replica_id r \<and> (rq_status r' = rq_status r \<or> \<not> live (rq_status r'))"

definition rows_le :: "db \<Rightarrow> db \<Rightarrow> bool" where
  "rows_le d d' \<longleftrightarrow> (\<forall>k r. request_by d k = Some r \<longrightarrow> (\<exists>r'. request_by d' k = Some r' \<and> row_le r r'))"

definition row_ok :: "db \<Rightarrow> handler \<Rightarrow> bool" where
  "row_ok d h \<longleftrightarrow>
     (\<exists>r. request_by d (h_id h) = Some r \<and>
        (case h_phase h of
           Waiting m \<Rightarrow> rq_status r = Queued \<or> \<not> live (rq_status r)
         | Claimed p \<Rightarrow> p \<noteq> ''''
         | Serving p \<Rightarrow> rq_replica_id r = Some p \<and> p \<noteq> ''''
         | Abandoned p \<Rightarrow> True
         | Settled p \<Rightarrow> p \<noteq> '''' \<and> \<not> live (rq_status r)
         | Failing p \<Rightarrow> p \<noteq> '''' \<and> \<not> live (rq_status r)
         | Refailing p \<Rightarrow> p \<noteq> '''' \<and> \<not> live (rq_status r)
         | Closed \<Rightarrow> \<not> live (rq_status r)))"

text \<open>How the count of a replica relates to the handlers that hold one of its slots.\<close>

definition accounted :: "bool \<Rightarrow> int option \<Rightarrow> int \<Rightarrow> bool" where
  "accounted exact n h \<longleftrightarrow>
     (case n of None \<Rightarrow> exact \<longrightarrow> h = 0 | Some x \<Rightarrow> 0 \<le> x \<and> x \<le> h \<and> (exact \<longrightarrow> x = h))"

definition gateway_ok :: "bool \<Rightarrow> gateway \<Rightarrow> bool" where
  "gateway_ok exact g \<longleftrightarrow>
     db_ok (gw_db g) \<and> unique_key h_id (gw_handlers g) \<and> (\<forall>h \<in> set (gw_handlers g). row_ok (gw_db g) h) \<and>
     (\<forall>r \<in> set (replicas (gw_db g)). rp_id r \<noteq> '''') \<and>
     (\<forall>q. accounted exact (slots (gw_db g) q) (holders (gw_handlers g) q))"

lemma row_le_refl [simp]: "row_le r r"
  by (simp add: row_le_def)

lemma rows_leI: "(\<And>k. request_by d' k = map_option f (request_by d k)) \<Longrightarrow> (\<And>r. row_le r (f r)) \<Longrightarrow> rows_le d d'"
  by (simp add: rows_le_def)

lemma rows_le_trans:
  assumes "rows_le a b" "rows_le b c"
  shows "rows_le a c"
proof -
  have "row_le r r' \<Longrightarrow> row_le r' r'' \<Longrightarrow> row_le r r''" for r r' r''
    by (auto simp: row_le_def)
  with assms show ?thesis unfolding rows_le_def by meson
qed

lemma rows_le_requests: "requests d' = requests d \<Longrightarrow> rows_le d d'"
  by (simp add: rows_le_def request_by_def)

lemma row_ok_le:
  assumes "row_ok d h" "\<And>r. request_by d (h_id h) = Some r \<Longrightarrow> \<exists>r'. request_by d' (h_id h) = Some r' \<and> row_le r r'"
  shows "row_ok d' h"
proof -
  from assms(1) obtain r where r: "request_by d (h_id h) = Some r" by (auto simp: row_ok_def)
  with assms(2) obtain r' where r': "request_by d' (h_id h) = Some r'" "row_le r r'" by blast
  with r assms(1) show ?thesis
    by (cases "h_phase h") (auto simp: row_ok_def row_le_def)
qed

lemma accounted_plus: "accounted e n h \<Longrightarrow> n \<noteq> None \<Longrightarrow> accounted e (map_option (\<lambda>x. x + 1) n) (h + 1)"
  by (auto simp: accounted_def)

lemma accounted_minus: "accounted e n h \<Longrightarrow> 1 \<le> h \<Longrightarrow> accounted e (map_option (\<lambda>x. max 0 (x - 1)) n) (h - 1)"
  by (auto simp: accounted_def split: option.splits)

lemma accounted_lose: "accounted False n h \<Longrightarrow> accounted False (map_option (\<lambda>x. max 0 (x - 1)) n) h"
  by (auto simp: accounted_def split: option.splits)

lemma gateway_okD:
  assumes "gateway_ok e g"
  shows "db_ok (gw_db g)" "unique_key h_id (gw_handlers g)" "\<And>h. h \<in> set (gw_handlers g) \<Longrightarrow> row_ok (gw_db g) h"
    "\<And>r. r \<in> set (replicas (gw_db g)) \<Longrightarrow> rp_id r \<noteq> ''''"
    "\<And>q. accounted e (slots (gw_db g) q) (holders (gw_handlers g) q)"
  using assms by (simp_all add: gateway_ok_def)

text \<open>A step on the store alone.\<close>

lemma ok_store:
  assumes "gateway_ok e g" "db_ok d" "rows_le (gw_db g) d" "\<forall>r \<in> set (replicas d). rp_id r \<noteq> ''''"
    and "\<And>q. accounted e (slots d q) (holders (gw_handlers g) q)"
  shows "gateway_ok e (g\<lparr>gw_db := d\<rparr>)"
proof -
  have "row_ok d h" if "h \<in> set (gw_handlers g)" for h
    using row_ok_le [OF gateway_okD(3) [OF assms(1) that]] assms(3) by (simp add: rows_le_def)
  with assms(2,4,5) gateway_okD(2) [OF assms(1)] show ?thesis by (simp add: gateway_ok_def)
qed

text \<open>A step of one handler.\<close>

lemma ok_move:
  assumes "gateway_ok e g" "standing g k ph" "db_ok d"
    and "same_others k (gw_db g) d" "row_ok d \<lparr>h_id = k, h_phase = ph'\<rparr>"
    and "\<forall>r \<in> set (replicas d). rp_id r \<noteq> ''''"
    and "\<And>q. accounted e (slots d q)
           (holders (gw_handlers g) q - (if holding ph = Some q then 1 else 0) + (if holding ph' = Some q then 1 else 0))"
  shows "gateway_ok e \<lparr>gw_db = d, gw_handlers = move k ph' (gw_handlers g)\<rparr>"
proof -
  note ok = gateway_okD [OF assms(1)]
  have "row_ok d h" if "h \<in> set (move k ph' (gw_handlers g))" for h
  proof -
    from that obtain h0 where h0: "h0 \<in> set (gw_handlers g)" "h = (if h_id h0 = k then h0\<lparr>h_phase := ph'\<rparr> else h0)"
      by (auto simp: move_def set_update_where)
    show ?thesis
    proof (cases "h_id h0 = k")
      case True
      with h0(2) have "h = \<lparr>h_id = k, h_phase = ph'\<rparr>" by (cases h0) auto
      with assms(5) show ?thesis by simp
    next
      case False
      with row_ok_le [OF ok(3) [OF h0(1)], of d] assms(4) h0(2) show ?thesis by (simp add: same_others_def)
    qed
  qed
  moreover have "accounted e (slots d q) (holders (move k ph' (gw_handlers g)) q)" for q
    using assms(7) [of q] holders_move [OF ok(2) assms(2), of ph' q] by simp
  ultimately show ?thesis
    using assms(3,6) unique_move [OF ok(2), of k ph'] by (simp add: gateway_ok_def)
qed

lemma ok_at: "gateway_ok e g \<Longrightarrow> standing g k ph \<Longrightarrow> row_ok (gw_db g) \<lparr>h_id = k, h_phase = ph\<rparr>"
  using gateway_okD(3) standingD by blast

section \<open>Every step keeps the invariant\<close>

lemma ids_kept:
  assumes "\<forall>r \<in> set (replicas d). rp_id r \<noteq> ''''" "db_ok d'" "\<And>q. slots d' q \<noteq> None \<Longrightarrow> slots d q \<noteq> None"
  shows "\<forall>r \<in> set (replicas d'). rp_id r \<noteq> ''''"
proof
  fix r
  assume "r \<in> set (replicas d')"
  with row_of_unique [of rp_id "replicas d'" r] assms(2) have "slots d' (rp_id r) \<noteq> None"
    by (simp add: slots_def replica_by_def db_ok_def db_keys_ok_def)
  then have "slots d (rp_id r) \<noteq> None" by (rule assms(3))
  with assms(1) show "rp_id r \<noteq> ''''" by (auto simp: slots_def dest: replica_by_Some)
qed

lemma ids_same: "replicas d' = replicas d \<Longrightarrow> gateway_ok e g \<Longrightarrow> gw_db g = d \<Longrightarrow> \<forall>r \<in> set (replicas d'). rp_id r \<noteq> ''''"
  using gateway_okD(4) by simp

lemma rows_le_annotate: "rows_le d (annotate k nt d)"
  by (cases nt) (auto simp: set_routed_model_def set_affinity_hit_def set_input_tokens_def request_by_update_requests
      row_le_def intro!: rows_leI)

lemma annotate_frame [simp]: "replicas (annotate k nt d) = replicas d"
  by (cases nt) simp_all

lemma db_ok_annotate: "db_ok d \<Longrightarrow> db_ok (annotate k nt d)"
  by (cases nt) (simp_all add: set_routed_model_def set_affinity_hit_def set_input_tokens_def db_ok_update_requests)

lemma rows_le_token: "rows_le d (recordTokenEmitted k now d)"
  by (rule rows_leI [where f = "\<lambda>r. if rq_id r = k then r\<lparr>rq_last_token_at := Some now,
        rq_first_token_at := coalesce (rq_first_token_at r) (Some now)\<rparr> else r"])
     (simp_all add: request_by_recordTokenEmitted row_le_def)

lemma row_le_timed_out: "s = QueueTimeoutStatus \<or> s = StallTimeoutStatus \<Longrightarrow> row_le r (set_timed_out s c now r)"
  by (auto simp: row_le_def)

lemma rows_le_sweeps:
  "rows_le d (snd (sweepQueueTimeouts t now d))" "rows_le d (snd (sweepStallTimeouts t now d))"
  "rows_le d (snd (sweepFirstTokenTimeouts t now d))"
  by (rule rows_leI, rule queue_sweep.row_after, simp add: row_le_timed_out)
     (rule rows_leI, rule stall_sweep.row_after, simp add: row_le_timed_out,
      rule rows_leI, rule first_token_sweep.row_after, simp add: row_le_timed_out)

lemma ok_swept:
  assumes "gateway_ok e g" "rows_le (gw_db g) d" "db_ok d" "replicas d = replicas (gw_db g)"
  shows "gateway_ok e (g\<lparr>gw_db := d\<rparr>)"
  using gateway_okD(4,5) [OF assms(1)] slots_cong [OF assms(4)] assms
  by (intro ok_store) simp_all

text \<open>The config sync touches neither requests nor slots, except that replicas go with their model.\<close>

lemma sync_frame:
  "requests (snd (syncModelsFromConfig ns ms d)) = requests d"
  "set (replicas (snd (syncModelsFromConfig ns ms d))) \<subseteq> set (replicas d)"
  by (auto simp: syncModelsFromConfig_eq delete_models_def delete_where_def Let_def)

lemma slots_sync:
  assumes "db_ok d" "slots (snd (syncModelsFromConfig ns ms d)) q = Some n"
  shows "slots d q = Some n"
proof -
  from assms(2) obtain r where r: "r \<in> set (replicas (snd (syncModelsFromConfig ns ms d)))" "rp_id r = q" "n = rp_in_flight r"
    by (auto simp: slots_def dest: replica_by_Some)
  with sync_frame(2) [of ns ms d] have "r \<in> set (replicas d)" by blast
  with row_of_unique [of rp_id "replicas d" r] assms(1) r show ?thesis
    by (simp add: slots_def replica_by_def db_ok_def db_keys_ok_def)
qed

lemma ok_sync:
  assumes "gateway_ok False g"
  shows "gateway_ok False (g\<lparr>gw_db := snd (syncModelsFromConfig ns ms (gw_db g))\<rparr>)"
proof (rule ok_store [OF assms])
  note ok = gateway_okD [OF assms]
  let ?d = "snd (syncModelsFromConfig ns ms (gw_db g))"
  show "db_ok ?d" by (rule sync_db_ok) (rule ok(1))
  show "rows_le (gw_db g) ?d" by (rule rows_le_requests) (rule sync_frame(1))
  show "\<forall>r \<in> set (replicas ?d). rp_id r \<noteq> ''''" using sync_frame(2) [of ns ms "gw_db g"] ok(4) by blast
  show "accounted False (slots ?d q) (holders (gw_handlers g) q)" for q
    using slots_sync [OF ok(1), of ns ms q] ok(5) [of q] by (cases "slots ?d q") (simp_all add: accounted_def)
qed

text \<open>Old history is deleted; the handlers whose rows go have all come to their end.\<close>

lemma ok_purge:
  assumes "gateway_ok e g" "d = snd (deleteAuditHistory days now (gw_db g))"
    and "\<forall>h \<in> set (gw_handlers g). h_phase h \<noteq> Closed \<longrightarrow> request_by d (h_id h) \<noteq> None"
  shows "gateway_ok e \<lparr>gw_db = d, gw_handlers = filter (\<lambda>h. request_by d (h_id h) \<noteq> None) (gw_handlers g)\<rparr>"
proof -
  note ok = gateway_okD [OF assms(1)]
  let ?old = "\<lambda>r. rq_arrived_at r < now - days * DAY_MS"
  let ?hs = "filter (\<lambda>h. request_by d (h_id h) \<noteq> None) (gw_handlers g)"
  have d: "d = delete_requests ?old (gw_db g)" by (simp add: assms(2) deleteAuditHistory_def Let_def)
  have kept: "request_by (gw_db g) k = Some r" if "request_by d k = Some r" for k r
  proof -
    from request_by_Some [OF that] have "r \<in> set (requests (gw_db g))" "rq_id r = k"
      by (auto simp: d set_delete_where)
    with row_of_unique [of rq_id "requests (gw_db g)" r] ok(1) show ?thesis
      by (simp add: request_by_def db_ok_def db_keys_ok_def)
  qed
  have "holders (filter P hs) q = holders hs q" if "\<forall>h \<in> set hs. h_phase h \<noteq> Closed \<longrightarrow> P h" for P hs q
    using that by (induction hs) (auto simp: holders_def)
  with assms(3) have "holders ?hs q = holders (gw_handlers g) q" for q by simp
  moreover have "slots d = slots (gw_db g)" by (rule slots_cong) (simp add: d)
  moreover have "row_ok d h" if "h \<in> set ?hs" for h
  proof -
    from that obtain r where r: "request_by d (h_id h) = Some r" "h \<in> set (gw_handlers g)" by auto
    with ok(3) [of h] kept [OF r(1)] show ?thesis by (simp add: row_ok_def)
  qed
  moreover have "db_ok d" using ok(1) by (simp add: d db_ok_delete_requests)
  moreover have "unique_key h_id ?hs"
    using unique_key_delete_where [OF ok(2), of "\<lambda>h. request_by d (h_id h) = None"] by (simp add: delete_where_def)
  ultimately show ?thesis using ok(4,5) by (simp add: gateway_ok_def d)
qed

lemma ok_arrive:
  assumes "gateway_ok e g" "enqueueRequest now inp (gw_db g) = Inr d" "eq_id inp = k" "row_of h_id k (gw_handlers g) = None"
  shows "gateway_ok e \<lparr>gw_db = d, gw_handlers = gw_handlers g @ [\<lparr>h_id = k, h_phase = Waiting m\<rparr>]\<rparr>"
proof -
  note ok = gateway_okD [OF assms(1)]
  from assms(2) have new: "request_by (gw_db g) k = None"
    and d: "d = (gw_db g)\<lparr>requests := requests (gw_db g) @ [queued_row now inp]\<rparr>"
    by (simp_all add: enqueueRequest_Inr assms(3))
  have row: "request_by d j = (if j = k then Some (queued_row now inp) else request_by (gw_db g) j)" for j
    using new assms(3) by (auto simp: d request_by_def row_of_append row_of_single queued_row_def split: option.split)
  have "row_ok d h" if "h \<in> set (gw_handlers g)" for h
    using that assms(4) row_ok_le [OF ok(3) [OF that], of d] by (auto simp: row row_of_None)
  moreover have "row_ok d \<lparr>h_id = k, h_phase = Waiting m\<rparr>"
    by (simp add: row_ok_def row queued_row_def)
  moreover have "unique_key h_id (gw_handlers g @ [\<lparr>h_id = k, h_phase = Waiting m\<rparr>])"
    using ok(2) assms(4) by (simp add: unique_key_append)
  moreover have "replicas d = replicas (gw_db g)" by (simp add: d)
  ultimately show ?thesis
    using ok db_ok_enqueueRequest [OF ok(1) assms(2)] slots_cong [of d "gw_db g"]
    by (simp add: gateway_ok_def)
qed

lemma ok_place:
  assumes "gateway_ok e g" "standing g k (Waiting m)"
    and "placeRequest keda cfg locked now m' ak (gw_db g) = (Placed r hit, d)"
  shows "gateway_ok e \<lparr>gw_db = d, gw_handlers = move k (Claimed (rep_id r)) (gw_handlers g)\<rparr>"
proof (rule ok_move [OF assms(1,2)])
  note ok = gateway_okD [OF assms(1)]
  note p = placed_slots [OF assms(3) ok(1)]
  show "db_ok d" by (rule p(2))
  show "same_others k (gw_db g) d" by (rule same_others_requests) (rule p(1))
  have ids: "\<forall>r \<in> set (replicas (gw_db g)). rp_id r \<noteq> ''''" using ok(4) by blast
  have "rep_id r \<noteq> ''''" using p(5) ok(4) by (auto simp: slots_def dest: replica_by_Some)
  then show "row_ok d \<lparr>h_id = k, h_phase = Claimed (rep_id r)\<rparr>"
    using ok_at [OF assms(1,2)] request_by_cong [OF p(1)] by (auto simp: row_ok_def)
  show "\<forall>r \<in> set (replicas d). rp_id r \<noteq> ''''"
    by (rule ids_kept [OF ids p(2)]) (simp add: p(4) plus_one_def split: if_splits)
  fix q
  show "accounted e (slots d q) (holders (gw_handlers g) q - (if holding (Waiting m) = Some q then 1 else 0) +
          (if holding (Claimed (rep_id r)) = Some q then 1 else 0))"
    using ok(5) [of q] accounted_plus [OF ok(5) p(5)] by (auto simp: p(4) plus_one_def)
qed

lemma ok_give_up:
  assumes "gateway_ok e g" "standing g k (Waiting m)"
  shows "gateway_ok e \<lparr>gw_db = snd (expireQueuedRequest k now (gw_db g)), gw_handlers = move k Closed (gw_handlers g)\<rparr>"
proof (rule ok_move [OF assms])
  note ok = gateway_okD [OF assms(1)]
  let ?d = "snd (expireQueuedRequest k now (gw_db g))"
  have d: "?d = update_requests (expire_due k) (set_timed_out QueueTimeoutStatus QueueTimeout now) (gw_db g)"
    by (simp add: expireQueuedRequest_def)
  have row: "request_by ?d j = map_option (\<lambda>r. if expire_due k r then set_timed_out QueueTimeoutStatus QueueTimeout now r else r)
      (request_by (gw_db g) j)" for j
    unfolding d by (rule request_by_update_requests) simp
  show "db_ok ?d" using ok(1) by (simp add: d db_ok_update_requests)
  show "same_others k (gw_db g) ?d"
    unfolding same_others_def
  proof (intro allI impI)
    fix j
    assume "j \<noteq> k"
    then show "request_by ?d j = request_by (gw_db g) j"
      by (cases "request_by (gw_db g) j") (auto simp: row expire_due_def dest: request_by_Some)
  qed
  from ok_at [OF assms] obtain r where r: "request_by (gw_db g) k = Some r" "rq_status r = Queued \<or> \<not> live (rq_status r)"
    by (auto simp: row_ok_def)
  with request_by_Some [OF r(1)] show "row_ok ?d \<lparr>h_id = k, h_phase = Closed\<rparr>"
    by (auto simp: row_ok_def row expire_due_def)
  show "\<forall>r \<in> set (replicas ?d). rp_id r \<noteq> ''''" using ok(4) by (simp add: d)
  show "accounted e (slots ?d q) (holders (gw_handlers g) q - (if holding (Waiting m) = Some q then 1 else 0) +
          (if holding Closed = Some q then 1 else 0))" for q
    using ok(5) [of q] slots_cong [of ?d "gw_db g"] by (simp add: d)
qed

lemma same_others_start: "same_others k d (markStreamStarted k p now d)"
  unfolding markStreamStarted_def by (rule same_others_update) simp

lemma ok_start:
  assumes "gateway_ok e g" "standing g k (Claimed p)"
  shows "gateway_ok e \<lparr>gw_db = markStreamStarted k p now (gw_db g), gw_handlers = move k (Serving p) (gw_handlers g)\<rparr>"
proof (rule ok_move [OF assms])
  note ok = gateway_okD [OF assms(1)]
  let ?d = "markStreamStarted k p now (gw_db g)"
  show "db_ok ?d" by (rule db_ok_markStreamStarted) (rule ok(1))
  show "same_others k (gw_db g) ?d" by (rule same_others_start)
  from ok_at [OF assms] obtain r where r: "request_by (gw_db g) k = Some r" "p \<noteq> ''''" by (auto simp: row_ok_def)
  with request_by_Some [OF r(1)] show "row_ok ?d \<lparr>h_id = k, h_phase = Serving p\<rparr>"
    by (simp add: row_ok_def request_by_markStreamStarted)
  show "\<forall>r \<in> set (replicas ?d). rp_id r \<noteq> ''''" using ok(4) by simp
  show "accounted e (slots ?d q) (holders (gw_handlers g) q - (if holding (Claimed p) = Some q then 1 else 0) +
          (if holding (Serving p) = Some q then 1 else 0))" for q
    using ok(5) [of q] slots_cong [of ?d "gw_db g"] by simp
qed

lemma ok_complete:
  assumes "gateway_ok e g" "standing g k (Serving p)"
  shows "gateway_ok e \<lparr>gw_db = completeRequest cfg k n c now (gw_db g), gw_handlers = move k (Settled p) (gw_handlers g)\<rparr>"
proof (rule ok_move [OF assms])
  note ok = gateway_okD [OF assms(1)]
  let ?d = "completeRequest cfg k n c now (gw_db g)"
  from ok_at [OF assms] obtain r where r: "request_by (gw_db g) k = Some r" "rq_replica_id r = Some p" "p \<noteq> ''''"
    by (auto simp: row_ok_def)
  then have held: "held_replica (gw_db g) k = Some p" by (simp add: held_replica_def)
  have s: "slots ?d q = minus_one p q (slots (gw_db g) q)" for q
    by (simp add: slots_completeRequest held)
  show "db_ok ?d" by (rule db_ok_completeRequest) (rule ok(1))
  show "same_others k (gw_db g) ?d" by (rule same_others_completeRequest)
  show "row_ok ?d \<lparr>h_id = k, h_phase = Settled p\<rparr>"
    using r request_by_Some [OF r(1)] by (simp add: row_ok_def request_by_completeRequest)
  have ids: "\<forall>r \<in> set (replicas (gw_db g)). rp_id r \<noteq> ''''" using ok(4) by blast
  show "\<forall>r \<in> set (replicas ?d). rp_id r \<noteq> ''''"
    by (rule ids_kept [OF ids db_ok_completeRequest [OF ok(1)]]) (simp add: s minus_one_def split: if_splits)
  show "accounted e (slots ?d q) (holders (gw_handlers g) q - (if holding (Serving p) = Some q then 1 else 0) +
          (if holding (Settled p) = Some q then 1 else 0))" for q
    using ok(5) [of q] accounted_minus [OF ok(5) holders_ge1 [OF assms(2)], of p] by (auto simp: s minus_one_def)
qed

lemma fail_row_frame [simp]: "replicas (fail_row k err now d) = replicas d"
  by (simp add: fail_row_def)

lemma ok_close_row:
  assumes "gateway_ok e g" "standing g k ph" "\<And>q. holding ph = Some q \<longleftrightarrow> holding ph' = Some q"
    and "ph' = Failing p \<or> ph' = Refailing p" "p \<noteq> ''''"
  shows "gateway_ok e \<lparr>gw_db = fail_row k err now (gw_db g), gw_handlers = move k ph' (gw_handlers g)\<rparr>"
proof (rule ok_move [OF assms(1,2)])
  note ok = gateway_okD [OF assms(1)]
  let ?d = "fail_row k err now (gw_db g)"
  have row: "request_by ?d j = map_option (\<lambda>r. if rq_id r = k then failed_row err now r else r) (request_by (gw_db g) j)" for j
    unfolding fail_row_def by (rule request_by_update_requests) simp
  show "db_ok ?d" using ok(1) by (simp add: fail_row_def db_ok_update_requests)
  show "same_others k (gw_db g) ?d" unfolding fail_row_def by (rule same_others_update) simp
  from ok_at [OF assms(1,2)] obtain r where r: "request_by (gw_db g) k = Some r" by (auto simp: row_ok_def)
  with request_by_Some [OF r] assms(4,5) show "row_ok ?d \<lparr>h_id = k, h_phase = ph'\<rparr>"
    by (auto simp: row_ok_def row)
  show "\<forall>r \<in> set (replicas ?d). rp_id r \<noteq> ''''" using ok(4) by simp
  show "accounted e (slots ?d q) (holders (gw_handlers g) q - (if holding ph = Some q then 1 else 0) +
          (if holding ph' = Some q then 1 else 0))" for q
    using ok(5) [of q] slots_cong [of ?d "gw_db g"] assms(3) [of q] by simp
qed

lemma slots_fail_slot: "slots (fail_slot p d) q = minus_one p q (slots d q)"
  by (cases "replica_by d q")
     (auto simp: fail_slot_def slots_def minus_one_def replica_by_update_replicas dest: replica_by_Some)

lemma db_ok_fail_slot: "db_ok d \<Longrightarrow> db_ok (fail_slot p d)"
  by (simp add: fail_slot_def db_ok_update_replicas)

lemma fail_slot_frame [simp]: "requests (fail_slot p d) = requests d"
  by (simp add: fail_slot_def)

lemma ok_free_slot:
  assumes "gateway_ok e g" "standing g k ph" "ph = Failing p \<or> ph = Refailing p \<and> \<not> e"
  shows "gateway_ok e \<lparr>gw_db = fail_slot p (gw_db g), gw_handlers = move k Closed (gw_handlers g)\<rparr>"
proof (rule ok_move [OF assms(1,2)])
  note ok = gateway_okD [OF assms(1)]
  let ?d = "fail_slot p (gw_db g)"
  have ids: "\<forall>r \<in> set (replicas (gw_db g)). rp_id r \<noteq> ''''" using ok(4) by blast
  show "db_ok ?d" by (rule db_ok_fail_slot) (rule ok(1))
  show "same_others k (gw_db g) ?d" by (rule same_others_requests) simp
  show "row_ok ?d \<lparr>h_id = k, h_phase = Closed\<rparr>"
    using ok_at [OF assms(1,2)] assms(3) request_by_cong [OF fail_slot_frame, of p "gw_db g"] by (auto simp: row_ok_def)
  show "\<forall>r \<in> set (replicas ?d). rp_id r \<noteq> ''''"
    by (rule ids_kept [OF ids db_ok_fail_slot [OF ok(1)]]) (simp add: slots_fail_slot minus_one_def split: if_splits)
  fix q
  show "accounted e (slots ?d q) (holders (gw_handlers g) q - (if holding ph = Some q then 1 else 0) +
          (if holding Closed = Some q then 1 else 0))"
  proof (cases "ph = Failing p")
    case True
    then show ?thesis
      using ok(5) [of q] accounted_minus [OF ok(5) holders_ge1 [OF assms(2)], of p]
      by (auto simp: slots_fail_slot minus_one_def)
  next
    case False
    with assms(3) have "ph = Refailing p" "\<not> e" by auto
    then show ?thesis using ok(5) [of q] accounted_lose by (auto simp: slots_fail_slot minus_one_def)
  qed
qed

lemma ok_log:
  assumes "gateway_ok e g" "standing g k (Settled p)" "requests d = requests (gw_db g)" "replicas d = replicas (gw_db g)" "db_ok d"
  shows "gateway_ok e \<lparr>gw_db = d, gw_handlers = move k Closed (gw_handlers g)\<rparr>"
proof (rule ok_move [OF assms(1,2)])
  note ok = gateway_okD [OF assms(1)]
  show "db_ok d" by (rule assms(5))
  show "same_others k (gw_db g) d" by (rule same_others_requests) (rule assms(3))
  show "row_ok d \<lparr>h_id = k, h_phase = Closed\<rparr>"
    using ok_at [OF assms(1,2)] request_by_cong [OF assms(3)] by (auto simp: row_ok_def)
  show "\<forall>r \<in> set (replicas d). rp_id r \<noteq> ''''" using ok(4) assms(4) by simp
  show "accounted e (slots d q) (holders (gw_handlers g) q - (if holding (Settled p) = Some q then 1 else 0) +
          (if holding Closed = Some q then 1 else 0))" for q
    using ok(5) [of q] slots_cong [OF assms(4)] by simp
qed

lemma ok_abandon:
  assumes "gateway_ok e g" "standing g k (Serving p)"
  shows "gateway_ok e (g\<lparr>gw_handlers := move k (Abandoned p) (gw_handlers g)\<rparr>)"
proof -
  note ok = gateway_okD [OF assms(1)]
  have "gateway_ok e \<lparr>gw_db = gw_db g, gw_handlers = move k (Abandoned p) (gw_handlers g)\<rparr>"
  proof (rule ok_move [OF assms ok(1)])
    show "row_ok (gw_db g) \<lparr>h_id = k, h_phase = Abandoned p\<rparr>"
      using ok_at [OF assms] by (auto simp: row_ok_def)
    show "\<forall>r \<in> set (replicas (gw_db g)). rp_id r \<noteq> ''''" using ok(4) by blast
    show "accounted e (slots (gw_db g) q) (holders (gw_handlers g) q - (if holding (Serving p) = Some q then 1 else 0) +
            (if holding (Abandoned p) = Some q then 1 else 0))" for q
      using ok(5) [of q] by simp
  qed simp
  moreover have "g\<lparr>gw_handlers := move k (Abandoned p) (gw_handlers g)\<rparr> =
      \<lparr>gw_db = gw_db g, gw_handlers = move k (Abandoned p) (gw_handlers g)\<rparr>" by (cases g) simp
  ultimately show ?thesis by metis
qed

lemma db_ok_log_content: "db_ok d \<Longrightarrow> log_content raises now team m k prompt response d = (None, d') \<Longrightarrow> db_ok d'"
  by (auto simp: log_content_def split: option.splits if_splits sum.splits intro: db_ok_recordAuditContent)

lemma reconcile_slots:
  assumes "reconcileReplicas w now reports d = Inr (s, reports', d')" "db_ok d" "slots d' q = Some n"
  shows "n = (case slots d q of None \<Rightarrow> 0 | Some x \<Rightarrow> x)"
proof -
  from reconcile_Inr [OF assms(1,2)] obtain st where st: "pass_ok w now d st"
    "\<And>p. replica_by d' p = (if p \<in> set (ps_seen st) then replica_by (ps_db st) p else None)" by metis
  from assms(3) obtain r where r: "replica_by d' q = Some r" "n = rp_in_flight r" by (auto simp: slots_def)
  have "same_schedule (replica_by d q) r"
    using st r(1) by (auto simp: pass_ok_def split: if_splits)
  then show ?thesis using r(2) by (auto simp: same_schedule_def slots_def split: option.splits)
qed

lemma ok_reconcile:
  assumes "gateway_ok e g" "reconcileReplicas w now reports (gw_db g) = Inr (s, reports', d)"
    and "\<forall>r \<in> set (replicas d). rp_id r \<noteq> ''''"
    and "e \<Longrightarrow> rp_id ` set (replicas (gw_db g)) \<subseteq> rp_id ` set (replicas d)"
  shows "gateway_ok e (g\<lparr>gw_db := d\<rparr>)"
proof (rule ok_store [OF assms(1)])
  note ok = gateway_okD [OF assms(1)]
  have rq: "requests d = requests (gw_db g)" and db: "db_ok d"
    using reconcile_Inr [OF assms(2) ok(1)] by metis+
  show "db_ok d" by (rule db)
  show "rows_le (gw_db g) d" by (rule rows_le_requests) (rule rq)
  show "\<forall>r \<in> set (replicas d). rp_id r \<noteq> ''''" by (rule assms(3))
  fix q
  show "accounted e (slots d q) (holders (gw_handlers g) q)"
  proof (cases "slots d q")
    case None
    show ?thesis
    proof (cases e)
      case True
      have "slots (gw_db g) q = None"
      proof (rule ccontr)
        assume "slots (gw_db g) q \<noteq> None"
        then have "q \<in> rp_id ` set (replicas (gw_db g))" by (auto simp: slots_def dest: replica_by_Some)
        with assms(4) True have "q \<in> rp_id ` set (replicas d)" by blast
        with row_of_unique [of rp_id "replicas d"] db have "slots d q \<noteq> None"
          by (auto simp: slots_def replica_by_def db_ok_def db_keys_ok_def)
        with None show False by simp
      qed
      with ok(5) [of q] None show ?thesis by simp
    next
      case False
      with None show ?thesis by (simp add: accounted_def)
    qed
  next
    case (Some n)
    with reconcile_slots [OF assms(2) ok(1) Some] ok(5) [of q] show ?thesis
      by (auto simp: accounted_def split: option.splits)
  qed
qed

lemma step_keeps:
  assumes "step keda cfg g g'" "gateway_ok e g"
  shows "gateway_ok e g'"
  using assms
proof (induction rule: step.induct)
  case (arrive now inp g d k m)
  then show ?case by (intro ok_arrive)
next
  case (annotate k g h nt)
  note ok = gateway_okD [OF annotate.prems]
  show ?case
    using ok slots_cong [of "Gateway.annotate k nt (gw_db g)" "gw_db g"]
    by (intro ok_store [OF annotate.prems]) (simp_all add: db_ok_annotate rows_le_annotate)
next
  case (place g k m locked now ak r hit d)
  then show ?case by (intro ok_place)
next
  case (give_up g k m now)
  then show ?case by (intro ok_give_up)
next
  case (start g k p now)
  then show ?case by (intro ok_start)
next
  case (token g k p now)
  note ok = gateway_okD [OF token.prems]
  show ?case
    using ok slots_cong [of "recordTokenEmitted k now (gw_db g)" "gw_db g"]
    by (intro ok_store [OF token.prems]) (simp_all add: db_ok_recordTokenEmitted rows_le_token)
next
  case (complete g k p n c now)
  then show ?case by (intro ok_complete)
next
  case (log g k p raises now team m prompt response d)
  with log_content_frame [OF log.hyps(2)] db_ok_log_content [OF gateway_okD(1) log.hyps(2)] show ?case
    by (intro ok_log)
next
  case (finish g k p)
  have "gateway_ok e \<lparr>gw_db = gw_db g, gw_handlers = move k Closed (gw_handlers g)\<rparr>"
    by (rule ok_log [OF finish.prems finish.hyps]) (simp_all add: gateway_okD(1) [OF finish.prems])
  then show ?case by (cases g) simp
next
  case (fail g k p err now)
  have "p \<noteq> ''''" using ok_at [OF fail.prems fail.hyps] by (auto simp: row_ok_def)
  with fail show ?case by (intro ok_close_row) auto
next
  case (free g k p)
  then show ?case by (intro ok_free_slot) auto
next
  case (sweep_queue g now)
  then show ?case by (intro ok_swept) (simp_all add: rows_le_sweeps queue_sweep.keeps_db_ok queue_sweep.frame gateway_okD)
next
  case (sweep_stall g now)
  then show ?case by (intro ok_swept) (simp_all add: rows_le_sweeps stall_sweep.keeps_db_ok stall_sweep.frame gateway_okD)
next
  case (sweep_first g now)
  then show ?case by (intro ok_swept) (simp_all add: rows_le_sweeps first_token_sweep.keeps_db_ok first_token_sweep.frame gateway_okD)
next
  case (forget g ttl now)
  note ok = gateway_okD [OF forget]
  show ?case
    using ok slots_cong [of "snd (sweepAffinities ttl now (gw_db g))" "gw_db g"]
    by (intro ok_store [OF forget]) (simp_all add: db_ok_sweepAffinities rows_le_requests)
next
  case (reconcile w now reports g s reports' d)
  then show ?case by (intro ok_reconcile)
next
  case (resync d ns ms g)
  then show ?case
    by (intro ok_swept) (simp_all add: rows_le_requests sync_frame(1) sync_db_ok gateway_okD)
next
  case (purge d days now g)
  then show ?case by (intro ok_purge)
qed

lemma mishap_keeps:
  assumes "mishap keda cfg g g'" "gateway_ok False g"
  shows "gateway_ok False g'"
  using assms
proof (induction rule: mishap.induct)
  case (late_fail g k p err now)
  have "p \<noteq> ''''" using ok_at [OF late_fail.prems late_fail.hyps] by (auto simp: row_ok_def)
  with late_fail show ?case by (intro ok_close_row) auto
next
  case (second_free g k p)
  then show ?case by (intro ok_free_slot) auto
next
  case (abandon g k p)
  then show ?case by (intro ok_abandon)
next
  case (unseen w now reports g s reports' d)
  then show ?case by (intro ok_reconcile) auto
next
  case (remove g ns ms)
  then show ?case by (intro ok_sync)
qed

lemma accounted_loose: "accounted True n h \<Longrightarrow> accounted e n h"
  by (auto simp: accounted_def split: option.splits)

lemma gateway_ok_loose: "gateway_ok True g \<Longrightarrow> gateway_ok e g"
  unfolding gateway_ok_def using accounted_loose by blast

lemma steps_keep: "(step keda cfg)\<^sup>*\<^sup>* g g' \<Longrightarrow> gateway_ok e g \<Longrightarrow> gateway_ok e g'"
  by (induction rule: rtranclp_induct) (simp_all add: step_keeps)

lemma any_steps_keep: "(any_step keda cfg)\<^sup>*\<^sup>* g g' \<Longrightarrow> gateway_ok False g \<Longrightarrow> gateway_ok False g'"
  by (induction rule: rtranclp_induct) (auto simp: any_step_def step_keeps mishap_keeps)

lemma idle_ok:
  assumes "db_ok d" "\<forall>r \<in> set (replicas d). rp_id r \<noteq> '''' \<and> rp_in_flight r = 0"
  shows "gateway_ok True (idle_gateway d)"
  using assms
  by (auto simp: gateway_ok_def idle_gateway_def unique_key_def accounted_def slots_def split: option.splits
      dest!: replica_by_Some)

section \<open>Draining\<close>

definition sane :: "gateway \<Rightarrow> bool" where
  "sane g \<longleftrightarrow> (\<forall>h \<in> set (gw_handlers g). case h_phase h of Refailing p \<Rightarrow> False | Abandoned p \<Rightarrow> False | _ \<Rightarrow> True)"

lemma sane_move: "sane g \<Longrightarrow> (case ph of Refailing p \<Rightarrow> False | Abandoned p \<Rightarrow> False | _ \<Rightarrow> True) \<Longrightarrow>
  sane \<lparr>gw_db = d, gw_handlers = move k ph (gw_handlers g)\<rparr>"
  by (auto simp: sane_def move_def set_update_where)

lemma step_sane:
  assumes "step keda cfg g g'" "sane g"
  shows "sane g'"
  using assms
proof (induction rule: step.induct)
  case (finish g k p)
  have "sane \<lparr>gw_db = gw_db g, gw_handlers = move k Closed (gw_handlers g)\<rparr>"
    by (rule sane_move [OF finish.prems]) simp
  then show ?case by (simp add: sane_def)
next
  case (arrive now inp g d k m)
  then show ?case by (simp add: sane_def)
qed (auto intro!: sane_move, auto simp: sane_def)

lemma steps_sane: "(step keda cfg)\<^sup>*\<^sup>* g g' \<Longrightarrow> sane g \<Longrightarrow> sane g'"
  by (induction rule: rtranclp_induct) (simp_all add: step_sane)

lemma move_move [simp]: "move k a (move k b hs) = move k a hs"
  by (induction hs) (auto simp: move_def)

lemma standing_move: "row_of h_id k hs \<noteq> None \<Longrightarrow> standing \<lparr>gw_db = d, gw_handlers = move k ph hs\<rparr> k ph"
  by (auto simp: standing_def row_of_move dest: row_of_Some)

lemma standing_row: "standing g k ph \<Longrightarrow> row_of h_id k (gw_handlers g) \<noteq> None"
  by (simp add: standing_def)

lemma serving_closes:
  assumes "standing g k (Serving p)"
  shows "\<exists>d. (step keda cfg)\<^sup>*\<^sup>* g \<lparr>gw_db = d, gw_handlers = move k Closed (gw_handlers g)\<rparr>"
proof -
  let ?g1 = "\<lparr>gw_db = fail_row k (noReplicaError []) 0 (gw_db g), gw_handlers = move k (Failing p) (gw_handlers g)\<rparr>"
  have "step keda cfg g ?g1" by (rule step.fail) (rule assms)
  moreover have "step keda cfg ?g1 \<lparr>gw_db = fail_slot p (gw_db ?g1), gw_handlers = move k Closed (gw_handlers ?g1)\<rparr>"
    by (rule step.free) (rule standing_move [OF standing_row [OF assms]])
  ultimately have "(step keda cfg)\<^sup>*\<^sup>* g \<lparr>gw_db = fail_slot p (gw_db ?g1), gw_handlers = move k Closed (gw_handlers g)\<rparr>"
    by (simp add: converse_rtranclp_into_rtranclp)
  then show ?thesis by blast
qed

lemma handler_closes:
  assumes "sane g" "standing g k ph" "ph \<noteq> Closed"
  shows "\<exists>d. (step keda cfg)\<^sup>*\<^sup>* g \<lparr>gw_db = d, gw_handlers = move k Closed (gw_handlers g)\<rparr>"
proof (cases ph)
  case (Waiting m)
  with step.give_up [of g k m keda cfg 0] assms(2) show ?thesis by blast
next
  case (Claimed p)
  let ?g1 = "\<lparr>gw_db = markStreamStarted k p 0 (gw_db g), gw_handlers = move k (Serving p) (gw_handlers g)\<rparr>"
  have "step keda cfg g ?g1" by (rule step.start) (use assms(2) Claimed in simp)
  moreover have "standing ?g1 k (Serving p)" by (rule standing_move [OF standing_row [OF assms(2)]])
  from serving_closes [OF this, of keda cfg] obtain d where
    "(step keda cfg)\<^sup>*\<^sup>* ?g1 \<lparr>gw_db = d, gw_handlers = move k Closed (gw_handlers g)\<rparr>" by auto
  ultimately show ?thesis by (meson converse_rtranclp_into_rtranclp)
next
  case (Serving p)
  with serving_closes assms(2) show ?thesis by blast
next
  case (Settled p)
  have "step keda cfg g (g\<lparr>gw_handlers := move k Closed (gw_handlers g)\<rparr>)"
    by (rule step.finish) (use assms(2) Settled in simp)
  moreover have "g\<lparr>gw_handlers := move k Closed (gw_handlers g)\<rparr> = \<lparr>gw_db = gw_db g, gw_handlers = move k Closed (gw_handlers g)\<rparr>"
    by (cases g) simp
  ultimately show ?thesis by (metis r_into_rtranclp)
next
  case (Failing p)
  with step.free [of g k p keda cfg] assms(2) show ?thesis by blast
qed (use assms(1,3) standingD [OF assms(2)] in \<open>auto simp: sane_def\<close>)

definition open_handlers :: "gateway \<Rightarrow> nat" where
  "open_handlers g = length (filter (\<lambda>h. h_phase h \<noteq> Closed) (gw_handlers g))"

lemma open_handlers_move:
  assumes "standing g k ph" "ph \<noteq> Closed"
  shows "open_handlers \<lparr>gw_db = d, gw_handlers = move k Closed (gw_handlers g)\<rparr> < open_handlers g"
proof -
  have le: "length (filter (\<lambda>h. h_phase h \<noteq> Closed) (move k Closed hs)) \<le> length (filter (\<lambda>h. h_phase h \<noteq> Closed) hs)" for hs
    by (induction hs) (auto simp: move_def)
  obtain a b where hs: "gw_handlers g = a @ \<lparr>h_id = k, h_phase = ph\<rparr> # b"
    using standingD [OF assms(1)] by (meson split_list)
  have "move k Closed (gw_handlers g) = move k Closed a @ \<lparr>h_id = k, h_phase = Closed\<rparr> # move k Closed b"
    by (simp add: hs move_def update_where_def)
  with le [of a] le [of b] assms(2) show ?thesis by (simp add: open_handlers_def hs)
qed

lemma drains:
  assumes "sane g" "unique_key h_id (gw_handlers g)"
  shows "\<exists>g'. (step keda cfg)\<^sup>*\<^sup>* g g' \<and> open_handlers g' = 0"
  using assms
proof (induction "open_handlers g" arbitrary: g rule: less_induct)
  case less
  show ?case
  proof (cases "open_handlers g = 0")
    case True
    then show ?thesis by blast
  next
    case False
    then obtain h where h: "h \<in> set (gw_handlers g)" "h_phase h \<noteq> Closed"
      by (auto simp: open_handlers_def filter_empty_conv)
    have st: "standing g (h_id h) (h_phase h)"
      using row_of_unique [OF less.prems(2) h(1)] by (simp add: standing_def)
    from handler_closes [OF less.prems(1) st h(2), of keda cfg] obtain d where
      run: "(step keda cfg)\<^sup>*\<^sup>* g \<lparr>gw_db = d, gw_handlers = move (h_id h) Closed (gw_handlers g)\<rparr>" by blast
    let ?g1 = "\<lparr>gw_db = d, gw_handlers = move (h_id h) Closed (gw_handlers g)\<rparr>"
    have "open_handlers ?g1 < open_handlers g" by (rule open_handlers_move [OF st h(2)])
    moreover have "sane ?g1" by (rule steps_sane [OF run less.prems(1)])
    moreover have "unique_key h_id (gw_handlers ?g1)" using unique_move [OF less.prems(2)] by simp
    ultimately obtain g' where "(step keda cfg)\<^sup>*\<^sup>* ?g1 g'" "open_handlers g' = 0" using less.hyps by blast
    with run show ?thesis by (meson rtranclp_trans)
  qed
qed

lemma no_holders:
  assumes "open_handlers g = 0"
  shows "holders (gw_handlers g) p = 0"
proof -
  have "holders hs p = 0" if "\<forall>h \<in> set hs. h_phase h = Closed" for hs
    using that by (induction hs) (simp_all add: holders_def)
  with assms show ?thesis by (simp add: open_handlers_def filter_empty_conv)
qed

section \<open>The handlers of the code are runs of the gateway\<close>

lemma move_append:
  "row_of h_id k hs = None \<Longrightarrow> move k ph (hs @ [\<lparr>h_id = k, h_phase = ph0\<rparr>]) = hs @ [\<lparr>h_id = k, h_phase = ph\<rparr>]"
proof -
  assume "row_of h_id k hs = None"
  then have "update_where (\<lambda>h. h_id h = k) (\<lambda>h. h\<lparr>h_phase := ph\<rparr>) hs = hs"
    by (intro update_where_none) (auto simp: row_of_None)
  then show ?thesis by (simp add: move_def update_where_def)
qed

text \<open>The gateway with one more handler, and the steps of that handler.\<close>

definition with_handler :: "handler list \<Rightarrow> string \<Rightarrow> phase \<Rightarrow> db \<Rightarrow> gateway" where
  "with_handler hs k ph d = \<lparr>gw_db = d, gw_handlers = hs @ [\<lparr>h_id = k, h_phase = ph\<rparr>]\<rparr>"

lemma standing_with: "row_of h_id k hs = None \<Longrightarrow> standing (with_handler hs k ph d) k ph"
  by (simp add: standing_def with_handler_def row_of_append row_of_single)

lemma with_handler_db: "(with_handler hs k ph d)\<lparr>gw_db := d'\<rparr> = with_handler hs k ph d'"
  by (simp add: with_handler_def)

lemma with_handler_move:
  "row_of h_id k hs = None \<Longrightarrow>
   \<lparr>gw_db = d', gw_handlers = move k ph' (gw_handlers (with_handler hs k ph d))\<rparr> = with_handler hs k ph' d'"
  by (simp add: with_handler_def move_append)

lemma gw_db_with [simp]: "gw_db (with_handler hs k ph d) = d"
  by (simp add: with_handler_def)

lemma run_annotate:
  assumes new: "row_of h_id k hs = None"
  shows "step keda cfg (with_handler hs k ph d) (with_handler hs k ph (Gateway.annotate k nt d))"
  using step.annotate [where g = "with_handler hs k ph d" and k = k and nt = nt and keda = keda and cfg = cfg]
    standing_with [OF new, of ph d]
  by (auto simp: standing_def with_handler_db)

lemma run_tokens:
  assumes new: "row_of h_id k hs = None"
  shows "(step keda cfg)\<^sup>*\<^sup>* (with_handler hs k (Serving p) d) (with_handler hs k (Serving p) (emit k ts d))"
proof (induction ts arbitrary: d)
  case (Cons t ts)
  have "step keda cfg (with_handler hs k (Serving p) d) (with_handler hs k (Serving p) (recordTokenEmitted k t d))"
    using step.token [OF standing_with [OF new, of "Serving p" d], of keda cfg t] by (simp add: with_handler_db)
  with Cons [of "recordTokenEmitted k t d"] show ?case by (simp add: converse_rtranclp_into_rtranclp)
qed simp

lemma run_fail:
  assumes new: "row_of h_id k hs = None" and "p \<noteq> ''''"
  shows "(step keda cfg)\<^sup>*\<^sup>* (with_handler hs k (Serving p) d) (with_handler hs k Closed (failRequest k err (Some p) now d))"
proof -
  have "step keda cfg (with_handler hs k (Serving p) d) (with_handler hs k (Failing p) (fail_row k err now d))"
    using step.fail [OF standing_with [OF new, of "Serving p" d], of keda cfg err now] by (simp add: with_handler_move [OF new])
  moreover have "step keda cfg (with_handler hs k (Failing p) (fail_row k err now d))
      (with_handler hs k Closed (fail_slot p (fail_row k err now d)))"
    using step.free [OF standing_with [OF new, of "Failing p" "fail_row k err now d"], of keda cfg] by (simp add: with_handler_move [OF new])
  moreover have "fail_slot p (fail_row k err now d) = failRequest k err (Some p) now d"
    using assms(2) by (simp add: fail_slot_def fail_row_def failRequest_def present_def Let_def)
  ultimately show ?thesis by (simp add: converse_rtranclp_into_rtranclp)
qed

lemma run_settle:
  assumes new: "row_of h_id k hs = None"
    and "settle cfg raises model k s now i u d = (None, d1)" "log_content raises' now' team m k prompt response d1 = (None, d2)"
  shows "(step keda cfg)\<^sup>*\<^sup>* (with_handler hs k (Serving p) d) (with_handler hs k Closed d2)"
proof -
  have d1: "d1 = completeRequest cfg k u (charge d model i u (now - s)) now (Gateway.annotate k (InputTokens i) d)"
    using assms(2) by (auto simp: settle_def Let_def split: option.splits)
  have "step keda cfg (with_handler hs k (Serving p) d) (with_handler hs k (Serving p) (Gateway.annotate k (InputTokens i) d))"
    by (rule run_annotate [OF new])
  moreover have "step keda cfg (with_handler hs k (Serving p) (Gateway.annotate k (InputTokens i) d)) (with_handler hs k (Settled p) d1)"
    using step.complete [OF standing_with [OF new, of "Serving p" "Gateway.annotate k (InputTokens i) d"]] d1
    by (simp add: with_handler_move [OF new])
  moreover have "step keda cfg (with_handler hs k (Settled p) d1) (with_handler hs k Closed d2)"
    using step.log [OF standing_with [OF new, of "Settled p" d1], of raises' now' team m prompt response d2] assms(3)
    by (simp add: with_handler_move [OF new])
  ultimately show ?thesis by (meson converse_rtranclp_into_rtranclp r_into_rtranclp)
qed


lemma wait_attempt:
  assumes "waitForPlacement keda cfg dl m k ak ps d = Some (PlacedAt p url hit, d')" "quiet ps"
  shows "\<exists>locked now r. placeRequest keda cfg locked now m ak d = (Placed r hit, d') \<and> rep_id r = p"
  using assms
proof (induction ps)
  case (Cons x ps)
  have others: "po_others x d = d" and "quiet ps" using Cons.prems(2) by (simp_all add: quiet_def)
  obtain res d1 where pl: "placeRequest keda cfg (po_locked x) (po_now x) m ak d = (res, d1)" by fastforce
  from Cons.prems(1) others have early: "po_now x < dl" by (auto simp: Let_def split: if_splits)
  show ?case
  proof (cases res)
    case (Placed r h)
    with pl Cons.prems(1) others early show ?thesis by auto
  next
    case NeedsQueue
    with pl have "d1 = d" by (simp add: placeRequest_queue_same)
    with Cons others early pl NeedsQueue \<open>quiet ps\<close> show ?thesis by simp
  qed
qed simp

text \<open>Reaching the end of a settlement, and what follows it.\<close>

lemma run_settled:
  assumes new: "row_of h_id k hs = None" and "settle cfg raises model k s now i u d = (None, d1)"
  shows "(step keda cfg)\<^sup>*\<^sup>* (with_handler hs k (Serving p) d) (with_handler hs k (Settled p) d1)"
proof -
  have d1: "d1 = completeRequest cfg k u (charge d model i u (now - s)) now (Gateway.annotate k (InputTokens i) d)"
    using assms(2) by (auto simp: settle_def Let_def split: option.splits)
  have "step keda cfg (with_handler hs k (Serving p) d) (with_handler hs k (Serving p) (Gateway.annotate k (InputTokens i) d))"
    by (rule run_annotate [OF new])
  moreover have "step keda cfg (with_handler hs k (Serving p) (Gateway.annotate k (InputTokens i) d)) (with_handler hs k (Settled p) d1)"
    using step.complete [OF standing_with [OF new, of "Serving p" "Gateway.annotate k (InputTokens i) d"]] d1
    by (simp add: with_handler_move [OF new])
  ultimately show ?thesis by (meson converse_rtranclp_into_rtranclp r_into_rtranclp)
qed

lemma run_refused:
  assumes new: "row_of h_id k hs = None" and "settle cfg raises model k s now i u d = (Some e, d1)"
  shows "(step keda cfg)\<^sup>*\<^sup>* (with_handler hs k (Serving p) d) (with_handler hs k (Serving p) d1)"
proof -
  have "d1 = d \<or> d1 = Gateway.annotate k (InputTokens i) d"
    using assms(2) by (auto simp: settle_def Let_def split: option.splits)
  then show ?thesis using run_annotate [OF new, of keda cfg "Serving p" d "InputTokens i"] by auto
qed

lemma run_finish:
  assumes new: "row_of h_id k hs = None"
  shows "step keda cfg (with_handler hs k (Settled p) d) (with_handler hs k Closed d)"
proof -
  have "(with_handler hs k (Settled p) d)\<lparr>gw_handlers := move k Closed (gw_handlers (with_handler hs k (Settled p) d))\<rparr> =
      with_handler hs k Closed d"
    using with_handler_move [OF new, of d Closed "Settled p" d] by (simp add: with_handler_def)
  with step.finish [OF standing_with [OF new, of "Settled p" d], of keda cfg] show ?thesis by simp
qed

lemma run_abandon:
  assumes new: "row_of h_id k hs = None"
  shows "mishap keda cfg (with_handler hs k (Serving p) d) (with_handler hs k (Abandoned p) d)"
proof -
  have "(with_handler hs k (Serving p) d)\<lparr>gw_handlers := move k (Abandoned p) (gw_handlers (with_handler hs k (Serving p) d))\<rparr> =
      with_handler hs k (Abandoned p) d"
    using with_handler_move [OF new, of d "Abandoned p" "Serving p" d] by (simp add: with_handler_def)
  with mishap.abandon [OF standing_with [OF new, of "Serving p" d], of keda cfg] show ?thesis by simp
qed

lemma run_late_fail:
  assumes new: "row_of h_id k hs = None" and "p \<noteq> ''''"
  shows "(mishap keda cfg)\<^sup>*\<^sup>* (with_handler hs k (Settled p) d) (with_handler hs k Closed (failRequest k err (Some p) now d))"
proof -
  have "mishap keda cfg (with_handler hs k (Settled p) d) (with_handler hs k (Refailing p) (fail_row k err now d))"
    using mishap.late_fail [OF standing_with [OF new, of "Settled p" d], of keda cfg err now] by (simp add: with_handler_move [OF new])
  moreover have "mishap keda cfg (with_handler hs k (Refailing p) (fail_row k err now d))
      (with_handler hs k Closed (fail_slot p (fail_row k err now d)))"
    using mishap.second_free [OF standing_with [OF new, of "Refailing p" "fail_row k err now d"], of keda cfg]
    by (simp add: with_handler_move [OF new])
  moreover have "fail_slot p (fail_row k err now d) = failRequest k err (Some p) now d"
    using assms(2) by (simp add: fail_slot_def fail_row_def failRequest_def present_def Let_def)
  ultimately show ?thesis by (simp add: converse_rtranclp_into_rtranclp)
qed

lemma any_of_steps: "(step keda cfg)\<^sup>*\<^sup>* g g' \<Longrightarrow> (any_step keda cfg)\<^sup>*\<^sup>* g g'"
  by (rule mono_rtranclp [rule_format, of "step keda cfg"]) (simp_all add: any_step_def)

lemma any_of_mishaps: "(mishap keda cfg)\<^sup>*\<^sup>* g g' \<Longrightarrow> (any_step keda cfg)\<^sup>*\<^sup>* g g'"
  by (rule mono_rtranclp [rule_format, of "mishap keda cfg"]) (simp_all add: any_step_def)

text \<open>The ways a handler runs to its end from a gateway \<open>g\<close>, by what the store refuses.\<close>

definition ends_run :: "keda_client \<Rightarrow> settings \<Rightarrow> call_env \<Rightarrow> chat_request \<Rightarrow> handler list \<Rightarrow> gateway \<Rightarrow> db \<Rightarrow> bool" where
  "ends_run keda cfg env body hs g d' \<longleftrightarrow>
     (step keda cfg)\<^sup>*\<^sup>* g (with_handler hs (en_requestId env) Closed d') \<or>
     cr_stream body \<and> (\<exists>c \<in> {ReadScopes, WriteAudit}. en_raises env c \<noteq> None) \<and>
       (any_step keda cfg)\<^sup>*\<^sup>* g (with_handler hs (en_requestId env) Closed d') \<or>
     \<not> cr_stream body \<and> (\<exists>c \<in> {ReadCost, SetInputTokens, Complete}. en_raises env c \<noteq> None) \<and>
       (\<exists>p. (any_step keda cfg)\<^sup>*\<^sup>* g (with_handler hs (en_requestId env) (Abandoned p) d'))"

lemma ends_run_prefix:
  assumes "(step keda cfg)\<^sup>*\<^sup>* g g1" "ends_run keda cfg env body hs g1 d'"
  shows "ends_run keda cfg env body hs g d'"
  using assms(2) assms(1) any_of_steps [OF assms(1)] unfolding ends_run_def by (meson rtranclp_trans)

lemma run_turn:
  assumes new: "row_of h_id (en_requestId env) hs = None" and p: "p \<noteq> ''''"
    and "held_replica d (en_requestId env) = Some p"
    and "answer_chat cfg env identity model body url p d = (reply, d')"
  shows "ends_run keda cfg env body hs (with_handler hs (en_requestId env) (Serving p) d) d'"
proof -
  let ?k = "en_requestId env"
  obtain g e d1 where gen: "run_generation cfg env model url body d = (g, e, d1)" by (metis prod_cases3)
  from run_generation_emits [OF gen] obtain ts where d1: "d1 = emit ?k ts d" .
  with assms(3) have held: "held_replica d1 ?k = Some p" by simp
  have toks: "(step keda cfg)\<^sup>*\<^sup>* (with_handler hs ?k (Serving p) d) (with_handler hs ?k (Serving p) d1)"
    unfolding d1 by (rule run_tokens [OF new])
  have "ends_run keda cfg env body hs (with_handler hs ?k (Serving p) d1) d'"
  proof (cases e)
    case (Failed t err)
    with gen assms(4) have "d' = failRequest ?k err (Some p) t d1"
      by (auto simp: answer_chat_def streamed_def buffered_def split: if_splits)
    with run_fail [OF new p] show ?thesis by (simp add: ends_run_def)
  next
    case (Finished t)
    obtain i u me where usage: "turn_usage body g = (i, u, me)" by (metis prod_cases3)
    obtain se d2 where st: "settle cfg (en_raises env) model ?k (en_start env) (en_settle env) i u d1 = (se, d2)" by fastforce
    show ?thesis
    proof (cases se)
      case (Some x)
      have why: "\<exists>c \<in> {ReadCost, SetInputTokens, Complete}. en_raises env c \<noteq> None"
        using settle_refuses [of cfg "en_raises env" model ?k "en_start env" "en_settle env" i u d1] st Some by simp
      note stays = run_refused [OF new st [unfolded Some], of keda p]
      show ?thesis
      proof (cases "cr_stream body")
        case True
        with assms(4) gen Finished usage st Some obtain err where "d' = failRequest ?k err (Some p) (en_settle env) d2"
          by (auto simp: answer_chat_def streamed_def Let_def)
        with stays run_fail [OF new p] show ?thesis unfolding ends_run_def by (metis rtranclp_trans)
      next
        case False
        with assms(4) gen Finished usage st Some have "d' = d2" by (simp add: answer_chat_def buffered_def Let_def)
        moreover have "any_step keda cfg (with_handler hs ?k (Serving p) d2) (with_handler hs ?k (Abandoned p) d2)"
          using run_abandon [OF new] by (simp add: any_step_def)
        ultimately show ?thesis
          using False why any_of_steps [OF stays] unfolding ends_run_def by (meson rtranclp.rtrancl_into_rtrancl)
      qed
    next
      case None
      note settled = run_settled [OF new st [unfolded None], of keda p]
      define response where "response = auditBody (ge_reasoning g) (ge_text g)
        (if cr_stream body then ge_tools g else map tool_call_json (assembleToolCalls (map tool_delta_of (ge_tools g))))"
      obtain le d3 where lg: "log_content (en_raises env) (en_settle env) (ci_team identity) (m_id model) ?k
          (promptText (cr_messages body)) response d2 = (le, d3)" by fastforce
      show ?thesis
      proof (cases le)
        case ok: None
        have "d' = d3"
          using assms(4) gen Finished usage st lg None ok
          by (cases "cr_stream body") (simp_all add: answer_chat_def streamed_def buffered_def response_def Let_def)
        with run_settle [OF new st [unfolded None] lg [unfolded ok]] show ?thesis by (simp add: ends_run_def)
      next
        case (Some x)
        have d3: "d3 = d2" using lg Some by (auto simp: log_content_def split: option.splits if_splits sum.splits)
        have "request_by d2 ?k \<noteq> None"
          using settle_None(3) [OF st [unfolded None] held] held_row [OF held] by auto
        with log_content_refuses [of "en_raises env"] lg Some
        have why: "\<exists>c \<in> {ReadScopes, WriteAudit}. en_raises env c \<noteq> None" by (metis fst_conv option.distinct(1))
        show ?thesis
        proof (cases "cr_stream body")
          case True
          with assms(4) gen Finished usage st lg None Some d3 obtain err where "d' = failRequest ?k err (Some p) (en_settle env) d2"
            by (auto simp: answer_chat_def streamed_def response_def Let_def)
          with True why any_of_steps [OF settled] any_of_mishaps [OF run_late_fail [OF new p]] show ?thesis
            unfolding ends_run_def by (metis rtranclp_trans)
        next
          case False
          with assms(4) gen Finished usage st lg None Some d3 have "d' = d2"
            by (simp add: answer_chat_def buffered_def response_def Let_def)
          with settled run_finish [OF new] show ?thesis unfolding ends_run_def by (metis rtranclp.rtrancl_into_rtrancl)
        qed
      qed
    qed
  qed
  with toks show ?thesis by (rule ends_run_prefix)
qed

lemma run_arrive:
  assumes new: "row_of h_id (en_requestId env) hs = None" and "enqueue_chat env identity model body d = Inr d1"
  shows "(step keda cfg)\<^sup>*\<^sup>* \<lparr>gw_db = d, gw_handlers = hs\<rparr> (with_handler hs (en_requestId env) (Waiting m) d1)"
proof -
  let ?k = "en_requestId env"
  let ?inp = "\<lparr>eq_id = ?k, eq_callerOid = ci_oid identity, eq_callerName = ci_name identity,
     eq_team = ci_team identity, eq_requestedModel = cr_model body, eq_capabilities = Some (m_capabilities model)\<rparr>"
  obtain inp d0 where e: "enqueueRequest (en_now env) inp d = Inr d0" "eq_id inp = ?k"
    and d1: "d1 = Gateway.annotate ?k (RoutedModel (m_id model)) d0"
    using assms(2) that [of ?inp] by (cases "enqueueRequest (en_now env) ?inp d") (auto simp: enqueue_chat_def)
  have "step keda cfg \<lparr>gw_db = d, gw_handlers = hs\<rparr> (with_handler hs ?k (Waiting m) d0)"
    using step.arrive [of "en_now env" inp "\<lparr>gw_db = d, gw_handlers = hs\<rparr>" d0 ?k keda cfg m] e new
    by (simp add: with_handler_def)
  moreover have "step keda cfg (with_handler hs ?k (Waiting m) d0) (with_handler hs ?k (Waiting m) d1)"
    unfolding d1 by (rule run_annotate [OF new])
  ultimately show ?thesis by (meson r_into_rtranclp rtranclp_trans)
qed

lemma run_start:
  assumes new: "row_of h_id (en_requestId env) hs = None"
  shows "(step keda cfg)\<^sup>*\<^sup>* (with_handler hs (en_requestId env) (Claimed p) d)
     (with_handler hs (en_requestId env) (Serving p) (start_stream env p hit d))"
proof -
  let ?k = "en_requestId env" and ?d1 = "markStreamStarted (en_requestId env) p (en_start env) d"
  have "step keda cfg (with_handler hs ?k (Claimed p) d) (with_handler hs ?k (Serving p) ?d1)"
    using step.start [OF standing_with [OF new, of "Claimed p" d], of keda cfg "en_start env"]
    by (simp add: with_handler_move [OF new])
  moreover have "step keda cfg (with_handler hs ?k (Serving p) ?d1)
      (with_handler hs ?k (Serving p) (Gateway.annotate ?k (AffinityHit hit) ?d1))"
    by (rule run_annotate [OF new])
  ultimately show ?thesis by (simp add: start_stream_def converse_rtranclp_into_rtranclp)
qed

lemma chat_runs:
  assumes "chatCompletions keda cfg sha256_hex env identity body dry_run d = Some (reply, d')"
    and "db_ok d" "quiet (en_polls env)" "request_by d (en_requestId env) = None"
    and "\<forall>r \<in> set (replicas d). rp_id r \<noteq> ''''" "row_of h_id (en_requestId env) hs = None"
  shows "d' = d \<or> ends_run keda cfg env body hs \<lparr>gw_db = d, gw_handlers = hs\<rparr> d'"
proof (cases "d' = d")
  case False
  let ?k = "en_requestId env"
  note new = assms(6)
  from assms(1) False obtain modelId reason where "selectModel body (listModels d) ChatEndpoint = Selected modelId reason"
    by (auto simp: chatCompletions_def split: select_result.splits if_splits)
  with assms(1) False obtain model where run: "serve_chat keda cfg sha256_hex env identity model body d = Some (reply, d')"
    by (auto simp: chatCompletions_def split: if_splits)
  with False obtain d1 where e: "enqueue_chat env identity model body d = Inr d1"
    by (auto simp: serve_chat_def split: sum.splits)
  note en = enqueue_chat_Inr [OF e]
  let ?m = "m_backendModelId model"
  have arrive: "(step keda cfg)\<^sup>*\<^sup>* \<lparr>gw_db = d, gw_handlers = hs\<rparr> (with_handler hs ?k (Waiting ?m) d1)"
    by (rule run_arrive [OF new e])
  from run e obtain pl d2 where w: "place_chat keda cfg sha256_hex env identity model body d1 = Some (pl, d2)"
    by (auto simp: serve_chat_def split: option.splits)
  note w' = w [unfolded place_chat_def]
  show ?thesis
  proof (cases pl)
    case (NotPlaced err)
    from wait_quiet_expired [OF w' [unfolded NotPlaced] assms(3)] obtain t where
      "d2 = snd (expireQueuedRequest ?k t d1)" by blast
    with run e w NotPlaced have "d' = snd (expireQueuedRequest ?k t d1)" by (simp add: serve_chat_def)
    then have "step keda cfg (with_handler hs ?k (Waiting ?m) d1) (with_handler hs ?k Closed d')"
      using step.give_up [OF standing_with [OF new, of "Waiting ?m" d1], of keda cfg t]
      by (simp add: with_handler_move [OF new])
    with arrive show ?thesis unfolding ends_run_def by (meson rtranclp.rtrancl_into_rtrancl)
  next
    case (PlacedAt p url hit)
    from wait_attempt [OF w' [unfolded PlacedAt] assms(3)] obtain locked now r where
      "placeRequest keda cfg locked now ?m (affinityKeyFor sha256_hex (ci_oid identity) ?m (cr_messages body)) d1 = (Placed r hit, d2)"
      "rep_id r = p" by blast
    with step.place [OF standing_with [OF new, where ph = "Waiting ?m" and d = d1], of keda cfg]
    have "step keda cfg (with_handler hs ?k (Waiting ?m) d1) (with_handler hs ?k (Claimed p) d2)"
      by (fastforce simp: with_handler_move [OF new])
    moreover note run_start [OF new, of keda cfg p d2 hit]
    moreover from wait_quiet_placed [OF w' [unfolded PlacedAt] assms(3) en(4) [OF assms(2)]]
    have p2: "requests d2 = requests d1" "slots d1 p \<noteq> None" by blast+
    from p2(2) en(5) assms(5) have p: "p \<noteq> ''''"
      by (auto simp: slots_def replica_by_def dest!: row_of_Some)
    obtain r1 where "request_by d2 ?k = Some r1" using en(3) request_by_cong [OF p2(1)] by fastforce
    from start_stream_held(1) [OF this p] have "held_replica (start_stream env p hit d2) ?k = Some p" .
    from run_turn [OF new p this] run e w PlacedAt
    have turn: "ends_run keda cfg env body hs (with_handler hs ?k (Serving p) (start_stream env p hit d2)) d'"
      by (simp add: serve_chat_def)
    ultimately have "(step keda cfg)\<^sup>*\<^sup>* \<lparr>gw_db = d, gw_handlers = hs\<rparr> (with_handler hs ?k (Serving p) (start_stream env p hit d2))"
      using arrive by (meson rtranclp.rtrancl_into_rtrancl rtranclp_trans)
    then have "ends_run keda cfg env body hs \<lparr>gw_db = d, gw_handlers = hs\<rparr> d'" using turn by (rule ends_run_prefix)
    then show ?thesis ..
  qed
qed simp

section \<open>A run\<close>

definition ex_gate_db :: db where
  "ex_gate_db = ex_fleet_db\<lparr>replicas := [ex_replica ''p0'' ''ornith'' 0 4], requests := []\<rparr>"

definition ex_enqueued :: db where
  "ex_enqueued = (case enqueue_chat ex_env ex_caller (ex_model ''ornith'' Large [Chat]) (ex_request None (Text ''Hello'')) ex_gate_db of
     Inl e \<Rightarrow> ex_gate_db | Inr d \<Rightarrow> d)"

definition ex_claimed :: db where
  "ex_claimed = snd (placeRequest NoopKedaClient default_settings [] 1000 ''ornith'' None ex_enqueued)"

lemma ex_gate_ok: "db_ok ex_gate_db" "\<forall>r \<in> set (replicas ex_gate_db). rp_id r \<noteq> '''' \<and> rp_in_flight r = 0"
  by code_simp+

text \<open>A run of one request up to the serving phase.\<close>

lemma ex_run:
  "(step NoopKedaClient default_settings)\<^sup>*\<^sup>* (idle_gateway ex_gate_db)
     (with_handler [] ''q9'' (Serving ''p0'') (start_stream ex_env ''p0'' False ex_claimed))"
proof -
  have new: "row_of h_id (en_requestId ex_env) [] = None" by (simp add: row_of_def)
  have id: "en_requestId ex_env = ''q9''" by (simp add: ex_env_def)
  have "enqueue_chat ex_env ex_caller (ex_model ''ornith'' Large [Chat]) (ex_request None (Text ''Hello'')) ex_gate_db = Inr ex_enqueued"
    by code_simp
  from run_arrive [OF new this] have
    a: "(step NoopKedaClient default_settings)\<^sup>*\<^sup>* (idle_gateway ex_gate_db) (with_handler [] ''q9'' (Waiting ''ornith'') ex_enqueued)"
    by (simp add: idle_gateway_def id)
  have "map_prod (\<lambda>r. case r of Placed x hit \<Rightarrow> (rep_id x, hit) | NeedsQueue \<Rightarrow> ('''', True)) id
      (placeRequest NoopKedaClient default_settings [] 1000 ''ornith'' None ex_enqueued) = ((''p0'', False), ex_claimed)"
    by code_simp
  then obtain r where "placeRequest NoopKedaClient default_settings [] 1000 ''ornith'' None ex_enqueued = (Placed r False, ex_claimed)"
    and r: "rep_id r = ''p0''"
    by (cases "placeRequest NoopKedaClient default_settings [] 1000 ''ornith'' None ex_enqueued")
       (auto split: place_result.splits)
  from step.place [OF standing_with [OF new, of "Waiting ''ornith''" ex_enqueued]] this(1) r id
  have "step NoopKedaClient default_settings (with_handler [] ''q9'' (Waiting ''ornith'') ex_enqueued)
      (with_handler [] ''q9'' (Claimed ''p0'') ex_claimed)"
    by (fastforce simp: with_handler_move row_of_def)
  moreover note run_start [OF new, of NoopKedaClient default_settings "''p0''" ex_claimed False, unfolded id]
  ultimately show ?thesis using a by (meson rtranclp.rtrancl_into_rtrancl rtranclp_trans)
qed

section \<open>Properties\<close>

text \<open>
  C1: Whatever happens to the gateway, mishaps included, its count of the taken slots of a replica is between
  zero and the number of handlers that hold one: the gateway may lose a slot, it never makes one up. And a
  handler that has come to its end leaves a row that is no longer live.
\<close>
theorem gateway_never_overcounts:
  assumes "(any_step keda cfg)\<^sup>*\<^sup>* (idle_gateway d) g" "db_ok d"
    and "\<forall>r \<in> set (replicas d). rp_id r \<noteq> '''' \<and> rp_in_flight r = 0"
  shows "db_ok (gw_db g) \<and>
         (\<forall>q n. slots (gw_db g) q = Some n \<longrightarrow> 0 \<le> n \<and> n \<le> holders (gw_handlers g) q) \<and>
         (\<forall>h \<in> set (gw_handlers g). \<exists>r. request_by (gw_db g) (h_id h) = Some r \<and> (h_phase h = Closed \<longrightarrow> \<not> live (rq_status r)))"
proof -
  have ok: "gateway_ok False g"
    by (rule any_steps_keep [OF assms(1)]) (rule gateway_ok_loose [OF idle_ok [OF assms(2,3)]])
  have "0 \<le> n \<and> n \<le> holders (gw_handlers g) q" if "slots (gw_db g) q = Some n" for q n
    using gateway_okD(5) [OF ok, of q] that by (simp add: accounted_def)
  moreover have "\<exists>r. request_by (gw_db g) (h_id h) = Some r \<and> (h_phase h = Closed \<longrightarrow> \<not> live (rq_status r))"
    if "h \<in> set (gw_handlers g)" for h
    using gateway_okD(3) [OF ok that] by (auto simp: row_ok_def)
  ultimately show ?thesis using gateway_okD(1) [OF ok] by blast
qed

text \<open>A handler that was abandoned while serving still counts as the holder of its slot.\<close>

lemma gateway_never_overcounts_witness:
  "\<exists>g. (any_step NoopKedaClient default_settings)\<^sup>*\<^sup>* (idle_gateway ex_gate_db) g \<and>
       map h_phase (gw_handlers g) = [Abandoned ''p0''] \<and> slots (gw_db g) ''p0'' = Some 1 \<and> 1 \<le> holders (gw_handlers g) ''p0''"
proof -
  let ?d = "start_stream ex_env ''p0'' False ex_claimed"
  let ?g = "with_handler [] ''q9'' (Abandoned ''p0'') ?d"
  have "(any_step NoopKedaClient default_settings)\<^sup>*\<^sup>* (idle_gateway ex_gate_db) (with_handler [] ''q9'' (Serving ''p0'') ?d)"
    by (rule rtranclp_mono [THEN predicate2D, OF _ ex_run]) (auto simp: any_step_def)
  moreover have "any_step NoopKedaClient default_settings (with_handler [] ''q9'' (Serving ''p0'') ?d) ?g"
    using mishap.abandon [OF standing_with [of "''q9''" "[]" "Serving ''p0''" ?d], of NoopKedaClient default_settings]
    by (simp add: row_of_def any_step_def with_handler_def move_def update_where_def)
  ultimately have run: "(any_step NoopKedaClient default_settings)\<^sup>*\<^sup>* (idle_gateway ex_gate_db) ?g" by simp
  have s: "slots (gw_db ?g) ''p0'' = Some 1" by code_simp
  with gateway_never_overcounts [OF run ex_gate_ok] have "1 \<le> holders (gw_handlers ?g) ''p0''" by blast
  with run s show ?thesis by (intro exI [of _ ?g]) (simp add: with_handler_def)
qed

text \<open>
  C2: As long as no mishap happens, the count of the taken slots of every replica is exact under every
  interleaving of the handlers, the sweeps and the reconciler: it is the number of handlers that hold a slot.
\<close>
theorem gateway_slots_exact:
  assumes "(step keda cfg)\<^sup>*\<^sup>* (idle_gateway d) g" "db_ok d"
    and "\<forall>r \<in> set (replicas d). rp_id r \<noteq> '''' \<and> rp_in_flight r = 0" "slots (gw_db g) q = Some n"
  shows "n = holders (gw_handlers g) q"
  using gateway_okD(5) [OF steps_keep [OF assms(1) idle_ok [OF assms(2,3)]], of q] assms(4)
  by (simp add: accounted_def)

lemma gateway_slots_exact_witness:
  "\<exists>g. (step NoopKedaClient default_settings)\<^sup>*\<^sup>* (idle_gateway ex_gate_db) g \<and>
       slots (gw_db g) ''p0'' = Some 1 \<and> holders (gw_handlers g) ''p0'' = 1"
proof -
  let ?g = "with_handler [] ''q9'' (Serving ''p0'') (start_stream ex_env ''p0'' False ex_claimed)"
  have s: "slots (gw_db ?g) ''p0'' = Some 1" by code_simp
  with gateway_slots_exact [OF ex_run ex_gate_ok this] ex_run show ?thesis by (intro exI [of _ ?g]) simp
qed

text \<open>
  C5: The gateway can always drain: from every state it can be in without a mishap, it can come to a state in
  which every handler has ended, every replica has all its slots free, and every request a handler took has its
  outcome.
\<close>
theorem gateway_can_drain:
  assumes "(step keda cfg)\<^sup>*\<^sup>* (idle_gateway d) g" "db_ok d"
    and "\<forall>r \<in> set (replicas d). rp_id r \<noteq> '''' \<and> rp_in_flight r = 0"
  shows "\<exists>g'. (step keda cfg)\<^sup>*\<^sup>* g g' \<and> (\<forall>h \<in> set (gw_handlers g'). h_phase h = Closed) \<and>
           (\<forall>q n. slots (gw_db g') q = Some n \<longrightarrow> n = 0) \<and>
           (\<forall>h \<in> set (gw_handlers g'). \<exists>r. request_by (gw_db g') (h_id h) = Some r \<and> \<not> live (rq_status r))"
proof -
  have ok: "gateway_ok True g" by (rule steps_keep [OF assms(1) idle_ok [OF assms(2,3)]])
  have "sane g" by (rule steps_sane [OF assms(1)]) (simp add: sane_def idle_gateway_def)
  from drains [OF this gateway_okD(2) [OF ok]] obtain g' where
    g': "(step keda cfg)\<^sup>*\<^sup>* g g'" "open_handlers g' = 0" by blast
  have ok': "gateway_ok True g'" by (rule steps_keep [OF g'(1) ok])
  have closed: "\<forall>h \<in> set (gw_handlers g'). h_phase h = Closed"
    using g'(2) by (simp add: open_handlers_def filter_empty_conv)
  moreover have "n = 0" if "slots (gw_db g') q = Some n" for q n
    using gateway_okD(5) [OF ok', of q] no_holders [OF g'(2), of q] that by (simp add: accounted_def)
  moreover have "\<exists>r. request_by (gw_db g') (h_id h) = Some r \<and> \<not> live (rq_status r)" if "h \<in> set (gw_handlers g')" for h
    using gateway_okD(3) [OF ok' that] closed that by (auto simp: row_ok_def)
  ultimately show ?thesis using g'(1) by blast
qed

lemma gateway_can_drain_witness:
  "\<exists>g. (step NoopKedaClient default_settings)\<^sup>*\<^sup>*
          (with_handler [] ''q9'' (Serving ''p0'') (start_stream ex_env ''p0'' False ex_claimed)) g \<and>
       (\<forall>q n. slots (gw_db g) q = Some n \<longrightarrow> n = 0)"
  using gateway_can_drain [OF ex_run ex_gate_ok] by blast

text \<open>
  C4: The chat handler refines the gateway. When nobody else writes meanwhile, what the handler does to the store
  from arrival to reply is a run of one handler of the gateway, whatever the store refuses after the generation. It
  is a run of regular steps that ends closed, but for two cases, which need a refused statement and go through a
  mishap: a streamed request whose content cannot be logged ends closed after a second release; a buffered one
  whose settlement is refused ends abandoned. What is proved of the gateway therefore holds of the handler.
\<close>
theorem chat_refines_gateway:
  assumes "chatCompletions keda cfg sha256_hex env identity body dry_run d = Some (reply, d')"
    and "db_ok d" "quiet (en_polls env)" "request_by d (en_requestId env) = None"
    and "\<forall>r \<in> set (replicas d). rp_id r \<noteq> ''''" "row_of h_id (en_requestId env) hs = None"
  shows "d' = d \<or>
    (step keda cfg)\<^sup>*\<^sup>* \<lparr>gw_db = d, gw_handlers = hs\<rparr> (with_handler hs (en_requestId env) Closed d') \<or>
    cr_stream body \<and> (\<exists>c \<in> {ReadScopes, WriteAudit}. en_raises env c \<noteq> None) \<and>
      (any_step keda cfg)\<^sup>*\<^sup>* \<lparr>gw_db = d, gw_handlers = hs\<rparr> (with_handler hs (en_requestId env) Closed d') \<or>
    \<not> cr_stream body \<and> (\<exists>c \<in> {ReadCost, SetInputTokens, Complete}. en_raises env c \<noteq> None) \<and>
      (\<exists>p. (any_step keda cfg)\<^sup>*\<^sup>* \<lparr>gw_db = d, gw_handlers = hs\<rparr> (with_handler hs (en_requestId env) (Abandoned p) d'))"
  using chat_runs [OF assms] unfolding ends_run_def .

lemma chat_refines_gateway_witness:
  "\<exists>d'. (step NoopKedaClient default_settings)\<^sup>*\<^sup>* (idle_gateway ex_gate_db) (with_handler [] ''q9'' Closed d') \<and>
        map_option rq_status (request_by d' ''q9'') = Some Completed"
proof -
  let ?run = "chatCompletions NoopKedaClient default_settings id ex_env ex_caller (ex_request (Some ''ornith'') (Text ''Hello'')) False ex_gate_db"
  have closed: "map_option (\<lambda>(r, d'). map_option rq_status (request_by d' ''q9'')) ?run = Some (Some Completed)" by code_simp
  then obtain reply d' where run: "?run = Some (reply, d')" by auto
  have ok: "request_by ex_gate_db ''q9'' = None" "en_requestId ex_env = ''q9''" by code_simp+
  have q: "quiet (en_polls ex_env)" and fine: "en_raises ex_env = (\<lambda>c. None)"
    by (simp_all add: ex_env_def quiet_def ex_poll_def)
  have fleet: "\<forall>r \<in> set (replicas ex_gate_db). rp_id r \<noteq> ''''" using ex_gate_ok(2) by blast
  have new: "row_of h_id (en_requestId ex_env) [] = None" by (simp add: row_of_def)
  have "d' \<noteq> ex_gate_db" using closed run ok(1) by auto
  with chat_refines_gateway [OF run ex_gate_ok(1) q _ fleet new] ok closed run fine show ?thesis
    by (auto simp: idle_gateway_def)
qed

end
