(* ===== verification/Regex.thy ===== *)
theory Regex
  imports JsText
begin

text \<open>
  The regular expressions of the language, as far as the router uses them: character classes, sequence,
  ordered choice, greedy and lazy repetition, the two anchors and the word boundary. \<open>ends\<close> is the
  backtracking matcher: it lists the places where a match can end, the preferred one first. \<open>reach\<close> is the
  declarative reading of the same expressions, and the two agree.
\<close>

section \<open>Expressions\<close>

datatype re =
    Empty
  | One_of "char \<Rightarrow> bool"
  | Cat re re
  | Alt re re
  | Many re
  | Few re
  | Bound
  | Bos
  | Eos

text \<open>A place in the text: the character before it, and what follows.\<close>

type_synonym spot = "char option \<times> string"

definition at_bound :: "spot \<Rightarrow> bool" where
  "at_bound x \<longleftrightarrow>
     (case fst x of None \<Rightarrow> False | Some c \<Rightarrow> is_word c) \<noteq> (case snd x of [] \<Rightarrow> False | c # r \<Rightarrow> is_word c)"

definition shorter :: "spot \<Rightarrow> spot \<Rightarrow> bool" where
  "shorter x y \<longleftrightarrow> length (snd y) < length (snd x)"

text \<open>A repetition stops where its body makes no progress.\<close>

primrec many :: "nat \<Rightarrow> (spot \<Rightarrow> spot list) \<Rightarrow> spot \<Rightarrow> spot list" where
  "many 0 f x = [x]"
| "many (Suc n) f x = concat (map (many n f) (filter (shorter x) (f x))) @ [x]"

primrec few :: "nat \<Rightarrow> (spot \<Rightarrow> spot list) \<Rightarrow> spot \<Rightarrow> spot list" where
  "few 0 f x = [x]"
| "few (Suc n) f x = x # concat (map (few n f) (filter (shorter x) (f x)))"

primrec ends :: "re \<Rightarrow> spot \<Rightarrow> spot list" where
  "ends Empty x = [x]"
| "ends (One_of p) x = (case snd x of [] \<Rightarrow> [] | c # r \<Rightarrow> if p c then [(Some c, r)] else [])"
| "ends (Cat a b) x = concat (map (ends b) (ends a x))"
| "ends (Alt a b) x = ends a x @ ends b x"
| "ends (Many a) x = many (length (snd x)) (ends a) x"
| "ends (Few a) x = few (length (snd x)) (ends a) x"
| "ends Bound x = (if at_bound x then [x] else [])"
| "ends Bos x = (if fst x = None then [x] else [])"
| "ends Eos x = (if snd x = [] then [x] else [])"

text \<open>\<open>re.test(s)\<close>: a match somewhere in the text.\<close>

fun search :: "re \<Rightarrow> char option \<Rightarrow> string \<Rightarrow> bool" where
  "search r b [] \<longleftrightarrow> ends r (b, []) \<noteq> []"
| "search r b (c # s) \<longleftrightarrow> ends r (b, c # s) \<noteq> [] \<or> search r (Some c) s"

definition re_test :: "re \<Rightarrow> string \<Rightarrow> bool" where
  "re_test r s = search r None s"

text \<open>
  \<open>re.exec(s)\<close> for a pattern anchored at the start, given as its consecutive pieces, of which the marked ones
  are captured.
\<close>

definition between :: "spot \<Rightarrow> spot \<Rightarrow> string" where
  "between x y = take (length (snd x) - length (snd y)) (snd x)"

fun pieces :: "(bool \<times> re) list \<Rightarrow> spot \<Rightarrow> string list list" where
  "pieces [] x = [[]]"
| "pieces ((captured, r) # ps) x =
     concat (map (\<lambda>y. map (\<lambda>gs. if captured then between x y # gs else gs) (pieces ps y)) (ends r x))"

definition re_exec :: "(bool \<times> re) list \<Rightarrow> string \<Rightarrow> string list option" where
  "re_exec ps s = (case pieces ps (None, s) of [] \<Rightarrow> None | gs # rest \<Rightarrow> Some gs)"

text \<open>\<open>s.replace(re, by)\<close> with the global flag, for a pattern that always consumes a character.\<close>

fun replace_from :: "nat \<Rightarrow> re \<Rightarrow> string \<Rightarrow> spot \<Rightarrow> string" where
  "replace_from 0 r rep x = snd x"
| "replace_from (Suc n) r rep x =
     (case filter (shorter x) (ends r x) of
        y # ys \<Rightarrow> rep @ replace_from n r rep y
      | [] \<Rightarrow> (case snd x of [] \<Rightarrow> [] | c # s \<Rightarrow> c # replace_from n r rep (Some c, s)))"

definition replace_all :: "re \<Rightarrow> string \<Rightarrow> string \<Rightarrow> string" where
  "replace_all r rep s = replace_from (Suc (length s)) r rep (None, s)"

section \<open>Writing expressions\<close>

definition lit :: "string \<Rightarrow> re" where
  "lit s = foldr (\<lambda>c r. Cat (One_of (\<lambda>x. x = c)) r) s Empty"

text \<open>A literal under the flag that ignores case.\<close>

definition lit_i :: "string \<Rightarrow> re" where
  "lit_i s = foldr (\<lambda>c r. Cat (One_of (\<lambda>x. lower_char x = lower_char c)) r) s Empty"

definition cats :: "re list \<Rightarrow> re" where
  "cats rs = foldr Cat rs Empty"

fun alts :: "re list \<Rightarrow> re" where
  "alts [] = One_of (\<lambda>c. False)"
| "alts [r] = r"
| "alts (r # rs) = Alt r (alts rs)"

definition plus_re :: "re \<Rightarrow> re" where
  "plus_re r = Cat r (Many r)"

definition opt_re :: "re \<Rightarrow> re" where
  "opt_re r = Alt r Empty"

definition times_re :: "nat \<Rightarrow> re \<Rightarrow> re" where
  "times_re n r = cats (replicate n r)"

definition is_line_end :: "char \<Rightarrow> bool" where
  "is_line_end c \<longleftrightarrow> code c = 10 \<or> code c = 13"

definition any_char :: re where "any_char = One_of (\<lambda>c. \<not> is_line_end c)"
definition ws_re :: re where "ws_re = One_of is_ws"
definition digit_re :: re where "digit_re = One_of is_digit"
definition word_re :: re where "word_re = One_of is_word"

section \<open>What a match is\<close>

inductive reach :: "re \<Rightarrow> spot \<Rightarrow> spot \<Rightarrow> bool" where
  empty: "reach Empty x x"
| one_of: "p c \<Longrightarrow> reach (One_of p) (b, c # s) (Some c, s)"
| cat: "reach a x y \<Longrightarrow> reach b y z \<Longrightarrow> reach (Cat a b) x z"
| alt_left: "reach a x y \<Longrightarrow> reach (Alt a b) x y"
| alt_right: "reach b x y \<Longrightarrow> reach (Alt a b) x y"
| many_stop: "reach (Many a) x x"
| many_more: "reach a x y \<Longrightarrow> reach (Many a) y z \<Longrightarrow> reach (Many a) x z"
| few_stop: "reach (Few a) x x"
| few_more: "reach a x y \<Longrightarrow> reach (Few a) y z \<Longrightarrow> reach (Few a) x z"
| bound: "at_bound x \<Longrightarrow> reach Bound x x"
| bos: "reach Bos (None, s) (None, s)"
| eos: "reach Eos (b, []) (b, [])"

inductive_cases reach_manyE: "reach (Many a) x z"
inductive_cases reach_fewE: "reach (Few a) x z"

inductive_simps reach_simps [simp]:
  "reach Empty x y"
  "reach (One_of p) x y"
  "reach (Cat a b) x y"
  "reach (Alt a b) x y"
  "reach Bound x y"
  "reach Bos x y"
  "reach Eos x y"

text \<open>A match consumes a prefix of the text, and where it consumes nothing it stays where it is.\<close>

lemma reach_prefix: "reach r x y \<Longrightarrow> \<exists>u. snd x = u @ snd y \<and> (u = [] \<longrightarrow> y = x)"
proof (induction rule: reach.induct)
  case (cat a x y b z)
  then obtain u v where "snd x = u @ snd y" "u = [] \<longrightarrow> y = x" "snd y = v @ snd z" "v = [] \<longrightarrow> z = y" by blast
  then show ?case by (intro exI [of _ "u @ v"]) auto
next
  case (many_more a x y z)
  then obtain u v where "snd x = u @ snd y" "u = [] \<longrightarrow> y = x" "snd y = v @ snd z" "v = [] \<longrightarrow> z = y" by blast
  then show ?case by (intro exI [of _ "u @ v"]) auto
next
  case (few_more a x y z)
  then obtain u v where "snd x = u @ snd y" "u = [] \<longrightarrow> y = x" "snd y = v @ snd z" "v = [] \<longrightarrow> z = y" by blast
  then show ?case by (intro exI [of _ "u @ v"]) auto
qed auto

lemma reach_progress: "reach r x y \<Longrightarrow> y = x \<or> shorter x y"
  using reach_prefix [of r x y] by (auto simp: shorter_def)

lemma many_sound:
  assumes "\<And>x y. y \<in> set (f x) \<Longrightarrow> reach a x y" "y \<in> set (many n f x)"
  shows "reach (Many a) x y"
  using assms(2) by (induction n arbitrary: x) (auto intro: many_stop many_more assms(1))

lemma few_sound:
  assumes "\<And>x y. y \<in> set (f x) \<Longrightarrow> reach a x y" "y \<in> set (few n f x)"
  shows "reach (Few a) x y"
  using assms(2) by (induction n arbitrary: x) (auto intro: few_stop few_more assms(1))

lemma many_fixed [simp]: "x \<in> set (many n f x)" "x \<in> set (few n f x)"
  by (cases n; simp)+

lemma many_complete:
  assumes "\<And>x y. reach a x y \<Longrightarrow> y \<in> set (f x)" "reach (Many a) x y" "length (snd x) \<le> n"
  shows "y \<in> set (many n f x)"
proof -
  have "reach r x y \<Longrightarrow> r = Many a \<Longrightarrow> length (snd x) \<le> n \<Longrightarrow> y \<in> set (many n f x)" for r
  proof (induction arbitrary: n rule: reach.induct)
    case (many_more b x y z)
    show ?case
    proof (cases "y = x")
      case True
      with many_more show ?thesis by simp
    next
      case False
      with reach_progress many_more.hyps(1) have short: "shorter x y" by blast
      with many_more.prems(2) obtain m where m: "n = Suc m" by (cases n) (auto simp: shorter_def)
      with many_more.IH(2) [of m] many_more.prems short have "z \<in> set (many m f y)" by (simp add: shorter_def)
      moreover have "y \<in> set (f x)" using many_more.hyps(1) many_more.prems(1) assms(1) by simp
      ultimately show ?thesis using short m by (cases y) auto
    qed
  qed simp_all
  with assms(2,3) show ?thesis by blast
qed

lemma few_complete:
  assumes "\<And>x y. reach a x y \<Longrightarrow> y \<in> set (f x)" "reach (Few a) x y" "length (snd x) \<le> n"
  shows "y \<in> set (few n f x)"
proof -
  have "reach r x y \<Longrightarrow> r = Few a \<Longrightarrow> length (snd x) \<le> n \<Longrightarrow> y \<in> set (few n f x)" for r
  proof (induction arbitrary: n rule: reach.induct)
    case (few_more b x y z)
    show ?case
    proof (cases "y = x")
      case True
      with few_more show ?thesis by simp
    next
      case False
      with reach_progress few_more.hyps(1) have short: "shorter x y" by blast
      with few_more.prems(2) obtain m where m: "n = Suc m" by (cases n) (auto simp: shorter_def)
      with few_more.IH(2) [of m] few_more.prems short have "z \<in> set (few m f y)" by (simp add: shorter_def)
      moreover have "y \<in> set (f x)" using few_more.hyps(1) few_more.prems(1) assms(1) by simp
      ultimately show ?thesis using short m by (cases y) auto
    qed
  qed simp_all
  with assms(2,3) show ?thesis by blast
qed

text \<open>The matcher finds exactly the matches there are.\<close>

theorem ends_iff: "y \<in> set (ends r x) \<longleftrightarrow> reach r x y"
proof (induction r arbitrary: x y)
  case (Many r)
  show ?case
    using many_sound [of "ends r" r y _ x] many_complete [of r "ends r" x y "length (snd x)"] Many by auto
next
  case (Few r)
  show ?case
    using few_sound [of "ends r" r y _ x] few_complete [of r "ends r" x y "length (snd x)"] Few by auto
qed (auto split: list.splits if_splits, (metis prod.collapse)+)


section \<open>Facts\<close>

definition before :: "char option \<Rightarrow> string \<Rightarrow> char option" where
  "before b u = (if u = [] then b else Some (last u))"

lemma before_simps [simp]: "before b [] = b" "before b (c # u) = before (Some c) u"
  by (simp_all add: before_def)

lemma ends_some: "ends r x \<noteq> [] \<longleftrightarrow> (\<exists>y. reach r x y)"
  by (metis ends_iff list.set_intros(1) neq_Nil_conv empty_iff list.set(1))

lemma split_Cons: "(\<exists>u v. c # s = u @ v \<and> R u v) \<longleftrightarrow> R [] (c # s) \<or> (\<exists>u v. s = u @ v \<and> R (c # u) v)"
  by (simp add: Cons_eq_append_conv) blast

lemma search_iff: "search r b s \<longleftrightarrow> (\<exists>u v. s = u @ v \<and> (\<exists>y. reach r (before b u, v) y))"
  by (induction s arbitrary: b) (simp_all add: ends_some split_Cons)

lemma re_test_iff: "re_test r s \<longleftrightarrow> (\<exists>u v. s = u @ v \<and> (\<exists>y. reach r (before None u, v) y))"
  by (simp add: re_test_def search_iff)

lemma lit_simps [simp]: "lit [] = Empty" "lit (c # m) = Cat (One_of (\<lambda>x. x = c)) (lit m)"
  by (simp_all add: lit_def)

lemma reach_lit: "reach (lit m) (b, s) y \<longleftrightarrow> (\<exists>r. s = m @ r \<and> y = (before b m, r))"
  by (induction m arbitrary: b s) auto

lemma re_test_lit: "re_test (lit m) s \<longleftrightarrow> str_includes m s"
  by (auto simp: re_test_iff reach_lit str_includes_iff)

lemma re_test_alt: "re_test (Alt a b) s \<longleftrightarrow> re_test a s \<or> re_test b s"
  by (auto simp: re_test_iff)

lemma re_test_bos: "re_test (Cat Bos r) s \<longleftrightarrow> (\<exists>y. reach r (None, s) y)"
  by (force simp: re_test_iff before_def split: if_splits)

text \<open>An expression all of whose classes lie in \<open>P\<close> matches only text over \<open>P\<close>.\<close>

primrec over :: "(char \<Rightarrow> bool) \<Rightarrow> re \<Rightarrow> bool" where
  "over P Empty \<longleftrightarrow> True"
| "over P (One_of p) \<longleftrightarrow> (\<forall>c. p c \<longrightarrow> P c)"
| "over P (Cat a b) \<longleftrightarrow> over P a \<and> over P b"
| "over P (Alt a b) \<longleftrightarrow> over P a \<and> over P b"
| "over P (Many a) \<longleftrightarrow> over P a"
| "over P (Few a) \<longleftrightarrow> over P a"
| "over P Bound \<longleftrightarrow> True"
| "over P Bos \<longleftrightarrow> True"
| "over P Eos \<longleftrightarrow> True"

lemma reach_over: "reach r x y \<Longrightarrow> over P r \<Longrightarrow> \<exists>u. snd x = u @ snd y \<and> list_all P u"
proof (induction rule: reach.induct)
  case (cat a x y b z)
  then obtain u v where "snd x = u @ snd y" "list_all P u" "snd y = v @ snd z" "list_all P v" by auto
  then show ?case by (intro exI [of _ "u @ v"]) simp
next
  case (many_more a x y z)
  then obtain u v where "snd x = u @ snd y" "list_all P u" "snd y = v @ snd z" "list_all P v" by auto
  then show ?case by (intro exI [of _ "u @ v"]) simp
next
  case (few_more a x y z)
  then obtain u v where "snd x = u @ snd y" "list_all P u" "snd y = v @ snd z" "list_all P v" by auto
  then show ?case by (intro exI [of _ "u @ v"]) simp
qed auto

lemma str_includes_skip:
  assumes "str_includes (c # m) (a @ s)" "c \<notin> set a"
  shows "str_includes (c # m) s"
  using assms
proof (induction a)
  case (Cons x a)
  then show ?case by (auto simp: str_includes_iff Cons_eq_append_conv append_eq_append_conv2)
qed simp

end
