(* ===== verification/Logs.thy ===== *)
theory Logs
  imports Regex Store
begin

text \<open>
  The log panel: \<open>server/src/logs/redact.ts\<close> (the redactor that keeps prompts out of the stream),
  \<open>server/src/logs/sources.ts\<close> (where a replica's output comes from, how it is cut into lines and read) and
  \<open>server/src/http/routes/logs.ts\<close> with \<open>http/sse.ts\<close> (what the dashboard is sent). The network, the
  files of the service account, the environment and the clock are arguments. A dash outside the character
  range is written \<open>--\<close>.
\<close>

section \<open>redact.ts\<close>

definition CONTENT_MARKERS :: "re list" where
  "CONTENT_MARKERS =
     [lit ''<|im_start|>'', lit ''<|im_end|>'', lit ''<|start_header_id|>'', lit ''<|end_header_id|>'',
      lit ''<|eot_id|>'', lit ''<|endoftext|>'', lit ''<|user|>'', lit ''<|assistant|>'',
      Alt (lit ''[INST]'') (lit ''[/INST]''), Alt (lit ''<tool_call>'') (lit ''</tool_call>'')]"

definition CONTENT_BLOCK_START :: re where
  "CONTENT_BLOCK_START =
     Cat Bos (cats [Many ws_re,
       alts [lit_i ''prompt'', lit_i ''formatted prompt'', lit_i ''full prompt'', lit_i ''completion'', lit_i ''generated''],
       Many ws_re, lit '':'', Many ws_re, Eos])"

definition LOG_LINE_SHAPES :: "re list" where
  "LOG_LINE_SHAPES =
     [Cat Bos (cats [alts [lit_i ''INFO'', lit_i ''WARN'', lit_i ''WARNING'', lit_i ''ERROR'', lit_i ''DEBUG'', lit_i ''TRACE''], Bound]),
      Cat Bos (cats [lit ''['', plus_re digit_re, lit '']'']),
      Cat Bos (cats [lit ''slot'', plus_re ws_re, plus_re word_re]),
      Cat Bos (cats [plus_re word_re, lit '':'', plus_re ws_re, lit ''id'', plus_re ws_re, plus_re digit_re]),
      cats [Bound, lit ''tid='', lit [CHR 0x22], plus_re digit_re, lit [CHR 0x22]],
      Cat Bos (alts [lit ''llama_'', lit ''ggml_'', lit ''common_'', cats [lit ''srv'', ws_re]])]"

definition REDACTED :: string where
  "REDACTED = ''[content redacted -- see the Audit view, where scoped logging applies]''"

definition redactionEnabled :: "(string \<Rightarrow> string option) \<Rightarrow> bool" where
  "redactionEnabled env \<longleftrightarrow> env ''LOG_REDACT_PROMPTS'' \<noteq> Some ''false''"

definition looksLikeLogLine :: "string \<Rightarrow> bool" where
  "looksLikeLogLine text \<longleftrightarrow> list_ex (\<lambda>re. re_test re text) LOG_LINE_SHAPES"

definition hasContentMarker :: "string \<Rightarrow> bool" where
  "hasContentMarker text \<longleftrightarrow> list_ex (\<lambda>re. re_test re text) CONTENT_MARKERS"

text \<open>What the redactor decides about a line, with its flag \<open>inContentBlock\<close> before and after.\<close>

datatype verdict = Opening | Masked | Passed

definition judge :: "bool \<Rightarrow> string \<Rightarrow> verdict \<times> bool" where
  "judge inContentBlock message =
     (if re_test CONTENT_BLOCK_START message then (Opening, True)
      else if inContentBlock \<and> \<not> looksLikeLogLine message then (Masked, True)
      else if hasContentMarker message then (Masked, False)
      else (Passed, False))"

definition redact :: "bool \<Rightarrow> bool \<Rightarrow> string \<Rightarrow> string \<times> bool" where
  "redact enabled inContentBlock message =
     (if \<not> enabled then (message, inContentBlock)
      else
        (case judge inContentBlock message of
           (Opening, b) \<Rightarrow> (trim message @ '' '' @ REDACTED, b)
         | (Masked, b) \<Rightarrow> (REDACTED, b)
         | (Passed, b) \<Rightarrow> (message, b)))"

text \<open>One redactor over a stream of messages.\<close>

fun redact_all :: "bool \<Rightarrow> bool \<Rightarrow> string list \<Rightarrow> string list" where
  "redact_all enabled b [] = []"
| "redact_all enabled b (m # ms) = (case redact enabled b m of (out, b') \<Rightarrow> out # redact_all enabled b' ms)"

section \<open>sources.ts: lines\<close>

datatype level = InfoLevel | WarnLevel | ErrorLevel | DebugLevel

record log_line =
  ll_ts :: string
  ll_level :: level
  ll_source :: string
  ll_message :: string

datatype log_source = KubernetesSource | EndpointSource | NoSource

definition configuredLogSource :: "(string \<Rightarrow> string option) \<Rightarrow> log_source" where
  "configuredLogSource env =
     (let explicit = env ''LOG_SOURCE'' in
      if explicit = Some ''kubernetes'' then KubernetesSource
      else if explicit = Some ''endpoint'' then EndpointSource
      else if explicit = Some ''none'' then NoSource
      else (case env ''KUBERNETES_SERVICE_HOST'' of
              Some h \<Rightarrow> if h \<noteq> '''' then KubernetesSource else EndpointSource
            | None \<Rightarrow> EndpointSource))"

definition HEALTH_PROBE_NOISE :: re where
  "HEALTH_PROBE_NOISE =
     cats [lit [CHR 0x22], alts [lit ''GET'', lit ''HEAD''], lit '' /health'', Many (One_of (\<lambda>c. c \<noteq> CHR 0x22)),
           lit [CHR 0x22], plus_re ws_re, lit ''200'', Bound]"

definition BACKEND_STARTING :: re where
  "BACKEND_STARTING =
     cats [lit_i ''http: proxy error: dial tcp '', Many any_char, alts [lit_i ''connection refused'', lit_i ''no such host'']]"

definition timestamped :: "(bool \<times> re) list" where
  "timestamped =
     [(True, cats [times_re 4 digit_re, lit ''-'', times_re 2 digit_re, lit ''-'', times_re 2 digit_re, lit ''T'',
                   plus_re (One_of (\<lambda>c. is_digit c \<or> c = CHR '':'' \<or> c = CHR ''.'')), opt_re (lit ''Z'')]),
      (False, plus_re ws_re), (True, Many any_char), (False, Eos)]"

definition bracketed :: "(bool \<times> re) list" where
  "bracketed =
     [(False, lit ''[''), (True, alts [lit_i ''info'', lit_i ''warn'', lit_i ''warning'', lit_i ''error'', lit_i ''debug'']),
      (False, Cat (lit '']'') (Many ws_re)), (True, Many any_char), (False, Eos)]"

definition prefixed :: "(bool \<times> re) list" where
  "prefixed =
     [(True, alts [lit ''INFO'', lit ''WARN'', lit ''WARNING'', lit ''ERROR'', lit ''DEBUG'']),
      (False, plus_re ws_re), (True, Many any_char), (False, Eos)]"

definition error_words :: re where
  "error_words = cats [Bound, alts [lit_i ''error'', lit_i ''fatal'', lit_i ''panic'', lit_i ''failed'', lit_i ''exception''], Bound]"

definition warn_words :: re where
  "warn_words = cats [Bound, alts [lit_i ''warn'', lit_i ''warning'', lit_i ''retry'', lit_i ''degraded''], Bound]"

text \<open>The level a marker declares. The patterns above admit no other word.\<close>

definition declared_level :: "string \<Rightarrow> level" where
  "declared_level marker =
     (let m = to_lower marker in
      if m = ''warning'' \<or> m = ''warn'' then WarnLevel
      else if m = ''error'' then ErrorLevel else if m = ''debug'' then DebugLevel else InfoLevel)"

definition level_and_message :: "string \<Rightarrow> level \<times> string" where
  "level_and_message message =
     (case re_exec bracketed message of
        Some (m # rest) \<Rightarrow> (declared_level m, hd rest)
      | _ \<Rightarrow>
        (case re_exec prefixed message of
           Some (m # rest) \<Rightarrow> (declared_level m, hd rest)
         | _ \<Rightarrow>
           (if re_test BACKEND_STARTING message then WarnLevel
            else if re_test error_words message then ErrorLevel
            else if re_test warn_words message then WarnLevel
            else InfoLevel, message)))"

text \<open>The time stamp in front of a line, or the time of reading, and the rest.\<close>

definition line_start :: "string \<Rightarrow> string \<Rightarrow> string \<times> string" where
  "line_start now text = (case re_exec timestamped text of Some (ts # rest) \<Rightarrow> (ts, hd rest) | _ \<Rightarrow> (now, text))"

definition parseLine :: "string \<Rightarrow> string \<Rightarrow> string \<Rightarrow> log_line option" where
  "parseLine now raw source =
     (let text = trim_end raw in
      if text = '''' \<or> re_test HEALTH_PROBE_NOISE text then None
      else
        (case line_start now text of
           (ts, message0) \<Rightarrow>
             (case level_and_message message0 of
                (level, message) \<Rightarrow>
                  Some \<lparr>ll_ts = ts, ll_level = level, ll_source = source, ll_message = message\<rparr>)))"

definition level_text :: "level \<Rightarrow> string" where
  "level_text l = (case l of InfoLevel \<Rightarrow> ''info'' | WarnLevel \<Rightarrow> ''warn'' | ErrorLevel \<Rightarrow> ''error'' | DebugLevel \<Rightarrow> ''debug'')"

definition line_json :: "log_line \<Rightarrow> json" where
  "line_json l =
     JObj [(''ts'', JStr (ll_ts l)), (''level'', JStr (level_text (ll_level l))), (''source'', JStr (ll_source l)),
           (''message'', JStr (ll_message l))]"


section \<open>sources.ts: streams\<close>

text \<open>
  The buffer of \<open>pump\<close>: a read is appended to what is left over, the complete lines are taken off, and the
  last part, which has no line end yet, is kept. What is still in the buffer when the stream ends is dropped.
\<close>

definition newline :: char where
  "newline = CHR 0x0A"

definition feed :: "string \<Rightarrow> string \<Rightarrow> string list \<times> string" where
  "feed buffer read = (let parts = split_on newline (buffer @ read) in (butlast parts, last parts))"

fun cut_lines :: "string \<Rightarrow> string list \<Rightarrow> string list" where
  "cut_lines buffer [] = []"
| "cut_lines buffer (r # rs) = (case feed buffer r of (parts, buffer') \<Rightarrow> parts @ cut_lines buffer' rs)"

text \<open>What one line of the upstream yields: a parsed frame that has a message, or a parsed text line.\<close>

definition line_of_part :: "bool \<Rightarrow> string \<Rightarrow> string \<Rightarrow> string \<Rightarrow> json option" where
  "line_of_part sse source now part =
     (if sse then
        (if \<not> starts_with ''data:'' part then None
         else (case json_parse (trim (drop 5 part)) of
                 None \<Rightarrow> None
               | Some v \<Rightarrow> if jfield ''message'' v \<noteq> None then Some v else None))
      else map_option line_json (parseLine now part source))"

definition pump :: "bool \<Rightarrow> string \<Rightarrow> string \<Rightarrow> string list \<Rightarrow> json list" where
  "pump sse source now reads = List.map_filter (line_of_part sse source now) (cut_lines '''' reads)"

text \<open>\<open>String(v)\<close>, which a pattern applies to what it is given.\<close>

fun js_string :: "json \<Rightarrow> string" where
  "js_string JNull = ''null''"
| "js_string (JBool b) = (if b then ''true'' else ''false'')"
| "js_string (JNum n) = show_num n"
| "js_string (JStr s) = s"
| "js_string (JArr xs) = join '','' (map (\<lambda>x. if x = JNull then '''' else js_string x) xs)"
| "js_string (JObj kvs) = ''[object Object]''"

text \<open>
  The redactor on a frame, whose message may be any JSON value. One that is not a string has no \<open>trim\<close>: the
  call throws, \<open>pump\<close> swallows it, and the frame is lost.
\<close>

definition redact_value :: "bool \<Rightarrow> bool \<Rightarrow> json \<Rightarrow> json option \<times> bool" where
  "redact_value enabled b v =
     (case v of
        JStr s \<Rightarrow> (case redact enabled b s of (out, b') \<Rightarrow> (Some (JStr out), b'))
      | _ \<Rightarrow>
        (if \<not> enabled then (Some v, b)
         else (case judge b (js_string v) of
                 (Opening, b') \<Rightarrow> (None, b')
               | (Masked, b') \<Rightarrow> (Some (JStr REDACTED), b')
               | (Passed, b') \<Rightarrow> (Some v, b'))))"

definition set_message :: "json \<Rightarrow> json \<Rightarrow> json" where
  "set_message m v =
     (case v of JObj kvs \<Rightarrow> JObj (map (\<lambda>(k, x). if k = ''message'' then (k, m) else (k, x)) kvs) | _ \<Rightarrow> v)"

fun emit_lines :: "bool \<Rightarrow> bool \<Rightarrow> json list \<Rightarrow> json list" where
  "emit_lines enabled b [] = []"
| "emit_lines enabled b (v # vs) =
     (case redact_value enabled b (nullish (jfield ''message'' v) JNull) of
        (None, b') \<Rightarrow> emit_lines enabled b' vs
      | (Some m, b') \<Rightarrow> set_message m v # emit_lines enabled b' vs)"

text \<open>An upstream response: its status, its reads when it has a body, and the failure it ends with, if any.\<close>

record response =
  rs_status :: int
  rs_reads :: "string list option"
  rs_content_type :: "string option"
  rs_broken :: "string option"

definition rs_ok :: "response \<Rightarrow> bool" where
  "rs_ok r \<longleftrightarrow> 200 \<le> rs_status r \<and> rs_status r \<le> 299"

fun first_stream :: "(string \<Rightarrow> string + response) \<Rightarrow> string list \<Rightarrow> int \<Rightarrow> string + response" where
  "first_stream fetch [] lastStatus = Inl (''replica log endpoint returned '' @ show_int lastStatus)"
| "first_stream fetch (url # urls) lastStatus =
     (case fetch url of
        Inl e \<Rightarrow> Inl e
      | Inr res \<Rightarrow> if rs_ok res \<and> rs_reads res \<noteq> None then Inr res else first_stream fetch urls (rs_status res))"

text \<open>The lines a tail hands on, and the failure its promise ends with.\<close>

definition read_stream :: "bool \<Rightarrow> string \<Rightarrow> string \<Rightarrow> response \<Rightarrow> json list \<times> string option" where
  "read_stream sse source now res = (pump sse source now (nullish (rs_reads res) []), rs_broken res)"

definition endpoint_candidates :: "string \<Rightarrow> rat \<Rightarrow> string list" where
  "endpoint_candidates endpointUrl tail =
     [endpointUrl @ ''/logs/stream'', endpointUrl @ ''/logs?follow=true&tail='' @ show_num tail]"

definition tailFromEndpoint ::
  "(string \<Rightarrow> string + response) \<Rightarrow> string \<Rightarrow> string \<Rightarrow> string \<Rightarrow> rat \<Rightarrow> json list \<times> string option" where
  "tailFromEndpoint fetch now endpointUrl replicaId tail =
     (case first_stream fetch (endpoint_candidates endpointUrl tail) 0 of
        Inl e \<Rightarrow> ([], Some e)
      | Inr res \<Rightarrow>
          read_stream (str_includes ''text/event-stream'' (nullish (rs_content_type res) '''')) replicaId now res)"

definition uri_safe :: "char \<Rightarrow> bool" where
  "uri_safe c \<longleftrightarrow> is_lower_az c \<or> is_upper_az c \<or> is_digit c \<or> c \<in> set ''-_.!~*()'' \<or> c = CHR 0x27"

definition hex_upper :: "nat \<Rightarrow> char" where
  "hex_upper n = (if n < 10 then char_of (48 + n) else char_of (55 + n))"

definition percent :: "nat \<Rightarrow> string" where
  "percent n = [CHR ''%'', hex_upper (n div 16), hex_upper (n mod 16)]"

text \<open>The UTF-8 of a code unit below 256 has one or two bytes.\<close>

definition encode_char :: "char \<Rightarrow> string" where
  "encode_char c =
     (if uri_safe c then [c]
      else if code c < 128 then percent (code c)
      else percent (192 + code c div 64) @ percent (128 + code c mod 64))"

definition encodeURIComponent :: "string \<Rightarrow> string" where
  "encodeURIComponent s = concat (map encode_char s)"

definition shown :: "string option \<Rightarrow> string" where
  "shown v = nullish v ''undefined''"

definition pod_log_url :: "(string \<Rightarrow> string option) \<Rightarrow> string \<Rightarrow> string \<Rightarrow> rat \<Rightarrow> string" where
  "pod_log_url env namespace podName tail =
     ''https://'' @ shown (env ''KUBERNETES_SERVICE_HOST'') @ '':'' @ nullish (env ''KUBERNETES_SERVICE_PORT_HTTPS'') ''443'' @
     ''/api/v1/namespaces/'' @ trim namespace @ ''/pods/'' @ encodeURIComponent podName @
     ''/log?follow=true&timestamps=true&tailLines='' @ show_num tail"

definition service_account :: string where
  "service_account = ''/var/run/secrets/kubernetes.io/serviceaccount''"

text \<open>\<open>fetch\<close> is given the bearer token beside the address; the body of a refusal is \<open>rs_reads\<close> too.\<close>

definition tailFromKubernetes ::
  "(string \<Rightarrow> string option) \<Rightarrow> (string \<Rightarrow> string + string) \<Rightarrow> (string \<Rightarrow> string \<Rightarrow> string + response) \<Rightarrow>
   string \<Rightarrow> string \<Rightarrow> rat \<Rightarrow> json list \<times> string option" where
  "tailFromKubernetes env readFile fetch now podName tail =
     (case readFile (service_account @ ''/token'') of
        Inl e \<Rightarrow> ([], Some e)
      | Inr token \<Rightarrow>
        (case (case env ''POD_NAMESPACE'' of
                 Some ns \<Rightarrow> if ns \<noteq> '''' then Inr ns else readFile (service_account @ ''/namespace'')
               | None \<Rightarrow> readFile (service_account @ ''/namespace'')) of
           Inl e \<Rightarrow> ([], Some e)
         | Inr namespace \<Rightarrow>
           (case fetch (''Bearer '' @ trim token) (pod_log_url env namespace podName tail) of
              Inl e \<Rightarrow> ([], Some e)
            | Inr res \<Rightarrow>
                if \<not> rs_ok res \<or> rs_reads res = None
                then ([], Some (''kubernetes pod log request returned '' @ show_int (rs_status res) @ '': '' @
                                take 200 (concat (nullish (rs_reads res) []))))
                else read_stream False podName now res)))"

record log_env =
  le_env :: "string \<Rightarrow> string option"
  le_readFile :: "string \<Rightarrow> string + string"
  le_fetch :: "string \<Rightarrow> string + response"
  le_fetch_as :: "string \<Rightarrow> string \<Rightarrow> string + response"
  le_now :: string

text \<open>Either the reason why there is no stream, or what it emits and how it ends.\<close>

definition tailReplicaLogs :: "log_env \<Rightarrow> string \<Rightarrow> rat \<Rightarrow> db \<Rightarrow> string + (json list \<times> string option)" where
  "tailReplicaLogs le replicaId tail d =
     (let kind = configuredLogSource (le_env le) in
      if kind = NoSource then Inl ''Log streaming is disabled (LOG_SOURCE=none).''
      else
        (case replica_by d replicaId of
           None \<Rightarrow> Inl (''No replica '' @ [CHR 0x22] @ replicaId @ [CHR 0x22] @ '' is currently registered.'')
         | Some row \<Rightarrow>
             (case (if kind = KubernetesSource
                    then tailFromKubernetes (le_env le) (le_readFile le) (le_fetch_as le) (le_now le) replicaId tail
                    else tailFromEndpoint (le_fetch le) (le_now le) (rp_endpoint_url row) replicaId tail) of
                (lines, fin) \<Rightarrow> Inr (emit_lines (redactionEnabled (le_env le)) False lines, fin))))"

section \<open>The route\<close>

definition source_text :: "log_source \<Rightarrow> string" where
  "source_text s = (case s of KubernetesSource \<Rightarrow> ''kubernetes'' | EndpointSource \<Rightarrow> ''endpoint'' | NoSource \<Rightarrow> ''none'')"

definition notice :: "string \<Rightarrow> level \<Rightarrow> string \<Rightarrow> json" where
  "notice now lv message =
     line_json \<lparr>ll_ts = now, ll_level = lv, ll_source = ''controldeck'', ll_message = message\<rparr>"

text \<open>\<open>Number(tail ?? 50) || 50\<close>\<close>

definition tail_param :: "string option \<Rightarrow> rat" where
  "tail_param q = (case q of None \<Rightarrow> 50 | Some s \<Rightarrow> (case js_number s of Some n \<Rightarrow> if n = 0 then 50 else n | None \<Rightarrow> 50))"

text \<open>The frames the dashboard is sent. \<open>gone\<close>: it has left before the upstream ended.\<close>

definition logsRoute :: "log_env \<Rightarrow> string \<Rightarrow> string option \<Rightarrow> bool \<Rightarrow> db \<Rightarrow> json list" where
  "logsRoute le replicaId tail gone d =
     (case tailReplicaLogs le replicaId (tail_param tail) d of
        Inl detail \<Rightarrow>
          [notice (le_now le) ErrorLevel
             (''Could not attach to logs for '' @ replicaId @ '' (source: '' @ source_text (configuredLogSource (le_env le)) @
              ''). '' @ detail)]
      | Inr (lines, fin) \<Rightarrow>
          lines @
          (if gone then []
           else (case fin of
                   None \<Rightarrow> [notice (le_now le) WarnLevel
                              ''Log stream ended -- the replica may have been restarted or scaled down.'']
                 | Some detail \<Rightarrow> [notice (le_now le) ErrorLevel (''Log stream failed: '' @ detail)])))"

text \<open>The head of an event stream: what the plugins prepared, with the stream's own fields over it.\<close>

definition sse_fields :: "(string \<times> string) list" where
  "sse_fields =
     [(''content-type'', ''text/event-stream''), (''cache-control'', ''no-cache''), (''connection'', ''keep-alive''),
      (''x-accel-buffering'', ''no'')]"

definition writeSseHead :: "(string \<times> string) list \<Rightarrow> (string \<times> string) list" where
  "writeSseHead prepared = fold (\<lambda>(k, v). AList.update k v) sse_fields prepared"


section \<open>Facts\<close>

lemma cut_lines_spec:
  "newline \<notin> set buffer \<Longrightarrow> cut_lines buffer reads = butlast (split_on newline (buffer @ concat reads))"
proof (induction reads arbitrary: buffer)
  case Nil
  then show ?case by (simp add: split_on_no_sep_id)
next
  case (Cons r rs)
  let ?P = "split_on newline (buffer @ r)" and ?S = "split_on newline (concat rs)"
  have last: "newline \<notin> set (last ?P)" by (rule split_on_no_sep [of _ _ "buffer @ r"]) (simp add: last_in_set)
  then have "split_on newline (last ?P @ concat rs) = (last ?P @ hd ?S) # tl ?S"
    by (subst split_on_append) (simp add: split_on_no_sep_id)
  then have "split_on newline ((buffer @ r) @ concat rs) = butlast ?P @ split_on newline (last ?P @ concat rs)"
    by (subst split_on_append) simp
  then show ?case using Cons.IH [OF last] by (simp add: feed_def Let_def butlast_append)
qed

text \<open>The flag of the redactor after a prefix of the stream.\<close>

definition in_block :: "bool \<Rightarrow> string list \<Rightarrow> bool" where
  "in_block b ms = fold (\<lambda>m b. snd (judge b m)) ms b"

lemma in_block_simps [simp]:
  "in_block b [] = b" "in_block b (m # ms) = in_block (snd (judge b m)) ms"
  "in_block b (ms @ ns) = in_block (in_block b ms) ns"
  by (simp_all add: in_block_def)

lemma snd_judge: "snd (judge b m) \<longleftrightarrow> re_test CONTENT_BLOCK_START m \<or> (b \<and> \<not> looksLikeLogLine m)"
  by (simp add: judge_def)

lemma snd_redact: "snd (redact True b m) = snd (judge b m)"
  by (simp add: redact_def split: prod.split verdict.split)

lemma length_redact_all [simp]: "length (redact_all e b ms) = length ms"
  by (induction ms arbitrary: b) (simp_all split: prod.split)

lemma redact_all_nth:
  "i < length ms \<Longrightarrow> redact_all True b ms ! i = fst (redact True (in_block b (take i ms)) (ms ! i))"
proof (induction ms arbitrary: b i)
  case (Cons m ms)
  then show ?case using snd_redact [of b m] by (cases i) (auto split: prod.splits)
qed simp

text \<open>A dump is open at a place when a line before it opened one and no log line has closed it since.\<close>

definition dump_open :: "string list \<Rightarrow> nat \<Rightarrow> bool" where
  "dump_open ms i \<longleftrightarrow>
     (\<exists>j < i. re_test CONTENT_BLOCK_START (ms ! j) \<and>
        (\<forall>k. j < k \<and> k < i \<longrightarrow> re_test CONTENT_BLOCK_START (ms ! k) \<or> \<not> looksLikeLogLine (ms ! k)))"

lemma dump_open_Suc:
  "dump_open ms (Suc i) \<longleftrightarrow>
   re_test CONTENT_BLOCK_START (ms ! i) \<or> (dump_open ms i \<and> \<not> looksLikeLogLine (ms ! i))"
  unfolding dump_open_def by (auto simp: less_Suc_eq)

lemma in_block_dump: "i \<le> length ms \<Longrightarrow> in_block False (take i ms) \<longleftrightarrow> dump_open ms i"
proof (induction i)
  case 0
  then show ?case by (simp add: dump_open_def)
next
  case (Suc i)
  then show ?case by (simp add: take_Suc_conv_app_nth snd_judge dump_open_Suc)
qed


text \<open>The lines that open a dump are made of blanks, letters and colons.\<close>

definition plain :: "char \<Rightarrow> bool" where
  "plain c \<longleftrightarrow> c \<noteq> CHR ''<'' \<and> c \<noteq> CHR ''[''"

lemma over_defs: "over P (lit s) \<longleftrightarrow> list_all P s"
  "over P (lit_i s) \<longleftrightarrow> list_all (\<lambda>c. \<forall>x. lower_char x = lower_char c \<longrightarrow> P x) s"
  "over P (cats rs) \<longleftrightarrow> list_all (over P) rs"
  by (induction s) (simp_all add: lit_i_def, induction rs, simp_all add: cats_def)

lemma plain_ws: "is_ws c \<Longrightarrow> plain c"
  by (auto simp: is_ws_def plain_def code_def)

lemma lower_small: "is_lower_az c \<or> c = CHR '' '' \<Longrightarrow> lower_char c = c"
  by (auto simp: lower_char_def is_lower_az_def code_def Let_def)

lemma plain_letters:
  assumes "list_all (\<lambda>c. is_lower_az c \<or> c = CHR '' '') s"
  shows "over plain (lit_i s)"
proof -
  have "plain x" if "lower_char x = lower_char c" and c: "is_lower_az c \<or> c = CHR '' ''" for x c
  proof (rule ccontr)
    assume "\<not> plain x"
    then consider "x = CHR ''<''" | "x = CHR ''[''" by (auto simp: plain_def)
    moreover have "lower_char CHR ''<'' = CHR ''<''" "lower_char CHR ''['' = CHR ''[''"
      "\<not> is_lower_az CHR ''<''" "\<not> is_lower_az CHR ''[''" by code_simp+
    ultimately show False using that lower_small [OF c] by cases auto
  qed
  with assms show ?thesis unfolding over_defs(2) by (auto simp: list_all_iff)
qed

lemma opening_plain: "re_test CONTENT_BLOCK_START m \<Longrightarrow> list_all plain m"
proof -
  let ?r = "cats [Many ws_re, alts [lit_i ''prompt'', lit_i ''formatted prompt'', lit_i ''full prompt'', lit_i ''completion'',
      lit_i ''generated''], Many ws_re, lit '':'', Many ws_re, Eos]"
  assume "re_test CONTENT_BLOCK_START m"
  then obtain y where y: "reach ?r (None, m) y" by (auto simp: CONTENT_BLOCK_START_def re_test_bos)
  then have fin: "snd y = ''''" by (auto simp: cats_def)
  have letters: "over plain (lit_i ''prompt'')" "over plain (lit_i ''formatted prompt'')" "over plain (lit_i ''full prompt'')"
    "over plain (lit_i ''completion'')" "over plain (lit_i ''generated'')"
    by (rule plain_letters, code_simp)+
  have "over plain ?r"
    by (simp add: over_defs(1,3) letters ws_re_def plain_ws) (simp add: plain_def)
  from reach_over [OF y this] fin show ?thesis by auto
qed


definition marker_texts :: "string list" where
  "marker_texts =
     [''<|im_start|>'', ''<|im_end|>'', ''<|start_header_id|>'', ''<|end_header_id|>'', ''<|eot_id|>'', ''<|endoftext|>'',
      ''<|user|>'', ''<|assistant|>'', ''[INST]'', ''[/INST]'', ''<tool_call>'', ''</tool_call>'']"

lemma hasContentMarker_iff: "hasContentMarker t \<longleftrightarrow> list_ex (\<lambda>m. str_includes m t) marker_texts"
  by (simp add: hasContentMarker_def CONTENT_MARKERS_def marker_texts_def re_test_lit re_test_alt del: lit_simps)

lemma REDACTED_plain: "\<not> hasContentMarker REDACTED"
  by code_simp

lemma opening_masked:
  assumes "list_all plain m"
  shows "\<not> hasContentMarker (trim m @ '' '' @ REDACTED)"
proof
  assume "hasContentMarker (trim m @ '' '' @ REDACTED)"
  then obtain t where t: "t \<in> set marker_texts" "str_includes t ((trim m @ '' '') @ REDACTED)"
    by (auto simp: hasContentMarker_iff list_ex_iff)
  have heads: "list_all (\<lambda>t. t \<noteq> [] \<and> \<not> plain (hd t)) marker_texts" by code_simp
  have "t \<noteq> [] \<and> \<not> plain (hd t)" by (rule bspec [OF heads [unfolded list_all_iff] t(1)])
  then obtain c r where cr: "t = c # r" "\<not> plain c" by (cases t) auto
  have "list_all plain (trim m @ '' '')"
    using assms set_trim [of m] by (auto simp: list_all_iff plain_def)
  with cr(2) have "c \<notin> set (trim m @ '' '')" by (auto simp: list_all_iff)
  from str_includes_skip [OF t(2) [unfolded cr(1)] this] t(1) cr(1) REDACTED_plain show False
    by (auto simp: hasContentMarker_iff list_ex_iff)
qed

lemma redact_no_marker: "\<not> hasContentMarker (fst (redact True b m))"
  using opening_masked [OF opening_plain, of m] REDACTED_plain
  by (auto simp: redact_def judge_def)

lemma redact_value_no_marker:
  "fst (redact_value True b v) = Some w \<Longrightarrow> \<not> hasContentMarker (js_string w)"
  using redact_no_marker [of b] REDACTED_plain
  by (cases v) (auto simp: redact_value_def judge_def split: prod.splits if_splits, metis fst_conv)

lemma jfield_set_message:
  "jfield ''message'' v \<noteq> None \<Longrightarrow> jfield ''message'' (set_message m v) = Some m"
proof (cases v)
  case (JObj kvs)
  assume "jfield ''message'' v \<noteq> None"
  then show ?thesis unfolding JObj set_message_def by (induction kvs) (auto split: prod.splits if_splits)
qed (simp_all add: jfield_def)

lemma emit_lines_no_marker:
  assumes "\<forall>v \<in> set vs. jfield ''message'' v \<noteq> None" "w \<in> set (emit_lines True b vs)"
  shows "\<exists>m. jfield ''message'' w = Some m \<and> \<not> hasContentMarker (js_string m)"
  using assms
proof (induction vs arbitrary: b)
  case (Cons v vs)
  obtain r b' where red: "redact_value True b (nullish (jfield ''message'' v) JNull) = (r, b')" by fastforce
  show ?case
  proof (cases r)
    case None
    with Cons red show ?thesis by auto
  next
    case (Some m)
    with redact_value_no_marker [of b "nullish (jfield ''message'' v) JNull" m] red
    have "\<not> hasContentMarker (js_string m)" by simp
    with jfield_set_message [of v m] Cons red Some show ?thesis by auto
  qed
qed simp

lemma pump_messages: "v \<in> set (pump sse source now reads) \<Longrightarrow> jfield ''message'' v \<noteq> None"
  by (auto simp: pump_def List.map_filter_def line_of_part_def line_json_def split: if_splits option.splits)

lemma read_stream_messages: "v \<in> set (fst (read_stream sse source now res)) \<Longrightarrow> jfield ''message'' v \<noteq> None"
  by (auto simp: read_stream_def dest: pump_messages)

lemma tail_messages:
  "v \<in> set (fst (tailFromEndpoint fetch now url rid tail)) \<Longrightarrow> jfield ''message'' v \<noteq> None"
  "v \<in> set (fst (tailFromKubernetes env readFile fetch' now rid tail)) \<Longrightarrow> jfield ''message'' v \<noteq> None"
  by (auto simp: tailFromEndpoint_def tailFromKubernetes_def dest!: read_stream_messages
      split: sum.splits if_splits option.splits)


lemma pieces_Cons:
  "gs \<in> set (pieces ((capt, r) # ps) x) \<longleftrightarrow>
   (\<exists>y hs. reach r x y \<and> hs \<in> set (pieces ps y) \<and> gs = (if capt then between x y # hs else hs))"
proof -
  have "gs \<in> set (pieces ((capt, r) # ps) x) \<longleftrightarrow>
      (\<exists>y \<in> {y. reach r x y}. gs \<in> (\<lambda>hs. if capt then between x y # hs else hs) ` set (pieces ps y))"
    using ends_iff [of _ r x] by (simp only: pieces.simps set_concat set_map image_image UN_iff mem_Collect_eq) blast
  then show ?thesis by (simp only: image_iff bex_simps) blast
qed

text \<open>A trailing capture is a suffix of the text, a leading one a prefix.\<close>

lemma pieces_suffix:
  "gs \<in> set (pieces (ps @ [(True, r), (False, Eos)]) x) \<Longrightarrow> gs \<noteq> [] \<and> (\<exists>pre. snd x = pre @ last gs)"
proof (induction ps arbitrary: gs x)
  case Nil
  then show ?case by (auto simp: between_def split: if_splits)
next
  case (Cons p ps)
  obtain capt q where p: "p = (capt, q)" by fastforce
  with Cons.prems obtain y hs where y: "reach q x y" and hs: "hs \<in> set (pieces (ps @ [(True, r), (False, Eos)]) y)"
    and gs: "gs = (if capt then between x y # hs else hs)" by (auto simp: pieces_Cons simp del: pieces.simps)
  from reach_prefix [OF y] obtain u where "snd x = u @ snd y" by blast
  with Cons.IH [OF hs] gs show ?case by auto
qed

lemma pieces_prefix:
  assumes "gs \<in> set (pieces ((True, r) # ps) x)"
  shows "\<exists>rest. snd x = hd gs @ rest"
proof -
  from assms obtain y where "reach r x y" and gs: "hd gs = between x y" by (auto simp: pieces_Cons simp del: pieces.simps)
  with reach_prefix [of r x y] obtain u where "snd x = u @ snd y" by blast
  with gs show ?thesis by (simp add: between_def)
qed

lemma length_pieces: "gs \<in> set (pieces ps x) \<Longrightarrow> length gs = length (filter fst ps)"
  by (induction ps arbitrary: x gs) (auto split: if_splits)

lemma re_exec_Some: "re_exec ps s = Some gs \<Longrightarrow> gs \<in> set (pieces ps (None, s))"
  by (auto simp: re_exec_def split: list.splits)

lemma re_exec_line:
  assumes "re_exec (ps @ [(True, r), (False, Eos)]) s = Some gs" "length (filter fst ps) = 1"
  shows "\<exists>a b pre. gs = [a, b] \<and> s = pre @ b"
proof -
  note gs = re_exec_Some [OF assms(1)]
  from length_pieces [OF gs] assms(2) have "length gs = 2" by simp
  then obtain a b where "gs = [a, b]" by (auto simp: numeral_2_eq_2 length_Suc_conv)
  with pieces_suffix [OF gs] show ?thesis by auto
qed

lemma line_patterns:
  "timestamped = take 2 timestamped @ [(True, Many any_char), (False, Eos)]"
  "bracketed = take 3 bracketed @ [(True, Many any_char), (False, Eos)]"
  "prefixed = take 2 prefixed @ [(True, Many any_char), (False, Eos)]"
  by (simp_all add: timestamped_def bracketed_def prefixed_def)

lemma level_and_message_suffix: "\<exists>pre. message = pre @ snd (level_and_message message)"
proof -
  have b: "\<exists>a b pre. gs = [a, b] \<and> message = pre @ b" if "re_exec bracketed message = Some gs" for gs
    by (rule re_exec_line [of "take 3 bracketed" "Many any_char"]) (use that line_patterns(2) in \<open>simp_all add: bracketed_def\<close>)
  have p: "\<exists>a b pre. gs = [a, b] \<and> message = pre @ b" if "re_exec prefixed message = Some gs" for gs
    by (rule re_exec_line [of "take 2 prefixed" "Many any_char"]) (use that line_patterns(3) in \<open>simp_all add: prefixed_def\<close>)
  show ?thesis
    using b p by (auto simp: level_and_message_def split: option.split list.split) (metis append_Nil snd_conv)+
qed

lemma timestamped_parts:
  assumes "re_exec timestamped text = Some gs"
  shows "\<exists>a b pre rest. gs = [a, b] \<and> text = pre @ b \<and> text = a @ rest"
proof -
  have "\<exists>a b pre. gs = [a, b] \<and> text = pre @ b"
    by (rule re_exec_line [of "take 2 timestamped" "Many any_char"]) (use assms line_patterns(1) in \<open>simp_all add: timestamped_def\<close>)
  moreover obtain r ps where "timestamped = (True, r) # ps" by (simp add: timestamped_def)
  with pieces_prefix [of gs r ps "(None, text)"] re_exec_Some [OF assms] have "\<exists>rest. text = hd gs @ rest" by simp
  ultimately show ?thesis by (metis list.sel(1))
qed

lemma trim_end_prefix: "\<exists>rest. s = trim_end s @ rest"
  unfolding trim_end_def by (metis rev_append rev_rev_ident takeWhile_dropWhile_id)

lemma over_build:
  "over P (plus_re r) \<longleftrightarrow> over P r" "over P (opt_re r) \<longleftrightarrow> over P r" "over P (times_re (Suc n) r) \<longleftrightarrow> over P r"
proof -
  show "over P (times_re (Suc n) r) \<longleftrightarrow> over P r" by (induction n) (auto simp: times_re_def over_defs)
qed (simp_all add: plus_re_def opt_re_def)

lemma plain_no_marker: "list_all plain m \<Longrightarrow> \<not> hasContentMarker m"
proof
  assume "list_all plain m" "hasContentMarker m"
  then obtain t where t: "t \<in> set marker_texts" "str_includes t (m @ [])"
    by (auto simp: hasContentMarker_iff list_ex_iff)
  have heads: "list_all (\<lambda>t. t \<noteq> [] \<and> \<not> plain (hd t)) marker_texts" by code_simp
  have "t \<noteq> [] \<and> \<not> plain (hd t)" by (rule bspec [OF heads [unfolded list_all_iff] t(1)])
  then obtain c r where cr: "t = c # r" "\<not> plain c" by (cases t) auto
  with \<open>list_all plain m\<close> have "c \<notin> set m" by (auto simp: list_all_iff)
  from str_includes_skip [OF t(2) [unfolded cr(1)] this] show False by simp
qed

text \<open>A time stamp that is taken off a line carries no marker, and a text line is nothing but its four fields.\<close>

lemma timestamp_plain:
  assumes "re_exec timestamped text = Some (ts # rest)"
  shows "list_all plain ts"
proof -
  let ?r = "cats [times_re 4 digit_re, lit ''-'', times_re 2 digit_re, lit ''-'', times_re 2 digit_re, lit ''T'',
      plus_re (One_of (\<lambda>c. is_digit c \<or> c = CHR '':'' \<or> c = CHR ''.'')), opt_re (lit ''Z'')]"
  have dig: "over plain digit_re"
    by (auto simp: digit_re_def plain_def is_digit_def code_def)
  have "over plain ?r"
    using dig over_build(3) [of plain 3 digit_re] over_build(3) [of plain 1 digit_re]
    by (auto simp: over_defs over_build(1,2) numeral_2_eq_2 eval_nat_numeral plain_def is_digit_def code_def)
  moreover from re_exec_Some [OF assms] obtain y where "reach ?r (None, text) y" "ts = between (None, text) y"
    unfolding timestamped_def by (auto simp: pieces_Cons simp del: pieces.simps)
  ultimately obtain u where "text = u @ snd y" "list_all plain u" using reach_over by fastforce
  with \<open>ts = between (None, text) y\<close> show ?thesis by (simp add: between_def)
qed

lemma parseLine_fields:
  assumes "parseLine now part source = Some l"
  shows "ll_source l = source \<and> (ll_ts l = now \<or> list_all plain (ll_ts l))"
  using assms timestamp_plain
  by (auto simp: parseLine_def line_start_def Let_def split: if_splits prod.splits option.splits list.splits)

definition text_line :: "string \<Rightarrow> string \<Rightarrow> json \<Rightarrow> bool" where
  "text_line source now v \<longleftrightarrow> (\<exists>l. v = line_json l \<and> ll_source l = source \<and> (ll_ts l = now \<or> list_all plain (ll_ts l)))"

lemma pump_text_lines: "v \<in> set (pump False source now reads) \<Longrightarrow> text_line source now v"
  using parseLine_fields
  by (fastforce simp: pump_def List.map_filter_def line_of_part_def text_line_def)

lemma emit_text_lines:
  "\<forall>v \<in> set vs. text_line source now v \<Longrightarrow> w \<in> set (emit_lines True b vs) \<Longrightarrow>
   \<exists>l. w = line_json l \<and> \<not> hasContentMarker (ll_message l) \<and> ll_source l = source \<and> (ll_ts l = now \<or> list_all plain (ll_ts l))"
proof (induction vs arbitrary: b)
  case (Cons v vs)
  then obtain l where l: "v = line_json l" "ll_source l = source" "ll_ts l = now \<or> list_all plain (ll_ts l)"
    by (auto simp: text_line_def)
  obtain out b' where red: "redact True b (ll_message l) = (out, b')" by fastforce
  with redact_no_marker [of b "ll_message l"] have "\<not> hasContentMarker out" by simp
  moreover have "jfield ''message'' v = Some (JStr (ll_message l))" "set_message (JStr out) v = line_json (l\<lparr>ll_message := out\<rparr>)"
    by (simp_all add: l(1) line_json_def jfield_def set_message_def)
  ultimately show ?case
    using Cons red l(2,3) by (auto simp: redact_value_def intro: exI [of _ "l\<lparr>ll_message := out\<rparr>"])
qed simp

section \<open>Properties\<close>

text \<open>
  C24: The redactor with its one flag is the redactor by position: a line that opens a dump is cut down to its
  name, a line inside a dump that is still open is masked, a line with a content marker is masked wherever it
  stands, and every other line, the operational ones, is shown as it is.
\<close>
theorem redactor_by_position:
  "redact_all True False ms =
   map (\<lambda>i. if re_test CONTENT_BLOCK_START (ms ! i) then trim (ms ! i) @ '' '' @ REDACTED
            else if (dump_open ms i \<and> \<not> looksLikeLogLine (ms ! i)) \<or> hasContentMarker (ms ! i) then REDACTED
            else ms ! i)
     [0..<length ms]"
proof (rule nth_equalityI)
  fix i
  assume "i < length (redact_all True False ms)"
  then show "redact_all True False ms ! i =
      map (\<lambda>i. if re_test CONTENT_BLOCK_START (ms ! i) then trim (ms ! i) @ '' '' @ REDACTED
               else if (dump_open ms i \<and> \<not> looksLikeLogLine (ms ! i)) \<or> hasContentMarker (ms ! i) then REDACTED
               else ms ! i) [0..<length ms] ! i"
    using in_block_dump [of i ms] by (simp add: redact_all_nth redact_def judge_def)
qed simp

text \<open>
  C23: With redaction on, whatever a replica prints, the message of a log line that the panel is sent, read as text, has no
  chat-template or tool-call marker. From the Kubernetes API, the source of a cluster, a line is nothing but such a
  message, a level, the name of the pod, and a time: the moment of reading or a stamp without a marker. (The other fields
  of a frame that a replica sends itself are passed on as they are.)
\<close>
theorem log_panel_hides_content:
  assumes "tailReplicaLogs le replicaId tail d = Inr (lines, fin)" "redactionEnabled (le_env le)" "v \<in> set lines"
  shows "(\<exists>m. jfield ''message'' v = Some m \<and> \<not> hasContentMarker (js_string m)) \<and>
    (configuredLogSource (le_env le) = KubernetesSource \<longrightarrow>
       (\<exists>l. v = line_json l \<and> \<not> hasContentMarker (ll_message l) \<and> ll_source l = replicaId \<and>
          (ll_ts l = le_now le \<or> \<not> hasContentMarker (ll_ts l))))"
proof
  from assms(1,2) obtain vs where "lines = emit_lines True False vs" "\<forall>v \<in> set vs. jfield ''message'' v \<noteq> None"
    using tail_messages by (auto simp: tailReplicaLogs_def Let_def split: if_splits option.splits prod.splits, (metis fst_conv)+)
  with emit_lines_no_marker assms(3) show "\<exists>m. jfield ''message'' v = Some m \<and> \<not> hasContentMarker (js_string m)" by metis
  show "configuredLogSource (le_env le) = KubernetesSource \<longrightarrow>
       (\<exists>l. v = line_json l \<and> \<not> hasContentMarker (ll_message l) \<and> ll_source l = replicaId \<and>
          (ll_ts l = le_now le \<or> \<not> hasContentMarker (ll_ts l)))"
  proof
    assume kube: "configuredLogSource (le_env le) = KubernetesSource"
    let ?up = "tailFromKubernetes (le_env le) (le_readFile le) (le_fetch_as le) (le_now le) replicaId tail"
    have "lines = emit_lines True False (fst ?up)"
      using assms(1,2) kube by (auto simp: tailReplicaLogs_def Let_def split: option.splits prod.splits)
    moreover have "\<forall>v \<in> set (fst ?up). text_line replicaId (le_now le) v"
      by (auto simp: tailFromKubernetes_def read_stream_def dest: pump_text_lines split: sum.splits if_splits option.splits)
    ultimately show "\<exists>l. v = line_json l \<and> \<not> hasContentMarker (ll_message l) \<and> ll_source l = replicaId \<and>
          (ll_ts l = le_now le \<or> \<not> hasContentMarker (ll_ts l))"
      using emit_text_lines [of "fst ?up" replicaId "le_now le" v False] assms(3) plain_no_marker by metis
  qed
qed

text \<open>A frame's own name of its source reaches the panel with its marker.\<close>

lemma framed_source_unmasked:
  "emit_lines True False [JObj [(''source'', JStr ''<|user|>''), (''message'', JStr ''idle'')]] =
   [JObj [(''source'', JStr ''<|user|>''), (''message'', JStr ''idle'')]]"
  by code_simp

definition ex_log_env :: log_env where
  "ex_log_env =
     \<lparr>le_env = (\<lambda>k. None), le_readFile = (\<lambda>f. Inl ''no such file''),
      le_fetch = (\<lambda>url. if url = ''http://p0/logs/stream''
                       then Inr \<lparr>rs_status = 200, rs_reads = Some [''<|us'', ''er|>'' @ [newline]],
                                 rs_content_type = Some ''text/plain'', rs_broken = None\<rparr>
                       else Inl ''refused''),
      le_fetch_as = (\<lambda>t url. Inl ''refused''), le_now = ''now''\<rparr>"

definition ex_log_db :: db where
  "ex_log_db = empty_db\<lparr>replicas := [\<lparr>rp_id = ''p0'', rp_model_id = ''m'', rp_status = Ready, rp_in_flight = 0, rp_load_pct = 0,
     rp_tokens_per_sec = None, rp_tokens_per_sec_at = None, rp_endpoint_url = ''http://p0'', rp_max_concurrency = 1,
     rp_cpu_millicores = None, rp_memory_bytes = None, rp_restart_count = 0, rp_last_seen_at = None, rp_updated_at = 0\<rparr>]\<rparr>"

lemma log_panel_hides_content_witness:
  "let v = JObj [(''ts'', JStr ''now''), (''level'', JStr ''info''), (''source'', JStr ''p0''), (''message'', JStr REDACTED)] in
   (\<exists>rest. tailReplicaLogs ex_log_env ''p0'' 50 ex_log_db = Inr (v # rest, None)) \<and>
   (\<exists>m. jfield ''message'' v = Some m \<and> \<not> hasContentMarker (js_string m))"
proof -
  let ?v = "JObj [(''ts'', JStr ''now''), (''level'', JStr ''info''), (''source'', JStr ''p0''), (''message'', JStr REDACTED)]"
  let ?raw = "JObj [(''ts'', JStr ''now''), (''level'', JStr ''info''), (''source'', JStr ''p0''), (''message'', JStr ''<|user|>'')]"
  have pumped: "pump False ''p0'' ''now'' [''<|us'', ''er|>'' @ [newline]] = [?raw]"
    and masked: "emit_lines True False [?raw] = [?v]"
    and here: "replica_by ex_log_db ''p0'' = Some (hd (replicas ex_log_db))" "rp_endpoint_url (hd (replicas ex_log_db)) = ''http://p0''"
    and plain: "str_includes ''text/event-stream'' ''text/plain'' = False" by code_simp+
  have "tailFromEndpoint (le_fetch ex_log_env) ''now'' ''http://p0'' ''p0'' 50 = ([?raw], None)"
    using pumped plain
    by (simp add: tailFromEndpoint_def endpoint_candidates_def ex_log_env_def rs_ok_def read_stream_def)
  moreover have "configuredLogSource (le_env ex_log_env) = EndpointSource" "redactionEnabled (le_env ex_log_env)" "le_now ex_log_env = ''now''"
    by (simp_all add: configuredLogSource_def redactionEnabled_def ex_log_env_def)
  ultimately have run: "tailReplicaLogs ex_log_env ''p0'' 50 ex_log_db = Inr ([?v], None)"
    using here masked by (simp add: tailReplicaLogs_def)
  have "redactionEnabled (le_env ex_log_env)" by code_simp
  from log_panel_hides_content [OF run this, of ?v] run show ?thesis by (simp add: Let_def)
qed

text \<open>
  How the network cuts a log stream makes no difference: the lines of the stream are the complete lines of
  the whole text, each once and in order. Only what follows the last line end is not shown.\<close>
theorem pump_reads_irrelevant:
  "pump sse source now reads =
     List.map_filter (line_of_part sse source now) (butlast (split_on newline (concat reads))) \<and>
   pump sse source now reads = pump sse source now [concat reads]"
  using cut_lines_spec [of "[]" reads] cut_lines_spec [of "[]" "[concat reads]"]
  by (simp add: pump_def del: cut_lines.simps)

text \<open>
  A log line is never made up. It is dropped exactly when it is blank or a successful health probe;
  otherwise its message is an end piece of what the container printed, and its time stamp is the one in front of
  the line, or, where there is none, the time of reading.\<close>
theorem parseLine_faithful:
  "case parseLine now raw source of
     None \<Rightarrow> trim_end raw = '''' \<or> re_test HEALTH_PROBE_NOISE (trim_end raw)
   | Some l \<Rightarrow>
       trim_end raw \<noteq> '''' \<and> \<not> re_test HEALTH_PROBE_NOISE (trim_end raw) \<and> ll_source l = source \<and>
       (\<exists>pre. trim_end raw = pre @ ll_message l) \<and> (ll_ts l = now \<or> (\<exists>rest. raw = ll_ts l @ rest))"
proof (cases "trim_end raw = '''' \<or> re_test HEALTH_PROBE_NOISE (trim_end raw)")
  case False
  let ?text = "trim_end raw"
  obtain tail where tail: "raw = ?text @ tail" using trim_end_prefix by blast
  define start where "start = line_start now ?text"
  have "(\<exists>pre. ?text = pre @ snd start) \<and> (fst start = now \<or> (\<exists>rest. ?text = fst start @ rest))"
  proof (cases "re_exec timestamped ?text")
    case (Some gs)
    from timestamped_parts [OF Some] obtain a b pre rest where "gs = [a, b]" "?text = pre @ b" "?text = a @ rest" by blast
    with Some have "snd start = b" "fst start = a" by (simp_all add: start_def line_start_def)
    with \<open>?text = pre @ b\<close> \<open>?text = a @ rest\<close> show ?thesis by blast
  qed (simp add: start_def line_start_def)
  moreover obtain pre where "snd start = pre @ snd (level_and_message (snd start))"
    using level_and_message_suffix by blast
  ultimately have "(\<exists>pre. ?text = pre @ snd (level_and_message (snd start))) \<and> (fst start = now \<or> (\<exists>rest. ?text = fst start @ rest))"
    by (metis append.assoc)
  then have parts: "\<exists>pre. ?text = pre @ snd (level_and_message (snd start))" "fst start = now \<or> (\<exists>rest. raw = fst start @ rest)"
    using tail by (metis append.assoc)+
  have "parseLine now raw source = Some \<lparr>ll_ts = fst start, ll_level = fst (level_and_message (snd start)),
      ll_source = source, ll_message = snd (level_and_message (snd start))\<rparr>"
    using False by (simp add: parseLine_def start_def [symmetric] Let_def split: prod.split)
  then show ?thesis using False parts by simp
qed (auto simp: parseLine_def)

text \<open>
  A dump is not ended by the records that declare a level. The redactor ends a dump at the next line that
  looks like a log record, and a line such as the one below does; but the level has been taken off the message
  before the redactor sees it, so any number of them stays masked.\<close>
theorem dump_outlives_log_records:
  "looksLikeLogLine ''INFO idle'' \<and>
   emit_lines True False
     (pump False ''p0'' ''now'' [concat (map (\<lambda>l. l @ [newline]) (''prompt:'' # replicate n ''INFO idle''))]) =
   line_json \<lparr>ll_ts = ''now'', ll_level = InfoLevel, ll_source = ''p0'', ll_message = ''prompt: '' @ REDACTED\<rparr> #
   replicate n (line_json \<lparr>ll_ts = ''now'', ll_level = InfoLevel, ll_source = ''p0'', ll_message = REDACTED\<rparr>)"
proof -
  let ?rec = "''INFO idle''" and ?f = "line_of_part False ''p0'' ''now''"
  let ?v = "line_json \<lparr>ll_ts = ''now'', ll_level = InfoLevel, ll_source = ''p0'', ll_message = ''idle''\<rparr>"
  let ?masked = "line_json \<lparr>ll_ts = ''now'', ll_level = InfoLevel, ll_source = ''p0'', ll_message = REDACTED\<rparr>"
  let ?open = "line_json \<lparr>ll_ts = ''now'', ll_level = InfoLevel, ll_source = ''p0'', ll_message = ''prompt:''\<rparr>"
  have lines: "?f ''prompt:'' = Some ?open" "?f ?rec = Some ?v" by code_simp+
  have steps: "redact_value True False (JStr ''prompt:'') = (Some (JStr (''prompt: '' @ REDACTED)), True)"
    "redact_value True True (JStr ''idle'') = (Some (JStr REDACTED), True)" by code_simp+
  have cut: "cut_lines [] [concat (map (\<lambda>l. l @ [newline]) ls)] = ls" if "list_all (\<lambda>l. newline \<notin> set l) ls" for ls
  proof -
    have "split_on newline (concat (map (\<lambda>l. l @ [newline]) ls)) = ls @ ['''']"
      using that by (induction ls) (simp_all add: split_on_append_sep split_on_no_sep_id)
    then show ?thesis
      using cut_lines_spec [of "[]" "[concat (map (\<lambda>l. l @ [newline]) ls)]"] by (simp del: cut_lines.simps)
  qed
  have "list_all (\<lambda>l. newline \<notin> set l) [''prompt:'', ?rec]" by code_simp
  then have "list_all (\<lambda>l. newline \<notin> set l) (''prompt:'' # replicate n ?rec)" by (simp add: list_all_iff)
  note c = cut [OF this]
  have "List.map_filter ?f (replicate n ?rec) = replicate n ?v"
    by (induction n) (simp_all add: List.map_filter_simps lines)
  then have "pump False ''p0'' ''now'' [concat (map (\<lambda>l. l @ [newline]) (''prompt:'' # replicate n ?rec))] = ?open # replicate n ?v"
    unfolding pump_def c by (simp only: List.map_filter_simps lines option.case)
  moreover have "emit_lines True True (replicate n ?v) = replicate n ?masked"
    by (induction n) (simp_all add: line_json_def steps set_message_def)
  ultimately show ?thesis
    by (simp add: line_json_def steps set_message_def) code_simp
qed

end
