(* ===== verification/Scaling.thy ===== *)
theory Scaling
  imports Logs
begin

text \<open>
  What the autoscaler does for a model, as the dashboard shows it: \<open>server/src/scaling/status.ts\<close>, and the
  access to the Kubernetes API of \<open>server/src/replicas/kubernetes.ts\<close> that it goes through. The files of the
  service account and the API server are arguments. The ellipsis, which lies outside the character range, is the
  code unit 133; a dash is written \<open>--\<close>.
\<close>

section \<open>The cluster\<close>

definition inCluster :: "(string \<Rightarrow> string option) \<Rightarrow> bool" where
  "inCluster env \<longleftrightarrow> (case env ''KUBERNETES_SERVICE_HOST'' of Some h \<Rightarrow> h \<noteq> '''' | None \<Rightarrow> False)"

definition serviceAccount ::
  "(string \<Rightarrow> string option) \<Rightarrow> (string \<Rightarrow> string + string) \<Rightarrow> string + (string \<times> string)" where
  "serviceAccount env readFile =
     (case readFile (service_account @ ''/token'') of
        Inl e \<Rightarrow> Inl e
      | Inr token \<Rightarrow>
        (case (case env ''POD_NAMESPACE'' of
                 Some ns \<Rightarrow> if ns \<noteq> '''' then Inr ns else readFile (service_account @ ''/namespace'')
               | None \<Rightarrow> readFile (service_account @ ''/namespace'')) of
           Inl e \<Rightarrow> Inl e
         | Inr namespace \<Rightarrow> Inr (trim token, trim namespace)))"

definition certificate_trouble :: re where
  "certificate_trouble = alts [lit_i ''CERT'', lit_i ''SELF_SIGNED'', lit_i ''UNABLE_TO_VERIFY'']"

text \<open>\<open>fetch\<close> fails with the code or message of its cause, where there is one.\<close>

definition apiRequest ::
  "(string \<Rightarrow> string option) \<Rightarrow> (string \<Rightarrow> string + string) \<Rightarrow> (string \<Rightarrow> string \<Rightarrow> string option + 'a) \<Rightarrow> string \<Rightarrow> string + 'a" where
  "apiRequest env readFile fetch path =
     (case serviceAccount env readFile of
        Inl e \<Rightarrow> Inl e
      | Inr (token, namespace) \<Rightarrow>
        (case fetch (''Bearer '' @ token)
                (''https://'' @ shown (env ''KUBERNETES_SERVICE_HOST'') @ '':'' @
                 nullish (env ''KUBERNETES_SERVICE_PORT_HTTPS'') ''443'' @ path) of
           Inr res \<Rightarrow> Inr res
         | Inl cause \<Rightarrow>
           (let detail = nullish cause '''' in
            Inl (''Kubernetes API request to '' @ path @ '' failed'' @ (if detail \<noteq> '''' then '': '' @ detail else '''') @
                 (if detail \<noteq> '''' \<and> re_test certificate_trouble detail
                  then '' -- set NODE_EXTRA_CA_CERTS to the service account's ca.crt'' else '''')))))"

definition currentNamespace :: "(string \<Rightarrow> string option) \<Rightarrow> (string \<Rightarrow> string + string) \<Rightarrow> string + string" where
  "currentNamespace env readFile = map_sum id snd (serviceAccount env readFile)"

section \<open>The status\<close>

datatype scaling_state = Active | NotReconciled | MetricUnreadable | Absent | Unknown

text \<open>The reading of the metric is null, NaN (\<open>Some None\<close>) or a number.\<close>

record scaling_status =
  ss_state :: scaling_state
  ss_detail :: string
  ss_minReplicas :: "json option"
  ss_maxReplicas :: "json option"
  ss_desiredReplicas :: "json option"
  ss_currentMetric :: "rat option option"
  ss_triggerUrl :: "json option"

definition without_figures :: "scaling_state \<Rightarrow> string \<Rightarrow> scaling_status" where
  "without_figures s detail =
     \<lparr>ss_state = s, ss_detail = detail, ss_minReplicas = None, ss_maxReplicas = None, ss_desiredReplicas = None,
      ss_currentMetric = None, ss_triggerUrl = None\<rparr>"

definition UNKNOWN :: "string \<Rightarrow> scaling_status" where
  "UNKNOWN detail = without_figures Unknown detail"

text \<open>\<open>replace(/\s+/g, " ")\<close>: every run of blanks becomes one space.\<close>

fun collapse :: "bool \<Rightarrow> string \<Rightarrow> string" where
  "collapse in_run [] = []"
| "collapse in_run (c # s) =
     (if is_ws c then (if in_run then collapse True s else CHR '' '' # collapse True s) else c # collapse False s)"

definition label_selector :: re where
  "label_selector = cats [lit ''&LabelSelector{'', Few any_char, lit ''}'', opt_re (lit '',''), lit ''}'']"

definition ellipsis :: char where
  "ellipsis = CHR 0x85"

text \<open>\<open>s.slice(-limit)\<close>, which for 0 is the whole string.\<close>

definition last_part :: "nat \<Rightarrow> string \<Rightarrow> string" where
  "last_part limit s = (if limit = 0 then s else drop (length s - limit) s)"

definition cleaned_message :: "string \<Rightarrow> string" where
  "cleaned_message message = trim (collapse False (replace_all label_selector '''' message))"

definition summariseHpaMessage :: "string option \<Rightarrow> nat \<Rightarrow> string" where
  "summariseHpaMessage message limit =
     (case message of
        None \<Rightarrow> ''''
      | Some m \<Rightarrow>
          if m = '''' then ''''
          else (let cleaned = cleaned_message m in
                if length cleaned \<le> limit then cleaned else ellipsis # last_part limit cleaned))"

text \<open>A reply that is not there, not a success or not JSON counts as nothing, and so does a null.\<close>

type_synonym api = "string \<Rightarrow> string + (int \<times> json option)"

definition falsy :: "json \<Rightarrow> bool" where
  "falsy v \<longleftrightarrow> v = JNull \<or> v = JBool False \<or> v = JNum 0 \<or> v = JStr ''''"

definition getJson :: "api \<Rightarrow> string \<Rightarrow> json option" where
  "getJson api path =
     (case api path of
        Inl e \<Rightarrow> None
      | Inr (status, body) \<Rightarrow>
          if status < 200 \<or> 299 < status then None
          else (case body of Some v \<Rightarrow> if falsy v then None else Some v | None \<Rightarrow> None))"

definition jfirst :: "json option \<Rightarrow> json option" where
  "jfirst v = (case as_array v of Some (x # xs) \<Rightarrow> Some x | _ \<Rightarrow> None)"

text \<open>\<open>Number(v)\<close>\<close>

definition js_number_of :: "json \<Rightarrow> rat option" where
  "js_number_of v =
     (case v of JNum n \<Rightarrow> Some n | JNull \<Rightarrow> Some 0 | JBool b \<Rightarrow> Some (if b then 1 else 0) | _ \<Rightarrow> js_number (js_string v))"

definition metric_reading :: "json \<Rightarrow> rat option option" where
  "metric_reading hpa =
     (let current = jpath ''current'' (jpath ''external'' (jfirst (jpath ''currentMetrics'' (jfield ''status'' hpa))));
          raw = coalesce (non_null (jpath ''averageValue'' current)) (jpath ''value'' current) in
      map_option js_number_of raw)"

definition condition_of :: "string \<Rightarrow> json \<Rightarrow> json option" where
  "condition_of kind hpa =
     find (\<lambda>c. jfield ''type'' c = Some (JStr kind)) (nullish (as_array (jpath ''conditions'' (jfield ''status'' hpa))) [])"

definition so_path :: "string \<Rightarrow> string \<Rightarrow> string" where
  "so_path namespace backend =
     ''/apis/keda.sh/v1alpha1/namespaces/'' @ namespace @ ''/scaledobjects/'' @ backend @ ''-scaledobject''"

definition hpa_path :: "string \<Rightarrow> string \<Rightarrow> string" where
  "hpa_path namespace backend =
     ''/apis/autoscaling/v2/namespaces/'' @ namespace @ ''/horizontalpodautoscalers/'' @ ''keda-hpa-'' @ backend @ ''-scaledobject''"

definition absent_detail :: "string \<Rightarrow> string \<Rightarrow> string" where
  "absent_detail namespace backend =
     ''No ScaledObject '' @ [CHR 0x22] @ backend @ ''-scaledobject'' @ [CHR 0x22] @ '' in '' @ namespace @
     ''. Either the chart did not create one, or the router may not read them -- the Role needs get/list on keda.sh/scaledobjects.''"

definition not_reconciled_detail :: "string \<Rightarrow> string" where
  "not_reconciled_detail namespace =
     ''KEDA has not created an HPA for this ScaledObject. The operator is not processing it: most often it was '' @
     ''installed watching a single namespace (WATCH_NAMESPACE) that is not '' @ namespace @
     ''. Check the keda-operator Deployment, or install the chart's own KEDA with keda.enabled=true.''"

definition unreadable_detail :: "json \<Rightarrow> string" where
  "unreadable_detail condition =
     (let upstream = summariseHpaMessage (as_string (jfield ''message'' condition)) 240 in
      ''The HPA cannot read the router's metric ('' @
      js_string (nullish (non_null (jfield ''reason'' condition)) (JStr ''unknown reason'')) @
      ''). A timeout or refused connection usually means traffic from KEDA's namespace to this one is blocked -- a '' @
      ''default-deny NetworkPolicy is the common cause in a locked-down cluster, and the chart can render an allow '' @
      ''rule (networkPolicy.enabled). '' @ [CHR 0x22] @ ''no such host'' @ [CHR 0x22] @
      '' means the Service name does not resolve. If instead the metrics API itself is failing, check that KEDA still '' @
      ''serves v1beta1.external.metrics.k8s.io -- it is a cluster singleton, so a second metrics adapter breaks every KEDA HPA.'' @
      (if upstream \<noteq> '''' then '' Kubernetes reports: '' @ upstream else ''''))"

definition active_detail :: "rat option option \<Rightarrow> string" where
  "active_detail metric =
     (if metric = Some (Some 0)
      then ''Scaling normally. The metric is 0 because nothing is queued or in flight, so holding at the minimum is correct.''
      else ''Scaling normally.'')"

text \<open>What is read off the ScaledObject, and off the HPA where there is one.\<close>

definition with_figures :: "scaling_state \<Rightarrow> string \<Rightarrow> json \<Rightarrow> json option \<Rightarrow> scaling_status" where
  "with_figures s detail so hpa =
     \<lparr>ss_state = s, ss_detail = detail,
      ss_minReplicas = non_null (jpath ''minReplicaCount'' (jfield ''spec'' so)),
      ss_maxReplicas = non_null (jpath ''maxReplicaCount'' (jfield ''spec'' so)),
      ss_desiredReplicas = non_null (jpath ''desiredReplicas'' (jpath ''status'' hpa)),
      ss_currentMetric = Option.bind hpa metric_reading,
      ss_triggerUrl = non_null (jpath ''url'' (jpath ''metadata'' (jfirst (jpath ''triggers'' (jfield ''spec'' so)))))\<rparr>"

definition scaling_disabled :: "json \<Rightarrow> bool" where
  "scaling_disabled hpa \<longleftrightarrow> jpath ''status'' (condition_of ''ScalingActive'' hpa) = Some (JStr ''False'')"

definition status_of_hpa :: "json \<Rightarrow> json \<Rightarrow> scaling_status" where
  "status_of_hpa so hpa =
     (if scaling_disabled hpa
      then with_figures MetricUnreadable (unreadable_detail (nullish (condition_of ''ScalingActive'' hpa) JNull)) so (Some hpa)
      else with_figures Active (active_detail (metric_reading hpa)) so (Some hpa))"

definition getScalingStatus ::
  "(string \<Rightarrow> string option) \<Rightarrow> (string \<Rightarrow> string + string) \<Rightarrow> (string \<Rightarrow> string \<Rightarrow> string option + (int \<times> json option)) \<Rightarrow>
   string \<Rightarrow> scaling_status" where
  "getScalingStatus env readFile fetch backend =
     (if \<not> inCluster env then UNKNOWN ''Not running in Kubernetes, so there is no autoscaler to inspect.''
      else
        (case currentNamespace env readFile of
           Inl e \<Rightarrow> UNKNOWN ''Could not determine the namespace.''
         | Inr namespace \<Rightarrow>
           (let api = apiRequest env readFile fetch in
            case getJson api (so_path namespace backend) of
              None \<Rightarrow> without_figures Absent (absent_detail namespace backend)
            | Some so \<Rightarrow>
              (case getJson api (hpa_path namespace backend) of
                 None \<Rightarrow> with_figures NotReconciled (not_reconciled_detail namespace) so None
               | Some hpa \<Rightarrow> status_of_hpa so hpa))))"


section \<open>Properties\<close>

lemma collapse_blanks: "c \<in> set (collapse b s) \<Longrightarrow> is_ws c \<Longrightarrow> c = CHR '' ''"
  by (induction b s rule: collapse.induct) (auto split: if_splits)

lemma cleaned_blanks: "c \<in> set (cleaned_message m) \<Longrightarrow> is_ws c \<Longrightarrow> c = CHR '' ''"
  using set_trim collapse_blanks by (fastforce simp: cleaned_message_def)

lemma last_part_suffix: "\<exists>u. s = u @ last_part n s"
  unfolding last_part_def by (metis append_Nil append_take_drop_id)

text \<open>
  The quoted failure of an HPA is one short line: at most one character longer than the limit, with no blank
  but the space, and it is an end piece of the cleaned message, marked with an ellipsis exactly when something
  in front of it was cut off.\<close>
theorem summary_is_one_short_line:
  fixes m :: string and n :: nat
  defines "out \<equiv> summariseHpaMessage (Some m) (Suc n)"
  shows "length out \<le> Suc n + 1 \<and> {c \<in> set out. is_ws c} \<subseteq> {CHR '' ''} \<and>
         (out = '''' \<or> out = cleaned_message m \<or>
          (\<exists>front back. out = ellipsis # back \<and> cleaned_message m = front @ back \<and> front \<noteq> [] \<and> length back = Suc n))"
proof -
  have dots: "\<not> is_ws ellipsis" by code_simp
  consider "m = ''''" | "m \<noteq> ''''" "length (cleaned_message m) \<le> Suc n" | "m \<noteq> ''''" "Suc n < length (cleaned_message m)"
    by linarith
  then show ?thesis
  proof cases
    case 3
    let ?k = "length (cleaned_message m) - Suc n"
    have out: "out = ellipsis # drop ?k (cleaned_message m)"
      using 3 by (simp add: out_def summariseHpaMessage_def last_part_def Let_def)
    have "cleaned_message m = take ?k (cleaned_message m) @ drop ?k (cleaned_message m)" by simp
    moreover have "take ?k (cleaned_message m) \<noteq> []" "length (drop ?k (cleaned_message m)) = Suc n" using 3 by auto
    moreover have "set out \<subseteq> insert ellipsis (set (cleaned_message m))" using out set_drop_subset by fastforce
    ultimately show ?thesis using out dots cleaned_blanks by fastforce
  qed (auto simp: out_def summariseHpaMessage_def Let_def dest: cleaned_blanks)
qed

text \<open>
  A router that may not look does not say so. The states are documented so that every failure to look is
  unknown; but inside a cluster with a readable service account, an API server that refuses everything is
  reported as a ScaledObject that does not exist, and one that refuses only the HPA as one that KEDA has not
  reconciled.\<close>
theorem refusal_is_not_unknown:
  assumes "inCluster env" "currentNamespace env readFile = Inr namespace"
    and "apiRequest env readFile fetch (hpa_path namespace backend) = Inr (403, body)"
  shows "(apiRequest env readFile fetch (so_path namespace backend) = Inr (403, body') \<longrightarrow>
            ss_state (getScalingStatus env readFile fetch backend) = Absent) \<and>
         (apiRequest env readFile fetch (so_path namespace backend) = Inr (200, Some (JObj kvs)) \<longrightarrow>
            ss_state (getScalingStatus env readFile fetch backend) = NotReconciled)"
  using assms
  by (auto simp: getScalingStatus_def Let_def getJson_def falsy_def without_figures_def with_figures_def)

definition ex_cluster :: "string \<Rightarrow> string option" where
  "ex_cluster k = (if k = ''KUBERNETES_SERVICE_HOST'' then Some ''h'' else if k = ''POD_NAMESPACE'' then Some ''ns'' else None)"

lemma refusal_is_not_unknown_witness:
  "ss_state (getScalingStatus ex_cluster (\<lambda>f. Inr ''t'') (\<lambda>auth url. Inr (403, None)) ''m'') = Absent"
proof -
  have ok: "inCluster ex_cluster" "currentNamespace ex_cluster (\<lambda>f. Inr ''t'') = Inr ''ns''" by code_simp+
  have api: "apiRequest ex_cluster (\<lambda>f. Inr ''t'') (\<lambda>auth url. Inr (403, None)) p = Inr (403::int, None :: json option)" for p
    using ok(2) by (cases "serviceAccount ex_cluster (\<lambda>f. Inr ''t'')") (auto simp: apiRequest_def currentNamespace_def)
  show ?thesis using refusal_is_not_unknown [OF ok api [of "hpa_path ''ns'' ''m''"], of None "[]"] api by blast
qed

text \<open>
  The dashboard never claims more than was read: a state other than unknown needs a namespace, a state that
  speaks of the HPA needs both objects to have been answered with a success, scaling counts as normal only when
  the HPA does not say that it is disabled, and the figures are those of the objects that were read.\<close>
theorem status_claims_only_what_was_read:
  fixes env :: "string \<Rightarrow> string option" and readFile :: "string \<Rightarrow> string + string" and backend :: string
    and fetch :: "string \<Rightarrow> string \<Rightarrow> string option + (int \<times> json option)"
  defines "st \<equiv> getScalingStatus env readFile fetch backend"
  shows "(case currentNamespace env readFile of
            Inl e \<Rightarrow> ss_state st = Unknown
          | Inr namespace \<Rightarrow>
              (let so = getJson (apiRequest env readFile fetch) (so_path namespace backend);
                   hpa = getJson (apiRequest env readFile fetch) (hpa_path namespace backend) in
               ss_state st =
                 (if \<not> inCluster env then Unknown else if so = None then Absent else if hpa = None then NotReconciled
                  else if scaling_disabled (the hpa) then MetricUnreadable else Active) \<and>
               ss_currentMetric st = (if inCluster env \<and> so \<noteq> None then Option.bind hpa metric_reading else None) \<and>
               (ss_minReplicas st = None \<or> inCluster env \<and> so \<noteq> None)))"
  unfolding st_def getScalingStatus_def
  by (auto simp: UNKNOWN_def without_figures_def with_figures_def status_of_hpa_def Let_def split: sum.splits option.splits)

text \<open>
  The reading of a metric that Kubernetes writes as a plain number is that number; one that it writes in
  thousandths, as it does for every fractional average, is read as NaN.\<close>
theorem metric_reading_by_form:
  fixes n :: nat
  defines "hpa q \<equiv> JObj [(''status'', JObj [(''currentMetrics'', JArr [JObj [(''external'', JObj [(''current'',
      JObj [(''averageValue'', JStr q)])])]])])]"
  shows "metric_reading (hpa (digits_of n)) = Some (Some (of_nat n)) \<and>
         metric_reading (hpa (digits_of n @ ''m'')) = Some None"
proof -
  let ?s = "digits_of n @ ''m''"
  have digits: "list_all is_digit (digits_of n)" by (simp add: list_all_iff digits_of_digits)
  have m: "\<not> is_digit CHR ''m''" "\<not> is_ws CHR ''m''" by code_simp+
  obtain c cs where s: "digits_of n = c # cs" by (cases "digits_of n") auto
  with digits have c: "is_digit c" by simp
  then have c': "c \<noteq> CHR ''-''" "c \<noteq> CHR ''+''" "\<not> is_ws c" by (auto simp: is_digit_def is_ws_def code_def Let_def)
  have "trim ?s = ?s"
    using c'(3) m(2) by (simp add: trim_def trim_start_def trim_end_def s)
  moreover have "takeWhile is_digit ?s = digits_of n" "dropWhile is_digit ?s = ''m''"
    using digits m(1) by (simp_all add: list_all_iff)
  then have "parse_unsigned ?s = None"
    by (simp add: parse_unsigned_def parse_exponent_def)
  ultimately have "js_number ?s = None" using c' by (simp add: js_number_def s)
  then show ?thesis
    by (simp add: hpa_def metric_reading_def jfirst_def as_array_def non_null_def js_number_of_def js_number_show)
qed

end
