(* ===== verification/Dashboard.thy ===== *)
theory Dashboard
  imports Keda AuditTrail Scaling
begin

text \<open>
  The dashboard API, \<open>server/src/http/routes/dashboard.ts\<close>: what each route reads from the store and returns, and
  the routes that write. A row a route selects is a record with the selected columns (the previews of the overview
  leave a few of them out). Times are in milliseconds
  since the epoch, so the hour of \<open>date_trunc\<close> is a quotient; averages and rates are exact.
\<close>

section \<open>Arithmetic of the queries\<close>

definition MINUTE_MS :: int where "MINUTE_MS = 60 * 1000"
definition HOUR_MS :: int where "HOUR_MS = 60 * MINUTE_MS"

text \<open>\<open>extract(epoch from d)::int\<close>: rounded to the nearest second, a half to the even one.\<close>

definition whole_seconds :: "int \<Rightarrow> int" where
  "whole_seconds ms =
     (let q = ms div 1000; r = ms mod 1000 in
      if r < 500 then q else if 500 < r then q + 1 else if even q then q else q + 1)"

text \<open>\<open>Math.round\<close>\<close>

definition js_round :: "rat \<Rightarrow> int" where
  "js_round x = \<lfloor>x + 1 / 2\<rfloor>"

text \<open>\<open>avg\<close> of a column that may be null, 0 where there is nothing to average.\<close>

definition average :: "int list \<Rightarrow> rat" where
  "average xs = (if xs = [] then 0 else of_int (sum_list xs) / of_nat (length xs))"

definition trunc_hour :: "time \<Rightarrow> time" where
  "trunc_hour t = t div HOUR_MS * HOUR_MS"

definition after :: "time \<Rightarrow> time option \<Rightarrow> bool" where
  "after t x \<longleftrightarrow> (case x of None \<Rightarrow> False | Some y \<Rightarrow> t < y)"

definition arrived_since :: "time \<Rightarrow> db \<Rightarrow> request_row list" where
  "arrived_since t d = filter (\<lambda>r. t < rq_arrived_at r) (requests d)"

section \<open>The requests page\<close>

record queued_view =
  qv_id :: string
  qv_caller :: string
  qv_team :: "string option"
  qv_model :: "string option"
  qv_capabilities :: "capability list"
  qv_arrivedAt :: time
  qv_inputTokens :: int
  qv_waitingSec :: int

record flight_view =
  fv_id :: string
  fv_caller :: string
  fv_team :: "string option"
  fv_model :: "string option"
  fv_status :: request_status
  fv_replicaId :: "string option"
  fv_arrivedAt :: time
  fv_startedAt :: "time option"
  fv_inputTokens :: int
  fv_outputTokensSoFar :: int

record failed_view =
  xv_id :: string
  xv_caller :: string
  xv_team :: "string option"
  xv_model :: "string option"
  xv_requestedModel :: "string option"
  xv_status :: request_status
  xv_errorCode :: "error_code option"
  xv_arrivedAt :: time
  xv_inputTokens :: int

definition queued_view_of :: "time \<Rightarrow> request_row \<Rightarrow> queued_view" where
  "queued_view_of now r =
     \<lparr>qv_id = rq_id r, qv_caller = rq_caller_name r, qv_team = rq_team r, qv_model = rq_requested_model r,
      qv_capabilities = rq_capabilities r, qv_arrivedAt = rq_arrived_at r, qv_inputTokens = rq_input_tokens r,
      qv_waitingSec = whole_seconds (now - rq_arrived_at r)\<rparr>"

definition flight_view_of :: "request_row \<Rightarrow> flight_view" where
  "flight_view_of r =
     \<lparr>fv_id = rq_id r, fv_caller = rq_caller_name r, fv_team = rq_team r, fv_model = rq_routed_model r,
      fv_status = rq_status r, fv_replicaId = rq_replica_id r, fv_arrivedAt = rq_arrived_at r,
      fv_startedAt = rq_started_at r, fv_inputTokens = rq_input_tokens r, fv_outputTokensSoFar = rq_output_tokens r\<rparr>"

definition failed_view_of :: "request_row \<Rightarrow> failed_view" where
  "failed_view_of r =
     \<lparr>xv_id = rq_id r, xv_caller = rq_caller_name r, xv_team = rq_team r, xv_model = rq_routed_model r,
      xv_requestedModel = rq_requested_model r, xv_status = rq_status r, xv_errorCode = rq_error_code r,
      xv_arrivedAt = rq_arrived_at r, xv_inputTokens = rq_input_tokens r\<rparr>"

definition queued_rows :: "db \<Rightarrow> request_row list" where
  "queued_rows d = sort_key rq_arrived_at (filter (\<lambda>r. rq_status r = Queued) (requests d))"

definition flight_rows :: "db \<Rightarrow> request_row list" where
  "flight_rows d = sort_key (\<lambda>r. - rq_arrived_at r) (filter (\<lambda>r. rq_status r \<in> {Routed, Streaming}) (requests d))"

definition listed_failure :: "request_status \<Rightarrow> bool" where
  "listed_failure s \<longleftrightarrow>
     s \<in> {QueueTimeoutStatus, StallTimeoutStatus, AuthInvalidStatus, CapabilityMismatchStatus, ErrorRequest,
          ReplicaUnavailableStatus}"

definition failed_rows :: "time \<Rightarrow> db \<Rightarrow> request_row list" where
  "failed_rows now d =
     take 50 (sort_key (\<lambda>r. - rq_arrived_at r) (filter (\<lambda>r. listed_failure (rq_status r)) (arrived_since (now - 5 * MINUTE_MS) d)))"

datatype requests_page = QueuedPage "queued_view list" | FailedPage "failed_view list" | FlightPage "flight_view list"

definition requestsRoute :: "string option \<Rightarrow> time \<Rightarrow> db \<Rightarrow> requests_page" where
  "requestsRoute state now d =
     (if state = Some ''queued'' then QueuedPage (map (queued_view_of now) (queued_rows d))
      else if state = Some ''failed'' then FailedPage (map failed_view_of (failed_rows now d))
      else FlightPage (map flight_view_of (flight_rows d)))"

section \<open>The overview\<close>

datatype health = Red | Yellow | Green

record overview =
  ov_requestsPerMin :: nat
  ov_avgLatencyMs :: int
  ov_tokensPerSec :: int
  ov_activeReplicas :: nat
  ov_totalReplicas :: nat
  ov_queuedRequests :: nat
  ov_inFlightRequests :: nat
  ov_failuresLastHour :: nat
  ov_systemHealth :: health
  ov_totalRequests24h :: nat
  ov_spark :: "(time \<times> nat) list"
  ov_queuedPreview :: "queued_view list"
  ov_inFlightPreview :: "flight_view list"
  ov_byCapability :: "(capability \<times> nat) list"
  ov_stallTimeoutRatePct :: rat

definition counted_failure :: "request_status \<Rightarrow> bool" where
  "counted_failure s \<longleftrightarrow>
     s \<in> {QueueTimeoutStatus, StallTimeoutStatus, AuthInvalidStatus, CapabilityMismatchStatus, ErrorRequest}"

definition failures_last_hour :: "time \<Rightarrow> db \<Rightarrow> nat" where
  "failures_last_hour now d = length (filter (\<lambda>r. counted_failure (rq_status r)) (arrived_since (now - HOUR_MS) d))"

definition avg_latency :: "time \<Rightarrow> db \<Rightarrow> rat" where
  "avg_latency now d =
     average (List.map_filter rq_duration_ms
       (filter (\<lambda>r. rq_status r = Completed \<and> after (now - HOUR_MS) (rq_completed_at r)) (requests d)))"

definition tokens_last_min :: "time \<Rightarrow> db \<Rightarrow> int" where
  "tokens_last_min now d =
     (\<Sum>r\<leftarrow>filter (\<lambda>r. after (now - MINUTE_MS) (rq_completed_at r)) (requests d). rq_output_tokens r)"

text \<open>\<open>GROUP BY bucket ORDER BY bucket\<close>\<close>

definition buckets :: "(request_row \<Rightarrow> time) \<Rightarrow> request_row list \<Rightarrow> time list" where
  "buckets f rows = sort (remdups (map f rows))"

definition count_where :: "('a \<Rightarrow> bool) \<Rightarrow> 'a list \<Rightarrow> nat" where
  "count_where p xs = length (filter p xs)"

definition spark_of :: "time \<Rightarrow> db \<Rightarrow> (time \<times> nat) list" where
  "spark_of now d =
     (let rows = arrived_since (now - 12 * HOUR_MS) d in
      map (\<lambda>b. (b, count_where (\<lambda>r. trunc_hour (rq_arrived_at r) = b) rows))
        (buckets (\<lambda>r. trunc_hour (rq_arrived_at r)) rows))"

text \<open>\<open>unnest\<close> makes one row of each capability of each request.\<close>

definition capability_count :: "time \<Rightarrow> db \<Rightarrow> capability \<Rightarrow> nat" where
  "capability_count now d c =
     count_where (\<lambda>x. x = c) (concat (map rq_capabilities (arrived_since (now - 24 * HOUR_MS) d)))"

text \<open>\<open>Number(x.toFixed(2))\<close>\<close>

definition two_decimals :: "rat \<Rightarrow> rat" where
  "two_decimals x = of_int (js_round (x * 100)) / 100"

definition stall_rate :: "time \<Rightarrow> db \<Rightarrow> rat" where
  "stall_rate now d =
     (let rows = arrived_since (now - 24 * HOUR_MS) d; total = length rows;
          stalled = count_where (\<lambda>r. rq_status r = StallTimeoutStatus) rows in
      if 0 < total then two_decimals (of_nat stalled / of_nat total * 100) else 0)"

definition health_of :: "nat \<Rightarrow> nat \<Rightarrow> health" where
  "health_of failures queued = (if 5 < failures then Red else if 0 < queued then Yellow else Green)"

definition overviewRoute :: "time \<Rightarrow> db \<Rightarrow> overview" where
  "overviewRoute now d =
     \<lparr>ov_requestsPerMin = length (arrived_since (now - MINUTE_MS) d),
      ov_avgLatencyMs = js_round (avg_latency now d),
      ov_tokensPerSec = js_round (of_int (tokens_last_min now d) / 60),
      ov_activeReplicas = count_where (\<lambda>r. rp_status r = Ready) (replicas d) + count_where (\<lambda>r. rp_status r = Busy) (replicas d),
      ov_totalReplicas = length (replicas d),
      ov_queuedRequests = length (queued_rows d),
      ov_inFlightRequests = length (flight_rows d),
      ov_failuresLastHour = failures_last_hour now d,
      ov_systemHealth = health_of (failures_last_hour now d) (length (queued_rows d)),
      ov_totalRequests24h = length (arrived_since (now - 24 * HOUR_MS) d),
      ov_spark = spark_of now d,
      ov_queuedPreview = take 5 (map (queued_view_of now) (queued_rows d)),
      ov_inFlightPreview = take 5 (map flight_view_of (flight_rows d)),
      ov_byCapability = map (\<lambda>c. (c, capability_count now d c)) [Chat, Tools, Embeddings, Vision],
      ov_stallTimeoutRatePct = stall_rate now d\<rparr>"

section \<open>Models, cost, errors\<close>

record model_view =
  mv_config :: model_config
  mv_replicas :: "replica_row list"
  mv_upstreamCheck :: "upstream_check option"
  mv_scaling :: scaling_status

definition modelsPage :: "upstream_reports \<Rightarrow> (string \<Rightarrow> scaling_status) \<Rightarrow> db \<Rightarrow> model_view list" where
  "modelsPage reports scaling d =
     map (\<lambda>m. \<lparr>mv_config = m, mv_replicas = listReplicasForModel d (m_id m),
               mv_upstreamCheck = getUpstreamCheck reports (m_id m), mv_scaling = scaling (m_backendModelId m)\<rparr>)
       (listModels d)"

datatype override_reply = Raised db_error | NotFound | Updated model_config

definition overrideRoute :: "string \<Rightarrow> override_fields \<Rightarrow> time \<Rightarrow> db \<Rightarrow> override_reply \<times> db" where
  "overrideRoute modelId body now d =
     (case setModelOverride modelId body ''dashboard-admin'' now d of
        Inl e \<Rightarrow> (Raised e, d)
      | Inr (None, d') \<Rightarrow> (NotFound, d')
      | Inr (Some m, d') \<Rightarrow> (Updated m, d'))"

definition PERIOD_TO_INTERVAL :: "(string \<times> int) list" where
  "PERIOD_TO_INTERVAL =
     [(''1h'', HOUR_MS), (''24h'', 24 * HOUR_MS), (''7d'', 7 * 24 * HOUR_MS), (''30d'', 30 * 24 * HOUR_MS)]"

definition interval_of :: "string option \<Rightarrow> int" where
  "interval_of period = nullish (map_of PERIOD_TO_INTERVAL (nullish period ''24h'')) (24 * HOUR_MS)"

record hourly_row =
  hr_hour :: time
  hr_tokensIn :: int
  hr_tokensOut :: int
  hr_cost :: rat
  hr_requests :: nat

definition hourly_row_of :: "request_row list \<Rightarrow> time \<Rightarrow> hourly_row" where
  "hourly_row_of rows h =
     (let here = filter (\<lambda>r. trunc_hour (rq_arrived_at r) = h) rows in
      \<lparr>hr_hour = h, hr_tokensIn = (\<Sum>r\<leftarrow>here. rq_input_tokens r), hr_tokensOut = (\<Sum>r\<leftarrow>here. rq_output_tokens r),
       hr_cost = (\<Sum>r\<leftarrow>here. row_cost r), hr_requests = length here\<rparr>)"

definition hourly :: "time \<Rightarrow> db \<Rightarrow> hourly_row list" where
  "hourly since d =
     (let rows = filter (\<lambda>r. rq_status r = Completed) (arrived_since since d) in
      map (hourly_row_of rows) (buckets (\<lambda>r. trunc_hour (rq_arrived_at r)) rows))"

definition costRoute :: "group_by option \<Rightarrow> string option \<Rightarrow> time \<Rightarrow> db \<Rightarrow> breakdown_entry list \<times> hourly_row list \<times> string" where
  "costRoute groupBy period now d =
     (let since = now - interval_of period in
      (getCostBreakdown since now (nullish groupBy GroupByModel) d, hourly since d, nullish period ''24h''))"

definition errorSummary :: "time \<Rightarrow> db \<Rightarrow> (error_code \<times> nat) list" where
  "errorSummary now d =
     (let codes = List.map_filter rq_error_code (arrived_since (now - 24 * HOUR_MS) d) in
      sort_key (\<lambda>(c, n). - int n) (map (\<lambda>c. (c, count_where (\<lambda>x. x = c) codes)) (remdups codes)))"

section \<open>The audit routes\<close>

text \<open>A page parameter: absent or empty is the default; the database refuses what is not a natural number.\<close>

definition page_param :: "nat \<Rightarrow> string option \<Rightarrow> nat option" where
  "page_param fallback q =
     (case q of
        None \<Rightarrow> Some fallback
      | Some s \<Rightarrow>
          if s = '''' then Some fallback
          else (case js_number s of
                  Some n \<Rightarrow> if n = of_int \<lfloor>n\<rfloor> \<and> 0 \<le> n then Some (nat \<lfloor>n\<rfloor>) else None
                | None \<Rightarrow> None))"

definition auditRoute ::
  "string option \<Rightarrow> string option \<Rightarrow> string option \<Rightarrow> string option \<Rightarrow> string option \<Rightarrow> string option \<Rightarrow> db \<Rightarrow> audit_entry list option" where
  "auditRoute caller model team status limit offset d =
     (case (page_param 50 limit, page_param 0 offset) of
        (Some l, Some off) \<Rightarrow>
          Some (getAuditEntries
            \<lparr>fl_caller = present caller, fl_model = present model, fl_team = present team, fl_status = present status,
             fl_since = None, fl_until = None\<rparr> (Some l) (Some off) d)
      | _ \<Rightarrow> None)"

definition putLoggingConfig ::
  "scope_type \<Rightarrow> string option \<Rightarrow> bool \<Rightarrow> db \<Rightarrow> (scope_type \<times> string \<times> bool) \<times> db" where
  "putLoggingConfig scopeType scopeKey enabled d =
     ((scopeType, nullish scopeKey '''', enabled), setLoggingScope scopeType (nullish scopeKey '''') enabled d)"

definition loggingStatus :: "string option \<Rightarrow> string option \<Rightarrow> string option \<Rightarrow> db \<Rightarrow> bool" where
  "loggingStatus team model apiKey d = isContentLoggingEnabled team model apiKey d"

definition deleteRoute :: "int \<Rightarrow> time \<Rightarrow> db \<Rightarrow> nat \<times> db" where
  "deleteRoute olderThanDays now d = deleteAuditHistory olderThanDays now d"


section \<open>Facts\<close>

lemma sum_list_ones: "(\<Sum>x\<leftarrow>xs. (1::nat)) = length xs"
  by (induction xs) simp_all

text \<open>Grouped counts and sums add up to the whole.\<close>

lemma sum_buckets:
  fixes h :: "request_row \<Rightarrow> 'a::comm_monoid_add"
  shows "(\<Sum>b\<leftarrow>buckets f rows. \<Sum>r\<leftarrow>filter (\<lambda>r. f r = b) rows. h r) = (\<Sum>r\<leftarrow>rows. h r)"
  by (rule sum_groups) (simp_all add: buckets_def)

lemma count_buckets: "(\<Sum>b\<leftarrow>buckets f rows. count_where (\<lambda>r. f r = b) rows) = length rows"
  using sum_buckets [of "\<lambda>r. 1::nat" f rows] unfolding sum_list_ones count_where_def .

lemma sorted_buckets: "sorted (buckets f rows)" "distinct (buckets f rows)"
  by (simp_all add: buckets_def)

lemma length_two_filters:
  "(\<And>x. \<not> (p x \<and> q x)) \<Longrightarrow> length (filter p xs) + length (filter q xs) = length (filter (\<lambda>x. p x \<or> q x) xs)"
  by (induction xs) auto

lemma two_decimals_percent:
  assumes "0 \<le> x" "x \<le> 100"
  shows "0 \<le> two_decimals x" "two_decimals x \<le> 100"
proof -
  have "0 \<le> \<lfloor>x * 100 + 1 / 2\<rfloor>" using assms(1) by (simp add: le_floor_iff)
  then show "0 \<le> two_decimals x" by (simp add: two_decimals_def js_round_def)
  have "x * 100 + 1 / 2 < of_int 10001" using assms(2) by simp
  then have "\<lfloor>x * 100 + 1 / 2\<rfloor> < 10001" by (simp only: floor_less_iff)
  then have "of_int \<lfloor>x * 100 + 1 / 2\<rfloor> \<le> (of_int 10000 :: rat)" by (simp only: of_int_le_iff)
  then show "two_decimals x \<le> 100" by (simp add: two_decimals_def js_round_def)
qed

lemma stall_rate_percent: "0 \<le> stall_rate now d \<and> stall_rate now d \<le> 100"
proof -
  define rows where "rows = arrived_since (now - 24 * HOUR_MS) d"
  define n where "n = count_where (\<lambda>r. rq_status r = StallTimeoutStatus) rows"
  have le: "n \<le> length rows" by (simp add: n_def count_where_def)
  have rate: "stall_rate now d = (if 0 < length rows then two_decimals (of_nat n / of_nat (length rows) * 100) else 0)"
    by (simp only: stall_rate_def Let_def rows_def n_def)
  show ?thesis
  proof (cases "0 < length rows")
    case True
    then have "0 \<le> of_nat n / of_nat (length rows) * (100::rat)" "of_nat n / of_nat (length rows) * 100 \<le> (100::rat)"
      using le by (simp_all add: divide_le_eq)
    with two_decimals_percent True rate show ?thesis by simp
  qed (simp add: rate)
qed

lemma map_filter_length: "length (List.map_filter f xs) = length (filter (\<lambda>x. f x \<noteq> None) xs)"
  by (induction xs) (simp_all add: List.map_filter_simps split: option.split)

lemma trunc_hour_iff: "trunc_hour t = h \<longleftrightarrow> HOUR_MS dvd h \<and> h \<le> t \<and> t < h + HOUR_MS"
proof
  have m: "0 \<le> t mod HOUR_MS" "t mod HOUR_MS < HOUR_MS" by (simp_all add: HOUR_MS_def MINUTE_MS_def)
  have t: "t = t div HOUR_MS * HOUR_MS + t mod HOUR_MS" by simp
  assume h: "trunc_hour t = h"
  then have "h \<le> t" "t < h + HOUR_MS" using m t unfolding trunc_hour_def by linarith+
  then show "HOUR_MS dvd h \<and> h \<le> t \<and> t < h + HOUR_MS" using h by (auto simp: trunc_hour_def)
next
  assume h: "HOUR_MS dvd h \<and> h \<le> t \<and> t < h + HOUR_MS"
  then obtain k where k: "h = HOUR_MS * k" by (auto elim: dvdE)
  with h have "t div HOUR_MS = k" by (intro int_div_pos_eq [where r = "t - h"]) (auto simp: HOUR_MS_def MINUTE_MS_def)
  then show "trunc_hour t = h" by (simp add: trunc_hour_def k mult.commute)
qed

lemma count_where_filter: "count_where p (filter q xs) = count_where (\<lambda>x. q x \<and> p x) xs"
  by (simp add: count_where_def)

lemma js_round_near: "\<bar>of_int (js_round x) - x\<bar> \<le> 1 / 2"
proof -
  have "of_int \<lfloor>x + 1 / 2\<rfloor> \<le> x + 1 / 2" "x + 1 / 2 < of_int \<lfloor>x + 1 / 2\<rfloor> + 1"
    by linarith+
  then show ?thesis unfolding js_round_def abs_le_iff by linarith
qed

lemma two_decimals_near: "\<bar>two_decimals x - x\<bar> \<le> 1 / 200"
  using js_round_near [of "x * 100"] by (simp add: two_decimals_def field_simps abs_le_iff)

lemma spark_lookup:
  "map_of (spark_of now d) h =
     (let n = count_where (\<lambda>r. now - 12 * HOUR_MS < rq_arrived_at r \<and> h \<le> rq_arrived_at r \<and> rq_arrived_at r < h + HOUR_MS) (requests d) in
      if HOUR_MS dvd h \<and> 0 < n then Some n else None)"
proof -
  let ?rows = "arrived_since (now - 12 * HOUR_MS) d"
  let ?n = "count_where (\<lambda>r. trunc_hour (rq_arrived_at r) = h) ?rows"
  have "map_of (map (\<lambda>b. (b, f b)) bs) h = (if h \<in> set bs then Some (f h) else None)" for f :: "time \<Rightarrow> nat" and bs
    by (induction bs) auto
  then have "map_of (spark_of now d) h = (if h \<in> set (buckets (\<lambda>r. trunc_hour (rq_arrived_at r)) ?rows) then Some ?n else None)"
    by (simp add: spark_of_def Let_def)
  moreover have "h \<in> set (buckets (\<lambda>r. trunc_hour (rq_arrived_at r)) ?rows) \<longleftrightarrow> 0 < ?n"
    by (auto simp: buckets_def count_where_def length_greater_0_conv filter_empty_conv)
  moreover have n: "?n = count_where (\<lambda>r. now - 12 * HOUR_MS < rq_arrived_at r \<and> HOUR_MS dvd h \<and> h \<le> rq_arrived_at r \<and> rq_arrived_at r < h + HOUR_MS) (requests d)"
    by (simp add: arrived_since_def count_where_filter trunc_hour_iff)
  ultimately have "map_of (spark_of now d) h = (if 0 < ?n then Some ?n else None)" by simp
  then show ?thesis
    unfolding n Let_def by (cases "HOUR_MS dvd h") (simp_all add: count_where_def)
qed

section \<open>Properties\<close>

text \<open>
  C25: The figures of the overview are figures of the store. The queued and the in-flight requests are counted each by
  its status and together are the live ones; the bar of an hour is the number of requests of the last twelve hours
  that arrived within that hour, every hour that has one is there, in order, and the bars add up; the active replicas
  are the ready and the busy ones; the failures are the requests of the last hour with one of the five statuses
  of a failure that the route knows; and the stall rate is the share of the requests of the last day that stalled, in per cent, rounded to two
  decimals, and zero on a day without requests.
\<close>
theorem overview_accounts:
  "let v = overviewRoute now d; day = filter (\<lambda>r. now - 24 * HOUR_MS < rq_arrived_at r) (requests d);
       stalled = count_where (\<lambda>r. rq_status r = StallTimeoutStatus) day in
     ov_queuedRequests v = count_where (\<lambda>r. rq_status r = Queued) (requests d) \<and>
     ov_inFlightRequests v = count_where (\<lambda>r. rq_status r = Routed \<or> rq_status r = Streaming) (requests d) \<and>
     ov_queuedRequests v + ov_inFlightRequests v = count_where (\<lambda>r. live (rq_status r)) (requests d) \<and>
     (\<forall>h. map_of (ov_spark v) h =
        (let n = count_where (\<lambda>r. now - 12 * HOUR_MS < rq_arrived_at r \<and> h \<le> rq_arrived_at r \<and> rq_arrived_at r < h + HOUR_MS) (requests d) in
         if HOUR_MS dvd h \<and> 0 < n then Some n else None)) \<and>
     (\<Sum>(b, n)\<leftarrow>ov_spark v. n) = length (arrived_since (now - 12 * HOUR_MS) d) \<and>
     sorted (map fst (ov_spark v)) \<and> distinct (map fst (ov_spark v)) \<and>
     ov_activeReplicas v = count_where (\<lambda>r. rp_status r = Ready \<or> rp_status r = Busy) (replicas d) \<and>
     ov_totalReplicas v = length (replicas d) \<and>
     ov_failuresLastHour v = count_where (\<lambda>r. now - HOUR_MS < rq_arrived_at r \<and>
        rq_status r \<in> {QueueTimeoutStatus, StallTimeoutStatus, AuthInvalidStatus, CapabilityMismatchStatus, ErrorRequest}) (requests d) \<and>
     ov_totalRequests24h v = length day \<and>
     0 \<le> ov_stallTimeoutRatePct v \<and> ov_stallTimeoutRatePct v \<le> 100 \<and> (\<exists>k. ov_stallTimeoutRatePct v = of_int k / 100) \<and>
     \<bar>ov_stallTimeoutRatePct v - (if day = [] then 0 else of_nat stalled / of_nat (length day) * 100)\<bar> \<le> 1 / 200"
proof -
  let ?v = "overviewRoute now d"
  let ?day = "filter (\<lambda>r. now - 24 * HOUR_MS < rq_arrived_at r) (requests d)"
  let ?stalled = "count_where (\<lambda>r. rq_status r = StallTimeoutStatus) ?day"
  have "ov_queuedRequests ?v = count_where (\<lambda>r. rq_status r = Queued) (requests d)"
    "ov_inFlightRequests ?v = count_where (\<lambda>r. rq_status r = Routed \<or> rq_status r = Streaming) (requests d)"
    by (simp_all add: overviewRoute_def queued_rows_def flight_rows_def count_where_def)
  moreover have "count_where (\<lambda>r. rq_status r = Queued) (requests d) + count_where (\<lambda>r. rq_status r = Routed \<or> rq_status r = Streaming) (requests d) =
      count_where (\<lambda>r. live (rq_status r)) (requests d)"
  proof -
    have "filter (\<lambda>r. rq_status r = Queued \<or> (rq_status r = Routed \<or> rq_status r = Streaming)) (requests d) =
        filter (\<lambda>r. live (rq_status r)) (requests d)"
      by (rule filter_cong) (auto simp: live_def)
    then show ?thesis
      using length_two_filters [of "\<lambda>r. rq_status r = Queued" "\<lambda>r. rq_status r = Routed \<or> rq_status r = Streaming" "requests d"]
      by (simp add: count_where_def)
  qed
  moreover have "(\<Sum>(b, n)\<leftarrow>ov_spark ?v. n) = length (arrived_since (now - 12 * HOUR_MS) d)"
    by (simp add: overviewRoute_def spark_of_def Let_def comp_def count_buckets)
  moreover have "sorted (map fst (ov_spark ?v))" "distinct (map fst (ov_spark ?v))"
    using sorted_buckets by (simp_all add: overviewRoute_def spark_of_def Let_def comp_def)
  moreover have "map_of (ov_spark ?v) h =
        (let n = count_where (\<lambda>r. now - 12 * HOUR_MS < rq_arrived_at r \<and> h \<le> rq_arrived_at r \<and> rq_arrived_at r < h + HOUR_MS) (requests d) in
         if HOUR_MS dvd h \<and> 0 < n then Some n else None)" for h
    using spark_lookup [of now d h] by (simp add: overviewRoute_def)
  moreover have "ov_activeReplicas ?v = count_where (\<lambda>r. rp_status r = Ready \<or> rp_status r = Busy) (replicas d)"
    using length_two_filters [of "\<lambda>r. rp_status r = Ready" "\<lambda>r. rp_status r = Busy" "replicas d"]
    by (simp add: overviewRoute_def count_where_def)
  moreover have "ov_totalReplicas ?v = length (replicas d)" "ov_totalRequests24h ?v = length ?day"
    by (simp_all add: overviewRoute_def arrived_since_def)
  moreover have "ov_failuresLastHour ?v = count_where (\<lambda>r. now - HOUR_MS < rq_arrived_at r \<and>
        rq_status r \<in> {QueueTimeoutStatus, StallTimeoutStatus, AuthInvalidStatus, CapabilityMismatchStatus, ErrorRequest}) (requests d)"
    by (simp add: overviewRoute_def failures_last_hour_def counted_failure_def arrived_since_def count_where_def)
  moreover have "0 \<le> ov_stallTimeoutRatePct ?v" "ov_stallTimeoutRatePct ?v \<le> 100"
    using stall_rate_percent by (simp_all add: overviewRoute_def)
  moreover have rate: "ov_stallTimeoutRatePct ?v = two_decimals (if ?day = [] then 0 else of_nat ?stalled / of_nat (length ?day) * 100)"
    by (simp add: overviewRoute_def stall_rate_def arrived_since_def Let_def two_decimals_def js_round_def floor_eq_iff)
  moreover have "\<exists>k. ov_stallTimeoutRatePct ?v = of_int k / 100" unfolding rate two_decimals_def by blast
  moreover have "\<bar>ov_stallTimeoutRatePct ?v - (if ?day = [] then 0 else of_nat ?stalled / of_nat (length ?day) * 100)\<bar> \<le> 1 / 200"
    unfolding rate by (rule two_decimals_near)
  ultimately show ?thesis unfolding Let_def by (intro conjI allI) (assumption | simp)+
qed

text \<open>
  C26: The overview is blind to a fleet that is down. When every request of the last minutes was turned away
  because no replica could be reached, the page of recent failures lists them, but the overview counts no failure
  and shows the system as healthy, however many there are.
\<close>
theorem overview_misses_unavailable:
  assumes "\<forall>r \<in> set (requests d). rq_status r = ReplicaUnavailableStatus \<and> now - 5 * MINUTE_MS < rq_arrived_at r"
  shows "ov_failuresLastHour (overviewRoute now d) = 0 \<and> ov_systemHealth (overviewRoute now d) = Green \<and>
         (\<exists>rows. requestsRoute (Some ''failed'') now d = FailedPage rows \<and> length rows = min 50 (length (requests d)))"
proof -
  have none: "filter (\<lambda>r. rq_status r = Queued) (requests d) = []"
    "filter (\<lambda>r. counted_failure (rq_status r)) (arrived_since (now - HOUR_MS) d) = []"
    using assms by (auto simp: filter_empty_conv counted_failure_def arrived_since_def)
  have all: "filter (\<lambda>r. listed_failure (rq_status r)) (arrived_since (now - 5 * MINUTE_MS) d) = requests d"
    using assms by (auto simp: arrived_since_def filter_id_conv listed_failure_def)
  show ?thesis
    using none all
    by (simp add: overviewRoute_def failures_last_hour_def queued_rows_def health_of_def requestsRoute_def failed_rows_def min_def)
qed

lemma overview_misses_unavailable_witness:
  "let d = empty_db\<lparr>requests := map (\<lambda>n. ex_row (digits_of n) ''m'' ReplicaUnavailableStatus) [0..<9]\<rparr> in
   ov_systemHealth (overviewRoute 1000 d) = Green \<and>
   (\<exists>rows. requestsRoute (Some ''failed'') 1000 d = FailedPage rows \<and> length rows = 9)"
proof -
  let ?d = "empty_db\<lparr>requests := map (\<lambda>n. ex_row (digits_of n) ''m'' ReplicaUnavailableStatus) [0..<9]\<rparr>"
  have "\<forall>r \<in> set (requests ?d). rq_status r = ReplicaUnavailableStatus \<and> 1000 - 5 * MINUTE_MS < rq_arrived_at r"
    by (simp add: ex_row_def MINUTE_MS_def)
  from overview_misses_unavailable [OF this] show ?thesis by simp
qed

text \<open>
  The two halves of the cost page agree: unless a request was completed exactly at the start of the period
  or lies in the future, or has no name to be grouped under, the breakdown by model or caller and the chart by
  hour add up to the same cost, tokens and number of requests.\<close>
theorem cost_page_agrees:
  assumes "\<forall>r \<in> set (requests d). rq_status r = Completed \<longrightarrow>
     rq_arrived_at r \<noteq> now - interval_of period \<and> rq_arrived_at r \<le> now \<and> group_column (nullish g GroupByModel) r \<noteq> None"
    and "costRoute g period now d = (breakdown, series, p)"
  shows "(\<Sum>e\<leftarrow>breakdown. be_cost e) = (\<Sum>h\<leftarrow>series. hr_cost h) \<and>
         (\<Sum>e\<leftarrow>breakdown. be_tokens e) = (\<Sum>h\<leftarrow>series. hr_tokensIn h + hr_tokensOut h) \<and>
         (\<Sum>e\<leftarrow>breakdown. be_requests e) = (\<Sum>h\<leftarrow>series. int (hr_requests h))"
proof -
  let ?g = "nullish g GroupByModel" and ?since = "now - interval_of period"
  define rows where "rows = billed_rows ?since now ?g d"
  have "rows = filter (\<lambda>r. rq_status r = Completed) (arrived_since ?since d)"
    unfolding rows_def billed_rows_def arrived_since_def filter_filter
    by (rule filter_cong) (use assms(1) in \<open>auto simp: less_le\<close>)
  then have series: "series = map (hourly_row_of rows) (buckets (\<lambda>r. trunc_hour (rq_arrived_at r)) rows)"
    and breakdown: "breakdown = getCostBreakdown ?since now ?g d"
    using assms(2) by (auto simp: costRoute_def hourly_def Let_def)
  have "(\<Sum>h\<leftarrow>series. hr_cost h) = (\<Sum>r\<leftarrow>rows. row_cost r)"
    "(\<Sum>h\<leftarrow>series. hr_tokensIn h + hr_tokensOut h) = (\<Sum>r\<leftarrow>rows. rq_input_tokens r + rq_output_tokens r)"
    "(\<Sum>h\<leftarrow>series. int (hr_requests h)) = (\<Sum>r\<leftarrow>rows. 1)"
    using sum_buckets [of row_cost "\<lambda>r. trunc_hour (rq_arrived_at r)" rows]
      sum_buckets [of "\<lambda>r. rq_input_tokens r + rq_output_tokens r" "\<lambda>r. trunc_hour (rq_arrived_at r)" rows]
      sum_buckets [of "\<lambda>r. 1 :: int" "\<lambda>r. trunc_hour (rq_arrived_at r)" rows]
    by (simp_all add: series hourly_row_of_def Let_def comp_def sum_list_addf sum_list_triv)
  moreover have "(\<Sum>e\<leftarrow>breakdown. be_cost e) = (\<Sum>r\<leftarrow>rows. row_cost r)"
    "(\<Sum>e\<leftarrow>breakdown. be_tokens e) = (\<Sum>r\<leftarrow>rows. rq_input_tokens r + rq_output_tokens r)"
    "(\<Sum>e\<leftarrow>breakdown. be_requests e) = (\<Sum>r\<leftarrow>rows. 1)"
    unfolding breakdown rows_def by (rule breakdown_total, simp add: breakdown_of_def Let_def sum_list_triv)+
  ultimately show ?thesis by simp
qed

lemma cost_page_agrees_witness:
  "let d = empty_db\<lparr>requests := [(ex_row ''a'' ''m'' Completed)\<lparr>rq_cost_usd := Some 3\<rparr>, (ex_row ''b'' ''n'' Completed)\<lparr>rq_cost_usd := Some 4\<rparr>]\<rparr>;
       (breakdown, series, p) = costRoute None (Some ''1h'') 1000 d in
   (\<Sum>e\<leftarrow>breakdown. be_cost e) = 7 \<and> (\<Sum>h\<leftarrow>series. hr_cost h) = 7"
proof -
  let ?d = "empty_db\<lparr>requests := [(ex_row ''a'' ''m'' Completed)\<lparr>rq_cost_usd := Some 3\<rparr>, (ex_row ''b'' ''n'' Completed)\<lparr>rq_cost_usd := Some 4\<rparr>]\<rparr>"
  obtain breakdown series p where run: "costRoute None (Some ''1h'') 1000 ?d = (breakdown, series, p)" by (metis prod_cases3)
  have ok: "\<forall>r \<in> set (requests ?d). rq_status r = Completed \<longrightarrow> rq_arrived_at r \<noteq> 1000 - interval_of (Some ''1h'') \<and>
      rq_arrived_at r \<le> 1000 \<and> group_column (nullish None GroupByModel) r \<noteq> None"
    by code_simp
  have "(\<Sum>e\<leftarrow>fst (costRoute None (Some ''1h'') 1000 ?d). be_cost e) = 7" by code_simp
  with cost_page_agrees [OF ok run] run show ?thesis by simp
qed

text \<open>
  The error summary has one entry per error code that occurred in the last day, most frequent first, and its
  counts add up to the requests that ended with an error code.\<close>
theorem errorSummary_conserves:
  "let s = errorSummary now d in
     distinct (map fst s) \<and> sorted (map (\<lambda>(c, n). - int n) s) \<and> list_all (\<lambda>(c, n). 0 < n) s \<and>
     (\<Sum>(c, n)\<leftarrow>s. n) = count_where (\<lambda>r. rq_error_code r \<noteq> None) (arrived_since (now - 24 * HOUR_MS) d)"
proof -
  define codes where "codes = List.map_filter rq_error_code (arrived_since (now - 24 * HOUR_MS) d)"
  let ?pairs = "map (\<lambda>c. (c, count_where (\<lambda>x. x = c) codes)) (remdups codes)"
  have s: "errorSummary now d = sort_key (\<lambda>(c, n). - int n) ?pairs"
    by (simp only: errorSummary_def Let_def codes_def)
  have keys: "map fst ?pairs = remdups codes" by (simp add: comp_def)
  have "mset (map fst (sort_key (\<lambda>(c, n). - int n) ?pairs)) = mset (map fst ?pairs)"
    by (simp only: mset_map mset_sort)
  then have "mset (map fst (sort_key (\<lambda>(c, n). - int n) ?pairs)) = mset (remdups codes)"
    by (simp only: keys)
  then have "distinct (map fst (sort_key (\<lambda>(c, n). - int n) ?pairs))"
    using mset_eq_imp_distinct_iff [of _ "remdups codes"] by blast
  moreover have "(\<Sum>(c, n)\<leftarrow>sort_key (\<lambda>(c, n). - int n) ?pairs. n) = length codes"
  proof -
    have "(\<Sum>(c, n)\<leftarrow>sort_key (\<lambda>(c, n). - int n) ?pairs. n) = (\<Sum>(c, n)\<leftarrow>?pairs. n)"
      by (simp only: sum_mset_sum_list [symmetric] mset_map mset_sort)
    also have "\<dots> = (\<Sum>c\<leftarrow>remdups codes. count_list codes c)"
      by (simp add: comp_def count_where_def count_list_eq_length_filter eq_commute)
    also have "\<dots> = length codes"
      by (simp add: sum_list_distinct_conv_sum_set sum_count_set)
    finally show ?thesis .
  qed
  moreover have "list_all (\<lambda>(c, n). 0 < n) (sort_key (\<lambda>(c, n). - int n) ?pairs)"
    by (auto simp: list_all_iff count_where_def filter_empty_conv)
  moreover have "length codes = count_where (\<lambda>r. rq_error_code r \<noteq> None) (arrived_since (now - 24 * HOUR_MS) d)"
    by (simp add: codes_def map_filter_length count_where_def)
  ultimately show ?thesis unfolding s Let_def by simp
qed

text \<open>
  The override route never answers that a model was not found: for an unknown model the insertion violates a
  foreign key, the call raises, and nothing is stored.\<close>
theorem override_404_unreachable:
  "fst (overrideRoute modelId body now d) \<noteq> NotFound \<and>
   (getModel d modelId = None \<longleftrightarrow> overrideRoute modelId body now d = (Raised ForeignKeyViolation, d))"
proof -
  have "getModel (put_override ''dashboard-admin'' now modelId body d) modelId = None \<longleftrightarrow> getModel d modelId = None"
    by (simp add: getModel_def)
  then show ?thesis
    by (auto simp: overrideRoute_def setModelOverride_def Let_def getModel_None split: option.splits)
qed

end
