(* ===== verification/Startup.thy ===== *)
theory Startup
  imports Gateway Dashboard
begin

text \<open>
  The router process, \<open>server/src/index.ts\<close> and \<open>server/src/http/app.ts\<close>: what it does before it listens, and the
  work it repeats afterwards. The store is migrated already; the mounted config file, the fleet as probed and the
  answer of the identity provider are arguments. A pass of the reconciler that throws is taken to leave the store
  as it was.
\<close>

section \<open>Starting up\<close>

definition SWEEP_INTERVAL_MS :: int where "SWEEP_INTERVAL_MS = 5000"
definition AFFINITY_INTERVAL_MS :: int where "AFFINITY_INTERVAL_MS = 60000"

definition RECONCILE_INTERVAL_MS :: "(string \<Rightarrow> string option) \<Rightarrow> rat option" where
  "RECONCILE_INTERVAL_MS env = js_number (nullish (env ''REPLICA_RECONCILE_INTERVAL_MS'') ''5000'')"

record boot_env =
  be_config :: config
  be_namespace :: "string option"
  be_file :: "gitops_model list option"
  be_world :: world
  be_reports :: upstream_reports
  be_jwks :: "(nat \<times> json) option"
  be_now :: time

datatype boot_log =
    Synced nat "string list"
  | SyncFailed config_error
  | Reconciled summary
  | ReconcileFailed
  | JwksReachable
  | JwksUnreachable
  | Started bool

definition sync_step :: "boot_env \<Rightarrow> db \<Rightarrow> boot_log list \<times> db" where
  "sync_step be d =
     (case syncModelsFromConfigFile (be_namespace be) (be_file be) d of
        Inl e \<Rightarrow> ([SyncFailed e], d)
      | Inr (None, d') \<Rightarrow> ([], d')
      | Inr (Some res, d') \<Rightarrow> ([Synced (sr_upserted res) (sr_removed res)], d'))"

definition reconcile_step :: "world \<Rightarrow> time \<Rightarrow> upstream_reports \<Rightarrow> db \<Rightarrow> boot_log list \<times> upstream_reports \<times> db" where
  "reconcile_step w now reports d =
     (case reconcileReplicas w now reports d of
        Inl e \<Rightarrow> ([ReconcileFailed], reports, d)
      | Inr (s, reports', d') \<Rightarrow> ([Reconciled s], reports', d'))"

definition jwks_step :: "boot_env \<Rightarrow> boot_log list" where
  "jwks_step be =
     (if \<not> cf_simMode (be_config be) \<and> cf_jwksUri (be_config be) \<noteq> ''''
      then [if probeJwks (be_jwks be) then JwksReachable else JwksUnreachable] else [])"

text \<open>The process exits when it has no source of keys; otherwise it listens.\<close>

datatype boot = Exits db | Listens "boot_log list" upstream_reports db

definition main :: "boot_env \<Rightarrow> db \<Rightarrow> boot" where
  "main be d =
     (case sync_step be d of
        (log1, d1) \<Rightarrow>
          (if getJwksSource (be_config be) = None then Exits d1
           else (case reconcile_step (be_world be) (be_now be) (be_reports be) d1 of
                   (log2, reports, d2) \<Rightarrow>
                     Listens (log1 @ log2 @ jwks_step be @ [Started (cf_simMode (be_config be))]) reports d2)))"

text \<open>The error handler of the app: its own translation of a body over the limit, anything else as it came.\<close>

definition body_limit_bytes :: "(string \<Rightarrow> string option) \<Rightarrow> rat option" where
  "body_limit_bytes env = (case env ''BODY_LIMIT_BYTES'' of Some s \<Rightarrow> js_number s | None \<Rightarrow> Some (32 * 1024 * 1024))"

definition body_too_large :: "rat \<Rightarrow> standard_error" where
  "body_too_large limit =
     invalidRequest (''Request body exceeds the gateway's '' @ show_int (js_round (limit / 1024 / 1024)) @
       '' MB limit. This is usually an agent sending its whole conversation at once. Raise BODY_LIMIT_BYTES on the '' @
       ''router, and the ingress body-size limit with it.'')"

definition app_error :: "rat \<Rightarrow> string option \<Rightarrow> (nat \<times> standard_error) option" where
  "app_error limit errorCode = (if errorCode = Some ''FST_ERR_CTP_BODY_TOO_LARGE'' then Some (413, body_too_large limit) else None)"

section \<open>The periodic work\<close>

datatype job = QueueSweep | StallSweep | FirstTokenSweep | AffinitySweep | ReconcileJob

definition job_interval :: "(string \<Rightarrow> string option) \<Rightarrow> job \<Rightarrow> rat option" where
  "job_interval env j =
     (case j of AffinitySweep \<Rightarrow> Some (of_int AFFINITY_INTERVAL_MS)
              | ReconcileJob \<Rightarrow> RECONCILE_INTERVAL_MS env
              | _ \<Rightarrow> Some (of_int SWEEP_INTERVAL_MS))"

definition run_job :: "settings \<Rightarrow> int \<Rightarrow> world \<Rightarrow> job \<Rightarrow> time \<Rightarrow> upstream_reports \<times> db \<Rightarrow> upstream_reports \<times> db" where
  "run_job cfg affinityTtl w j now st =
     (case j of
        QueueSweep \<Rightarrow> (fst st, snd (sweepQueueTimeouts (QUEUE_TIMEOUT_MS cfg) now (snd st)))
      | StallSweep \<Rightarrow> (fst st, snd (sweepStallTimeouts (STALL_TIMEOUT_MS cfg) now (snd st)))
      | FirstTokenSweep \<Rightarrow> (fst st, snd (sweepFirstTokenTimeouts (FIRST_TOKEN_TIMEOUT_MS cfg) now (snd st)))
      | AffinitySweep \<Rightarrow> (fst st, snd (sweepAffinities affinityTtl now (snd st)))
      | ReconcileJob \<Rightarrow> snd (reconcile_step w now (fst st) (snd st)))"

text \<open>
  A history of the process: jobs at their times, and whatever else is written in between by the handlers and by
  other processes.
\<close>

datatype happening = Job job time world | Written "db \<Rightarrow> db"

definition happens :: "settings \<Rightarrow> int \<Rightarrow> happening \<Rightarrow> upstream_reports \<times> db \<Rightarrow> upstream_reports \<times> db" where
  "happens cfg ttl h st = (case h of Job j now w \<Rightarrow> run_job cfg ttl w j now st | Written f \<Rightarrow> (fst st, f (snd st)))"

definition history :: "settings \<Rightarrow> int \<Rightarrow> happening list \<Rightarrow> upstream_reports \<times> db \<Rightarrow> upstream_reports \<times> db" where
  "history cfg ttl hs st = fold (happens cfg ttl) hs st"

section \<open>Facts\<close>

lemma reconcile_step_frame:
  assumes "db_ok d"
  shows "models (snd (snd (reconcile_step w now reports d))) = models d"
    "requests (snd (snd (reconcile_step w now reports d))) = requests d"
    "db_ok (snd (snd (reconcile_step w now reports d)))"
  using assms
  by (auto simp: reconcile_step_def split: sum.split elim!: reconcile_Inr)

lemma run_job_ok: "db_ok (snd st) \<Longrightarrow> db_ok (snd (run_job cfg ttl w j now st))"
  by (cases j)
     (simp_all add: run_job_def queue_sweep.keeps_db_ok stall_sweep.keeps_db_ok first_token_sweep.keeps_db_ok
       db_ok_sweepAffinities reconcile_step_frame)

text \<open>A request that waits is touched by no job but the queue sweep, and one with an outcome by none.\<close>

lemma run_job_waiting:
  assumes "db_ok (snd st)" "request_by (snd st) k = Some r" "rq_status r = Queued"
  shows "request_by (snd (run_job cfg ttl w j now st)) k =
    Some (if j = QueueSweep \<and> rq_arrived_at r + QUEUE_TIMEOUT_MS cfg < now
          then set_timed_out QueueTimeoutStatus QueueTimeout now r else r)"
proof (cases j)
  case AffinitySweep
  have "requests (snd (sweepAffinities ttl now (snd st))) = requests (snd st)" by simp
  with AffinitySweep assms show ?thesis by (simp add: run_job_def request_by_def)
next
  case ReconcileJob
  with assms reconcile_step_frame(2) [OF assms(1), of w now "fst st"] show ?thesis
    by (simp add: run_job_def request_by_def)
next
  case QueueSweep
  with assms show ?thesis by (auto simp: run_job_def queue_sweep.row_after queue_due_def)
next
  case StallSweep
  with assms show ?thesis by (simp add: run_job_def stall_sweep.row_after stall_due_def)
next
  case FirstTokenSweep
  with assms show ?thesis by (auto simp: run_job_def first_token_sweep.row_after first_token_due_def list_ex_iff)
qed

lemma run_job_closed:
  assumes "db_ok (snd st)" "request_by (snd st) k = Some r" "\<not> live (rq_status r)"
  shows "request_by (snd (run_job cfg ttl w j now st)) k = Some r"
proof (cases j)
  case AffinitySweep
  have "requests (snd (sweepAffinities ttl now (snd st))) = requests (snd st)" by simp
  with AffinitySweep assms show ?thesis by (simp add: run_job_def request_by_def)
next
  case ReconcileJob
  with assms reconcile_step_frame(2) [OF assms(1), of w now "fst st"] show ?thesis
    by (simp add: run_job_def request_by_def)
qed (use assms in \<open>simp_all add: run_job_def queue_sweep.terminal_untouched stall_sweep.terminal_untouched
       first_token_sweep.terminal_untouched\<close>)

text \<open>What else is written leaves the row of one request alone, and the constraints of the schema intact.\<close>

definition spares :: "string \<Rightarrow> happening \<Rightarrow> bool" where
  "spares k h \<longleftrightarrow>
     (case h of Job j now w \<Rightarrow> True
              | Written f \<Rightarrow> (\<forall>d. request_by (f d) k = request_by d k \<and> (db_ok d \<longrightarrow> db_ok (f d))))"

fun sweep_times :: "happening list \<Rightarrow> time list" where
  "sweep_times [] = []"
| "sweep_times (Job QueueSweep now w # hs) = now # sweep_times hs"
| "sweep_times (h # hs) = sweep_times hs"

fun dense :: "int \<Rightarrow> time \<Rightarrow> time list \<Rightarrow> bool" where
  "dense gap prev [] \<longleftrightarrow> True"
| "dense gap prev (t # ts) \<longleftrightarrow> t \<le> prev + gap \<and> dense gap t ts"

lemma history_Cons: "history cfg ttl (h # hs) st = history cfg ttl hs (happens cfg ttl h st)"
  by (simp add: history_def)

lemma happens_ok: "spares k h \<Longrightarrow> db_ok (snd st) \<Longrightarrow> db_ok (snd (happens cfg ttl h st))"
  by (auto simp: happens_def spares_def run_job_ok split: happening.splits)

lemma history_closed:
  assumes "list_all (spares k) hs" "db_ok (snd st)" "request_by (snd st) k = Some r" "\<not> live (rq_status r)"
  shows "request_by (snd (history cfg ttl hs st)) k = Some r"
  using assms
proof (induction hs arbitrary: st)
  case (Cons h hs)
  then have "request_by (snd (happens cfg ttl h st)) k = Some r"
    by (cases h) (auto simp: happens_def spares_def run_job_closed)
  with Cons happens_ok [of k h st cfg ttl] show ?case by (simp add: history_Cons)
qed (simp add: history_def)

lemma history_waiting:
  assumes "list_all (spares k) hs" "db_ok (snd st)" "request_by (snd st) k = Some r" "rq_status r = Queued"
    and "dense gap prev (sweep_times hs)" "prev \<le> rq_arrived_at r + QUEUE_TIMEOUT_MS cfg"
    and "list_ex (\<lambda>t. rq_arrived_at r + QUEUE_TIMEOUT_MS cfg < t) (sweep_times hs)"
  shows "\<exists>t. rq_arrived_at r + QUEUE_TIMEOUT_MS cfg < t \<and> t \<le> rq_arrived_at r + QUEUE_TIMEOUT_MS cfg + gap \<and>
             request_by (snd (history cfg ttl hs st)) k = Some (set_timed_out QueueTimeoutStatus QueueTimeout t r)"
  using assms
proof (induction hs arbitrary: st prev)
  case (Cons h hs)
  let ?st = "happens cfg ttl h st" and ?due = "rq_arrived_at r + QUEUE_TIMEOUT_MS cfg"
  have ok: "db_ok (snd ?st)" using Cons.prems(1,2) by (simp add: happens_ok [of k])
  show ?case
  proof (cases "\<exists>now w. h = Job QueueSweep now w \<and> ?due < now")
    case True
    then obtain now w where h: "h = Job QueueSweep now w" "?due < now" by blast
    have "request_by (snd ?st) k = Some (set_timed_out QueueTimeoutStatus QueueTimeout now r)"
      using h run_job_waiting [OF Cons.prems(2-4), of cfg ttl w QueueSweep now] by (simp add: happens_def)
    from history_closed [OF _ ok this, of hs cfg ttl] Cons.prems(1)
    have "request_by (snd (history cfg ttl (h # hs) st)) k = Some (set_timed_out QueueTimeoutStatus QueueTimeout now r)"
      by (simp add: history_Cons set_timed_out_def)
    moreover have "now \<le> ?due + gap" using Cons.prems(5,6) h by simp
    ultimately show ?thesis using h(2) by blast
  next
    case False
    have row: "request_by (snd ?st) k = Some r"
    proof (cases h)
      case (Job j now w)
      with False run_job_waiting [OF Cons.prems(2-4), of cfg ttl w j now] show ?thesis by (auto simp: happens_def)
    next
      case (Written f)
      with Cons.prems(1,3) show ?thesis by (auto simp: happens_def spares_def)
    qed
    have "\<exists>prev'. dense gap prev' (sweep_times hs) \<and> prev' \<le> ?due \<and> list_ex (\<lambda>t. ?due < t) (sweep_times hs)"
    proof (cases "\<exists>now w. h = Job QueueSweep now w")
      case True
      then obtain now w where "h = Job QueueSweep now w" by blast
      with False Cons.prems(5,7) show ?thesis by (intro exI [of _ now]) auto
    next
      case other: False
      then have "sweep_times (h # hs) = sweep_times hs" by (cases "h # hs" rule: sweep_times.cases) auto
      with Cons.prems(5-7) show ?thesis by auto
    qed
    with Cons.IH [OF _ ok row Cons.prems(4)] Cons.prems(1) show ?thesis by (auto simp: history_Cons)
  qed
qed simp


section \<open>Properties\<close>

text \<open>
  C27: A bad config does not keep the router from starting, and does not cost it its registry: with any source of
  keys, it listens, whatever the fleet and the identity provider answer; it says that the sync failed; and the
  models and requests in the store are the ones that were there.
\<close>
theorem bad_config_survives:
  assumes "readModelsConfig (be_file be) = Inl e" "getJwksSource (be_config be) \<noteq> None" "db_ok d"
  shows "\<exists>log reports d'. main be d = Listens log reports d' \<and> SyncFailed e \<in> set log \<and>
           last log = Started (cf_simMode (be_config be)) \<and> db_ok d' \<and> models d' = models d \<and> requests d' = requests d"
proof -
  have sync: "sync_step be d = ([SyncFailed e], d)"
    using assms(1) by (simp add: sync_step_def syncModelsFromConfigFile_def)
  obtain log2 reports d2 where rec: "reconcile_step (be_world be) (be_now be) (be_reports be) d = (log2, reports, d2)"
    by (metis prod_cases3)
  with reconcile_step_frame [OF assms(3), of "be_world be" "be_now be" "be_reports be"]
  have "models d2 = models d" "requests d2 = requests d" "db_ok d2" by simp_all
  moreover have "main be d = Listens ([SyncFailed e] @ log2 @ jwks_step be @ [Started (cf_simMode (be_config be))]) reports d2"
    using sync rec assms(2) by (simp add: main_def)
  ultimately show ?thesis by simp
qed

definition ex_boot :: boot_env where
  "ex_boot = \<lparr>be_config = ex_sim_config, be_namespace = None, be_file = Some [(ex_gitops ''a'' (Some ''a''))],
     be_world = ex_world, be_reports = [], be_jwks = None, be_now = 0\<rparr>"

lemma bad_config_survives_witness:
  "\<exists>log reports d'. main ex_boot ex_before = Listens log reports d' \<and> models d' = models ex_before"
proof -
  obtain e where "readModelsConfig (be_file ex_boot) = Inl e"
  proof -
    have "case readModelsConfig (be_file ex_boot) of Inl e \<Rightarrow> True | Inr x \<Rightarrow> False" by code_simp
    then show ?thesis using that by (auto split: sum.splits)
  qed
  moreover have "getJwksSource (be_config ex_boot) \<noteq> None" "db_ok ex_before" by code_simp+
  ultimately show ?thesis using bad_config_survives by blast
qed

text \<open>
  C8: No caller's request waits in the queue much longer than the timeout. Whatever the other jobs, handlers and
  processes do meanwhile (short of picking the request up), if the process sweeps the queue at least every
  interval, the request is closed as a queue timeout after its deadline and at most one interval later.
\<close>
theorem queued_request_closed_in_time:
  assumes "list_all (spares k) hs" "db_ok (snd st)" "request_by (snd st) k = Some r" "rq_status r = Queued"
    and "dense SWEEP_INTERVAL_MS start (sweep_times hs)" "start \<le> rq_arrived_at r + QUEUE_TIMEOUT_MS cfg"
    and "list_ex (\<lambda>t. rq_arrived_at r + QUEUE_TIMEOUT_MS cfg < t) (sweep_times hs)"
  shows "\<exists>t. rq_arrived_at r + QUEUE_TIMEOUT_MS cfg < t \<and> t \<le> rq_arrived_at r + QUEUE_TIMEOUT_MS cfg + SWEEP_INTERVAL_MS \<and>
             request_by (snd (history cfg ttl hs st)) k = Some (set_timed_out QueueTimeoutStatus QueueTimeout t r)"
  by (rule history_waiting [OF assms])

lemma queued_request_closed_in_time_witness:
  "let cfg = default_settings\<lparr>QUEUE_TIMEOUT_MS := 7000\<rparr>;
       hs = [Job QueueSweep 5000 ex_world, Job ReconcileJob 5000 ex_world, Written id, Job QueueSweep 10000 ex_world,
             Job StallSweep 10000 ex_world] in
   \<exists>t. 7000 < t \<and> t \<le> 12000 \<and>
       map_option rq_completed_at (request_by (snd (history cfg 0 hs ([], ex_fleet_db))) ''q0'') = Some (Some t)"
proof -
  let ?cfg = "default_settings\<lparr>QUEUE_TIMEOUT_MS := 7000\<rparr>"
  let ?hs = "[Job QueueSweep 5000 ex_world, Job ReconcileJob 5000 ex_world, Written id, Job QueueSweep 10000 ex_world,
             Job StallSweep 10000 ex_world]"
  let ?r = "ex_row ''q0'' ''ornith'' Queued"
  have sp: "list_all (spares ''q0'') ?hs" by (simp add: spares_def)
  have ok: "db_ok (snd ([] :: upstream_reports, ex_fleet_db))" "request_by (snd ([] :: upstream_reports, ex_fleet_db)) ''q0'' = Some ?r" by code_simp+
  have r: "rq_status ?r = Queued" "rq_arrived_at ?r = 0" by (simp_all add: ex_row_def)
  have den: "dense SWEEP_INTERVAL_MS 0 (sweep_times ?hs)" by (simp add: SWEEP_INTERVAL_MS_def)
  have late: "0 \<le> rq_arrived_at ?r + QUEUE_TIMEOUT_MS ?cfg" "list_ex (\<lambda>t. rq_arrived_at ?r + QUEUE_TIMEOUT_MS ?cfg < t) (sweep_times ?hs)"
    by (simp_all add: r)
  from queued_request_closed_in_time [OF sp ok r(1) den late, of 0] obtain t where
    "7000 < t" "t \<le> 12000" "request_by (snd (history ?cfg 0 ?hs ([], ex_fleet_db))) ''q0'' = Some (set_timed_out QueueTimeoutStatus QueueTimeout t ?r)"
    by (auto simp: r SWEEP_INTERVAL_MS_def)
  then show ?thesis by (auto simp: Let_def set_timed_out_def)
qed

end
