(* ===== verification/Session.thy ===== *)
theory Session
  imports Auth Logs
begin

text \<open>
  Signing in to the dashboard: \<open>src/lib/auth.ts\<close>, \<open>src/middleware.ts\<close>, \<open>src/app/api/auth/login\<close>,
  \<open>callback\<close> and \<open>logout\<close>, the layout that guards the pages, and the proxy of
  \<open>src/app/gateway/[...path]/route.ts\<close>. Parameters stand for what is not code of the repository: \<open>sign\<close>
  and \<open>verify\<close> for the signed tokens of jose under a shared secret, \<open>verify_id\<close> for its check of an
  id_token against the provider's keys, \<open>sha256\<close> for the digest, \<open>fetch\<close> for the network, and the random
  bytes of a login are arguments. Text is a list of characters below 256, and the dash of a message is
  written with two hyphens.
\<close>

section \<open>Configuration\<close>

type_synonym env = "string \<Rightarrow> string option"

definition SESSION_COOKIE :: string where "SESSION_COOKIE = ''cd_session''"
definition SESSION_TTL_SECONDS :: int where "SESSION_TTL_SECONDS = 8 * 60 * 60"

record auth_config =
  ac_simMode :: bool
  ac_tenantId :: string
  ac_clientId :: string
  ac_clientSecret :: string
  ac_adminGroupId :: string
  ac_adminRole :: string
  ac_appUrl :: string
  ac_authority :: string

definition authConfig :: "env \<Rightarrow> auth_config" where
  "authConfig env =
     \<lparr>ac_simMode = (env ''SIM_MODE'' = Some ''true''),
      ac_tenantId = nullish (env ''DASHBOARD_ENTRA_TENANT_ID'') '''',
      ac_clientId = nullish (env ''DASHBOARD_ENTRA_CLIENT_ID'') '''',
      ac_clientSecret = nullish (env ''DASHBOARD_ENTRA_CLIENT_SECRET'') '''',
      ac_adminGroupId = nullish (env ''DASHBOARD_ADMIN_GROUP_ID'') '''',
      ac_adminRole = nullish (env ''DASHBOARD_ADMIN_ROLE'') '''',
      ac_appUrl = nullish (env ''DASHBOARD_APP_URL'') ''http://localhost:3000'',
      ac_authority = strip_trailing (CHR ''/'')
        (nullish (env ''DASHBOARD_ENTRA_AUTHORITY'') ''https://login.microsoftonline.com'')\<rparr>"

definition authorizeUrl :: "auth_config \<Rightarrow> string" where
  "authorizeUrl cfg = ac_authority cfg @ ''/'' @ ac_tenantId cfg @ ''/oauth2/v2.0/authorize''"

definition tokenUrl :: "auth_config \<Rightarrow> string" where
  "tokenUrl cfg = ac_authority cfg @ ''/'' @ ac_tenantId cfg @ ''/oauth2/v2.0/token''"

definition jwksUri :: "auth_config \<Rightarrow> string" where
  "jwksUri cfg = ac_authority cfg @ ''/'' @ ac_tenantId cfg @ ''/discovery/v2.0/keys''"

definition issuer :: "auth_config \<Rightarrow> string" where
  "issuer cfg = ac_authority cfg @ ''/'' @ ac_tenantId cfg @ ''/v2.0''"

definition redirectUri :: "auth_config \<Rightarrow> string" where
  "redirectUri cfg = ac_appUrl cfg @ ''/api/auth/callback''"

section \<open>Sessions\<close>

record session =
  ss_oid :: string
  ss_name :: string
  ss_email :: string
  ss_initials :: string
  ss_simulated :: bool

definition missing_secret_message :: string where
  "missing_secret_message =
     ''DASHBOARD_SESSION_SECRET must be set in production -- it signs the admin session cookie.''"

definition short_secret_message :: string where
  "short_secret_message = ''DASHBOARD_SESSION_SECRET must be at least 32 characters.''"

definition sim_secret :: string where
  "sim_secret = ''controldeck-sim-mode-session-secret-not-for-production''"

text \<open>The secret, or the message of the error that is thrown.\<close>

definition sessionSecret :: "env \<Rightarrow> string + string" where
  "sessionSecret env =
     (let secret = nullish (env ''DASHBOARD_SESSION_SECRET'') '''' in
      if secret = '''' then
        (if ac_simMode (authConfig env) then Inr sim_secret else Inl missing_secret_message)
      else if length secret < 32 then Inl short_secret_message
      else Inr secret)"

text \<open>\<open>split(/\s+/).filter(Boolean)\<close>: the words between the blanks.\<close>

function (sequential) words_of :: "string \<Rightarrow> string list" where
  "words_of [] = []"
| "words_of (c # s) =
     (if is_ws c then words_of s
      else (c # takeWhile (\<lambda>d. \<not> is_ws d) s) # words_of (dropWhile (\<lambda>d. \<not> is_ws d) s))"
  by pat_completeness auto

termination words_of
  by (relation "measure length") (auto simp: le_imp_less_Suc length_dropWhile_le)

definition initialsFor :: "string \<Rightarrow> string" where
  "initialsFor name =
     (let parts = words_of (trim name) in
      if length parts = 0 then ''?''
      else if length parts = 1 then to_upper (take 2 (hd parts))
      else to_upper [hd (hd parts), hd (last parts)])"

definition SIM_SESSION :: session where
  "SIM_SESSION =
     \<lparr>ss_oid = ''00000000-0000-0000-0000-00000000sim0'', ss_name = ''Sim Admin'',
      ss_email = ''sim-admin@localhost'', ss_initials = ''SA'', ss_simulated = True\<rparr>"

text \<open>Seconds since the epoch, of a clock in milliseconds.\<close>

definition epoch :: "time \<Rightarrow> int" where
  "epoch now = now div 1000"

definition session_claims :: "session \<Rightarrow> time \<Rightarrow> claims" where
  "session_claims s now =
     [(''oid'', JStr (ss_oid s)), (''name'', JStr (ss_name s)), (''email'', JStr (ss_email s)),
      (''initials'', JStr (ss_initials s)), (''simulated'', JBool (ss_simulated s)),
      (''iat'', JNum (of_int (epoch now))), (''exp'', JNum (of_int (epoch now + SESSION_TTL_SECONDS)))]"

type_synonym signer = "string \<Rightarrow> string \<Rightarrow> claims \<Rightarrow> string"
type_synonym verifier = "string \<Rightarrow> time \<Rightarrow> string \<Rightarrow> string option + claims"

definition createSessionCookieValue :: "env \<Rightarrow> signer \<Rightarrow> time \<Rightarrow> session \<Rightarrow> string + string" where
  "createSessionCookieValue env sign now s =
     (case sessionSecret env of
        Inl e \<Rightarrow> Inl e
      | Inr secret \<Rightarrow> Inr (sign ''HS256'' secret (session_claims s now)))"

text \<open>\<open>String(v ?? d)\<close>.\<close>

definition string_or :: "json option \<Rightarrow> string \<Rightarrow> string" where
  "string_or v d = (case non_null v of None \<Rightarrow> d | Some x \<Rightarrow> js_string x)"

definition session_of_claims :: "claims \<Rightarrow> session" where
  "session_of_claims payload =
     \<lparr>ss_oid = string_or (map_of payload ''oid'') '''', ss_name = string_or (map_of payload ''name'') ''Unknown'',
      ss_email = string_or (map_of payload ''email'') '''',
      ss_initials = string_or (map_of payload ''initials'') ''?'', ss_simulated = False\<rparr>"

type_synonym jar = "(string \<times> string) list"

definition getSession :: "env \<Rightarrow> verifier \<Rightarrow> time \<Rightarrow> jar \<Rightarrow> session option" where
  "getSession env verify now jar =
     (if ac_simMode (authConfig env) then Some SIM_SESSION
      else
        let token = nullish (map_of jar SESSION_COOKIE) '''' in
        if token = '''' then None
        else case sessionSecret env of
            Inl _ \<Rightarrow> None
          | Inr secret \<Rightarrow>
              (case verify secret now token of Inl _ \<Rightarrow> None | Inr payload \<Rightarrow> Some (session_of_claims payload)))"

section \<open>Admission\<close>

definition groups_overflowed :: "claims \<Rightarrow> bool" where
  "groups_overflowed payload =
     (case map_of payload ''_claim_names'' of
        Some (JObj kvs) \<Rightarrow> map_of kvs ''groups'' \<noteq> None
      | _ \<Rightarrow> False)"

definition quoted :: "string \<Rightarrow> string" where
  "quoted s = [CHR 0x22] @ s @ [CHR 0x22]"

definition overflow_message :: string where
  "overflow_message =
     ''Your group membership could not be read from the sign-in token. This account belongs to '' @
     ''too many groups for Entra to list them in a token, so it sent a lookup reference instead. '' @
     ''Fix this by granting admin access with an app role (DASHBOARD_ADMIN_ROLE) instead of a '' @
     ''group id, or by setting the app registration's groups claim to '' @
     quoted ''Groups assigned to the application'' @ ''.''"

definition configured_checks :: "auth_config \<Rightarrow> string list" where
  "configured_checks cfg =
     (if ac_adminRole cfg \<noteq> '''' then [''app role '' @ quoted (ac_adminRole cfg)] else []) @
     (if ac_adminGroupId cfg \<noteq> '''' then [''the configured admin group''] else [])"

definition accessDeniedMessage :: "auth_config \<Rightarrow> claims \<Rightarrow> string" where
  "accessDeniedMessage cfg payload =
     (if groups_overflowed payload then overflow_message
      else
        ''Your account does not hold '' @ join '' or '' (configured_checks cfg) @ ''. '' @
        ''If you believe it should, check that the app registration is configured to emit the '' @
        ''corresponding roles or groups claim -- a claim that is never issued looks identical to one '' @
        ''you are not a member of.'')"

text \<open>
  The token endpoint's id_token is any JSON value that counts as true; jose rejects one that is not text. An
  error is the message of an \<open>Error\<close>, or nothing when something else is thrown.
\<close>

type_synonym id_verifier = "string \<Rightarrow> string \<Rightarrow> string \<Rightarrow> json \<Rightarrow> string option + claims"

definition claim_list :: "string \<Rightarrow> claims \<Rightarrow> json list" where
  "claim_list k payload = nullish (as_array (map_of payload k)) []"

definition access_checks :: "auth_config \<Rightarrow> claims \<Rightarrow> bool list" where
  "access_checks cfg payload =
     (if ac_adminRole cfg \<noteq> '''' then [JStr (ac_adminRole cfg) \<in> set (claim_list ''roles'' payload)] else []) @
     (if ac_adminGroupId cfg \<noteq> '''' then [JStr (ac_adminGroupId cfg) \<in> set (claim_list ''groups'' payload)] else [])"

definition admitted_session :: "claims \<Rightarrow> session" where
  "admitted_session payload =
     (let name = string_or (coalesce (non_null (map_of payload ''name'')) (map_of payload ''preferred_username''))
                   ''Unknown'' in
      \<lparr>ss_oid = string_or (coalesce (non_null (map_of payload ''oid'')) (map_of payload ''sub'')) '''',
       ss_name = name,
       ss_email = string_or (coalesce (non_null (map_of payload ''preferred_username'')) (map_of payload ''email'')) '''',
       ss_initials = initialsFor name, ss_simulated = False\<rparr>)"

definition sessionFromIdToken :: "auth_config \<Rightarrow> id_verifier \<Rightarrow> json \<Rightarrow> string + session" where
  "sessionFromIdToken cfg verify_id idToken =
     (case verify_id (jwksUri cfg) (issuer cfg) (ac_clientId cfg) idToken of
        Inl err \<Rightarrow> Inl (''Token validation failed: '' @ nullish err ''unknown'')
      | Inr payload \<Rightarrow>
          (let checks = access_checks cfg payload in
           if checks \<noteq> [] \<and> \<not> list_ex id checks then Inl (accessDeniedMessage cfg payload)
           else Inr (admitted_session payload)))"

section \<open>The token exchange\<close>

text \<open>\<open>URLSearchParams\<close>: letters, digits and four signs stand for themselves, a space is a plus sign.\<close>

definition form_safe :: "char \<Rightarrow> bool" where
  "form_safe c \<longleftrightarrow> is_lower_az c \<or> is_upper_az c \<or> is_digit c \<or> c \<in> set ''*-._''"

definition form_char :: "char \<Rightarrow> string" where
  "form_char c =
     (if c = CHR '' '' then ''+''
      else if form_safe c then [c]
      else if code c < 128 then percent (code c)
      else percent (192 + code c div 64) @ percent (128 + code c mod 64))"

definition form_text :: "string \<Rightarrow> string" where
  "form_text s = concat (map form_char s)"

definition form_encode :: "(string \<times> string) list \<Rightarrow> string" where
  "form_encode ps = join ''&'' (map (\<lambda>(k, v). form_text k @ ''='' @ form_text v) ps)"

text \<open>What the token endpoint answers: a status, and a body unless reading it fails.\<close>

record token_answer =
  ta_status :: nat
  ta_body :: "string option"

definition token_request :: "auth_config \<Rightarrow> string \<Rightarrow> string \<Rightarrow> (string \<times> string) list" where
  "token_request cfg authCode verifier =
     [(''client_id'', ac_clientId cfg), (''client_secret'', ac_clientSecret cfg), (''code'', authCode),
      (''redirect_uri'', redirectUri cfg), (''grant_type'', ''authorization_code''), (''code_verifier'', verifier)]"

fun js_truthy :: "json \<Rightarrow> bool" where
  "js_truthy JNull = False"
| "js_truthy (JBool b) = b"
| "js_truthy (JNum n) = (n \<noteq> 0)"
| "js_truthy (JStr s) = (s \<noteq> '''')"
| "js_truthy (JArr xs) = True"
| "js_truthy (JObj kvs) = True"

text \<open>
  Nothing where the call throws: no connection, or the body of a success that cannot be read, is not JSON or
  is \<open>null\<close>.
\<close>

definition exchangeCodeForTokens ::
  "auth_config \<Rightarrow> (string \<Rightarrow> string \<Rightarrow> token_answer option) \<Rightarrow> string \<Rightarrow> string \<Rightarrow> (string + json) option" where
  "exchangeCodeForTokens cfg fetch authCode verifier =
     (case fetch (tokenUrl cfg) (form_encode (token_request cfg authCode verifier)) of
        None \<Rightarrow> None
      | Some res \<Rightarrow>
          if \<not> (200 \<le> ta_status res \<and> ta_status res < 300) then
            Some (Inl (''Token exchange failed ('' @ digits_of (ta_status res) @ ''): '' @
              take 300 (nullish (ta_body res) '''')))
          else
            (case Option.bind (ta_body res) json_parse of
               None \<Rightarrow> None
             | Some JNull \<Rightarrow> None
             | Some v \<Rightarrow>
                 (case jfield ''id_token'' v of
                    Some t \<Rightarrow> if js_truthy t then Some (Inr t) else Some (Inl ''Entra response contained no id_token.'')
                  | None \<Rightarrow> Some (Inl ''Entra response contained no id_token.''))))"

section \<open>The auth routes\<close>

record cookie_opts =
  co_httpOnly :: bool
  co_secure :: bool
  co_sameSite :: string
  co_path :: string
  co_maxAge :: int

datatype cookie_op =
    SetCookie string string cookie_opts
  | DeleteCookie string

text \<open>An answer of an auth route: a redirect with its cookies, or a thrown error, which Next turns into a 500.\<close>

datatype auth_reply =
    Redirect string "cookie_op list"
  | Fault

definition cookie_opts_for :: "auth_config \<Rightarrow> int \<Rightarrow> cookie_opts" where
  "cookie_opts_for cfg maxAge =
     \<lparr>co_httpOnly = True, co_secure = starts_with ''https://'' (ac_appUrl cfg), co_sameSite = ''lax'',
      co_path = ''/'', co_maxAge = maxAge\<rparr>"

definition b64_char :: "nat \<Rightarrow> char" where
  "b64_char n =
     (if n < 26 then char_of (65 + n) else if n < 52 then char_of (71 + n)
      else if n < 62 then char_of (n - 4) else if n = 62 then CHR ''-'' else CHR ''_'')"

fun base64url :: "string \<Rightarrow> string" where
  "base64url [] = []"
| "base64url [a] = (let n = code a * 16 in [b64_char (n div 64), b64_char (n mod 64)])"
| "base64url [a, b] =
     (let n = (code a * 256 + code b) * 4 in
      [b64_char (n div 4096), b64_char (n div 64 mod 64), b64_char (n mod 64)])"
| "base64url (a # b # c # s) =
     (let n = (code a * 256 + code b) * 256 + code c in
      [b64_char (n div 262144), b64_char (n div 4096 mod 64), b64_char (n div 64 mod 64), b64_char (n mod 64)] @
      base64url s)"

definition login_params :: "auth_config \<Rightarrow> string \<Rightarrow> string \<Rightarrow> (string \<times> string) list" where
  "login_params cfg state challenge =
     [(''client_id'', ac_clientId cfg), (''response_type'', ''code''), (''redirect_uri'', redirectUri cfg),
      (''response_mode'', ''query''), (''scope'', ''openid profile email''), (''state'', state),
      (''code_challenge'', challenge), (''code_challenge_method'', ''S256'')]"

definition loginRoute :: "auth_config \<Rightarrow> (string \<Rightarrow> string) \<Rightarrow> string \<Rightarrow> string \<Rightarrow> auth_reply" where
  "loginRoute cfg sha256 state_bytes verifier_bytes =
     (if ac_simMode cfg then Redirect (ac_appUrl cfg @ ''/'') []
      else if ac_tenantId cfg = '''' \<or> ac_clientId cfg = '''' then
        Redirect (ac_appUrl cfg @ ''/login?error=not_configured'') []
      else
        let state = base64url state_bytes;
            codeVerifier = base64url verifier_bytes;
            codeChallenge = base64url (sha256 codeVerifier)
        in Redirect (authorizeUrl cfg @ ''?'' @ form_encode (login_params cfg state codeChallenge))
             [SetCookie ''cd_oauth_state'' state (cookie_opts_for cfg 600),
              SetCookie ''cd_oauth_verifier'' codeVerifier (cookie_opts_for cfg 600)])"

definition loginUrl :: "auth_config \<Rightarrow> string \<Rightarrow> string" where
  "loginUrl cfg error = ac_appUrl cfg @ ''/login?error='' @ encodeURIComponent error"

record auth_world =
  aw_env :: env
  aw_sign :: signer
  aw_verify :: verifier
  aw_verify_id :: id_verifier
  aw_fetch :: "string \<Rightarrow> string \<Rightarrow> token_answer option"

abbreviation aw_cfg :: "auth_world \<Rightarrow> auth_config" where
  "aw_cfg w \<equiv> authConfig (aw_env w)"

definition admit :: "auth_world \<Rightarrow> time \<Rightarrow> session \<Rightarrow> auth_reply" where
  "admit w now s =
     (case createSessionCookieValue (aw_env w) (aw_sign w) now s of
        Inl _ \<Rightarrow> Fault
      | Inr v \<Rightarrow>
          Redirect (ac_appUrl (aw_cfg w) @ ''/'')
            [SetCookie SESSION_COOKIE v (cookie_opts_for (aw_cfg w) (8 * 60 * 60)),
             DeleteCookie ''cd_oauth_state'', DeleteCookie ''cd_oauth_verifier''])"

definition callbackRoute :: "auth_world \<Rightarrow> time \<Rightarrow> (string \<times> string) list \<Rightarrow> jar \<Rightarrow> auth_reply" where
  "callbackRoute w now query jar =
     (let cfg = aw_cfg w;
          refuse = (\<lambda>e. Redirect (loginUrl cfg e) []);
          entraError = nullish (coalesce (map_of query ''error_description'') (map_of query ''error'')) '''';
          authCode = nullish (map_of query ''code'') '''';
          state = nullish (map_of query ''state'') '''';
          verifier = nullish (map_of jar ''cd_oauth_verifier'') ''''
      in if entraError \<noteq> '''' then refuse entraError
         else if authCode = '''' \<or> state = '''' \<or> verifier = '''' then refuse ''incomplete_callback''
         else if map_of jar ''cd_oauth_state'' \<noteq> Some state then refuse ''state_mismatch''
         else case exchangeCodeForTokens cfg (aw_fetch w) authCode verifier of
             None \<Rightarrow> Fault
           | Some (Inl e) \<Rightarrow> refuse e
           | Some (Inr idToken) \<Rightarrow>
               (case sessionFromIdToken cfg (aw_verify_id w) idToken of
                  Inl e \<Rightarrow> refuse e
                | Inr s \<Rightarrow> admit w now s))"

definition logoutRoute :: "auth_config \<Rightarrow> auth_reply" where
  "logoutRoute cfg = Redirect (ac_appUrl cfg @ ''/login?signed_out=1'') [DeleteCookie SESSION_COOKIE]"

text \<open>What a browser keeps of the cookies of an answer.\<close>

fun cookie_step :: "cookie_op \<Rightarrow> jar \<Rightarrow> jar" where
  "cookie_step (SetCookie k v opts) jar = (k, v) # filter (\<lambda>p. fst p \<noteq> k) jar"
| "cookie_step (DeleteCookie k) jar = filter (\<lambda>p. fst p \<noteq> k) jar"

fun browser :: "auth_reply \<Rightarrow> jar \<Rightarrow> jar" where
  "browser (Redirect url ops) jar = fold cookie_step ops jar"
| "browser Fault jar = jar"

section \<open>The middleware, the pages and the proxy\<close>

record web_request =
  wr_method :: string
  wr_origin :: string
  wr_segments :: "string list"
  wr_search :: string
  wr_headers :: "(string \<times> string) list"
  wr_cookies :: jar
  wr_body :: string

text \<open>
  \<open>/((?!api/auth|login|_next/static|_next/image|favicon.ico).*)\<close>: what is excluded is a prefix of the path,
  and the dot of the last alternative is any character.
\<close>

definition excluded_path :: "string \<Rightarrow> bool" where
  "excluded_path p \<longleftrightarrow>
     list_ex (\<lambda>prefix. starts_with prefix p) [''api/auth'', ''login'', ''_next/static'', ''_next/image''] \<or>
     (starts_with ''favicon'' p \<and> starts_with ''ico'' (drop 8 p))"

definition guarded :: "web_request \<Rightarrow> bool" where
  "guarded r \<longleftrightarrow> \<not> excluded_path (join ''/'' (wr_segments r))"

datatype middleware_reply = NextHandler | LoginRedirect string

definition middleware :: "env \<Rightarrow> web_request \<Rightarrow> middleware_reply" where
  "middleware env r =
     (if env ''SIM_MODE'' = Some ''true'' then NextHandler
      else if map_of (wr_cookies r) SESSION_COOKIE \<noteq> None then NextHandler
      else LoginRedirect (wr_origin r @ ''/login''))"

text \<open>The layout of every page: nothing, or a redirect to the sign-in screen.\<close>

definition dashboardLayout :: "env \<Rightarrow> verifier \<Rightarrow> time \<Rightarrow> web_request \<Rightarrow> string + session" where
  "dashboardLayout env verify now r =
     (case getSession env verify now (wr_cookies r) of None \<Rightarrow> Inl ''/login'' | Some s \<Rightarrow> Inr s)"

definition or_else :: "string option \<Rightarrow> string \<Rightarrow> string" where
  "or_else v d = (if nullish v '''' = '''' then d else nullish v '''')"

definition API_BASE_URL :: "env \<Rightarrow> string" where
  "API_BASE_URL env =
     or_else (env ''API_BASE_URL'') (or_else (env ''NEXT_PUBLIC_API_BASE_URL'') ''http://localhost:4000'')"

definition STRIPPED :: "string list" where
  "STRIPPED = [''connection'', ''keep-alive'', ''transfer-encoding'', ''content-length'', ''content-encoding'', ''host'']"

type_synonym headers = "(string \<times> string) list"

text \<open>\<open>Headers\<close>: names in lower case, one value each after \<open>set\<close>.\<close>

definition set_header :: "string \<Rightarrow> string \<Rightarrow> headers \<Rightarrow> headers" where
  "set_header k v hs = filter (\<lambda>p. fst p \<noteq> to_lower k) hs @ [(to_lower k, v)]"

definition get_header :: "string \<Rightarrow> headers \<Rightarrow> string option" where
  "get_header k hs = map_of hs (to_lower k)"

fun copy_headers :: "headers \<Rightarrow> headers \<Rightarrow> headers" where
  "copy_headers [] out = out"
| "copy_headers ((k, v) # hs) out =
     copy_headers hs (if to_lower k \<in> set STRIPPED then out else set_header k v out)"

record proxy_call =
  pc_target :: string
  pc_method :: string
  pc_headers :: headers
  pc_body :: "string option"
  pc_abortable :: bool

record web_response =
  wp_status :: nat
  wp_statusText :: string
  wp_headers :: headers
  wp_body :: string

definition is_read :: "web_request \<Rightarrow> bool" where
  "is_read r \<longleftrightarrow> wr_method r = ''GET'' \<or> wr_method r = ''HEAD''"

definition proxy_call_of :: "env \<Rightarrow> string list \<Rightarrow> web_request \<Rightarrow> proxy_call" where
  "proxy_call_of env path r =
     \<lparr>pc_target = API_BASE_URL env @ ''/'' @ join ''/'' path @ wr_search r,
      pc_method = wr_method r, pc_headers = copy_headers (wr_headers r) [],
      pc_body = (if is_read r \<or> wr_body r = '''' then None else Some (wr_body r)),
      pc_abortable = is_read r\<rparr>"

definition unreachable_reply :: "env \<Rightarrow> string \<Rightarrow> web_response" where
  "unreachable_reply env e =
     \<lparr>wp_status = 502, wp_statusText = '''', wp_headers = [(''content-type'', ''application/json'')],
      wp_body = json_stringify (JObj [(''error'',
        JStr (''Dashboard could not reach the router at '' @ API_BASE_URL env @ '': '' @ e))])\<rparr>"

definition stream_headers :: "headers \<Rightarrow> headers" where
  "stream_headers hs =
     (if str_includes ''text/event-stream'' (nullish (get_header ''content-type'' hs) '''')
      then set_header ''x-accel-buffering'' ''no'' (set_header ''cache-control'' ''no-cache, no-transform'' hs)
      else hs)"

text \<open>\<open>upstream\<close> is the network to the router: the message of a failure, or its response.\<close>

definition forward :: "env \<Rightarrow> (proxy_call \<Rightarrow> string + web_response) \<Rightarrow> string list \<Rightarrow> web_request \<Rightarrow> web_response" where
  "forward env upstream path r =
     (case upstream (proxy_call_of env path r) of
        Inl e \<Rightarrow> unreachable_reply env e
      | Inr u \<Rightarrow>
          \<lparr>wp_status = wp_status u, wp_statusText = wp_statusText u,
           wp_headers = stream_headers (copy_headers (wp_headers u) []), wp_body = wp_body u\<rparr>)"

text \<open>A request below \<open>/gateway\<close> as Next serves it: the middleware, then the route of the proxy.\<close>

definition serve_gateway ::
  "env \<Rightarrow> (proxy_call \<Rightarrow> string + web_response) \<Rightarrow> web_request \<Rightarrow> string + web_response" where
  "serve_gateway env upstream r =
     (case (if guarded r then middleware env r else NextHandler) of
        LoginRedirect url \<Rightarrow> Inl url
      | NextHandler \<Rightarrow> Inr (forward env upstream (drop 1 (wr_segments r)) r))"

section \<open>Who is admitted\<close>

text \<open>
  The specification of a sign-in that succeeds, read off the comments of the code: the flow was started in
  this browser, the code was redeemed with its verifier, the token is one of the tenant for this client, and
  the person holds a configured role or group, if one is configured.
\<close>

definition holds_access :: "auth_config \<Rightarrow> claims \<Rightarrow> bool" where
  "holds_access cfg payload \<longleftrightarrow>
     (ac_adminRole cfg = '''' \<and> ac_adminGroupId cfg = '''') \<or>
     (ac_adminRole cfg \<noteq> '''' \<and> JStr (ac_adminRole cfg) \<in> set (claim_list ''roles'' payload)) \<or>
     (ac_adminGroupId cfg \<noteq> '''' \<and> JStr (ac_adminGroupId cfg) \<in> set (claim_list ''groups'' payload))"

definition redeems :: "auth_world \<Rightarrow> string \<Rightarrow> string \<Rightarrow> claims \<Rightarrow> bool" where
  "redeems w authCode verifier payload \<longleftrightarrow>
     (\<exists>answer body v idToken.
        aw_fetch w (tokenUrl (aw_cfg w)) (form_encode (token_request (aw_cfg w) authCode verifier)) = Some answer \<and>
        200 \<le> ta_status answer \<and> ta_status answer < 300 \<and>
        ta_body answer = Some body \<and> json_parse body = Some v \<and>
        jfield ''id_token'' v = Some idToken \<and> js_truthy idToken \<and>
        aw_verify_id w (jwksUri (aw_cfg w)) (issuer (aw_cfg w)) (ac_clientId (aw_cfg w)) idToken = Inr payload)"

definition admissible :: "auth_world \<Rightarrow> (string \<times> string) list \<Rightarrow> jar \<Rightarrow> claims \<Rightarrow> bool" where
  "admissible w query jar payload \<longleftrightarrow>
     nullish (coalesce (map_of query ''error_description'') (map_of query ''error'')) '''' = '''' \<and>
     (\<exists>authCode state verifier.
        map_of query ''code'' = Some authCode \<and> authCode \<noteq> '''' \<and>
        map_of query ''state'' = Some state \<and> state \<noteq> '''' \<and> map_of jar ''cd_oauth_state'' = Some state \<and>
        map_of jar ''cd_oauth_verifier'' = Some verifier \<and> verifier \<noteq> '''' \<and>
        redeems w authCode verifier payload) \<and>
     holds_access (aw_cfg w) payload"

definition sets_session :: "auth_reply \<Rightarrow> string \<Rightarrow> bool" where
  "sets_session reply v \<longleftrightarrow>
     (case reply of Redirect url ops \<Rightarrow> \<exists>opts. SetCookie SESSION_COOKIE v opts \<in> set ops | Fault \<Rightarrow> False)"

lemma nullish_nonempty: "nullish v '''' \<noteq> '''' \<longleftrightarrow> (\<exists>s. v = Some s \<and> s \<noteq> '''')"
  by (cases v) (simp_all add: nullish_def)

lemma jfield_Some_nonnull: "jfield k v = Some t \<Longrightarrow> v \<noteq> JNull"
  by auto

lemma access_checks_iff:
  "(access_checks cfg payload \<noteq> [] \<and> \<not> list_ex id (access_checks cfg payload)) \<longleftrightarrow> \<not> holds_access cfg payload"
  by (auto simp: access_checks_def holds_access_def)

lemma exchange_Inr:
  "exchangeCodeForTokens cfg fetch c vf = Some (Inr t) \<longleftrightarrow>
   (\<exists>answer body v. fetch (tokenUrl cfg) (form_encode (token_request cfg c vf)) = Some answer \<and>
      200 \<le> ta_status answer \<and> ta_status answer < 300 \<and> ta_body answer = Some body \<and>
      json_parse body = Some v \<and> jfield ''id_token'' v = Some t \<and> js_truthy t)"
  by (auto simp: exchangeCodeForTokens_def split: option.splits json.splits if_splits bind_splits)

lemma from_id_token_Inr:
  "sessionFromIdToken cfg vid t = Inr s \<longleftrightarrow>
   (\<exists>payload. vid (jwksUri cfg) (issuer cfg) (ac_clientId cfg) t = Inr payload \<and>
      holds_access cfg payload \<and> s = admitted_session payload)"
  by (auto simp: sessionFromIdToken_def access_checks_iff Let_def split: sum.splits)

lemma redeems_iff:
  "redeems w c vf payload \<longleftrightarrow>
   (\<exists>t. exchangeCodeForTokens (aw_cfg w) (aw_fetch w) c vf = Some (Inr t) \<and>
      aw_verify_id w (jwksUri (aw_cfg w)) (issuer (aw_cfg w)) (ac_clientId (aw_cfg w)) t = Inr payload)"
  unfolding redeems_def exchange_Inr by blast

lemma sets_session_simps [simp]:
  "\<not> sets_session Fault v" "\<not> sets_session (Redirect url []) v"
  by (simp_all add: sets_session_def)

lemma admit_sets [simp]:
  "sets_session (admit w now s) v \<longleftrightarrow> createSessionCookieValue (aw_env w) (aw_sign w) now s = Inr v"
  by (auto simp: admit_def sets_session_def split: sum.splits)

text \<open>The route as two steps: what it checks before it calls the provider, and what follows.\<close>

lemma callback_sets_iff:
  "sets_session (callbackRoute w now query jar) v \<longleftrightarrow>
   nullish (coalesce (map_of query ''error_description'') (map_of query ''error'')) '''' = '''' \<and>
   (\<exists>c st vf t s.
      map_of query ''code'' = Some c \<and> c \<noteq> '''' \<and> map_of query ''state'' = Some st \<and> st \<noteq> '''' \<and>
      map_of jar ''cd_oauth_state'' = Some st \<and> map_of jar ''cd_oauth_verifier'' = Some vf \<and> vf \<noteq> '''' \<and>
      exchangeCodeForTokens (aw_cfg w) (aw_fetch w) c vf = Some (Inr t) \<and>
      sessionFromIdToken (aw_cfg w) (aw_verify_id w) t = Inr s \<and>
      createSessionCookieValue (aw_env w) (aw_sign w) now s = Inr v)"
proof (cases "nullish (coalesce (map_of query ''error_description'') (map_of query ''error'')) '''' = '''' \<and>
   nullish (map_of query ''code'') '''' \<noteq> '''' \<and> nullish (map_of query ''state'') '''' \<noteq> '''' \<and>
   nullish (map_of jar ''cd_oauth_verifier'') '''' \<noteq> '''' \<and>
   map_of jar ''cd_oauth_state'' = Some (nullish (map_of query ''state'') '''')")
  case True
  then obtain c st vf where "map_of query ''code'' = Some c" "map_of query ''state'' = Some st"
      "map_of jar ''cd_oauth_verifier'' = Some vf" "c \<noteq> ''''" "st \<noteq> ''''" "vf \<noteq> ''''"
    unfolding nullish_nonempty by auto
  with True show ?thesis
    by (auto simp: callbackRoute_def nullish_def Let_def split: option.splits sum.splits)
next
  case False
  then show ?thesis
    by (auto simp: callbackRoute_def Let_def nullish_nonempty nullish_def split: if_splits)
qed

lemma callback_refused_keeps:
  assumes "\<forall>v. \<not> sets_session (callbackRoute w now query jar) v"
  shows "browser (callbackRoute w now query jar) jar = jar"
  using assms
  by (auto simp: callbackRoute_def admit_def sets_session_def Let_def split: if_splits option.splits sum.splits)

text \<open>
  C13: The callback sets a session cookie exactly for a sign-in this browser began, whose code was redeemed
  with its own verifier for a token of the tenant and the client, and whose holder has a configured role or
  group when one is configured; the cookie then carries the session of that token and nothing else. Every
  other callback leaves the cookies of the browser as they were.
\<close>

theorem callback_admits_exactly:
  "(\<forall>v. sets_session (callbackRoute w now query jar) v \<longleftrightarrow>
      (\<exists>payload. admissible w query jar payload \<and>
         createSessionCookieValue (aw_env w) (aw_sign w) now (admitted_session payload) = Inr v)) \<and>
   ((\<exists>v. sets_session (callbackRoute w now query jar) v) \<or> browser (callbackRoute w now query jar) jar = jar)"
proof (intro conjI allI)
  show "sets_session (callbackRoute w now query jar) v \<longleftrightarrow>
      (\<exists>payload. admissible w query jar payload \<and>
         createSessionCookieValue (aw_env w) (aw_sign w) now (admitted_session payload) = Inr v)" for v
    unfolding callback_sets_iff admissible_def redeems_iff from_id_token_Inr by fast
  show "(\<exists>v. sets_session (callbackRoute w now query jar) v) \<or> browser (callbackRoute w now query jar) jar = jar"
    using callback_refused_keeps by blast
qed

section \<open>From the sign-in to the page\<close>

text \<open>
  What the code relies on in jose: a token it signed verifies under the same secret, with the claims it was
  given, until the time in its \<open>exp\<close> claim, and is refused from then on.
\<close>

definition jose_roundtrip :: "signer \<Rightarrow> verifier \<Rightarrow> string \<Rightarrow> claims \<Rightarrow> bool" where
  "jose_roundtrip sign verify key payload \<longleftrightarrow>
     sign ''HS256'' key payload \<noteq> '''' \<and>
     (\<forall>now exp. map_of payload ''exp'' = Some (JNum (of_int exp)) \<longrightarrow>
        (if epoch now < exp then verify key now (sign ''HS256'' key payload) = Inr payload
         else isl (verify key now (sign ''HS256'' key payload))))"

text \<open>The browser's cookies after the login route, the provider's answer to it and the callback.\<close>

definition sign_in ::
  "auth_world \<Rightarrow> (string \<Rightarrow> string) \<Rightarrow> string \<Rightarrow> string \<Rightarrow> time \<Rightarrow> string \<Rightarrow> jar \<Rightarrow> jar" where
  "sign_in w sha256 sb vb t0 authCode jar =
     (let jar1 = browser (loginRoute (aw_cfg w) sha256 sb vb) jar in
      browser (callbackRoute w t0 [(''code'', authCode), (''state'', base64url sb)] jar1) jar1)"

lemma base64url_nonempty [simp]: "base64url bs = [] \<longleftrightarrow> bs = []"
  by (cases bs rule: base64url.cases) (simp_all add: Let_def)

lemma session_claims_roundtrip:
  "\<not> ss_simulated s \<Longrightarrow> session_of_claims (session_claims s t) = s"
  by (simp add: session_of_claims_def session_claims_def string_or_def non_null_def)

lemma exp_of_session_claims:
  "map_of (session_claims s t) ''exp'' = Some (JNum (of_int (epoch t + SESSION_TTL_SECONDS)))"
  by (simp add: session_claims_def)

lemma map_of_filter_key:
  "map_of (filter (\<lambda>p. fst p \<noteq> k) ps) k' = (if k' = k then None else map_of ps k')"
  by (induction ps) auto

lemma admitted_not_simulated [simp]: "\<not> ss_simulated (admitted_session payload)"
  by (simp add: admitted_session_def Let_def)

lemma callback_admits:
  assumes "redeems w c vf payload" and "holds_access (aw_cfg w) payload"
    and "c \<noteq> ''''" and "st \<noteq> ''''" and "vf \<noteq> ''''"
    and "map_of jar ''cd_oauth_state'' = Some st" and "map_of jar ''cd_oauth_verifier'' = Some vf"
  shows "callbackRoute w now [(''code'', c), (''state'', st)] jar = admit w now (admitted_session payload)"
proof -
  obtain t where "exchangeCodeForTokens (aw_cfg w) (aw_fetch w) c vf = Some (Inr t)"
      and t: "aw_verify_id w (jwksUri (aw_cfg w)) (issuer (aw_cfg w)) (ac_clientId (aw_cfg w)) t = Inr payload"
    using assms(1) unfolding redeems_iff by auto
  moreover have "sessionFromIdToken (aw_cfg w) (aw_verify_id w) t = Inr (admitted_session payload)"
    using t assms(2) by (simp add: from_id_token_Inr)
  ultimately show ?thesis
    using assms(3-) by (simp add: callbackRoute_def Let_def nullish_def coalesce_def)
qed

lemma login_jar:
  assumes "\<not> ac_simMode cfg" and "ac_tenantId cfg \<noteq> ''''" and "ac_clientId cfg \<noteq> ''''"
  shows "map_of (browser (loginRoute cfg sha256 sb vb) jar) ''cd_oauth_state'' = Some (base64url sb)"
    and "map_of (browser (loginRoute cfg sha256 sb vb) jar) ''cd_oauth_verifier'' = Some (base64url vb)"
  using assms by (simp_all add: loginRoute_def Let_def)

lemma getSession_with:
  assumes "\<not> ac_simMode (authConfig env)" and "sessionSecret env = Inr secret"
    and "map_of jar SESSION_COOKIE = Some v" and "v \<noteq> ''''"
  shows "getSession env verify now jar =
    (case verify secret now v of Inl _ \<Rightarrow> None | Inr payload \<Rightarrow> Some (session_of_claims payload))"
  using assms by (simp add: getSession_def nullish_def)

text \<open>
  C15: Whoever the provider vouches for and who has access is signed in by the two routes: the cookies of the
  login, the state the provider echoes and the code it gives make the callback set a session, which is the
  session of the token for eight hours and none from then on. The one-shot cookies are gone, and signing out
  ends the session at once.
\<close>

theorem sign_in_roundtrip:
  assumes "\<not> ac_simMode (aw_cfg w)" and "ac_tenantId (aw_cfg w) \<noteq> ''''" and "ac_clientId (aw_cfg w) \<noteq> ''''"
    and "sessionSecret (aw_env w) = Inr secret" and "sb \<noteq> []" and "vb \<noteq> []" and "authCode \<noteq> ''''"
    and "redeems w authCode (base64url vb) payload" and "holds_access (aw_cfg w) payload"
    and "jose_roundtrip (aw_sign w) (aw_verify w) secret (session_claims (admitted_session payload) t0)"
  shows "getSession (aw_env w) (aw_verify w) now (sign_in w sha256 sb vb t0 authCode jar) =
      (if epoch now < epoch t0 + 28800 then Some (admitted_session payload) else None) \<and>
    map_of (sign_in w sha256 sb vb t0 authCode jar) ''cd_oauth_state'' = None \<and>
    map_of (sign_in w sha256 sb vb t0 authCode jar) ''cd_oauth_verifier'' = None \<and>
    getSession (aw_env w) (aw_verify w) now
      (browser (logoutRoute (aw_cfg w)) (sign_in w sha256 sb vb t0 authCode jar)) = None"
proof (intro conjI)
  let ?jar1 = "browser (loginRoute (aw_cfg w) sha256 sb vb) jar"
  let ?jar2 = "sign_in w sha256 sb vb t0 authCode jar"
  let ?v = "aw_sign w ''HS256'' secret (session_claims (admitted_session payload) t0)"
  have "callbackRoute w t0 [(''code'', authCode), (''state'', base64url sb)] ?jar1 = admit w t0 (admitted_session payload)"
    by (rule callback_admits) (use assms login_jar[OF assms(1-3)] in auto)
  then have jar2: "?jar2 = filter (\<lambda>p. fst p \<noteq> ''cd_oauth_verifier'') (filter (\<lambda>p. fst p \<noteq> ''cd_oauth_state'')
      ((SESSION_COOKIE, ?v) # filter (\<lambda>p. fst p \<noteq> SESSION_COOKIE) ?jar1))"
    by (simp add: sign_in_def admit_def createSessionCookieValue_def assms(4) del: filter.simps filter_filter)
  have v: "map_of ?jar2 SESSION_COOKIE = Some ?v"
    unfolding jar2 map_of_filter_key by (simp add: SESSION_COOKIE_def)
  have jose: "?v \<noteq> ''''"
      "if epoch now < epoch t0 + SESSION_TTL_SECONDS
       then aw_verify w secret now ?v = Inr (session_claims (admitted_session payload) t0)
       else isl (aw_verify w secret now ?v)"
    using assms(10) exp_of_session_claims unfolding jose_roundtrip_def by blast+
  show "getSession (aw_env w) (aw_verify w) now ?jar2 =
      (if epoch now < epoch t0 + 28800 then Some (admitted_session payload) else None)"
    using jose(2) unfolding getSession_with[OF assms(1,4) v jose(1)]
    by (auto simp: SESSION_TTL_SECONDS_def session_claims_roundtrip isl_def)
  show "map_of ?jar2 ''cd_oauth_state'' = None" "map_of ?jar2 ''cd_oauth_verifier'' = None"
    unfolding jar2 map_of_filter_key by simp_all
  show "getSession (aw_env w) (aw_verify w) now (browser (logoutRoute (aw_cfg w)) ?jar2) = None"
    using assms(1) by (simp add: getSession_def logoutRoute_def map_of_filter_key nullish_def)
qed

text \<open>A provider and a token library to run the sign-in on.\<close>

definition ex_secret :: string where "ex_secret = ''0123456789abcdef0123456789abcdef''"

definition ex_dash_env :: env where
  "ex_dash_env =
     [''DASHBOARD_ENTRA_TENANT_ID'' \<mapsto> ''t'', ''DASHBOARD_ENTRA_CLIENT_ID'' \<mapsto> ''c'',
      ''DASHBOARD_SESSION_SECRET'' \<mapsto> ex_secret, ''DASHBOARD_ADMIN_ROLE'' \<mapsto> ''Admin'']"

definition ex_sign :: signer where
  "ex_sign alg key payload = key @ json_stringify (JObj payload)"

definition ex_entra_claims :: claims where
  "ex_entra_claims = [(''oid'', JStr ''o1''), (''name'', JStr ''Ann Lee''), (''roles'', JArr [JStr ''Admin''])]"

definition ex_admin :: session where
  "ex_admin = \<lparr>ss_oid = ''o1'', ss_name = ''Ann Lee'', ss_email = '''', ss_initials = ''AL'', ss_simulated = False\<rparr>"

text \<open>A verifier that has seen one token, issued to Ann at time zero.\<close>

definition ex_jose_verify :: verifier where
  "ex_jose_verify key now t =
     (if t \<noteq> ex_sign ''HS256'' key (session_claims ex_admin 0) then Inl (Some ''signature verification failed'')
      else if epoch now < 28800 then Inr (session_claims ex_admin 0)
      else Inl (Some ''expired''))"

definition ex_auth_world :: auth_world where
  "ex_auth_world =
     \<lparr>aw_env = ex_dash_env, aw_sign = ex_sign, aw_verify = ex_jose_verify,
      aw_verify_id = (\<lambda>uri iss aud t. if t = JStr ''tok'' \<and> aud = ''c'' then Inr ex_entra_claims else Inl None),
      aw_fetch = (\<lambda>url body.
        if body = form_encode (token_request (authConfig ex_dash_env) ''abc'' (base64url ''vv''))
        then Some \<lparr>ta_status = 200, ta_body = Some (json_stringify (JObj [(''id_token'', JStr ''tok'')]))\<rparr>
        else Some \<lparr>ta_status = 400, ta_body = None\<rparr>)\<rparr>"

lemma ex_admitted: "admitted_session ex_entra_claims = ex_admin"
  by code_simp

lemma ex_body_parses:
  "json_parse (json_stringify (JObj [(''id_token'', JStr ''tok'')])) = Some (JObj [(''id_token'', JStr ''tok'')])"
  by code_simp

lemma ex_env:
  "aw_env ex_auth_world = ex_dash_env" "aw_verify ex_auth_world = ex_jose_verify" "aw_sign ex_auth_world = ex_sign"
  "ac_clientId (authConfig ex_dash_env) = ''c''" "ac_tenantId (authConfig ex_dash_env) = ''t''"
  "\<not> ac_simMode (authConfig ex_dash_env)" "sessionSecret ex_dash_env = Inr ex_secret"
  "ac_adminRole (authConfig ex_dash_env) = ''Admin''"
  by (simp_all add: ex_auth_world_def authConfig_def ex_dash_env_def nullish_def sessionSecret_def ex_secret_def)

lemma ex_redeems: "redeems ex_auth_world ''abc'' (base64url ''vv'') ex_entra_claims"
proof -
  have "aw_fetch ex_auth_world url (form_encode (token_request (authConfig ex_dash_env) ''abc'' (base64url ''vv''))) =
      Some \<lparr>ta_status = 200, ta_body = Some (json_stringify (JObj [(''id_token'', JStr ''tok'')]))\<rparr>" for url
    by (simp only: ex_auth_world_def auth_world.select_convs if_True simp_thms)
  moreover have "aw_verify_id ex_auth_world uri iss ''c'' (JStr ''tok'') = Inr ex_entra_claims" for uri iss
    by (simp add: ex_auth_world_def)
  ultimately show ?thesis
    unfolding redeems_def ex_env using ex_body_parses by fastforce
qed

lemma ex_jose: "jose_roundtrip ex_sign ex_jose_verify key (session_claims ex_admin 0)"
proof -
  have "ex_sign ''HS256'' key (session_claims ex_admin 0) \<noteq> ''''"
    by (simp add: ex_sign_def)
  moreover have "exp = 28800" if "map_of (session_claims ex_admin 0) ''exp'' = Some (JNum (of_int exp))" for exp
    using that by (simp add: exp_of_session_claims epoch_def SESSION_TTL_SECONDS_def del: of_int_add)
  ultimately show ?thesis
    by (auto simp: jose_roundtrip_def ex_jose_verify_def)
qed

text \<open>Ann signs in at time zero: an hour later the session is hers, nine hours later there is none.\<close>

lemma sign_in_roundtrip_witness:
  "getSession ex_dash_env ex_jose_verify 3600000 (sign_in ex_auth_world id ''ss'' ''vv'' 0 ''abc'' []) = Some ex_admin \<and>
   getSession ex_dash_env ex_jose_verify 32400000 (sign_in ex_auth_world id ''ss'' ''vv'' 0 ''abc'' []) = None"
proof -
  have acc: "holds_access (aw_cfg ex_auth_world) ex_entra_claims"
    by (simp add: ex_env holds_access_def claim_list_def as_array_def nullish_def ex_entra_claims_def)
  have "getSession ex_dash_env ex_jose_verify now (sign_in ex_auth_world id ''ss'' ''vv'' 0 ''abc'' []) =
      (if epoch now < epoch 0 + 28800 then Some ex_admin else None)" for now
    using sign_in_roundtrip[OF _ _ _ _ _ _ _ ex_redeems acc, of ex_secret "''ss''" 0 now id "[]"]
    by (simp add: ex_env ex_admitted ex_jose)
  then show ?thesis
    by (simp add: epoch_def)
qed

section \<open>The proxy\<close>

text \<open>
  C14: What guards the proxy is the presence of a cookie. A request to it that carries any session cookie at
  all is forwarded to the router's unauthenticated API with its method, path and body, although no session
  exists and every page of the dashboard sends the same browser to the sign-in screen; without the cookie it
  is turned away.
\<close>

theorem gateway_guard_is_presence:
  assumes "wr_segments r = ''gateway'' # path" and "getSession env verify now (wr_cookies r) = None"
  shows "dashboardLayout env verify now r = Inl ''/login'' \<and>
    serve_gateway env upstream r =
      (if map_of (wr_cookies r) SESSION_COOKIE = None then Inl (wr_origin r @ ''/login'')
       else Inr (forward env upstream path r))"
proof -
  have "guarded r"
    by (cases path) (simp_all add: guarded_def excluded_path_def assms(1))
  moreover have "env ''SIM_MODE'' \<noteq> Some ''true''"
    using assms(2) by (auto simp: getSession_def authConfig_def split: if_splits)
  ultimately show ?thesis
    using assms by (simp add: dashboardLayout_def serve_gateway_def middleware_def)
qed

text \<open>A forged cookie is enough to have the router delete audit history.\<close>

definition ex_forged :: web_request where
  "ex_forged =
     \<lparr>wr_method = ''POST'', wr_origin = ''https://d'', wr_segments = [''gateway'', ''api'', ''audit'', ''delete''], wr_search = '''',
      wr_headers = [(''Host'', ''d''), (''Accept'', ''*'')], wr_cookies = [(SESSION_COOKIE, ''x'')], wr_body = ''{}''\<rparr>"

lemma gateway_guard_is_presence_witness:
  "dashboardLayout ex_dash_env ex_jose_verify 0 ex_forged = Inl ''/login'' \<and>
   serve_gateway ex_dash_env
     (\<lambda>call. Inr \<lparr>wp_status = 200, wp_statusText = ''OK'', wp_headers = [], wp_body = pc_method call @ '' '' @ pc_target call\<rparr>)
     ex_forged =
   Inr \<lparr>wp_status = 200, wp_statusText = ''OK'', wp_headers = [],
        wp_body = ''POST http://localhost:4000/api/audit/delete''\<rparr>"
proof -
  have "getSession ex_dash_env ex_jose_verify 0 (wr_cookies ex_forged) = None"
    by (simp add: getSession_def ex_env nullish_def ex_forged_def ex_jose_verify_def ex_sign_def ex_secret_def)
  from gateway_guard_is_presence[OF _ this, of "[''api'', ''audit'', ''delete'']"] show ?thesis
    by (simp add: ex_forged_def forward_def proxy_call_of_def API_BASE_URL_def or_else_def nullish_def ex_dash_env_def
        stream_headers_def get_header_def)
qed

lemma get_set_header:
  "get_header k (set_header k' v hs) = (if to_lower k = to_lower k' then Some v else get_header k hs)"
  by (induction hs) (auto simp: get_header_def set_header_def)

lemma get_copy_headers:
  "get_header k (copy_headers hs out) =
   (if to_lower k \<in> set STRIPPED then get_header k out
    else coalesce (map_of (rev (map (\<lambda>(n, v). (to_lower n, v)) hs)) (to_lower k)) (get_header k out))"
proof (induction hs arbitrary: out)
  case Nil
  then show ?case by (simp add: coalesce_def)
next
  case (Cons p hs)
  then show ?case
    by (cases p) (auto simp: get_set_header coalesce_def map_add_def split: option.splits)
qed

definition passes_on :: "headers \<Rightarrow> string \<Rightarrow> string option" where
  "passes_on hs k =
     (if to_lower k \<in> set STRIPPED then None else map_of (rev (map (\<lambda>(n, v). (to_lower n, v)) hs)) (to_lower k))"

lemma get_copy_fresh: "get_header k (copy_headers hs []) = passes_on hs k"
proof -
  have "get_header k [] = None"
    by (simp add: get_header_def)
  then show ?thesis
    unfolding get_copy_headers passes_on_def by (simp add: coalesce_def split: option.splits)
qed

definition streams :: "web_response \<Rightarrow> bool" where
  "streams u \<longleftrightarrow> str_includes ''text/event-stream'' (nullish (passes_on (wp_headers u) ''content-type'') '''')"

lemma get_stream_headers:
  "get_header k (stream_headers hs) =
   (if \<not> str_includes ''text/event-stream'' (nullish (get_header ''content-type'' hs) '''') then get_header k hs
    else if to_lower k = ''x-accel-buffering'' then Some ''no''
    else if to_lower k = ''cache-control'' then Some ''no-cache, no-transform''
    else get_header k hs)"
proof -
  have "to_lower ''x-accel-buffering'' = ''x-accel-buffering''" "to_lower ''cache-control'' = ''cache-control''"
    by code_simp+
  then show ?thesis
    unfolding stream_headers_def by (simp add: get_set_header)
qed

text \<open>
  The proxy is transparent: the router sees the method, the query and every header but the hop-by-hop
  ones, whatever the case of their names and the last of several values; a write carries its body and is not
  cut off when the browser leaves, a read carries none and is. The browser sees the router's status and body
  and its headers on the same terms, with two of its own on an event stream, or a 502 that names the address
  when the router cannot be reached.\<close>

theorem proxy_is_transparent:
  "get_header k (pc_headers (proxy_call_of env path r)) = passes_on (wr_headers r) k \<and>
   (case upstream (proxy_call_of env path r) of
      Inl e \<Rightarrow> wp_status (forward env upstream path r) = 502
    | Inr u \<Rightarrow>
        wp_status (forward env upstream path r) = wp_status u \<and> wp_body (forward env upstream path r) = wp_body u \<and>
        get_header k (wp_headers (forward env upstream path r)) =
          (if \<not> streams u then passes_on (wp_headers u) k
           else if to_lower k = ''x-accel-buffering'' then Some ''no''
           else if to_lower k = ''cache-control'' then Some ''no-cache, no-transform''
           else passes_on (wp_headers u) k))"
  by (simp add: forward_def proxy_call_of_def get_copy_fresh get_stream_headers streams_def unreachable_reply_def
      split: sum.splits)

end
