(* ===== verification/Seed.thy ===== *)
theory Seed
  imports Registry AuditTrail
begin

text \<open>
  Setting a database up: \<open>server/src/db/migrate.ts\<close> (the SQL files, in order) and
  \<open>server/src/db/seed.ts\<close> (the demo registry with its prices, overrides and logging scopes). The SQL
  of a migration is executed by the parameter \<open>query\<close>; what the files create is the schema of
  \<open>Store\<close>.
\<close>

section \<open>Migrations\<close>

definition migration_files :: "string list \<Rightarrow> string list" where
  "migration_files dir = sort (filter (ends_with ''.sql'') dir)"

definition runMigrations :: "(string \<Rightarrow> 's \<Rightarrow> string + 's) \<Rightarrow> (string \<Rightarrow> string) \<Rightarrow> string list \<Rightarrow> 's \<Rightarrow> string + 's" where
  "runMigrations query read_file dir d = fold_sum (\<lambda>file. query (read_file file)) (migration_files dir) d"

section \<open>The demo registry\<close>

text \<open>\<open>MODEL_ENDPOINT_\<close> and the id in capitals, dashes turned to underscores.\<close>

definition endpoint_key :: "string \<Rightarrow> string" where
  "endpoint_key modelId =
     ''MODEL_ENDPOINT_'' @ map (\<lambda>c. if c = CHR ''-'' then CHR ''_'' else c) (to_upper modelId)"

definition endpointFor :: "(string \<Rightarrow> string option) \<Rightarrow> string \<Rightarrow> nat \<Rightarrow> string" where
  "endpointFor env modelId defaultPort =
     nullish (env (endpoint_key modelId)) (''http://localhost:'' @ digits_of defaultPort)"

record demo_model =
  dm_id :: string
  dm_name :: string
  dm_class_label :: string
  dm_model_class :: model_class
  dm_capabilities :: "capability list"
  dm_min_replicas :: int
  dm_max_replicas :: int
  dm_system_prompt :: string
  dm_cost_value :: rat
  dm_cost_basis :: cost_basis
  dm_endpoint_url :: string

definition demo_models :: "(string \<Rightarrow> string option) \<Rightarrow> demo_model list" where
  "demo_models env =
     [\<lparr>dm_id = ''ornith-35b'', dm_name = ''Ornith-1.0 35B'', dm_class_label = ''Large / complex'',
       dm_model_class = Large, dm_capabilities = [Chat, Tools], dm_min_replicas = 1, dm_max_replicas = 6,
       dm_system_prompt = ''You are a careful, methodical assistant. When answering technical questions, '' @
         ''prefer concrete examples and cite trade-offs explicitly.'',
       dm_cost_value = 42 / 10000, dm_cost_basis = Per1kTokens, dm_endpoint_url = endpointFor env ''ornith-35b'' 5001\<rparr>,
      \<lparr>dm_id = ''kestrel-9b'', dm_name = ''Kestrel-9B'', dm_class_label = ''Fast / general'',
       dm_model_class = Fast, dm_capabilities = [Chat, Tools], dm_min_replicas = 2, dm_max_replicas = 8,
       dm_system_prompt = ''You are a concise assistant. Prefer short, direct answers.'',
       dm_cost_value = 11 / 10000, dm_cost_basis = Per1kTokens, dm_endpoint_url = endpointFor env ''kestrel-9b'' 5002\<rparr>,
      \<lparr>dm_id = ''lark-vision'', dm_name = ''Lark-Vision 2B'', dm_class_label = ''Vision'',
       dm_model_class = VisionClass, dm_capabilities = [Chat, Vision], dm_min_replicas = 1, dm_max_replicas = 4,
       dm_system_prompt = ''You can see attached images. Describe what you observe before answering.'',
       dm_cost_value = 19 / 10000, dm_cost_basis = Per1kTokens, dm_endpoint_url = endpointFor env ''lark-vision'' 5003\<rparr>,
      \<lparr>dm_id = ''ember-embed'', dm_name = ''Ember-Embed'', dm_class_label = ''Embedding'',
       dm_model_class = Embedding, dm_capabilities = [Embeddings], dm_min_replicas = 1, dm_max_replicas = 3,
       dm_system_prompt = '''',
       dm_cost_value = 3 / 10000, dm_cost_basis = PerComputeSecond, dm_endpoint_url = endpointFor env ''ember-embed'' 5004\<rparr>]"

text \<open>
  The two statements of the loop. What the insert does not name keeps the column's default; on a conflict
  the update does not touch what the Helm config adds (upstream name, prompt mode, backend, port, first-token
  allowance).
\<close>

definition demo_row :: "demo_model \<Rightarrow> model_row" where
  "demo_row m =
     \<lparr>mr_id = dm_id m, mr_name = dm_name m, mr_class_label = dm_class_label m,
      mr_model_class = dm_model_class m, mr_capabilities = dm_capabilities m,
      mr_min_replicas = dm_min_replicas m, mr_max_replicas = dm_max_replicas m,
      mr_system_prompt = dm_system_prompt m, mr_cost_value = dm_cost_value m,
      mr_cost_basis = dm_cost_basis m, mr_endpoint_url = dm_endpoint_url m,
      mr_upstream_model = Some (dm_id m), mr_system_prompt_mode = Some Passthrough,
      mr_backend_model_id = None, mr_port = Some 8080, mr_first_token_timeout_ms = None\<rparr>"

definition reseed_row :: "demo_model \<Rightarrow> model_row \<Rightarrow> model_row" where
  "reseed_row m r =
     r\<lparr>mr_name := dm_name m, mr_class_label := dm_class_label m, mr_model_class := dm_model_class m,
       mr_capabilities := dm_capabilities m, mr_min_replicas := dm_min_replicas m,
       mr_max_replicas := dm_max_replicas m, mr_system_prompt := dm_system_prompt m,
       mr_cost_value := dm_cost_value m, mr_cost_basis := dm_cost_basis m,
       mr_endpoint_url := dm_endpoint_url m\<rparr>"

definition seed_cost :: "time \<Rightarrow> demo_model \<Rightarrow> cost_row" where
  "seed_cost now m =
     \<lparr>cc_model_id = dm_id m, cc_cost_value = dm_cost_value m, cc_cost_basis = dm_cost_basis m,
      cc_updated_by = ''seed'', cc_updated_at = now\<rparr>"

definition reseed_cost :: "demo_model \<Rightarrow> cost_row \<Rightarrow> cost_row" where
  "reseed_cost m r = r\<lparr>cc_cost_value := dm_cost_value m, cc_cost_basis := dm_cost_basis m\<rparr>"

definition seed_model :: "time \<Rightarrow> demo_model \<Rightarrow> db \<Rightarrow> db" where
  "seed_model now m d =
     d\<lparr>models := upsert mr_id (demo_row m) (reseed_row m) (models d),
       cost_configs := upsert cc_model_id (seed_cost now m) (reseed_cost m) (cost_configs d)\<rparr>"

definition demo_override_row :: "time \<Rightarrow> string \<times> override_fields \<Rightarrow> override_row" where
  "demo_override_row now kf =
     \<lparr>ov_model_id = fst kf, ov_fields = snd kf, ov_updated_by = ''dashboard-admin'', ov_updated_at = now\<rparr>"

text \<open>\<open>ON CONFLICT DO NOTHING\<close>.\<close>

definition seed_override :: "time \<Rightarrow> string \<Rightarrow> override_fields \<Rightarrow> db \<Rightarrow> db" where
  "seed_override now modelId flds d =
     d\<lparr>overrides := upsert ov_model_id (demo_override_row now (modelId, flds)) id (overrides d)\<rparr>"

definition demo_overrides :: "(string \<times> override_fields) list" where
  "demo_overrides =
     [(''kestrel-9b'', no_override\<lparr>of_systemPrompt := Some (''You are a concise assistant. Prefer short, direct '' @
        ''answers. Always answer in bullet points when possible.'')\<rparr>),
      (''ember-embed'', no_override\<lparr>of_maxReplicas := Some 5\<rparr>)]"

definition demo_scopes :: "(scope_type \<times> string \<times> bool) list" where
  "demo_scopes =
     [(GlobalScope, '''', False),
      (TeamScope, ''engineering'', True), (TeamScope, ''search'', True), (TeamScope, ''platform'', True),
      (TeamScope, ''ml-ops'', True), (TeamScope, ''design'', False), (TeamScope, ''support'', True),
      (TeamScope, ''infra'', True), (TeamScope, ''external'', False),
      (ModelScope, ''ornith-35b'', True), (ModelScope, ''kestrel-9b'', True), (ModelScope, ''lark-vision'', True),
      (ModelScope, ''ember-embed'', False)]"

definition scope_row_of :: "scope_type \<times> string \<times> bool \<Rightarrow> logging_row" where
  "scope_row_of s = \<lparr>lg_scope_type = fst s, lg_scope_key = fst (snd s), lg_enabled = snd (snd s)\<rparr>"

definition seed_scope :: "scope_type \<times> string \<times> bool \<Rightarrow> db \<Rightarrow> db" where
  "seed_scope s d =
     d\<lparr>logging_config := upsert logging_key (scope_row_of s) (\<lambda>r. r\<lparr>lg_enabled := snd (snd s)\<rparr>) (logging_config d)\<rparr>"

definition install :: "(string \<Rightarrow> string option) \<Rightarrow> time \<Rightarrow> db \<Rightarrow> db" where
  "install env now d =
     fold seed_scope demo_scopes
       (fold (\<lambda>(k, f). seed_override now k f) demo_overrides
         (fold (seed_model now) (demo_models env) d))"

definition refusal_message :: string where
  "refusal_message =
     ''Refusing to seed: this installs fictional demo models and only belongs in sim mode.'' @ [CHR 0x0A] @
     ''Set SIM_MODE=true for a local/demo environment, or pass --force if you are certain.'' @ [CHR 0x0A] @
     ''In production, register models through the Helm values file (PRD section 6.2).''"

text \<open>\<open>migrate\<close> stands for \<open>runMigrations\<close> on this store.\<close>

definition seed :: "(string \<Rightarrow> string option) \<Rightarrow> bool \<Rightarrow> bool \<Rightarrow> (db \<Rightarrow> string + db) \<Rightarrow> time \<Rightarrow> db \<Rightarrow> string + db" where
  "seed env simMode force migrate now d =
     (if \<not> simMode \<and> \<not> force then Inl refusal_message
      else case migrate d of Inl e \<Rightarrow> Inl e | Inr d' \<Rightarrow> Inr (install env now d'))"

section \<open>The registry a fresh database gets\<close>

lemma seeded_rows:
  "models (install env now d) = fold (\<lambda>m. upsert mr_id (demo_row m) (reseed_row m)) (demo_models env) (models d)"
proof -
  have 1: "models (fold seed_scope ss d) = models d" for ss d
    by (induction ss arbitrary: d) (simp_all add: seed_scope_def)
  have 2: "models (fold (\<lambda>(k, f). seed_override now k f) os d) = models d" for os d
    by (induction os arbitrary: d) (auto simp: seed_override_def)
  have 3: "models (fold (seed_model now) ms d) = fold (\<lambda>m. upsert mr_id (demo_row m) (reseed_row m)) ms (models d)" for ms d
    by (induction ms arbitrary: d) (simp_all add: seed_model_def)
  show ?thesis by (simp add: install_def 1 2 3)
qed

lemma fresh_rows:
  assumes "models d = []"
  shows "models (install env now d) = map demo_row (demo_models env)"
  unfolding seeded_rows assms by (simp add: demo_models_def upsert_def demo_row_def)

lemma seeded_order:
  "sort_key mr_id (map demo_row (demo_models env)) = map demo_row [demo_models env ! 3, demo_models env ! 1, demo_models env ! 2, demo_models env ! 0]"
  by (simp add: demo_models_def demo_row_def less_eq_char_def)

section \<open>Seeding again\<close>

text \<open>A key whose rows an update leaves as they are.\<close>

definition settled :: "('r \<Rightarrow> 'k) \<Rightarrow> ('r \<Rightarrow> 'r) \<Rightarrow> 'k \<Rightarrow> 'r list \<Rightarrow> bool" where
  "settled key f k t \<longleftrightarrow> list_ex (\<lambda>r. key r = k) t \<and> (\<forall>r \<in> set t. key r = k \<longrightarrow> f r = r)"

lemma upsert_settled: "settled key f (key new) t \<Longrightarrow> upsert key new f t = t"
  by (auto simp: settled_def upsert_def update_where_def intro!: map_idI)

lemma settled_upsert_same:
  assumes "\<And>r. key (f r) = key r" "\<And>r. f (f r) = f r" "f new = new"
  shows "settled key f (key new) (upsert key new f t)"
proof -
  have "key new \<in> key ` set (upsert key new f t)"
    using keys_upsert[of key new f t] assms(1) by simp
  moreover have "f r = r" if "r \<in> set (upsert key new f t)" "key r = key new" for r
    using that assms by (auto simp: upsert_def update_where_def list_ex_iff split: if_splits)
  ultimately show ?thesis
    by (auto simp: settled_def list_ex_iff image_iff)
qed

lemma settled_upsert_other:
  assumes "settled key g k t" "key new \<noteq> k" "\<And>r. key (f r) = key r"
  shows "settled key g k (upsert key new f t)"
  using assms by (fastforce simp: settled_def upsert_def update_where_def list_ex_iff)

lemma settled_fold:
  assumes "\<And>m. m \<in> set ms \<Longrightarrow> key (new m) \<noteq> k" "\<And>m r. key (f m r) = key r" "settled key g k t"
  shows "settled key g k (fold (\<lambda>m. upsert key (new m) (f m)) ms t)"
  using assms(1,3)
proof (induction ms arbitrary: t)
  case Nil
  then show ?case by simp
next
  case (Cons a ms)
  have "settled key g k (upsert key (new a) (f a) t)"
    using Cons.prems assms(2) by (intro settled_upsert_other) auto
  with Cons show ?case by simp
qed

lemma upserts_settle:
  assumes "distinct (map (\<lambda>m. key (new m)) ms)" "\<And>m r. key (f m r) = key r" "\<And>m r. f m (f m r) = f m r"
    "\<And>m. f m (new m) = new m" "m \<in> set ms"
  shows "settled key (f m) (key (new m)) (fold (\<lambda>m. upsert key (new m) (f m)) ms t)"
  using assms(1,5)
proof (induction ms arbitrary: t)
  case Nil
  then show ?case by simp
next
  case (Cons a ms)
  show ?case
  proof (cases "m = a")
    case True
    have "settled key (f a) (key (new a)) (upsert key (new a) (f a) t)"
      using assms(2-4) by (intro settled_upsert_same)
    then show ?thesis
      using True Cons.prems(1) assms(2) by (auto intro!: settled_fold simp: image_iff)
  next
    case False
    then show ?thesis using Cons by simp
  qed
qed

lemma upserts_idem:
  assumes "distinct (map (\<lambda>m. key (new m)) ms)" "\<And>m r. key (f m r) = key r" "\<And>m r. f m (f m r) = f m r"
    "\<And>m. f m (new m) = new m" "\<And>m. key (new' m) = key (new m)"
  shows "fold (\<lambda>m. upsert key (new' m) (f m)) ms (fold (\<lambda>m. upsert key (new m) (f m)) ms t) =
    fold (\<lambda>m. upsert key (new m) (f m)) ms t"
proof -
  let ?t = "fold (\<lambda>m. upsert key (new m) (f m)) ms t"
  have settled: "\<And>m. m \<in> set ms \<Longrightarrow> settled key (f m) (key (new m)) ?t"
    using upserts_settle[of key new ms f] assms(1-4) by blast
  have "fold (\<lambda>m. upsert key (new' m) (f m)) xs ?t = ?t" if "set xs \<subseteq> set ms" for xs
    using that
  proof (induction xs)
    case Nil
    then show ?case by simp
  next
    case (Cons m xs)
    then have "settled key (f m) (key (new' m)) ?t" using settled assms(5) by simp
    from upsert_settled[OF this] Cons show ?case by simp
  qed
  then show ?thesis by simp
qed

text \<open>The script, table by table.\<close>

lemma install_tables:
  "install env now d =
     d\<lparr>models := fold (\<lambda>m. upsert mr_id (demo_row m) (reseed_row m)) (demo_models env) (models d),
       cost_configs := fold (\<lambda>m. upsert cc_model_id (seed_cost now m) (reseed_cost m)) (demo_models env) (cost_configs d),
       overrides := fold (\<lambda>kf. upsert ov_model_id (demo_override_row now kf) id) demo_overrides (overrides d),
       logging_config := fold (\<lambda>s. upsert logging_key (scope_row_of s) (\<lambda>r. r\<lparr>lg_enabled := snd (snd s)\<rparr>))
         demo_scopes (logging_config d)\<rparr>"
proof -
  have 1: "fold (seed_model now) ms d =
     d\<lparr>models := fold (\<lambda>m. upsert mr_id (demo_row m) (reseed_row m)) ms (models d),
       cost_configs := fold (\<lambda>m. upsert cc_model_id (seed_cost now m) (reseed_cost m)) ms (cost_configs d)\<rparr>" for ms d
    by (induction ms arbitrary: d) (simp_all add: seed_model_def)
  have 2: "fold (\<lambda>(k, f). seed_override now k f) os d =
     d\<lparr>overrides := fold (\<lambda>kf. upsert ov_model_id (demo_override_row now kf) id) os (overrides d)\<rparr>" for os d
    by (induction os arbitrary: d) (auto simp: seed_override_def)
  have 3: "fold seed_scope ss d =
     d\<lparr>logging_config := fold (\<lambda>s. upsert logging_key (scope_row_of s) (\<lambda>r. r\<lparr>lg_enabled := snd (snd s)\<rparr>)) ss
        (logging_config d)\<rparr>" for ss d
    by (induction ss arbitrary: d) (simp_all add: seed_scope_def)
  show ?thesis by (simp add: install_def 1 2 3)
qed

text \<open>
  Seeding refuses to touch anything but a demo environment, unless forced; otherwise it puts the demo
  registry in place, and running it again, at any later time, changes nothing.\<close>
theorem seed_idempotent:
  "seed env False False migrate now d = Inl refusal_message \<and>
   (simMode \<or> force \<longrightarrow> seed env simMode force Inr now d = Inr (install env now d)) \<and>
   install env later (install env now d) = install env now d"
proof (intro conjI)
  show "seed env False False migrate now d = Inl refusal_message"
    by (simp add: seed_def)
  show "simMode \<or> force \<longrightarrow> seed env simMode force Inr now d = Inr (install env now d)"
    by (auto simp: seed_def)
  have "distinct (map (\<lambda>m. mr_id (demo_row m)) (demo_models env))"
    "distinct (map (\<lambda>m. cc_model_id (seed_cost now m)) (demo_models env))"
    by (simp_all add: demo_models_def demo_row_def seed_cost_def)
  moreover have "distinct (map (\<lambda>kf. ov_model_id (demo_override_row now kf)) demo_overrides)"
    by (simp add: demo_overrides_def demo_override_row_def)
  moreover have "distinct (map (\<lambda>s. logging_key (scope_row_of s)) demo_scopes)"
    by (simp add: demo_scopes_def scope_row_of_def logging_key_def)
  ultimately show "install env later (install env now d) = install env now d"
    unfolding install_tables
    by (simp add: upserts_idem demo_row_def reseed_row_def seed_cost_def reseed_cost_def demo_override_row_def
        scope_row_of_def logging_key_def)
qed

lemma seed_idempotent_witness:
  "seed (\<lambda>_. None) True False Inr 0 empty_db = Inr (install (\<lambda>_. None) 0 empty_db) \<and>
   install (\<lambda>_. None) 5 (install (\<lambda>_. None) 0 empty_db) = install (\<lambda>_. None) 0 empty_db"
  using seed_idempotent[of "\<lambda>_. None" Inr 0 empty_db True False 5] by blast

end
