(* ===== verification/Sim.thy ===== *)
theory Sim
  imports Seed Completions
begin

text \<open>
  The traffic the simulator sends: \<open>server/src/sim/personas.ts\<close>, \<open>prompts.ts\<close> and \<open>build-request.ts\<close>.
  The numbers of \<open>Math.random\<close> are arguments, in the order they are drawn; each lies in \<open>[0, 1)\<close>. A
  request body has the type the route gives it. The one dash in a text is the character 0x97, which keeps the
  length.
\<close>

section \<open>Personas\<close>

datatype behaviour = Quick | Analytical | VisionAsk | EmbeddingAsk | ToolUser | Explicit

record persona =
  ps_oid :: string
  ps_name :: string
  ps_team :: string
  ps_weight :: nat
  ps_behaviours :: "behaviour list"
  ps_streamRate :: rat

definition cast_member :: "string \<Rightarrow> string \<Rightarrow> string \<Rightarrow> nat \<Rightarrow> behaviour list \<Rightarrow> rat \<Rightarrow> persona" where
  "cast_member n name team weight bs rate =
     \<lparr>ps_oid = ''4f1c8a02-1111-4a11-9c01-aa00000000'' @ n, ps_name = name, ps_team = team, ps_weight = weight,
      ps_behaviours = bs, ps_streamRate = rate\<rparr>"

definition PERSONAS :: "persona list" where
  "PERSONAS =
     [cast_member ''01'' ''Priya Raman'' ''engineering'' 10 [Quick, Analytical, ToolUser] (7 / 10),
      cast_member ''02'' ''Tom Okafor'' ''engineering'' 8 [Quick, Explicit] (6 / 10),
      cast_member ''03'' ''Wei Zhang'' ''search'' 12 [EmbeddingAsk, Quick] (2 / 10),
      cast_member ''04'' ''Sofia Marchetti'' ''search'' 6 [EmbeddingAsk] 0,
      cast_member ''05'' ''Dan Whitfield'' ''platform'' 7 [Analytical, ToolUser] (8 / 10),
      cast_member ''06'' ''Aisha Nkemelu'' ''platform'' 5 [Quick, Analytical] (5 / 10),
      cast_member ''07'' ''Marcus Lindqvist'' ''ml-ops'' 9 [Analytical, Explicit] (9 / 10),
      cast_member ''08'' ''Nina Vasquez'' ''ml-ops'' 4 [EmbeddingAsk, Analytical] (3 / 10),
      cast_member ''09'' ''Jonas Peterson'' ''design'' 6 [VisionAsk, Quick] (4 / 10),
      cast_member ''10'' ''Leila Haddad'' ''design'' 5 [VisionAsk] (4 / 10),
      cast_member ''11'' ''Ben Achterberg'' ''support'' 7 [Quick] (6 / 10),
      cast_member ''12'' ''svc-openwebui'' ''external'' 14 [Quick, Analytical, VisionAsk] 1]"

definition TOTAL_WEIGHT :: nat where
  "TOTAL_WEIGHT = fold (\<lambda>p acc. acc + ps_weight p) PERSONAS 0"

text \<open>The loop both samplers run: the first entry that takes the roll to zero, if any.\<close>

fun spin :: "('a \<Rightarrow> rat) \<Rightarrow> 'a list \<Rightarrow> rat \<Rightarrow> 'a option" where
  "spin weight [] roll = None"
| "spin weight (p # ps) roll =
     (let roll' = roll - weight p in if roll' \<le> 0 then Some p else spin weight ps roll')"

definition pickPersona :: "rat \<Rightarrow> persona" where
  "pickPersona r =
     nullish (spin (\<lambda>p. of_nat (ps_weight p)) PERSONAS (r * of_nat TOTAL_WEIGHT)) (last PERSONAS)"

definition pick :: "'a list \<Rightarrow> rat \<Rightarrow> 'a" where
  "pick items r = items ! nat \<lfloor>r * of_nat (length items)\<rfloor>"

definition pickBehaviour :: "persona \<Rightarrow> rat \<Rightarrow> behaviour" where
  "pickBehaviour p r = ps_behaviours p ! nat \<lfloor>r * of_nat (length (ps_behaviours p))\<rfloor>"

section \<open>Prompts\<close>

definition QUICK_PROMPTS :: "string list" where
  "QUICK_PROMPTS =
     [''What's the default port for Postgres?'',
      ''Convert 15:45 UTC to CET.'',
      ''Give me a one-line summary of what a JWKS endpoint does.'',
      ''Is `git restore` the same as `git checkout --`?'',
      ''What does a 503 status code mean?'',
      ''Name the four capability flags this gateway supports.'',
      ''How do I list pods in a namespace with kubectl?'',
      ''What's the difference between RAM and VRAM for model serving?'',
      ''Spell out the acronym KEDA.'',
      ''What time zone is AEST relative to UTC?'']"

definition ANALYTICAL_PROMPTS :: "string list" where
  "ANALYTICAL_PROMPTS =
     [''Think through the trade-offs between event sourcing and CRUD persistence for an audit-heavy system, and explain where each one breaks down under load.'',
      ''Reason through why a queue-wait timeout and a stall timeout need to be separate clocks in an inference gateway. What fails if you collapse them into one?'',
      ''Analyze in depth how JWKS key rotation should be handled by a service with no outbound internet access.'',
      ''Walk me through this step by step: 1) how KEDA decides to scale, 2) how the cluster autoscaler reacts, 3) where the latency actually comes from.'',
      ''Prove that a least-loaded routing strategy cannot double-assign a replica if in-flight counts live in a single shared transaction.'',
      ''Compare three approaches to cost attribution for self-hosted models. 1) per token, 2) per request, 3) per compute-second. Which is most defensible to a finance team?'',
      ''Think through the failure modes of streaming SSE responses through two proxy layers. What does the client see in each case?'',
      ''In-depth analysis please: what are the security implications of forwarding an end user's own Entra token through a chat UI to a backend gateway?'']"

definition VISION_PROMPTS :: "string list" where
  "VISION_PROMPTS =
     [''What's shown in this screenshot?'',
      ''Describe this architecture diagram.'',
      ''Read the error message in this image.'',
      ''Is this chart's y-axis truncated?'',
      ''What UI component is this?'']"

definition EMBEDDING_INPUTS :: "string list" where
  "EMBEDDING_INPUTS =
     [''Quarterly platform reliability review, Q3.'',
      ''Runbook: recovering a stuck llama-swap replica.'',
      ''Customer ticket 88213 '' @ [CHR 0x97] @ '' latency spike during batch ingest.'',
      ''Design doc: shared router state and HA coordination.'',
      ''Postmortem: audit retention job deleted more than intended.'',
      ''Onboarding guide for the inference gateway.'',
      ''Meeting notes '' @ [CHR 0x97] @ '' capacity planning for the 35B rollout.'']"

definition TOOL_DEFINITIONS :: "json list" where
  "TOOL_DEFINITIONS =
     [JObj [(''type'', JStr ''function''),
       (''function'', JObj
         [(''name'', JStr ''search_runbooks''),
          (''description'', JStr ''Search internal runbooks by keyword.''),
          (''parameters'', JObj
            [(''type'', JStr ''object''),
             (''properties'', JObj [(''query'', JObj [(''type'', JStr ''string'')])]),
             (''required'', JArr [JStr ''query''])])])]]"

definition TINY_PNG_DATA_URL :: string where
  "TINY_PNG_DATA_URL =
     ''data:image/png;base64,iVBORw0KGgoAAAANSUhEUgAAAAEAAAABCAYAAAAfFcSJAAAADUlEQVR42mNk+M9QDwADhgGAWjR9awAAAABJRU5ErkJggg==''"

section \<open>Requests\<close>

datatype sim_body = ChatBody chat_request | EmbedBody "string option" string

record sim_request =
  sq_body :: sim_body
  sq_expectedModel :: "string option"
  sq_expectedError :: "string option"
  sq_behaviour :: behaviour

text \<open>The endpoint is that of the body.\<close>

definition sq_endpoint :: "sim_request \<Rightarrow> endpoint" where
  "sq_endpoint q = (case sq_body q of ChatBody r \<Rightarrow> ChatEndpoint | EmbedBody m i \<Rightarrow> EmbeddingsEndpoint)"

definition chat_body :: "string option \<Rightarrow> bool \<Rightarrow> json list option \<Rightarrow> content \<Rightarrow> sim_body" where
  "chat_body model stream tools c =
     ChatBody \<lparr>cr_model = model, cr_messages = [\<lparr>msg_role = UserRole, msg_content = c, msg_extra = []\<rparr>],
       cr_tools = tools, cr_tool_choice = None, cr_stream = stream, cr_include_usage = False,
       cr_temperature = None, cr_top_p = None, cr_max_tokens = None, cr_stop = None, cr_seed = None,
       cr_presence_penalty = None, cr_frequency_penalty = None, cr_response_format = None\<rparr>"

definition image_question :: "string \<Rightarrow> content" where
  "image_question question =
     Parts [\<lparr>part_type = ''text'', part_fields = [(''text'', JStr question)]\<rparr>,
            \<lparr>part_type = ''image_url'', part_fields = [(''image_url'', JObj [(''url'', JStr TINY_PNG_DATA_URL)])]\<rparr>]"

definition buildRequest :: "persona \<Rightarrow> behaviour \<Rightarrow> (nat \<Rightarrow> rat) \<Rightarrow> sim_request" where
  "buildRequest p b rand =
     (let stream = (rand 0 < ps_streamRate p) in
      case b of
        Quick \<Rightarrow>
          \<lparr>sq_body = chat_body None stream None (Text (pick QUICK_PROMPTS (rand 1))),
           sq_expectedModel = Some ''kestrel-9b'', sq_expectedError = None, sq_behaviour = b\<rparr>
      | Analytical \<Rightarrow>
          \<lparr>sq_body = chat_body None stream None (Text (pick ANALYTICAL_PROMPTS (rand 1))),
           sq_expectedModel = Some ''ornith-35b'', sq_expectedError = None, sq_behaviour = b\<rparr>
      | VisionAsk \<Rightarrow>
          \<lparr>sq_body = chat_body None stream None (image_question (pick VISION_PROMPTS (rand 1))),
           sq_expectedModel = Some ''lark-vision'', sq_expectedError = None, sq_behaviour = b\<rparr>
      | EmbeddingAsk \<Rightarrow>
          \<lparr>sq_body = EmbedBody None (pick EMBEDDING_INPUTS (rand 1)),
           sq_expectedModel = Some ''ember-embed'', sq_expectedError = None, sq_behaviour = b\<rparr>
      | ToolUser \<Rightarrow>
          \<lparr>sq_body = chat_body None stream (Some TOOL_DEFINITIONS) (Text (pick QUICK_PROMPTS (rand 1))),
           sq_expectedModel = Some ''kestrel-9b'', sq_expectedError = None, sq_behaviour = b\<rparr>
      | Explicit \<Rightarrow>
          (let target = pick [''ornith-35b'', ''kestrel-9b''] (rand 1) in
           \<lparr>sq_body = chat_body (Some target) stream None (Text (pick QUICK_PROMPTS (rand 2))),
            sq_expectedModel = Some target, sq_expectedError = None, sq_behaviour = b\<rparr>))"

datatype failing_kind = VisionMismatch | EmbeddingsMismatch | UnknownModel

definition buildFailingRequest :: "(nat \<Rightarrow> rat) \<Rightarrow> sim_request" where
  "buildFailingRequest rand =
     (case pick [VisionMismatch, EmbeddingsMismatch, UnknownModel] (rand 0) of
        VisionMismatch \<Rightarrow>
          \<lparr>sq_body = chat_body (Some ''kestrel-9b'') False None (image_question (pick VISION_PROMPTS (rand 1))),
           sq_expectedModel = None, sq_expectedError = Some ''capability_mismatch'', sq_behaviour = VisionAsk\<rparr>
      | EmbeddingsMismatch \<Rightarrow>
          \<lparr>sq_body = EmbedBody (Some ''kestrel-9b'') (pick EMBEDDING_INPUTS (rand 1)),
           sq_expectedModel = None, sq_expectedError = Some ''capability_mismatch'', sq_behaviour = EmbeddingAsk\<rparr>
      | UnknownModel \<Rightarrow>
          \<lparr>sq_body = chat_body (Some ''does-not-exist-7b'') False None (Text (pick QUICK_PROMPTS (rand 1))),
           sq_expectedModel = None, sq_expectedError = Some ''capability_mismatch'', sq_behaviour = Explicit\<rparr>)"

text \<open>What the router decides about a simulated request.\<close>

definition routed_by :: "db \<Rightarrow> sim_request \<Rightarrow> select_result" where
  "routed_by d q =
     (case sq_body q of
        ChatBody r \<Rightarrow> selectModel r (listModels d) ChatEndpoint
      | EmbedBody m i \<Rightarrow> selectModel (bare_request m) (listModels d) EmbeddingsEndpoint)"

section \<open>The corpus against the complexity rules\<close>

definition complex_text :: "string \<Rightarrow> bool" where
  "complex_text s \<longleftrightarrow>
     4000 \<le> length s \<or> list_ex (\<lambda>m. str_includes m (to_lower s)) COMPLEX_REASONING_MARKERS \<or>
     hasLargeFencedCodeBlock s \<or> hasMultiPartQuestion s"

lemma isComplex_single:
  assumes "map flattenMessage (cr_messages r) = [s]"
  shows "isComplex (computeComplexitySignals r) \<longleftrightarrow> complex_text s"
  using assms
  by (simp add: isComplex_def computeComplexitySignals_def complex_text_def flattenMessages_def Let_def
      LONG_PROMPT_CHAR_THRESHOLD_def)

lemma quick_prompts_short:
  "list_all (\<lambda>s. length s < 100 \<and> \<not> list_ex (\<lambda>m. str_includes m (to_lower s)) COMPLEX_REASONING_MARKERS \<and>
     \<not> hasMultiPartQuestion s) QUICK_PROMPTS"
  by code_simp

lemma quick_prompts_simple: "s \<in> set QUICK_PROMPTS \<Longrightarrow> \<not> complex_text s"
  using quick_prompts_short hasLargeFencedCodeBlock_long[of s]
  by (fastforce simp: list_all_iff complex_text_def)

lemma analytical_prompts_marked:
  "list_all (\<lambda>s. list_ex (\<lambda>m. str_includes m (to_lower s)) COMPLEX_REASONING_MARKERS \<or>
     hasMultiPartQuestion s) ANALYTICAL_PROMPTS"
  by code_simp

lemma analytical_prompts_complex: "s \<in> set ANALYTICAL_PROMPTS \<Longrightarrow> complex_text s"
  using analytical_prompts_marked by (fastforce simp: list_all_iff complex_text_def)

lemma pick_mem:
  assumes "0 \<le> r" "r < 1" "items \<noteq> []"
  shows "pick items r \<in> set items"
proof -
  have "r * of_nat (length items) < of_nat (length items)"
    using assms by simp
  then have "\<lfloor>r * of_nat (length items)\<rfloor> < int (length items)"
    by (simp add: floor_less_iff)
  moreover have "0 \<le> \<lfloor>r * of_nat (length items)\<rfloor>"
    using assms(1) by simp
  ultimately show ?thesis
    unfolding pick_def by (intro nth_mem) (simp add: nat_less_iff)
qed

section \<open>The router meets the expectations\<close>

text \<open>All that selection looks at.\<close>

definition signature :: "model_config \<Rightarrow> string \<times> model_class \<times> capability list" where
  "signature m = (m_id m, m_modelClass m, m_capabilities m)"

lemma seeded_registry:
  assumes "models d = []"
  shows "map signature (listModels (install env now d)) =
     [(''ember-embed'', Embedding, [Embeddings]), (''kestrel-9b'', Fast, [Chat, Tools]),
      (''lark-vision'', VisionClass, [Chat, Vision]), (''ornith-35b'', Large, [Chat, Tools])]"
  unfolding listModels_def fresh_rows[OF assms] seeded_order
  by (simp add: demo_models_def demo_row_def signature_def mergeModelConfig_def Let_def)

lemma seeded_candidates:
  assumes "models d = []"
  obtains e k l u where "listModels (install env now d) = [e, k, l, u]"
    "m_id e = ''ember-embed''" "m_modelClass e = Embedding" "m_capabilities e = [Embeddings]"
    "m_id k = ''kestrel-9b''" "m_modelClass k = Fast" "m_capabilities k = [Chat, Tools]"
    "m_id l = ''lark-vision''" "m_modelClass l = VisionClass" "m_capabilities l = [Chat, Vision]"
    "m_id u = ''ornith-35b''" "m_modelClass u = Large" "m_capabilities u = [Chat, Tools]"
  using seeded_registry[OF assms, of env now] unfolding signature_def map_eq_Cons_conv prod.inject by blast

lemma explicit_targets:
  "0 \<le> r \<Longrightarrow> r < 1 \<Longrightarrow> pick [''ornith-35b'', ''kestrel-9b''] r \<in> {''ornith-35b'', ''kestrel-9b''}"
  using pick_mem[of r "[''ornith-35b'', ''kestrel-9b'']"] by simp

lemmas routing_steps =
  routed_by_def chat_body_def selectModel_def selectAuto_def selectExplicit_def findModel_def namesNoModel_def
  requiredCapabilities_def requestHasImage_def toolsRequested_def filterByCapabilities_def hasAllCapabilities_def
  pickByClass_def isImagePart_def bare_request_def Let_def

lemma complexity_of_question:
  "isComplex (computeComplexitySignals \<lparr>cr_model = m, cr_messages = [\<lparr>msg_role = UserRole, msg_content = Text s, msg_extra = []\<rparr>],
     cr_tools = ts, cr_tool_choice = tc, cr_stream = b, cr_include_usage = u, cr_temperature = t, cr_top_p = tp,
     cr_max_tokens = mt, cr_stop = st, cr_seed = se, cr_presence_penalty = pp, cr_frequency_penalty = fp,
     cr_response_format = rf\<rparr>) \<longleftrightarrow> complex_text s"
  by (rule isComplex_single) (simp add: flattenMessage_def)

text \<open>
  C28: The traffic mix is what its comments claim, an assertion about routing that holds: over a database set
  up by the seed, whatever the environment and the numbers drawn, every simulated request is routed to the
  model it expects. In particular every prompt of the corpus lies on its side of the complexity rules.\<close>
theorem traffic_mix_routed:
  assumes "models d = []" and "\<And>i. 0 \<le> rand i \<and> rand i < 1"
  shows "\<exists>m reason. sq_expectedModel (buildRequest p b rand) = Some m \<and>
    routed_by (install env now d) (buildRequest p b rand) = Selected m reason"
proof -
  obtain e k l u where c: "listModels (install env now d) = [e, k, l, u]"
    "m_id e = ''ember-embed''" "m_modelClass e = Embedding" "m_capabilities e = [Embeddings]"
    "m_id k = ''kestrel-9b''" "m_modelClass k = Fast" "m_capabilities k = [Chat, Tools]"
    "m_id l = ''lark-vision''" "m_modelClass l = VisionClass" "m_capabilities l = [Chat, Vision]"
    "m_id u = ''ornith-35b''" "m_modelClass u = Large" "m_capabilities u = [Chat, Tools]"
    using seeded_candidates[OF assms(1)] by metis
  have quick: "\<not> complex_text (pick QUICK_PROMPTS (rand 1))"
    using assms(2) by (intro quick_prompts_simple pick_mem) (simp_all add: QUICK_PROMPTS_def)
  have deep: "complex_text (pick ANALYTICAL_PROMPTS (rand 1))"
    using assms(2) by (intro analytical_prompts_complex pick_mem) (simp_all add: ANALYTICAL_PROMPTS_def)
  have target: "pick [''ornith-35b'', ''kestrel-9b''] (rand 1) \<in> {''ornith-35b'', ''kestrel-9b''}"
    using assms(2) by (intro explicit_targets) simp_all
  show ?thesis
  proof (cases b)
    case Quick
    then show ?thesis using quick by (simp add: buildRequest_def routing_steps c complexity_of_question)
  next
    case Analytical
    then show ?thesis using deep by (simp add: buildRequest_def routing_steps c complexity_of_question)
  next
    case VisionAsk
    then show ?thesis by (simp add: buildRequest_def routing_steps c image_question_def)
  next
    case EmbeddingAsk
    then show ?thesis by (simp add: buildRequest_def routing_steps c)
  next
    case ToolUser
    then show ?thesis
      using quick by (simp add: buildRequest_def routing_steps c complexity_of_question TOOL_DEFINITIONS_def)
  next
    case Explicit
    then show ?thesis using target by (auto simp: buildRequest_def routing_steps c)
  qed
qed

lemma traffic_mix_routed_witness:
  "\<exists>reason. routed_by (install (\<lambda>_. None) 0 empty_db) (buildRequest (hd PERSONAS) Analytical (\<lambda>_. 1 / 2)) =
     Selected ''ornith-35b'' reason"
  using traffic_mix_routed[of empty_db "\<lambda>_. 1 / 2" "hd PERSONAS" Analytical "\<lambda>_. None" 0]
  by (simp add: empty_db_def buildRequest_def Let_def)

text \<open>
  C2: Of the requests built to fail, those that lack a capability fail as they expect. The one that names an
  unknown model expects \<open>capability_mismatch\<close> too, but the router answers \<open>model_not_found\<close>: that
  expectation can never be met.
\<close>
theorem failing_requests_rejected:
  assumes "models d = []" and "0 \<le> rand 0" and "rand 0 < 1"
  shows "\<exists>err. routed_by (install env now d) (buildFailingRequest rand) = Rejected err \<and>
    (sq_expectedError (buildFailingRequest rand) = Some (error_code_text (err_code err)) \<longleftrightarrow> rand 0 < 2 / 3) \<and>
    (2 / 3 \<le> rand 0 \<longrightarrow> err_code err = ModelNotFound)"
proof -
  obtain e k l u where c: "listModels (install env now d) = [e, k, l, u]"
    "m_id e = ''ember-embed''" "m_modelClass e = Embedding" "m_capabilities e = [Embeddings]"
    "m_id k = ''kestrel-9b''" "m_modelClass k = Fast" "m_capabilities k = [Chat, Tools]"
    "m_id l = ''lark-vision''" "m_modelClass l = VisionClass" "m_capabilities l = [Chat, Vision]"
    "m_id u = ''ornith-35b''" "m_modelClass u = Large" "m_capabilities u = [Chat, Tools]"
    using seeded_candidates[OF assms(1)] by metis
  note facts = buildFailingRequest_def routing_steps c image_question_def capabilityMismatchError_def
    modelNotFoundError_def
  consider "\<lfloor>rand 0 * 3\<rfloor> = 0" "rand 0 < 2 / 3" | "\<lfloor>rand 0 * 3\<rfloor> = 1" "rand 0 < 2 / 3"
    | "\<lfloor>rand 0 * 3\<rfloor> = 2" "\<not> rand 0 < 2 / 3"
    using assms(2,3) by (simp add: floor_eq_iff) linarith
  then show ?thesis
    by cases (simp_all add: facts pick_def)
qed

lemma failing_requests_rejected_witness:
  "\<exists>err. routed_by (install (\<lambda>_. None) 0 empty_db) (buildFailingRequest (\<lambda>_. 3 / 4)) = Rejected err \<and>
     err_code err = ModelNotFound \<and>
     sq_expectedError (buildFailingRequest (\<lambda>_. 3 / 4)) \<noteq> Some (error_code_text (err_code err))"
  using failing_requests_rejected[of empty_db "\<lambda>_. 3 / 4" "\<lambda>_. None" 0] by (auto simp: empty_db_def)

section \<open>Sampling by weight\<close>

lemma spin_append:
  "spin w (xs @ ys) roll = (case spin w xs roll of Some p \<Rightarrow> Some p | None \<Rightarrow> spin w ys (roll - sum_list (map w xs)))"
  by (induction xs arbitrary: roll) (auto simp: Let_def algebra_simps split: option.split)

lemma spin_None: "(\<And>x. x \<in> set xs \<Longrightarrow> 0 \<le> w x) \<Longrightarrow> spin w xs roll = None \<longleftrightarrow> (xs = [] \<or> sum_list (map w xs) < roll)"
proof (induction xs arbitrary: roll)
  case Nil
  then show ?case by simp
next
  case (Cons x xs)
  have "0 \<le> sum_list (map w xs)" using Cons.prems by (intro sum_list_nonneg) auto
  with Cons show ?case by (auto simp: Let_def algebra_simps)
qed

text \<open>An entry is drawn exactly for the rolls between the weights before it and the weights up to it.\<close>

lemma spin_iff:
  assumes "\<And>x. x \<in> set xs \<Longrightarrow> 0 < w x" and "distinct xs" and "i < length xs" and "0 < roll"
  shows "spin w xs roll = Some (xs ! i) \<longleftrightarrow>
    sum_list (map w (take i xs)) < roll \<and> roll \<le> sum_list (map w (take (Suc i) xs))"
  using assms
proof (induction xs arbitrary: i roll)
  case Nil
  then show ?case by simp
next
  case (Cons x xs)
  show ?case
  proof (cases i)
    case 0
    have "spin w xs (roll - w x) \<noteq> Some x"
    proof
      assume "spin w xs (roll - w x) = Some x"
      moreover have "spin w ys t = Some y \<Longrightarrow> y \<in> set ys" for ys t y
        by (induction ys arbitrary: t) (auto simp: Let_def split: if_splits)
      ultimately have "x \<in> set xs" by blast
      then show False using Cons.prems(2) by simp
    qed
    then show ?thesis using 0 Cons.prems by (auto simp: Let_def)
  next
    case (Suc j)
    have pos: "0 \<le> sum_list (map w (take j xs))"
      using Cons.prems(1) by (intro sum_list_nonneg) (auto dest!: in_set_takeD intro: less_imp_le)
    have ne: "xs ! j \<noteq> x" and len: "j < length xs"
      using Cons.prems(2,3) Suc by auto
    show ?thesis
    proof (cases "roll \<le> w x")
      case True
      then show ?thesis using Suc ne pos by (auto simp: Let_def)
    next
      case False
      then show ?thesis
        using Suc len Cons.IH[of j "roll - w x"] Cons.prems by (auto simp: Let_def)
    qed
  qed
qed

definition weight_before :: "nat \<Rightarrow> rat" where
  "weight_before i = sum_list (map (\<lambda>p. of_nat (ps_weight p)) (take i PERSONAS))"

lemma personas_distinct: "distinct PERSONAS"
proof -
  have "distinct (map ps_oid PERSONAS)" by code_simp
  then show ?thesis by (simp add: distinct_map)
qed

text \<open>
  Traffic is shared by weight: a persona is drawn exactly for the rolls in an interval whose length is its
  weight over the total, the intervals follow each other without a gap, and the fallback behind the loop is
  never reached.\<close>
theorem persona_share:
  assumes "i < length PERSONAS" and "0 < r" and "r \<le> 1"
  shows "(pickPersona r = PERSONAS ! i \<longleftrightarrow>
      weight_before i < r * of_nat TOTAL_WEIGHT \<and> r * of_nat TOTAL_WEIGHT \<le> weight_before (Suc i)) \<and>
    weight_before (Suc i) - weight_before i = of_nat (ps_weight (PERSONAS ! i)) \<and>
    weight_before (length PERSONAS) = of_nat TOTAL_WEIGHT"
proof -
  let ?w = "\<lambda>p. of_nat (ps_weight p) :: rat"
  have total: "weight_before (length PERSONAS) = of_nat TOTAL_WEIGHT"
    by (simp add: weight_before_def TOTAL_WEIGHT_def PERSONAS_def cast_member_def)
  have w: "list_all (\<lambda>p. 0 < ps_weight p) PERSONAS" and T: "0 < TOTAL_WEIGHT"
    by code_simp+
  have "spin ?w PERSONAS (r * of_nat TOTAL_WEIGHT) \<noteq> None"
    using total assms(3) T by (subst spin_None) (auto simp: weight_before_def PERSONAS_def not_less mult_le_cancel_right1)
  then have "pickPersona r = PERSONAS ! i \<longleftrightarrow> spin ?w PERSONAS (r * of_nat TOTAL_WEIGHT) = Some (PERSONAS ! i)"
    by (auto simp: pickPersona_def)
  moreover have "\<dots> \<longleftrightarrow> weight_before i < r * of_nat TOTAL_WEIGHT \<and> r * of_nat TOTAL_WEIGHT \<le> weight_before (Suc i)"
    unfolding weight_before_def
    using w T assms personas_distinct by (intro spin_iff) (auto simp: list_all_iff)
  ultimately show ?thesis
    using assms(1) total by (simp add: weight_before_def take_Suc_conv_app_nth)
qed

lemma persona_share_witness:
  "pickPersona (1 / 2) = PERSONAS ! 5 \<longleftrightarrow> weight_before 5 < 93 / 2 \<and> 93 / 2 \<le> weight_before 6"
  using persona_share[of 5 "1 / 2"] by (simp add: PERSONAS_def TOTAL_WEIGHT_def cast_member_def)

end
