(* ===== verification/Live.thy ===== *)
theory Live
  imports Sim Session
begin

text \<open>
  The live driver of the simulator, \<open>server/src/sim/live.ts\<close>, and its command line,
  \<open>server/src/sim/index.ts\<close>. A response is a parameter. The loop of \<open>runLive\<close> is a step relation, because
  its requests end whenever they do, the clock moves on by itself and the operator may interrupt it.
\<close>

section \<open>Options and the command line\<close>

record live_options =
  lo_routerUrl :: string
  lo_rate :: rat
  lo_durationSec :: rat
  lo_concurrency :: rat
  lo_failureRate :: rat
  lo_verbose :: bool

definition DEFAULT_LIVE_OPTIONS :: "env \<Rightarrow> live_options" where
  "DEFAULT_LIVE_OPTIONS env =
     \<lparr>lo_routerUrl = nullish (env ''ROUTER_URL'') ''http://localhost:4000'', lo_rate = 2, lo_durationSec = 0,
      lo_concurrency = 8, lo_failureRate = 8 / 100, lo_verbose = False\<rparr>"

record live_flags =
  lf_routerUrl :: "string option"
  lf_rate :: "rat option"
  lf_durationSec :: "rat option"
  lf_concurrency :: "rat option"
  lf_failureRate :: "rat option"
  lf_verbose :: "bool option"

text \<open>\<open>{ ...DEFAULT, ...compact(options) }\<close>: a flag that was not given leaves its default.\<close>

definition merge_live :: "live_options \<Rightarrow> live_flags \<Rightarrow> live_options" where
  "merge_live opts f =
     \<lparr>lo_routerUrl = nullish (lf_routerUrl f) (lo_routerUrl opts), lo_rate = nullish (lf_rate f) (lo_rate opts),
      lo_durationSec = nullish (lf_durationSec f) (lo_durationSec opts),
      lo_concurrency = nullish (lf_concurrency f) (lo_concurrency opts),
      lo_failureRate = nullish (lf_failureRate f) (lo_failureRate opts),
      lo_verbose = nullish (lf_verbose f) (lo_verbose opts)\<rparr>"

record backfill_flags =
  bf_days :: "rat option"
  bf_requestsPerDay :: "rat option"
  bf_reset :: "bool option"

definition is_flag :: "string \<Rightarrow> string \<Rightarrow> bool" where
  "is_flag name a \<longleftrightarrow> a = ''--'' @ name \<or> starts_with (''--'' @ name @ ''='') a"

definition flag :: "string list \<Rightarrow> string \<Rightarrow> string option" where
  "flag args name =
     (case find (is_flag name) args of
        None \<Rightarrow> None
      | Some hit \<Rightarrow> (case split_on (CHR ''='') hit of h # v # rest \<Rightarrow> Some v | _ \<Rightarrow> Some ''true''))"

definition number_message :: "string \<Rightarrow> string \<Rightarrow> string" where
  "number_message name raw = ''--'' @ name @ '' must be a number, got '' @ quoted raw"

definition numberFlag :: "string list \<Rightarrow> string \<Rightarrow> string + rat option" where
  "numberFlag args name =
     (case flag args name of
        None \<Rightarrow> Inr None
      | Some raw \<Rightarrow> (case js_number raw of None \<Rightarrow> Inl (number_message name raw) | Some x \<Rightarrow> Inr (Some x)))"

definition true_flag :: "string list \<Rightarrow> string \<Rightarrow> bool option" where
  "true_flag args name = (if flag args name = Some ''true'' then Some True else None)"

datatype command =
    PrintUsage
  | Backfill backfill_flags
  | RunLive live_flags
  | UnknownMode string

definition live_flags_of :: "string list \<Rightarrow> string + live_flags" where
  "live_flags_of args =
     (case numberFlag args ''rate'' of Inl e \<Rightarrow> Inl e | Inr rate \<Rightarrow>
      case numberFlag args ''duration'' of Inl e \<Rightarrow> Inl e | Inr duration \<Rightarrow>
      case numberFlag args ''concurrency'' of Inl e \<Rightarrow> Inl e | Inr concurrency \<Rightarrow>
      case numberFlag args ''failure-rate'' of Inl e \<Rightarrow> Inl e | Inr failures \<Rightarrow>
      Inr \<lparr>lf_routerUrl = flag args ''url'', lf_rate = rate, lf_durationSec = duration,
           lf_concurrency = concurrency, lf_failureRate = failures, lf_verbose = true_flag args ''verbose''\<rparr>)"

definition backfill_flags_of :: "string list \<Rightarrow> string + backfill_flags" where
  "backfill_flags_of args =
     (case numberFlag args ''days'' of Inl e \<Rightarrow> Inl e | Inr days \<Rightarrow>
      case numberFlag args ''requests'' of Inl e \<Rightarrow> Inl e | Inr perDay \<Rightarrow>
      Inr \<lparr>bf_days = days, bf_requestsPerDay = perDay, bf_reset = true_flag args ''reset''\<rparr>)"

definition sim_refusal :: string where
  "sim_refusal =
     ''Refusing to run: the traffic simulator only operates in sim mode.'' @ [CHR 0x0A] @
     ''Set SIM_MODE=true to run it against a local or demo environment.''"

definition sim_main :: "bool \<Rightarrow> string list \<Rightarrow> string + command" where
  "sim_main simMode argv =
     (let mode = (case argv of [] \<Rightarrow> '''' | m # rest \<Rightarrow> m); args = drop 1 argv in
      if mode \<noteq> '''' \<and> mode \<noteq> ''help'' \<and> \<not> simMode then Inl sim_refusal
      else if mode = '''' \<or> mode = ''help'' \<or> nullish (flag args ''help'') '''' \<noteq> '''' then Inr PrintUsage
      else if mode = ''backfill'' then map_sum id Backfill (backfill_flags_of args)
      else if mode = ''live'' then map_sum id RunLive (live_flags_of args)
      else Inr (UnknownMode mode))"

section \<open>Tokens\<close>

definition mint_failure :: "persona \<Rightarrow> nat \<Rightarrow> string" where
  "mint_failure p status =
     ''Could not mint a dev token for '' @ ps_name p @ '' ('' @ digits_of status @ ''). '' @
     ''The router must be running with USE_FAKE_ADAPTERS=true for /dev/token to exist.''"

definition mint_body :: "persona \<Rightarrow> json" where
  "mint_body p = JObj [(''oid'', JStr (ps_oid p)), (''name'', JStr (ps_name p)), (''team'', JStr (ps_team p))]"

text \<open>\<open>post\<close> is the request to \<open>/dev/token\<close>: a status and the access token of its body.\<close>

fun mintTokens :: "(json \<Rightarrow> nat \<times> string) \<Rightarrow> persona list \<Rightarrow> string + (string \<times> string) list" where
  "mintTokens post [] = Inr []"
| "mintTokens post (p # ps) =
     (case post (mint_body p) of
        (status, token) \<Rightarrow>
          if \<not> (200 \<le> status \<and> status < 300) then Inl (mint_failure p status)
          else (case mintTokens post ps of Inl e \<Rightarrow> Inl e | Inr ts \<Rightarrow> Inr ((ps_oid p, token) # ts)))"

section \<open>One request\<close>

record mismatch =
  mm_expected :: string
  mm_actual :: json
  mm_behaviour :: behaviour

record tally =
  ta_sent :: nat
  ta_completed :: nat
  ta_failed :: nat
  ta_byModel :: "(json \<times> nat) list"
  ta_byErrorCode :: "(string \<times> nat) list"
  ta_mismatches :: "mismatch list"

definition newTally :: tally where
  "newTally = \<lparr>ta_sent = 0, ta_completed = 0, ta_failed = 0, ta_byModel = [], ta_byErrorCode = [], ta_mismatches = []\<rparr>"

definition bump :: "'k \<Rightarrow> ('k \<times> nat) list \<Rightarrow> ('k \<times> nat) list" where
  "bump k m = AList.update k (nullish (map_of m k) 0 + 1) m"

text \<open>\<open>choices?.[0]\<close>.\<close>

definition at_zero :: "json option \<Rightarrow> json option" where
  "at_zero v =
     (case v of
        Some (JArr (x # xs)) \<Rightarrow> Some x
      | Some (JObj kvs) \<Rightarrow> map_of kvs ''0''
      | Some (JStr (c # cs)) \<Rightarrow> Some (JStr [c])
      | _ \<Rightarrow> None)"

definition truthy_json :: "json option \<Rightarrow> bool" where
  "truthy_json v = (case v of None \<Rightarrow> False | Some x \<Rightarrow> js_truthy x)"

text \<open>A line of a stream: the model it names, if any, and whether it carries content.\<close>

definition drain_line :: "string \<Rightarrow> json option \<times> nat \<Rightarrow> json option \<times> nat" where
  "drain_line line acc =
     (if \<not> starts_with ''data:'' line then acc
      else let payload = trim (drop 5 line) in
        if payload = ''[DONE]'' then acc
        else case json_parse payload of
            None \<Rightarrow> acc
          | Some parsed \<Rightarrow>
              ((if truthy_json (jfield ''model'' parsed) then jfield ''model'' parsed else fst acc),
               (if truthy_json (jpath ''content'' (jpath ''delta'' (at_zero (jfield ''choices'' parsed))))
                then snd acc + 1 else snd acc)))"

definition drainStream :: "string list option \<Rightarrow> json option \<times> nat" where
  "drainStream body =
     (case body of None \<Rightarrow> (None, 0) | Some reads \<Rightarrow> fold drain_line (cut_lines '''' reads) (None, 0))"

text \<open>
  What \<open>fetch\<close> gives: a transport error, an error status with its body where that is JSON, a stream of reads
  that may break, or a body that may not be JSON.
\<close>

datatype reply =
    NoReply
  | Refused nat "json option"
  | StreamReply "string list option" bool
  | BodyReply "json option"

definition error_key :: "nat \<Rightarrow> json option \<Rightarrow> string" where
  "error_key status body =
     (case non_null (jpath ''code'' (jpath ''error'' body)) of
        Some v \<Rightarrow> js_string v
      | None \<Rightarrow> ''http_'' @ digits_of status)"

definition tally_failure :: "string \<Rightarrow> tally \<Rightarrow> tally" where
  "tally_failure k t = t\<lparr>ta_failed := ta_failed t + 1, ta_byErrorCode := bump k (ta_byErrorCode t)\<rparr>"

definition tally_success :: "sim_request \<Rightarrow> json option \<Rightarrow> tally \<Rightarrow> tally" where
  "tally_success spec model t =
     (let t1 = t\<lparr>ta_completed := ta_completed t + 1\<rparr>;
          t2 = (if truthy_json model then t1\<lparr>ta_byModel := bump (the model) (ta_byModel t1)\<rparr> else t1)
      in case sq_expectedModel spec of
           Some e \<Rightarrow>
             if e \<noteq> '''' \<and> truthy_json model \<and> the model \<noteq> JStr e
             then t2\<lparr>ta_mismatches := ta_mismatches t2 @
               [\<lparr>mm_expected = e, mm_actual = the model, mm_behaviour = sq_behaviour spec\<rparr>]\<rparr>
             else t2
         | None \<Rightarrow> t2)"

text \<open>\<open>sendOne\<close> in its two parts: before the request is made, and with its reply.\<close>

definition send_begin :: "tally \<Rightarrow> tally" where
  "send_begin t = t\<lparr>ta_sent := ta_sent t + 1\<rparr>"

definition send_end :: "sim_request \<Rightarrow> reply \<Rightarrow> tally \<Rightarrow> tally" where
  "send_end spec r t =
     (case r of
        NoReply \<Rightarrow> tally_failure ''transport_error'' t
      | Refused status body \<Rightarrow> tally_failure (error_key status body) t
      | StreamReply reads broken \<Rightarrow>
          if broken then tally_failure ''transport_error'' t
          else tally_success spec (fst (drainStream reads)) t
      | BodyReply None \<Rightarrow> tally_failure ''transport_error'' t
      | BodyReply (Some JNull) \<Rightarrow> tally_failure ''transport_error'' t
      | BodyReply (Some v) \<Rightarrow> tally_success spec (non_null (jfield ''model'' v)) t)"

section \<open>The driver\<close>

definition next_request :: "live_options \<Rightarrow> (nat \<Rightarrow> rat) \<Rightarrow> sim_request" where
  "next_request opts rand =
     (let p = pickPersona (rand 0) in
      if rand 1 < lo_failureRate opts then buildFailingRequest (\<lambda>i. rand (i + 2))
      else buildRequest p (pickBehaviour p (rand 2)) (\<lambda>i. rand (i + 3)))"

text \<open>
  Where the loop is: at its head, held back by the concurrency limit, pausing after a launch, draining what is
  in flight, finished, or ended by a second interrupt.
\<close>

datatype live_phase = AtTop | HeldBack | Pausing | Draining | Finished | Killed

record driver =
  dr_phase :: live_phase
  dr_now :: time
  dr_inFlight :: "sim_request list"
  dr_stopping :: bool
  dr_tally :: tally

definition start_driver :: "time \<Rightarrow> driver" where
  "start_driver t0 = \<lparr>dr_phase = AtTop, dr_now = t0, dr_inFlight = [], dr_stopping = False, dr_tally = newTally\<rparr>"

definition before_deadline :: "live_options \<Rightarrow> time \<Rightarrow> time \<Rightarrow> bool" where
  "before_deadline opts t0 now \<longleftrightarrow> lo_durationSec opts = 0 \<or> of_int now < of_int t0 + lo_durationSec opts * 1000"

definition goes_on :: "live_options \<Rightarrow> time \<Rightarrow> driver \<Rightarrow> bool" where
  "goes_on opts t0 s \<longleftrightarrow> \<not> dr_stopping s \<and> before_deadline opts t0 (dr_now s)"

inductive live_step :: "live_options \<Rightarrow> time \<Rightarrow> driver \<Rightarrow> driver \<Rightarrow> bool" for opts t0 where
  tick: "0 \<le> dt \<Longrightarrow> live_step opts t0 s (s\<lparr>dr_now := dr_now s + dt\<rparr>)"
| interrupt: "\<not> dr_stopping s \<Longrightarrow> dr_phase s \<noteq> Finished \<Longrightarrow> live_step opts t0 s (s\<lparr>dr_stopping := True\<rparr>)"
| kill: "dr_stopping s \<Longrightarrow> dr_phase s \<noteq> Finished \<Longrightarrow> live_step opts t0 s (s\<lparr>dr_phase := Killed\<rparr>)"
| settle: "dr_inFlight s = xs @ q # ys \<Longrightarrow> dr_phase s \<noteq> Killed \<Longrightarrow>
    live_step opts t0 s (s\<lparr>dr_inFlight := xs @ ys, dr_tally := send_end q r (dr_tally s)\<rparr>)"
| enter: "dr_phase s = AtTop \<Longrightarrow> goes_on opts t0 s \<Longrightarrow> live_step opts t0 s (s\<lparr>dr_phase := HeldBack\<rparr>)"
| leave: "dr_phase s = AtTop \<Longrightarrow> \<not> goes_on opts t0 s \<Longrightarrow> live_step opts t0 s (s\<lparr>dr_phase := Draining\<rparr>)"
| launch: "dr_phase s = HeldBack \<Longrightarrow> of_nat (length (dr_inFlight s)) < lo_concurrency opts \<Longrightarrow>
    live_step opts t0 s (s\<lparr>dr_phase := Pausing, dr_inFlight := dr_inFlight s @ [next_request opts rand],
      dr_tally := send_begin (dr_tally s)\<rparr>)"
| resume: "dr_phase s = Pausing \<Longrightarrow> live_step opts t0 s (s\<lparr>dr_phase := AtTop\<rparr>)"
| finish: "dr_phase s = Draining \<Longrightarrow> dr_inFlight s = [] \<Longrightarrow> live_step opts t0 s (s\<lparr>dr_phase := Finished\<rparr>)"

definition live_run :: "live_options \<Rightarrow> time \<Rightarrow> driver \<Rightarrow> driver \<Rightarrow> bool" where
  "live_run opts t0 = (live_step opts t0)\<^sup>*\<^sup>*"

lemma live_run_refl [simp]: "live_run opts t0 s s"
  by (simp add: live_run_def)

lemma live_run_step: "live_step opts t0 s s' \<Longrightarrow> live_run opts t0 s' s'' \<Longrightarrow> live_run opts t0 s s''"
  unfolding live_run_def by (rule converse_rtranclp_into_rtranclp)

lemma live_run_trans: "live_run opts t0 s s' \<Longrightarrow> live_run opts t0 s' s'' \<Longrightarrow> live_run opts t0 s s''"
  unfolding live_run_def by (rule rtranclp_trans)

section \<open>The books of the driver\<close>

definition counted :: "('k \<times> nat) list \<Rightarrow> nat" where
  "counted m = sum_list (map snd m)"

lemma counted_bump [simp]: "counted (bump k m) = Suc (counted m)"
proof -
  have "counted (AList.update k v m) + nullish (map_of m k) 0 = counted m + v" for v
    by (induction m) (auto simp: counted_def)
  from this[of "nullish (map_of m k) 0 + 1"] show ?thesis
    by (simp add: bump_def)
qed

lemma counted_Nil [simp]: "counted [] = 0"
  by (simp add: counted_def)

definition books_ok :: "live_options \<Rightarrow> driver \<Rightarrow> bool" where
  "books_ok opts s \<longleftrightarrow>
     ta_sent (dr_tally s) = ta_completed (dr_tally s) + ta_failed (dr_tally s) + length (dr_inFlight s) \<and>
     counted (ta_byErrorCode (dr_tally s)) = ta_failed (dr_tally s) \<and>
     counted (ta_byModel (dr_tally s)) \<le> ta_completed (dr_tally s) \<and>
     length (ta_mismatches (dr_tally s)) \<le> counted (ta_byModel (dr_tally s)) \<and>
     length (dr_inFlight s) \<le> nat \<lceil>lo_concurrency opts\<rceil> \<and>
     (dr_phase s = Finished \<longrightarrow> dr_inFlight s = [])"

text \<open>A reply is counted once, as a success or as a failure under one code.\<close>

lemma tally_failure_counts [simp]:
  "ta_sent (tally_failure k t) = ta_sent t" "ta_completed (tally_failure k t) = ta_completed t"
  "ta_failed (tally_failure k t) = Suc (ta_failed t)" "ta_byModel (tally_failure k t) = ta_byModel t"
  "counted (ta_byErrorCode (tally_failure k t)) = Suc (counted (ta_byErrorCode t))"
  "ta_mismatches (tally_failure k t) = ta_mismatches t"
  by (simp_all add: tally_failure_def)

lemma tally_success_counts [simp]:
  "ta_sent (tally_success spec m t) = ta_sent t" "ta_completed (tally_success spec m t) = Suc (ta_completed t)"
  "ta_failed (tally_success spec m t) = ta_failed t" "ta_byErrorCode (tally_success spec m t) = ta_byErrorCode t"
  "counted (ta_byModel (tally_success spec m t)) = counted (ta_byModel t) + (if truthy_json m then 1 else 0)"
  "length (ta_mismatches (tally_success spec m t)) \<le> length (ta_mismatches t) + (if truthy_json m then 1 else 0)"
  by (simp_all add: tally_success_def Let_def split: option.split)

lemma send_end_books:
  "(\<exists>k. send_end q r t = tally_failure k t) \<or> (\<exists>m. send_end q r t = tally_success q m t)"
  unfolding send_end_def by (cases r) (auto split: option.split json.split)

lemma books_settle:
  assumes "books_ok opts s" and "dr_inFlight s = xs @ q # ys"
  shows "books_ok opts (s\<lparr>dr_inFlight := xs @ ys, dr_tally := send_end q r (dr_tally s)\<rparr>)"
  using send_end_books[of q r "dr_tally s"]
proof (elim disjE exE)
  fix k assume "send_end q r (dr_tally s) = tally_failure k (dr_tally s)"
  then show ?thesis using assms by (auto simp: books_ok_def)
next
  fix m assume passed: "send_end q r (dr_tally s) = tally_success q m (dr_tally s)"
  have "length (ta_mismatches (tally_success q m (dr_tally s))) \<le>
      counted (ta_byModel (dr_tally s)) + (if truthy_json m then 1 else 0)"
    using assms(1) tally_success_counts(6)[of q m "dr_tally s"] unfolding books_ok_def by linarith
  then show ?thesis using passed assms by (auto simp: books_ok_def)
qed

lemma books_step: "live_step opts t0 s s' \<Longrightarrow> books_ok opts s \<Longrightarrow> books_ok opts s'"
proof (induction rule: live_step.induct)
  case (settle s xs q ys r)
  then show ?case by (intro books_settle)
next
  case (launch s rand)
  then have "length (dr_inFlight s) + 1 \<le> nat \<lceil>lo_concurrency opts\<rceil>"
    by linarith
  with launch show ?case by (simp add: books_ok_def send_begin_def)
qed (auto simp: books_ok_def)

lemma books_run: "live_run opts t0 s s' \<Longrightarrow> books_ok opts s \<Longrightarrow> books_ok opts s'"
  unfolding live_run_def by (induction rule: rtranclp_induct) (auto intro: books_step)

lemma books_start: "books_ok opts (start_driver t0)"
  by (simp add: books_ok_def start_driver_def newTally_def)

text \<open>
  C29: The driver's books balance whatever the replies, the clock and the operator do: every request sent is
  counted as completed, as failed or is still in flight, every failure has exactly one code, mismatches are
  among the completed requests that named a model, and never more requests are in flight than allowed.\<close>
theorem live_books_balance:
  assumes "live_run opts t0 (start_driver t0) s"
  shows "books_ok opts s"
  using books_run[OF assms books_start] .

text \<open>One request on its way, none settled yet.\<close>

lemma live_books_balance_witness:
  "\<exists>s. ta_sent (dr_tally s) = 1 \<and> dr_inFlight s \<noteq> [] \<and> books_ok (DEFAULT_LIVE_OPTIONS (\<lambda>_. None)) s"
proof -
  let ?o = "DEFAULT_LIVE_OPTIONS (\<lambda>_. None)" and ?rand = undefined
  let ?s1 = "start_driver 0\<lparr>dr_phase := HeldBack\<rparr>"
  let ?s2 = "?s1\<lparr>dr_phase := Pausing, dr_inFlight := [next_request ?o ?rand], dr_tally := send_begin newTally\<rparr>"
  have "live_step ?o 0 (start_driver 0) ?s1"
    by (rule live_step.enter)
      (simp_all add: start_driver_def goes_on_def before_deadline_def DEFAULT_LIVE_OPTIONS_def)
  moreover have "live_step ?o 0 ?s1 ?s2"
    using live_step.launch[of ?s1 ?o 0 ?rand] by (simp add: start_driver_def DEFAULT_LIVE_OPTIONS_def)
  ultimately have "live_run ?o 0 (start_driver 0) ?s2"
    by (intro live_run_step[of ?o 0 "start_driver 0" ?s1] live_run_step[of ?o 0 ?s1 ?s2] live_run_refl)
  from live_books_balance[OF this] show ?thesis
    by (intro exI[of _ ?s2]) (simp add: send_begin_def newTally_def)
qed

section \<open>Ending\<close>

lemma can_drain:
  "dr_phase s \<noteq> Killed \<Longrightarrow>
   \<exists>s'. live_run opts t0 s s' \<and> dr_inFlight s' = [] \<and> dr_phase s' = dr_phase s \<and> dr_stopping s' = dr_stopping s"
proof (induction "length (dr_inFlight s)" arbitrary: s)
  case 0
  then show ?case by (intro exI[of _ s]) simp
next
  case (Suc n)
  then obtain q qs where qs: "dr_inFlight s = q # qs" by (cases "dr_inFlight s") auto
  let ?s1 = "s\<lparr>dr_inFlight := qs, dr_tally := send_end q NoReply (dr_tally s)\<rparr>"
  have "live_step opts t0 s ?s1"
    using live_step.settle[of s "[]" q qs opts t0 NoReply] qs Suc.prems by simp
  moreover have "\<exists>s'. live_run opts t0 ?s1 s' \<and> dr_inFlight s' = [] \<and> dr_phase s' = dr_phase ?s1 \<and>
      dr_stopping s' = dr_stopping ?s1"
    using Suc qs by (intro Suc.hyps(1)) auto
  ultimately show ?case
    by (auto intro: live_run_step)
qed

lemma can_finish_draining:
  assumes "dr_phase s = Draining"
  shows "\<exists>s'. live_run opts t0 s s' \<and> dr_phase s' = Finished"
proof -
  obtain s1 where s1: "live_run opts t0 s s1" "dr_inFlight s1 = []" "dr_phase s1 = Draining"
    using can_drain[of s opts t0] assms by auto
  from live_step.finish[OF s1(3,2), of opts t0] show ?thesis
    using live_run_trans[OF s1(1) live_run_step[OF _ live_run_refl]] by fastforce
qed

lemma can_finish_top:
  assumes "dr_phase s = AtTop" "dr_stopping s"
  shows "\<exists>s'. live_run opts t0 s s' \<and> dr_phase s' = Finished"
proof -
  have "live_step opts t0 s (s\<lparr>dr_phase := Draining\<rparr>)"
    using assms by (intro live_step.leave) (simp_all add: goes_on_def)
  moreover obtain s' where "live_run opts t0 (s\<lparr>dr_phase := Draining\<rparr>) s'" "dr_phase s' = Finished"
    using can_finish_draining[of "s\<lparr>dr_phase := Draining\<rparr>" opts t0] by auto
  ultimately show ?thesis by (blast intro: live_run_step)
qed

lemma can_finish_pausing:
  assumes "dr_phase s = Pausing" "dr_stopping s"
  shows "\<exists>s'. live_run opts t0 s s' \<and> dr_phase s' = Finished"
  using can_finish_top[of "s\<lparr>dr_phase := AtTop\<rparr>" opts t0] live_step.resume[OF assms(1), of opts t0] assms(2)
  by (auto intro: live_run_step)

lemma can_finish_held:
  assumes "dr_phase s = HeldBack" "dr_stopping s" "0 < lo_concurrency opts"
  shows "\<exists>s'. live_run opts t0 s s' \<and> dr_phase s' = Finished"
proof -
  obtain s1 where s1: "live_run opts t0 s s1" "dr_inFlight s1 = []" "dr_phase s1 = HeldBack" "dr_stopping s1"
    using can_drain[of s opts t0] assms by auto
  let ?s2 = "s1\<lparr>dr_phase := Pausing, dr_inFlight := dr_inFlight s1 @ [next_request opts (\<lambda>_. 0)],
      dr_tally := send_begin (dr_tally s1)\<rparr>"
  have "live_step opts t0 s1 ?s2"
    using s1 assms(3) by (intro live_step.launch) simp_all
  moreover obtain s' where "live_run opts t0 ?s2 s'" "dr_phase s' = Finished"
    using can_finish_pausing[of ?s2 opts t0] s1(4) by auto
  ultimately show ?thesis using s1(1) by (blast intro: live_run_step live_run_trans)
qed

lemma can_finish_stopping:
  assumes "dr_stopping s" "dr_phase s \<noteq> Killed" "0 < lo_concurrency opts"
  shows "\<exists>s'. live_run opts t0 s s' \<and> dr_phase s' = Finished"
proof (cases "dr_phase s")
  case Finished
  then show ?thesis using live_run_refl by blast
qed (use assms can_finish_top can_finish_pausing can_finish_held can_finish_draining in auto)

text \<open>
  With a positive limit the driver can always come to its end: wherever it is, an interrupt and replies to
  what is in flight bring it to the final summary, and then every request sent is accounted for.\<close>
theorem live_can_finish:
  assumes "live_run opts t0 (start_driver t0) s" and "dr_phase s \<noteq> Killed" and "0 < lo_concurrency opts"
  shows "\<exists>s'. live_run opts t0 s s' \<and> dr_phase s' = Finished \<and>
    ta_sent (dr_tally s') = ta_completed (dr_tally s') + ta_failed (dr_tally s')"
proof -
  have "\<exists>s'. live_run opts t0 s s' \<and> dr_phase s' = Finished"
  proof (cases "dr_stopping s \<or> dr_phase s = Finished")
    case True
    then show ?thesis using can_finish_stopping assms live_run_refl by blast
  next
    case False
    then have "live_step opts t0 s (s\<lparr>dr_stopping := True\<rparr>)" by (intro live_step.interrupt) auto
    moreover have "\<exists>s'. live_run opts t0 (s\<lparr>dr_stopping := True\<rparr>) s' \<and> dr_phase s' = Finished"
      using assms by (intro can_finish_stopping) auto
    ultimately show ?thesis by (blast intro: live_run_step)
  qed
  then obtain s' where s': "live_run opts t0 s s'" "dr_phase s' = Finished" by blast
  moreover have "books_ok opts s'"
    using books_run[OF live_run_trans[OF assms(1) s'(1)] books_start] .
  ultimately show ?thesis by (auto simp: books_ok_def)
qed

lemma live_can_finish_witness:
  "\<exists>s'. live_run (DEFAULT_LIVE_OPTIONS (\<lambda>_. None)) 0 (start_driver 0) s' \<and> dr_phase s' = Finished \<and>
     ta_sent (dr_tally s') = ta_completed (dr_tally s') + ta_failed (dr_tally s')"
  using live_can_finish[of "DEFAULT_LIVE_OPTIONS (\<lambda>_. None)" 0 "start_driver 0"]
  by (simp add: start_driver_def DEFAULT_LIVE_OPTIONS_def)

lemma stuck_step:
  assumes "live_step opts t0 s s'" "lo_concurrency opts \<le> 0" "dr_inFlight s = []" "dr_phase s \<in> {HeldBack, Killed}"
  shows "dr_inFlight s' = [] \<and> dr_phase s' \<in> {HeldBack, Killed} \<and> dr_tally s' = dr_tally s"
  using assms by (induction rule: live_step.induct) auto

text \<open>
  A limit of zero or less hangs the driver: once it has looked at the limit for the first time it sends
  nothing, never comes back to the head of the loop, and so ignores its duration and the first interrupt;
  only being killed ends it.\<close>
theorem zero_concurrency_hangs:
  assumes "lo_concurrency opts \<le> 0" and "before_deadline opts t0 t0"
  shows "live_step opts t0 (start_driver t0) (start_driver t0\<lparr>dr_phase := HeldBack\<rparr>) \<and>
    (\<forall>s. live_run opts t0 (start_driver t0\<lparr>dr_phase := HeldBack\<rparr>) s \<longrightarrow>
       dr_phase s \<in> {HeldBack, Killed} \<and> dr_tally s = newTally)"
proof
  show "live_step opts t0 (start_driver t0) (start_driver t0\<lparr>dr_phase := HeldBack\<rparr>)"
    using assms(2) by (intro live_step.enter) (simp_all add: start_driver_def goes_on_def)
  have "dr_inFlight s = [] \<and> dr_phase s \<in> {HeldBack, Killed} \<and> dr_tally s = newTally"
    if "live_run opts t0 (start_driver t0\<lparr>dr_phase := HeldBack\<rparr>) s" for s
    using that unfolding live_run_def
  proof (induction rule: rtranclp_induct)
    case base
    then show ?case by (simp add: start_driver_def)
  next
    case (step y z)
    then show ?case using stuck_step[OF step(2) assms(1)] by simp
  qed
  then show "\<forall>s. live_run opts t0 (start_driver t0\<lparr>dr_phase := HeldBack\<rparr>) s \<longrightarrow>
       dr_phase s \<in> {HeldBack, Killed} \<and> dr_tally s = newTally"
    by blast
qed

text \<open>The command line that does it.\<close>

lemma zero_concurrency_hangs_witness:
  "sim_main True [''live'', ''--concurrency=0''] =
     Inr (RunLive \<lparr>lf_routerUrl = None, lf_rate = None, lf_durationSec = None, lf_concurrency = Some 0,
       lf_failureRate = None, lf_verbose = None\<rparr>) \<and>
   (\<forall>s. live_run (merge_live (DEFAULT_LIVE_OPTIONS (\<lambda>_. None)) \<lparr>lf_routerUrl = None, lf_rate = None,
         lf_durationSec = None, lf_concurrency = Some 0, lf_failureRate = None, lf_verbose = None\<rparr>) 0
       (start_driver 0\<lparr>dr_phase := HeldBack\<rparr>) s \<longrightarrow> dr_phase s \<in> {HeldBack, Killed} \<and> dr_tally s = newTally)"
proof
  show "sim_main True [''live'', ''--concurrency=0''] =
     Inr (RunLive \<lparr>lf_routerUrl = None, lf_rate = None, lf_durationSec = None, lf_concurrency = Some 0,
       lf_failureRate = None, lf_verbose = None\<rparr>)"
    by code_simp
  show "\<forall>s. live_run (merge_live (DEFAULT_LIVE_OPTIONS (\<lambda>_. None)) \<lparr>lf_routerUrl = None, lf_rate = None,
         lf_durationSec = None, lf_concurrency = Some 0, lf_failureRate = None, lf_verbose = None\<rparr>) 0
       (start_driver 0\<lparr>dr_phase := HeldBack\<rparr>) s \<longrightarrow> dr_phase s \<in> {HeldBack, Killed} \<and> dr_tally s = newTally"
    using zero_concurrency_hangs[of "merge_live (DEFAULT_LIVE_OPTIONS (\<lambda>_. None)) \<lparr>lf_routerUrl = None, lf_rate = None,
         lf_durationSec = None, lf_concurrency = Some 0, lf_failureRate = None, lf_verbose = None\<rparr>" 0]
    by (simp add: merge_live_def DEFAULT_LIVE_OPTIONS_def before_deadline_def)
qed

section \<open>Flags\<close>

lemma split_on_hd: "hd (split_on c s) = takeWhile (\<lambda>x. x \<noteq> c) s \<and> split_on c s \<noteq> []"
  by (induction s) (auto split: list.splits)

text \<open>
  A flag is read back as it was given, except that a value is cut at its first equals sign: a router
  address with a query loses the end of it.\<close>
theorem flag_reads_back:
  assumes "list_all (\<lambda>a. \<not> is_flag name a) earlier" and "CHR ''='' \<notin> set name"
  shows "flag (earlier @ [''--'' @ name] @ rest) name = Some ''true'' \<and>
    flag (earlier @ [''--'' @ name @ ''='' @ v] @ rest) name = Some (takeWhile (\<lambda>c. c \<noteq> CHR ''='') v) \<and>
    flag earlier name = None"
proof -
  have none: "find (is_flag name) earlier = None"
    using assms(1) by (auto simp: find_None_iff list_all_iff)
  have find_app: "find (is_flag name) (earlier @ x # rest) = Some x" if "is_flag name x" for x
    using none that by (induction earlier) (auto split: if_splits)
  have plain: "split_on (CHR ''='') (''--'' @ name) = [''--'' @ name]"
    using assms(2) by (intro split_on_no_sep_id) simp
  obtain v0 vs where v: "split_on (CHR ''='') v = v0 # vs" "v0 = takeWhile (\<lambda>c. c \<noteq> CHR ''='') v"
    using split_on_hd[of "CHR ''=''" v] by (cases "split_on (CHR ''='') v") auto
  have val: "split_on (CHR ''='') (''--'' @ name @ ''='' @ v) = (''--'' @ name) # v0 # vs"
    using split_on_append_sep[of "CHR ''=''" "''--'' @ name" v] plain v by simp
  have "is_flag name (''--'' @ name)" "is_flag name (''--'' @ name @ ''='' @ v)"
    by (simp_all add: is_flag_def starts_with_iff)
  with find_app plain val v none show ?thesis
    by (simp add: flag_def)
qed

lemma flag_reads_back_witness:
  "flag [''--verbose'', ''--url=http://r/x?k=1''] ''url'' = Some ''http://r/x?k''"
  using flag_reads_back[of "''url''" "[''--verbose'']" "[]" "''http://r/x?k=1''"] by (simp add: is_flag_def)

end
