(* ===== verification/Backfill.thy ===== *)
theory Backfill
  imports Sim Dashboard
begin

text \<open>
  The historical traffic of the simulator, \<open>server/src/sim/backfill.ts\<close>. The numbers of \<open>Math.random\<close> and the
  ids are arguments, one function of draws for each candidate request; the local time zone is the
  parameter \<open>zone\<close>, which sets the hour of a time and tells its weekday. A date keeps whole milliseconds.
\<close>

section \<open>Options and mixes\<close>

record backfill_options =
  bo_days :: rat
  bo_requestsPerDay :: rat
  bo_reset :: bool

definition DEFAULT_BACKFILL_OPTIONS :: backfill_options where
  "DEFAULT_BACKFILL_OPTIONS = \<lparr>bo_days = 7, bo_requestsPerDay = 900, bo_reset = False\<rparr>"

definition HOURLY_WEIGHTS :: "rat list" where
  "HOURLY_WEIGHTS =
     map (\<lambda>n. of_nat n / 100)
       [5, 3, 2, 2, 3, 5, 12, 35, 70, 95, 100, 92, 65, 88, 100, 97, 85, 70, 45, 30, 22, 18, 12, 8]"

record mix =
  mx_status :: request_status
  mx_errorCode :: "error_code option"
  mx_weight :: rat

definition STATUS_MIX :: "mix list" where
  "STATUS_MIX =
     [\<lparr>mx_status = Completed, mx_errorCode = None, mx_weight = 92\<rparr>,
      \<lparr>mx_status = QueueTimeoutStatus, mx_errorCode = Some QueueTimeout, mx_weight = 5 / 2\<rparr>,
      \<lparr>mx_status = StallTimeoutStatus, mx_errorCode = Some StallTimeout, mx_weight = 2\<rparr>,
      \<lparr>mx_status = CapabilityMismatchStatus, mx_errorCode = Some CapabilityMismatch, mx_weight = 2\<rparr>,
      \<lparr>mx_status = ReplicaUnavailableStatus, mx_errorCode = Some ReplicaUnavailable, mx_weight = 1\<rparr>,
      \<lparr>mx_status = ErrorRequest, mx_errorCode = Some InvalidRequest, mx_weight = 1 / 2\<rparr>]"

definition STATUS_TOTAL :: rat where
  "STATUS_TOTAL = fold (\<lambda>s acc. acc + mx_weight s) STATUS_MIX 0"

definition pickStatus :: "rat \<Rightarrow> request_status \<times> error_code option" where
  "pickStatus r =
     (case spin mx_weight STATUS_MIX (r * STATUS_TOTAL) of
        Some s \<Rightarrow> (mx_status s, mx_errorCode s)
      | None \<Rightarrow> (Completed, None))"

definition randBetween :: "rat \<Rightarrow> rat \<Rightarrow> rat \<Rightarrow> rat" where
  "randBetween lo hi r = lo + r * (hi - lo)"

definition estimateTokens :: "string \<Rightarrow> int" where
  "estimateTokens s = \<lceil>of_nat (length s) / (4 :: rat)\<rceil>"

section \<open>What is resolved once\<close>

record resolution =
  su_models :: "model_config list"
  su_replicas :: "string \<Rightarrow> string list"
  su_cost :: "string \<Rightarrow> rat \<times> cost_basis"
  su_logged :: "string \<Rightarrow> string \<Rightarrow> bool"

definition resolve :: "db \<Rightarrow> resolution" where
  "resolve d =
     \<lparr>su_models = listModels d,
      su_replicas = (\<lambda>k. map rp_id (filter (\<lambda>r. rp_model_id r = k) (replicas d))),
      su_cost = (\<lambda>k. case find (\<lambda>m. m_id m = k) (listModels d) of
         Some m \<Rightarrow> costConfigFor d m | None \<Rightarrow> (0, Per1kTokens)),
      su_logged = (\<lambda>team k. isContentLoggingEnabled (Some team) (Some k) None d)\<rparr>"

section \<open>One request\<close>

text \<open>The body names a model only where the persona asked for one.\<close>

definition body_model :: "sim_body \<Rightarrow> string option" where
  "body_model b = (case b of ChatBody r \<Rightarrow> cr_model r | EmbedBody m i \<Rightarrow> m)"

definition corpus_of :: "behaviour \<Rightarrow> string list" where
  "corpus_of b =
     (case b of EmbeddingAsk \<Rightarrow> EMBEDDING_INPUTS | Analytical \<Rightarrow> ANALYTICAL_PROMPTS | VisionAsk \<Rightarrow> VISION_PROMPTS
      | _ \<Rightarrow> QUICK_PROMPTS)"

record prospect =
  ca_id :: string
  ca_persona :: persona
  ca_requested :: "string option"
  ca_model :: model_config
  ca_status :: request_status
  ca_errorCode :: "error_code option"
  ca_prompt :: string
  ca_arrivedAt :: time

definition base_row :: "prospect \<Rightarrow> request_row" where
  "base_row c =
     \<lparr>rq_id = ca_id c, rq_caller_oid = ps_oid (ca_persona c), rq_caller_name = ps_name (ca_persona c),
      rq_team = Some (ps_team (ca_persona c)), rq_requested_model = ca_requested c,
      rq_routed_model = Some (m_id (ca_model c)), rq_capabilities = m_capabilities (ca_model c),
      rq_status = ca_status c, rq_error_code = ca_errorCode c, rq_replica_id = None,
      rq_input_tokens = estimateTokens (ca_prompt c), rq_output_tokens = 0, rq_arrived_at = ca_arrivedAt c,
      rq_started_at = None, rq_completed_at = None, rq_last_token_at = None, rq_first_token_at = None,
      rq_duration_ms = None, rq_cost_usd = None, rq_affinity_hit = None\<rparr>"

definition queue_row :: "prospect \<Rightarrow> request_row" where
  "queue_row c =
     base_row c\<lparr>rq_completed_at := Some (ca_arrivedAt c + 300000), rq_duration_ms := Some 300000,
       rq_cost_usd := Some 0\<rparr>"

text \<open>\<open>new Date(arrivedAt.getTime() + waitMs)\<close>.\<close>

definition started_at :: "prospect \<Rightarrow> rat \<Rightarrow> time" where
  "started_at c waitMs = \<lfloor>of_int (ca_arrivedAt c) + waitMs\<rfloor>"

definition rejected_row :: "prospect \<Rightarrow> rat \<Rightarrow> request_row" where
  "rejected_row c waitMs =
     base_row c\<lparr>rq_completed_at := Some (started_at c waitMs), rq_duration_ms := Some (js_round waitMs),
       rq_cost_usd := Some 0\<rparr>"

definition output_tokens :: "request_status \<Rightarrow> rat \<Rightarrow> rat \<Rightarrow> int" where
  "output_tokens status targetOutput share =
     (if status = StallTimeoutStatus then js_round (targetOutput * share)
      else if status = ReplicaUnavailableStatus then 0
      else js_round targetOutput)"

record timing =
  ti_waitMs :: rat
  ti_outputTokens :: int
  ti_genMs :: rat
  ti_durationMs :: int

definition timing_of :: "prospect \<Rightarrow> rat \<Rightarrow> (nat \<Rightarrow> rat) \<Rightarrow> timing" where
  "timing_of c waitMs rand =
     (let large = (m_modelClass (ca_model c) = Large);
          tps = (if large then randBetween 13 19 (rand 10) else randBetween 35 55 (rand 10));
          target = (if large then randBetween 180 700 (rand 11) else randBetween 40 260 (rand 11));
          out = output_tokens (ca_status c) target (randBetween (1 / 10) (1 / 2) (rand 12));
          genMs = of_int out / tps * 1000
      in \<lparr>ti_waitMs = waitMs, ti_outputTokens = out, ti_genMs = genMs,
          ti_durationMs = js_round (waitMs + genMs + (if ca_status c = StallTimeoutStatus then 60000 else 0))\<rparr>)"

definition served_row :: "resolution \<Rightarrow> prospect \<Rightarrow> string option \<Rightarrow> timing \<Rightarrow> request_row" where
  "served_row su c replicaId t =
     (let started = started_at c (ti_waitMs t); cfg = su_cost su (m_id (ca_model c)) in
      base_row c\<lparr>rq_replica_id := replicaId, rq_output_tokens := ti_outputTokens t, rq_started_at := Some started,
        rq_completed_at := Some (ca_arrivedAt c + ti_durationMs t),
        rq_last_token_at := (if 0 < ti_outputTokens t then Some \<lfloor>of_int started + ti_genMs t\<rfloor> else None),
        rq_duration_ms := Some (ti_durationMs t),
        rq_cost_usd := Some (computeCost (snd cfg) (fst cfg) (estimateTokens (ca_prompt c)) (ti_outputTokens t)
          (js_round (ti_genMs t)))\<rparr>)"

definition mock_answer :: "string \<Rightarrow> string" where
  "mock_answer k =
     ''Hello world from '' @ k @
     ''. This is synthetic output produced by the mock model replica for routing and audit verification.''"

definition content_row :: "resolution \<Rightarrow> prospect \<Rightarrow> timing \<Rightarrow> audit_row option" where
  "content_row su c t =
     (if ca_status c = Completed \<and> su_logged su (ps_team (ca_persona c)) (m_id (ca_model c))
      then Some \<lparr>au_request_id = ca_id c, au_prompt = ca_prompt c, au_response = mock_answer (m_id (ca_model c)),
        au_created_at = ca_arrivedAt c + ti_durationMs t\<rparr>
      else None)"

text \<open>What a candidate contributes: a row and perhaps its content, or nothing where it would lie in the future.\<close>

definition finish_candidate ::
  "resolution \<Rightarrow> time \<Rightarrow> prospect \<Rightarrow> (nat \<Rightarrow> rat) \<Rightarrow> (request_row \<times> audit_row option) option" where
  "finish_candidate su now c rand =
     (let ids = su_replicas su (m_id (ca_model c));
          replicaId = (if ids \<noteq> [] then Some (pick ids (rand 8)) else None);
          waitMs = randBetween 5 900 (rand 9)
      in if ca_status c = QueueTimeoutStatus then Some (queue_row c, None)
         else if ca_status c = CapabilityMismatchStatus \<or> ca_status c = ErrorRequest then
           Some (rejected_row c waitMs, None)
         else let t = timing_of c waitMs rand in
           if now < ca_arrivedAt c + ti_durationMs t then None
           else Some (served_row su c replicaId t, content_row su c t))"

definition candidate_of :: "resolution \<Rightarrow> time \<Rightarrow> (nat \<Rightarrow> rat) \<Rightarrow> string \<Rightarrow> prospect" where
  "candidate_of su dayStart rand k =
     (let p = pickPersona (rand 0); b = pickBehaviour p (rand 1);
          spec = buildRequest p b (\<lambda>i. rand (i + 2));
          model = nullish (find (\<lambda>m. Some (m_id m) = sq_expectedModel spec) (su_models su)) (hd (su_models su))
      in \<lparr>ca_id = k, ca_persona = p, ca_requested = body_model (sq_body spec), ca_model = model,
          ca_status = fst (pickStatus (rand 5)), ca_errorCode = snd (pickStatus (rand 5)),
          ca_prompt = pick (corpus_of b) (rand 7),
          ca_arrivedAt = \<lfloor>of_int dayStart + rand 6 * 3600000\<rfloor>\<rparr>)"

definition backfill_one ::
  "resolution \<Rightarrow> time \<Rightarrow> time \<Rightarrow> (nat \<Rightarrow> rat) \<Rightarrow> string \<Rightarrow> (request_row \<times> audit_row option) option" where
  "backfill_one su now dayStart rand k =
     (let c = candidate_of su dayStart rand k in
      if now < ca_arrivedAt c then None else finish_candidate su now c rand)"

section \<open>Days and hours\<close>

record zone =
  zn_setHours :: "time \<Rightarrow> nat \<Rightarrow> time"
  zn_getDay :: "time \<Rightarrow> nat"

text \<open>The luck of a run: the factor of an hour, and the draws and the id of each of its candidates.\<close>

record luck =
  lk_factor :: "nat \<Rightarrow> nat \<Rightarrow> rat"
  lk_rand :: "nat \<Rightarrow> nat \<Rightarrow> nat \<Rightarrow> nat \<Rightarrow> rat"
  lk_id :: "nat \<Rightarrow> nat \<Rightarrow> nat \<Rightarrow> string"

definition hour_count :: "backfill_options \<Rightarrow> zone \<Rightarrow> time \<Rightarrow> nat \<Rightarrow> rat \<Rightarrow> nat" where
  "hour_count opts z dayStart hour factor =
     (let isWeekend = (zn_getDay z dayStart = 0 \<or> zn_getDay z dayStart = 6) in
      nat (js_round (bo_requestsPerDay opts / 24 * (HOURLY_WEIGHTS ! hour) * (if isWeekend then 1 / 4 else 1) *
        randBetween (3 / 4) (5 / 4) factor)))"

text \<open>\<open>k\<close> counts the rounds of the outer loop, which runs from \<open>days - 1\<close> down to what is not negative.\<close>

definition day_offset :: "backfill_options \<Rightarrow> nat \<Rightarrow> rat" where
  "day_offset opts k = bo_days opts - 1 - of_nat k"

definition backfill_hour ::
  "backfill_options \<Rightarrow> zone \<Rightarrow> luck \<Rightarrow> resolution \<Rightarrow> time \<Rightarrow> nat \<Rightarrow> nat \<Rightarrow> (request_row \<times> audit_row option) list" where
  "backfill_hour opts z lk su now k hour =
     (let dayStart = zn_setHours z \<lfloor>of_int now - day_offset opts k * 86400000\<rfloor> hour in
      if now < dayStart then []
      else List.map_filter (\<lambda>i. backfill_one su now dayStart (lk_rand lk k hour i) (lk_id lk k hour i))
             [0..<hour_count opts z dayStart hour (lk_factor lk k hour)])"

definition backfill_rows ::
  "backfill_options \<Rightarrow> zone \<Rightarrow> luck \<Rightarrow> resolution \<Rightarrow> time \<Rightarrow> (request_row \<times> audit_row option) list" where
  "backfill_rows opts z lk su now =
     concat (map (\<lambda>k. concat (map (backfill_hour opts z lk su now k) [0..<24])) [0..<nat \<lfloor>bo_days opts\<rfloor>])"

section \<open>Inserting in batches\<close>

function batches :: "nat \<Rightarrow> 'a list \<Rightarrow> 'a list list" where
  "batches n xs = (if xs = [] \<or> n = 0 then [] else take n xs # batches n (drop n xs))"
  by pat_completeness auto

termination
  by (relation "measure (\<lambda>(n, xs). length xs)") auto

declare batches.simps [simp del]

definition placeholder :: "nat \<Rightarrow> nat \<Rightarrow> nat \<Rightarrow> string" where
  "placeholder columns r c = ''$'' @ digits_of (r * columns + c + 1)"

definition tuple_text :: "nat \<Rightarrow> nat \<Rightarrow> nat \<Rightarrow> string" where
  "tuple_text columns r width = ''('' @ join '','' (map (placeholder columns r) [0..<width]) @ '')''"

text \<open>The text of a statement and its bound values.\<close>

definition insert_statement :: "string \<Rightarrow> nat \<Rightarrow> 'v list list \<Rightarrow> string \<times> 'v list" where
  "insert_statement prefix columns chunk =
     (prefix @ '' VALUES '' @
        join '','' (map (\<lambda>(r, row). tuple_text columns r (length row)) (enumerate 0 chunk)) @
        '' ON CONFLICT DO NOTHING'',
      concat chunk)"

definition per_chunk :: "nat \<Rightarrow> nat" where
  "per_chunk columns = 65000 div columns"

definition insertBatched :: "string \<Rightarrow> nat \<Rightarrow> 'v list list \<Rightarrow> (string \<times> 'v list) list" where
  "insertBatched prefix columns rows =
     (if rows = [] then [] else map (insert_statement prefix columns) (batches (per_chunk columns) rows))"

text \<open>What the statements do to a table: a row whose key is taken is left out.\<close>

definition insert_ignore :: "('r \<Rightarrow> 'k) \<Rightarrow> 'r list \<Rightarrow> 'r list \<Rightarrow> 'r list" where
  "insert_ignore key rows t = fold (\<lambda>r. upsert key r id) rows t"

definition no_models_message :: string where
  "no_models_message = ''No models registered. Run `npm run seed` before backfilling.''"

definition runBackfill :: "backfill_options \<Rightarrow> zone \<Rightarrow> luck \<Rightarrow> time \<Rightarrow> db \<Rightarrow> string + db" where
  "runBackfill opts z lk now d =
     (let su = resolve d in
      if su_models su = [] then Inl no_models_message
      else
        let d1 = (if bo_reset opts then delete_requests (\<lambda>r. rq_caller_oid r \<in> set (map ps_oid PERSONAS)) d else d);
            rows = backfill_rows opts z lk su now;
            d2 = d1\<lparr>requests := fold (insert_ignore rq_id) (batches (per_chunk 18) (map fst rows)) (requests d1)\<rparr>
        in Inr (d2\<lparr>audit_contents := fold (insert_ignore au_request_id)
             (batches (per_chunk 4) (List.map_filter snd rows)) (audit_contents d2)\<rparr>))"

section \<open>Batches\<close>

lemma batches_concat: "0 < n \<Longrightarrow> concat (batches n xs) = xs"
proof (induction n xs rule: batches.induct)
  case (1 n xs)
  then show ?case by (subst batches.simps) simp
qed

lemma batches_length: "b \<in> set (batches n xs) \<Longrightarrow> length b \<le> n \<and> b \<noteq> []"
proof (induction n xs rule: batches.induct)
  case (1 n xs)
  then show ?case by (subst (asm) (2) batches.simps) (auto split: if_splits)
qed

lemma batches_mem: "b \<in> set (batches n xs) \<Longrightarrow> set b \<subseteq> set xs"
proof (induction n xs rule: batches.induct)
  case (1 n xs)
  then show ?case
    by (subst (asm) (2) batches.simps) (auto split: if_splits dest: in_set_takeD in_set_dropD)
qed

lemma insert_ignore_batches:
  assumes "0 < n"
  shows "fold (insert_ignore key) (batches n rows) t = insert_ignore key rows t"
proof -
  have "fold (insert_ignore key) bs t = insert_ignore key (concat bs) t" for bs t
    by (induction bs arbitrary: t) (simp_all add: insert_ignore_def)
  then show ?thesis using assms by (simp add: batches_concat)
qed

lemma concat_nth:
  assumes "\<And>row. row \<in> set chunk \<Longrightarrow> length row = columns" and "r < length chunk" and "c < columns"
  shows "concat chunk ! (r * columns + c) = chunk ! r ! c"
  using assms
proof (induction chunk arbitrary: r)
  case Nil
  then show ?case by simp
next
  case (Cons row chunk)
  then show ?case
    by (cases r) (simp_all add: nth_append algebra_simps)
qed

lemma length_concat_rows:
  "(\<And>row. row \<in> set chunk \<Longrightarrow> length row = columns) \<Longrightarrow> length (concat chunk) = length chunk * columns"
  by (induction chunk) simp_all

lemma bound_values:
  "concat (map (\<lambda>chunk. snd (insert_statement prefix columns chunk)) bs) = concat (concat bs)"
  by (induction bs) (simp_all add: insert_statement_def)

text \<open>
  However many rows are inserted, no statement binds more than the parameters Postgres allows; the numbered
  placeholders of a statement, row by row, name exactly its bound values, and the statements together bind every
  row once, in order.\<close>
theorem insert_batched_whole:
  assumes "\<And>row. row \<in> set rows \<Longrightarrow> length row = columns" and "0 < columns" and "columns \<le> 65000"
  shows "concat (map snd (insertBatched prefix columns rows)) = concat rows \<and>
    (\<forall>(stmt, vals) \<in> set (insertBatched prefix columns rows).
       length vals \<le> 65000 \<and>
       (\<exists>chunk. set chunk \<subseteq> set rows \<and> (stmt, vals) = insert_statement prefix columns chunk \<and>
          (\<forall>r < length chunk. \<forall>c < columns. vals ! (r * columns + c) = chunk ! r ! c)))"
proof
  have n: "0 < per_chunk columns" and total: "per_chunk columns * columns \<le> 65000"
    using assms(2,3) by (simp_all add: per_chunk_def div_greater_zero_iff)
  show "concat (map snd (insertBatched prefix columns rows)) = concat rows"
    using n by (simp add: insertBatched_def o_def bound_values batches_concat)
  show "\<forall>(stmt, vals) \<in> set (insertBatched prefix columns rows).
       length vals \<le> 65000 \<and>
       (\<exists>chunk. set chunk \<subseteq> set rows \<and> (stmt, vals) = insert_statement prefix columns chunk \<and>
          (\<forall>r < length chunk. \<forall>c < columns. vals ! (r * columns + c) = chunk ! r ! c))"
  proof (clarify)
    fix stmt vals
    assume "(stmt, vals) \<in> set (insertBatched prefix columns rows)"
    then obtain chunk where chunk: "chunk \<in> set (batches (per_chunk columns) rows)"
        "(stmt, vals) = insert_statement prefix columns chunk"
      by (auto simp: insertBatched_def split: if_splits)
    then have v: "vals = concat chunk" and sub: "set chunk \<subseteq> set rows" and len: "length chunk \<le> per_chunk columns"
      using chunk(2) batches_mem[OF chunk(1)] batches_length[OF chunk(1)] by (simp_all add: insert_statement_def)
    have cols: "\<And>row. row \<in> set chunk \<Longrightarrow> length row = columns" using sub assms(1) by blast
    have "length vals \<le> per_chunk columns * columns"
      using len by (simp add: v length_concat_rows[OF cols])
    then show "length vals \<le> 65000 \<and>
       (\<exists>chunk. set chunk \<subseteq> set rows \<and> (stmt, vals) = insert_statement prefix columns chunk \<and>
          (\<forall>r < length chunk. \<forall>c < columns. vals ! (r * columns + c) = chunk ! r ! c))"
      using total chunk(2) sub concat_nth[OF cols] v by (intro conjI exI[of _ chunk]) auto
  qed
qed

lemma insert_batched_whole_witness:
  "concat (map snd (insertBatched ''INSERT'' 18 (replicate 4000 (replicate 18 ''x'')))) =
     concat (replicate 4000 (replicate 18 ''x''))"
  using insert_batched_whole[of "replicate 4000 (replicate 18 ''x'')" 18 "''INSERT''"] by simp

section \<open>The history\<close>

lemma js_round_ge_floor: "\<lfloor>x\<rfloor> \<le> js_round x"
  by (simp add: js_round_def floor_mono)

lemma js_round_nonneg: "0 \<le> x \<Longrightarrow> 0 \<le> js_round x"
  by (simp add: js_round_def)

lemma randBetween_bounds: "0 \<le> r \<Longrightarrow> r < 1 \<Longrightarrow> lo \<le> hi \<Longrightarrow> lo \<le> randBetween lo hi r \<and> randBetween lo hi r \<le> hi"
  unfolding randBetween_def using mult_left_le_one_le[of "hi - lo" r] mult_nonneg_nonneg[of r "hi - lo"] by auto

lemma timing_nonneg:
  assumes "\<And>i. 0 \<le> rand i \<and> rand i < 1"
  shows "0 \<le> ti_outputTokens (timing_of c w rand)" "0 \<le> ti_genMs (timing_of c w rand)"
proof -
  have b: "lo \<le> randBetween lo hi (rand i)" if "lo \<le> hi" for lo hi i
    using randBetween_bounds[of "rand i" lo hi] assms[of i] that by auto
  let ?target = "if m_modelClass (ca_model c) = Large then randBetween 180 700 (rand 11) else randBetween 40 260 (rand 11)"
  have "0 \<le> ?target" "0 \<le> randBetween (1 / 10) (1 / 2) (rand 12)"
    using b[of 180 700 11] b[of 40 260 11] b[of "1 / 10" "1 / 2" 12] by auto
  then have out: "0 \<le> output_tokens (ca_status c) ?target (randBetween (1 / 10) (1 / 2) (rand 12))"
    unfolding output_tokens_def by (auto intro!: js_round_nonneg mult_nonneg_nonneg)
  then show "0 \<le> ti_outputTokens (timing_of c w rand)"
    by (simp add: timing_of_def Let_def)
  have "0 < (if m_modelClass (ca_model c) = Large then randBetween 13 19 (rand 10) else randBetween 35 55 (rand 10))"
    using b[of 13 19 10] b[of 35 55 10] by auto
  with out show "0 \<le> ti_genMs (timing_of c w rand)"
    by (simp add: timing_of_def Let_def)
qed

definition was_served :: "request_status \<Rightarrow> bool" where
  "was_served s \<longleftrightarrow> s \<notin> {QueueTimeoutStatus, CapabilityMismatchStatus, ErrorRequest}"

definition in_order :: "request_row \<Rightarrow> time \<Rightarrow> bool" where
  "in_order r now \<longleftrightarrow>
     (\<exists>s e. rq_started_at r = Some s \<and> rq_completed_at r = Some e \<and> rq_arrived_at r \<le> s \<and> s \<le> e \<and> e \<le> now \<and>
        (\<forall>t. rq_last_token_at r = Some t \<longrightarrow> s \<le> t \<and> t \<le> e))"

lemma base_row_simps [simp]:
  "rq_status (base_row c) = ca_status c" "rq_arrived_at (base_row c) = ca_arrivedAt c"
  "rq_team (base_row c) = Some (ps_team (ca_persona c))" "rq_routed_model (base_row c) = Some (m_id (ca_model c))"
  "rq_input_tokens (base_row c) = estimateTokens (ca_prompt c)"
  by (simp_all add: base_row_def)

lemma served_in_order:
  assumes w: "0 \<le> w" and "\<And>i. 0 \<le> rand i \<and> rand i < 1"
    and "ca_arrivedAt c + ti_durationMs (timing_of c w rand) \<le> now"
  shows "in_order (served_row su c r (timing_of c w rand)) now"
proof -
  let ?t = "timing_of c w rand"
  have out: "0 \<le> ti_outputTokens ?t" and gen: "0 \<le> ti_genMs ?t"
    using timing_nonneg[of rand c w] assms(2) by blast+
  have dur: "ti_durationMs ?t = js_round (w + ti_genMs ?t + (if ca_status c = StallTimeoutStatus then 60000 else 0))"
    and wt: "ti_waitMs ?t = w"
    by (simp_all add: timing_of_def Let_def)
  have "\<lfloor>w + ti_genMs ?t\<rfloor> \<le> \<lfloor>w + ti_genMs ?t + (if ca_status c = StallTimeoutStatus then 60000 else 0)\<rfloor>"
    by (intro floor_mono) simp
  also have "\<dots> \<le> ti_durationMs ?t"
    unfolding dur by (rule js_round_ge_floor)
  finally have d: "\<lfloor>w + ti_genMs ?t\<rfloor> \<le> ti_durationMs ?t" .
  have s: "started_at c w = ca_arrivedAt c + \<lfloor>w\<rfloor>"
    by (simp add: started_at_def)
  have w1: "\<lfloor>w\<rfloor> \<le> \<lfloor>w + ti_genMs ?t\<rfloor>" and w0: "0 \<le> \<lfloor>w\<rfloor>"
    using gen w by (simp_all add: floor_mono)
  have "of_int (started_at c w) + ti_genMs ?t \<le> of_int (ca_arrivedAt c) + (w + ti_genMs ?t)"
    unfolding s using of_int_floor_le[of w] by simp
  from floor_mono[OF this] have t1: "\<lfloor>of_int (started_at c w) + ti_genMs ?t\<rfloor> \<le> ca_arrivedAt c + ti_durationMs ?t"
    using d by simp
  have t0: "started_at c w \<le> \<lfloor>of_int (started_at c w) + ti_genMs ?t\<rfloor>"
    using gen by (simp add: le_floor_iff)
  let ?row = "served_row su c r ?t"
  have "rq_started_at ?row = Some (started_at c w)" "rq_completed_at ?row = Some (ca_arrivedAt c + ti_durationMs ?t)"
      "rq_arrived_at ?row = ca_arrivedAt c"
      "rq_last_token_at ?row = (if 0 < ti_outputTokens ?t then Some \<lfloor>of_int (started_at c w) + ti_genMs ?t\<rfloor> else None)"
    by (simp_all add: served_row_def Let_def wt)
  moreover have "ca_arrivedAt c \<le> started_at c w" "started_at c w \<le> ca_arrivedAt c + ti_durationMs ?t"
    using s w0 w1 d by linarith+
  ultimately show ?thesis
    unfolding in_order_def using t0 t1 assms(3) by (intro exI conjI allI impI) (assumption | simp only: option.inject option.distinct split: if_splits)+
qed

lemma finish_candidate_sound:
  assumes rand: "\<And>i. 0 \<le> rand i \<and> rand i < 1"
    and "finish_candidate su now c rand = Some (row, content)" and "ca_arrivedAt c \<le> now"
  shows "rq_arrived_at row \<le> now" and "was_served (rq_status row) \<Longrightarrow> in_order row now"
    and "content \<noteq> None \<longleftrightarrow> rq_status row = Completed \<and> su_logged su (ps_team (ca_persona c)) (m_id (ca_model c))"
    and "rq_team row = Some (ps_team (ca_persona c))" and "rq_routed_model row = Some (m_id (ca_model c))"
    and "\<exists>ms. rq_cost_usd row = Some (if \<not> was_served (rq_status row) then 0 else
       computeCost (snd (su_cost su (m_id (ca_model c)))) (fst (su_cost su (m_id (ca_model c))))
         (rq_input_tokens row) (rq_output_tokens row) ms)"
proof -
  let ?w = "randBetween 5 900 (rand 9)"
  let ?t = "timing_of c ?w rand"
  have w: "0 \<le> ?w" using randBetween_bounds[of "rand 9" 5 900] rand[of 9] by auto
  consider (queue) "ca_status c = QueueTimeoutStatus" "row = queue_row c" "content = None"
    | (rejected) "ca_status c = CapabilityMismatchStatus \<or> ca_status c = ErrorRequest" "row = rejected_row c ?w" "content = None"
    | (served) r where "ca_status c \<notin> {QueueTimeoutStatus, CapabilityMismatchStatus, ErrorRequest}"
        "row = served_row su c r ?t" "content = content_row su c ?t" "ca_arrivedAt c + ti_durationMs ?t \<le> now"
    using assms(2) by (auto simp: finish_candidate_def Let_def split: if_splits)
  then have "rq_arrived_at row \<le> now \<and> (was_served (rq_status row) \<longrightarrow> in_order row now) \<and>
    (content \<noteq> None \<longleftrightarrow> rq_status row = Completed \<and> su_logged su (ps_team (ca_persona c)) (m_id (ca_model c))) \<and>
    rq_team row = Some (ps_team (ca_persona c)) \<and> rq_routed_model row = Some (m_id (ca_model c)) \<and>
    (\<exists>ms. rq_cost_usd row = Some (if \<not> was_served (rq_status row) then 0 else
       computeCost (snd (su_cost su (m_id (ca_model c)))) (fst (su_cost su (m_id (ca_model c))))
         (rq_input_tokens row) (rq_output_tokens row) ms))"
  proof cases
    case queue
    then show ?thesis using assms(3) by (simp add: queue_row_def was_served_def)
  next
    case rejected
    then show ?thesis using assms(3) by (auto simp: rejected_row_def was_served_def)
  next
    case served
    have "in_order row now" unfolding served(2) by (rule served_in_order[OF w rand served(4)])
    moreover have "rq_status row = ca_status c" "rq_arrived_at row = ca_arrivedAt c"
        "rq_team row = Some (ps_team (ca_persona c))" "rq_routed_model row = Some (m_id (ca_model c))"
        "rq_input_tokens row = estimateTokens (ca_prompt c)" "rq_output_tokens row = ti_outputTokens ?t"
      using served(2) by (simp_all add: served_row_def Let_def)
    moreover have "content \<noteq> None \<longleftrightarrow> ca_status c = Completed \<and> su_logged su (ps_team (ca_persona c)) (m_id (ca_model c))"
      using served(3) by (simp add: content_row_def)
    moreover have "rq_cost_usd row = Some (computeCost (snd (su_cost su (m_id (ca_model c)))) (fst (su_cost su (m_id (ca_model c))))
         (estimateTokens (ca_prompt c)) (ti_outputTokens ?t) (js_round (ti_genMs ?t)))"
      using served(2) by (simp add: served_row_def Let_def)
    ultimately show ?thesis
      using assms(3) served(1) by (auto simp: was_served_def)
  qed
  then show "rq_arrived_at row \<le> now" and "was_served (rq_status row) \<Longrightarrow> in_order row now"
    and "content \<noteq> None \<longleftrightarrow> rq_status row = Completed \<and> su_logged su (ps_team (ca_persona c)) (m_id (ca_model c))"
    and "rq_team row = Some (ps_team (ca_persona c))" and "rq_routed_model row = Some (m_id (ca_model c))"
    and "\<exists>ms. rq_cost_usd row = Some (if \<not> was_served (rq_status row) then 0 else
       computeCost (snd (su_cost su (m_id (ca_model c)))) (fst (su_cost su (m_id (ca_model c))))
         (rq_input_tokens row) (rq_output_tokens row) ms)"
    by blast+
qed

lemma backfill_rows_mem:
  assumes "x \<in> set (backfill_rows opts z lk su now)"
  obtains ds k h i n where "backfill_one su now ds (lk_rand lk k h i) n = Some x"
  using assms by (auto simp: backfill_rows_def backfill_hour_def Let_def map_filter_def split: if_splits)

lemma candidate_model_mem:
  "su_models su \<noteq> [] \<Longrightarrow> ca_model (candidate_of su ds rand k) \<in> set (su_models su)"
  by (auto simp: candidate_of_def Let_def nullish_def find_Some_iff split: option.split)

lemma resolve_cost:
  assumes "m \<in> set (listModels d)"
  obtains m' where "m' \<in> set (listModels d)" "m_id m' = m_id m" "su_cost (resolve d) (m_id m) = costConfigFor d m'"
proof (cases "find (\<lambda>x. m_id x = m_id m) (listModels d)")
  case None
  then show ?thesis using assms by (auto simp: find_None_iff)
next
  case (Some m')
  moreover from this have "m' \<in> set (listModels d)" "m_id m' = m_id m"
    by (auto simp: find_Some_iff)
  ultimately show ?thesis using that[of m'] by (simp add: resolve_def)
qed

lemma js_round_pos: "1 \<le> x \<Longrightarrow> 0 < js_round x"
  by (simp add: js_round_def less_le_trans [of 0 1] le_floor_iff)

text \<open>A reply has tokens unless no replica could be reached; one that stalled got at least a tenth of its way.\<close>

lemma output_tokens_pos:
  assumes "40 \<le> target" "1 / 10 \<le> share"
  shows "0 < output_tokens s target share \<longleftrightarrow> s \<noteq> ReplicaUnavailableStatus"
proof -
  have "40 * (1 / 10) \<le> target * share" using assms by (intro mult_mono) simp_all
  with assms show ?thesis by (auto simp: output_tokens_def intro!: js_round_pos)
qed

lemma timing_tokens:
  assumes "\<And>i. 0 \<le> rand i \<and> rand i < 1"
  shows "0 < ti_outputTokens (timing_of c w rand) \<longleftrightarrow> ca_status c \<noteq> ReplicaUnavailableStatus"
proof -
  have b: "lo \<le> randBetween lo hi (rand i)" if "lo \<le> hi" for lo hi i
    using randBetween_bounds [of "rand i" lo hi] assms [of i] that by auto
  show ?thesis
    unfolding timing_of_def Let_def timing.select_convs
    by (rule output_tokens_pos) (use b [of 180 700 11] b [of 40 260 11] b [of "1 / 10" "1 / 2" 12] in auto)
qed

text \<open>How a row that reached no replica ends, and what a row and its content say of the prompt.\<close>

lemma finish_candidate_unserved:
  assumes rand: "\<And>i. 0 \<le> rand i \<and> rand i < 1"
    and "finish_candidate su now c rand = Some (row, content)"
  shows "\<not> was_served (rq_status row) \<Longrightarrow> rq_started_at row = None \<and> rq_replica_id row = None \<and>
      (\<exists>e. rq_completed_at row = Some e \<and>
        (if rq_status row = QueueTimeoutStatus then e = rq_arrived_at row + 300000
         else rq_arrived_at row + 5 \<le> e \<and> e < rq_arrived_at row + 900))"
    and "0 \<le> rq_output_tokens row \<and>
      (0 < rq_output_tokens row \<longleftrightarrow> was_served (rq_status row) \<and> rq_status row \<noteq> ReplicaUnavailableStatus)"
    and "rq_input_tokens row = estimateTokens (ca_prompt c)"
    and "content = Some a \<Longrightarrow> au_request_id a = rq_id row \<and> au_prompt a = ca_prompt c \<and> Some (au_created_at a) = rq_completed_at row"
proof -
  let ?w = "randBetween 5 900 (rand 9)"
  let ?t = "timing_of c ?w rand"
  have w: "5 \<le> ?w" "?w < 900"
    using rand [of 9] by (auto simp: randBetween_def)
  then have floor: "5 \<le> \<lfloor>?w\<rfloor>" "\<lfloor>?w\<rfloor> < 900" by (simp_all add: le_floor_iff floor_less_iff)
  consider (queue) "ca_status c = QueueTimeoutStatus" "row = queue_row c" "content = None"
    | (rejected) "ca_status c = CapabilityMismatchStatus \<or> ca_status c = ErrorRequest" "row = rejected_row c ?w" "content = None"
    | (served) r where "ca_status c \<notin> {QueueTimeoutStatus, CapabilityMismatchStatus, ErrorRequest}"
        "row = served_row su c r ?t" "content = content_row su c ?t"
    using assms(2) by (auto simp: finish_candidate_def Let_def split: if_splits)
  then have "(\<not> was_served (rq_status row) \<longrightarrow> rq_started_at row = None \<and> rq_replica_id row = None \<and>
      (\<exists>e. rq_completed_at row = Some e \<and>
        (if rq_status row = QueueTimeoutStatus then e = rq_arrived_at row + 300000
         else rq_arrived_at row + 5 \<le> e \<and> e < rq_arrived_at row + 900))) \<and>
     0 \<le> rq_output_tokens row \<and> (0 < rq_output_tokens row \<longleftrightarrow> was_served (rq_status row) \<and> rq_status row \<noteq> ReplicaUnavailableStatus) \<and>
     rq_input_tokens row = estimateTokens (ca_prompt c) \<and>
     (content = Some a \<longrightarrow> au_request_id a = rq_id row \<and> au_prompt a = ca_prompt c \<and> Some (au_created_at a) = rq_completed_at row)"
  proof cases
    case queue
    then show ?thesis by (simp add: queue_row_def base_row_def was_served_def)
  next
    case rejected
    then show ?thesis using floor
      by (auto simp: rejected_row_def base_row_def was_served_def started_at_def)
  next
    case served
    have out: "0 < ti_outputTokens ?t \<longleftrightarrow> ca_status c \<noteq> ReplicaUnavailableStatus" "0 \<le> ti_outputTokens ?t"
      using timing_tokens [of rand c ?w] timing_nonneg [of rand c ?w] rand by blast+
    have "rq_status row = ca_status c" "rq_input_tokens row = estimateTokens (ca_prompt c)" "rq_output_tokens row = ti_outputTokens ?t"
      "rq_id row = ca_id c" "rq_completed_at row = Some (ca_arrivedAt c + ti_durationMs ?t)"
      using served(2) by (simp_all add: served_row_def base_row_def Let_def)
    then show ?thesis using served out by (auto simp: was_served_def content_row_def split: if_splits)
  qed
  then show "\<not> was_served (rq_status row) \<Longrightarrow> rq_started_at row = None \<and> rq_replica_id row = None \<and>
      (\<exists>e. rq_completed_at row = Some e \<and>
        (if rq_status row = QueueTimeoutStatus then e = rq_arrived_at row + 300000
         else rq_arrived_at row + 5 \<le> e \<and> e < rq_arrived_at row + 900))"
    and "0 \<le> rq_output_tokens row \<and>
      (0 < rq_output_tokens row \<longleftrightarrow> was_served (rq_status row) \<and> rq_status row \<noteq> ReplicaUnavailableStatus)"
    and "rq_input_tokens row = estimateTokens (ca_prompt c)"
    and "content = Some a \<Longrightarrow> au_request_id a = rq_id row \<and> au_prompt a = ca_prompt c \<and> Some (au_created_at a) = rq_completed_at row"
    by blast+
qed

text \<open>
  C30: What the backfill writes. Every request arrives in the past. One that was handed to a
  replica starts after it arrives, yields its last token and then ends, all before now; one that was not is never started: a queue timeout ends exactly
  five minutes after its arrival and a rejected one within nine tenths of a second, which may lie ahead of now (only
  served requests are held against it). Tokens come out exactly of the requests that were served by a replica that could
  be reached; the tokens in are those of the prompt. The cost is the router's price, at the model's current rate, of these
  tokens, and nothing for a request that reached no replica. Content is kept exactly of the completed requests
  whose scope is logged, under the id of the request, with the prompt whose tokens it counts and the time at which
  it ended.\<close>
theorem backfilled_history_sound:
  assumes "\<And>k h i j. 0 \<le> lk_rand lk k h i j \<and> lk_rand lk k h i j < 1" and "listModels d \<noteq> []"
    and "(row, content) \<in> set (backfill_rows opts z lk (resolve d) now)"
  shows "rq_arrived_at row \<le> now \<and>
    (if was_served (rq_status row) then in_order row now
     else rq_started_at row = None \<and> rq_replica_id row = None \<and>
       (\<exists>e. rq_completed_at row = Some e \<and>
         (if rq_status row = QueueTimeoutStatus then e = rq_arrived_at row + 300000
          else rq_arrived_at row + 5 \<le> e \<and> e < rq_arrived_at row + 900))) \<and>
    0 \<le> rq_output_tokens row \<and>
    (0 < rq_output_tokens row \<longleftrightarrow> was_served (rq_status row) \<and> rq_status row \<noteq> ReplicaUnavailableStatus) \<and>
    (content \<noteq> None \<longleftrightarrow> rq_status row = Completed \<and> isContentLoggingEnabled (rq_team row) (rq_routed_model row) None d) \<and>
    (\<exists>prompt. rq_input_tokens row = estimateTokens prompt \<and>
       (\<forall>a. content = Some a \<longrightarrow> au_request_id a = rq_id row \<and> au_prompt a = prompt \<and> Some (au_created_at a) = rq_completed_at row)) \<and>
    (\<exists>m \<in> set (listModels d). \<exists>ms. rq_routed_model row = Some (m_id m) \<and>
       rq_cost_usd row = Some (if \<not> was_served (rq_status row) then 0 else
         computeCost (snd (costConfigFor d m)) (fst (costConfigFor d m)) (rq_input_tokens row) (rq_output_tokens row) ms))"
proof -
  obtain ds k h i n where one: "backfill_one (resolve d) now ds (lk_rand lk k h i) n = Some (row, content)"
    using assms(3) by (rule backfill_rows_mem)
  let ?rand = "lk_rand lk k h i"
  let ?c = "candidate_of (resolve d) ds ?rand n"
  have fin: "finish_candidate (resolve d) now ?c ?rand = Some (row, content)" and arr: "ca_arrivedAt ?c \<le> now"
    using one by (auto simp: backfill_one_def Let_def split: if_splits)
  have rand: "\<And>j. 0 \<le> ?rand j \<and> ?rand j < 1" using assms(1) by blast
  note sound = finish_candidate_sound[OF rand fin arr]
  note more = finish_candidate_unserved[OF rand fin]
  have "ca_model ?c \<in> set (listModels d)"
    using candidate_model_mem[of "resolve d"] assms(2) by (simp add: resolve_def)
  then obtain m' where m': "m' \<in> set (listModels d)" "m_id m' = m_id (ca_model ?c)"
      "su_cost (resolve d) (m_id (ca_model ?c)) = costConfigFor d m'"
    by (rule resolve_cost)
  have "su_logged (resolve d) team k \<longleftrightarrow> isContentLoggingEnabled (Some team) (Some k) None d" for team k
    by (simp add: resolve_def)
  then have "content \<noteq> None \<longleftrightarrow>
      rq_status row = Completed \<and> isContentLoggingEnabled (rq_team row) (rq_routed_model row) None d"
    unfolding sound(3,4,5) by simp
  moreover have "\<exists>m \<in> set (listModels d). \<exists>ms. rq_routed_model row = Some (m_id m) \<and>
       rq_cost_usd row = Some (if \<not> was_served (rq_status row) then 0 else
         computeCost (snd (costConfigFor d m)) (fst (costConfigFor d m)) (rq_input_tokens row) (rq_output_tokens row) ms)"
    using sound(5,6) m' by (intro bexI[of _ m']) auto
  moreover have "\<exists>prompt. rq_input_tokens row = estimateTokens prompt \<and>
       (\<forall>a. content = Some a \<longrightarrow> au_request_id a = rq_id row \<and> au_prompt a = prompt \<and> Some (au_created_at a) = rq_completed_at row)"
    using more(3,4) by blast
  ultimately show ?thesis using sound(1,2) more(1,2) by (cases "was_served (rq_status row)") simp_all
qed

text \<open>A queue timeout of the last five minutes ends in the future.\<close>

lemma recent_queue_timeout_ends_ahead:
  assumes "ca_status c = QueueTimeoutStatus" and "now - 300000 < ca_arrivedAt c"
  shows "\<exists>row e. finish_candidate su now c rand = Some (row, None) \<and> rq_completed_at row = Some e \<and> now < e"
  using assms by (auto simp: finish_candidate_def queue_row_def Let_def)

text \<open>One request at half past ten of a day, two hours and more ago.\<close>

definition ex_zone :: zone where
  "ex_zone = \<lparr>zn_setHours = (\<lambda>t h. t div 86400000 * 86400000 + int h * 3600000), zn_getDay = (\<lambda>t. 3)\<rparr>"

definition ex_luck :: luck where
  "ex_luck = \<lparr>lk_factor = (\<lambda>k h. 1 / 2), lk_rand = (\<lambda>k h i j. 1 / 2), lk_id = (\<lambda>k h i. ''r'')\<rparr>"

definition ex_history :: backfill_options where
  "ex_history = \<lparr>bo_days = 1, bo_requestsPerDay = 24, bo_reset = False\<rparr>"

definition ex_seeded :: db where
  "ex_seeded = install (\<lambda>_. None) 0 empty_db"

lemma ex_floors: "\<lfloor>3 / 2 :: rat\<rfloor> = 1" "\<lfloor>1 / 2 :: rat\<rfloor> = 0"
  by (simp_all add: floor_eq_iff)

lemma ex_hour: "zn_setHours ex_zone \<lfloor>of_int 136400000 - day_offset ex_history 0 * 86400000\<rfloor> 10 = 122400000"
  by (simp add: ex_zone_def ex_history_def day_offset_def)

lemma ex_count: "hour_count ex_history ex_zone 122400000 10 (1 / 2) = 1"
  by (simp add: hour_count_def ex_history_def ex_zone_def HOURLY_WEIGHTS_def randBetween_def js_round_def ex_floors)

lemma ex_candidate:
  "ca_status (candidate_of su 122400000 (\<lambda>_. 1 / 2) ''r'') = Completed"
  "ca_arrivedAt (candidate_of su 122400000 (\<lambda>_. 1 / 2) ''r'') = 124200000"
  by (simp_all add: candidate_of_def Let_def pickStatus_def STATUS_MIX_def STATUS_TOTAL_def)

lemma ex_member: "\<exists>row content. (row, content) \<in> set (backfill_rows ex_history ex_zone ex_luck su 136400000) \<and> rq_status row = Completed"
proof -
  let ?c = "candidate_of su 122400000 (\<lambda>_. 1 / 2) ''r''"
  have "ti_durationMs (timing_of ?c (randBetween 5 900 (1 / 2)) (\<lambda>_. 1 / 2)) \<le> 12200000"
    by (simp add: timing_of_def Let_def randBetween_def output_tokens_def js_round_def ex_candidate ex_floors)
  then obtain row content where "backfill_one su 136400000 122400000 (\<lambda>_. 1 / 2) ''r'' = Some (row, content)" "rq_status row = Completed"
    by (auto simp: backfill_one_def finish_candidate_def Let_def ex_candidate served_row_def)
  moreover have "backfill_hour ex_history ex_zone ex_luck su 136400000 0 10 =
      List.map_filter (\<lambda>i. backfill_one su 136400000 122400000 (\<lambda>_. 1 / 2) ''r'') [0..<1]"
    unfolding backfill_hour_def Let_def ex_hour by (simp add: ex_luck_def ex_count)
  ultimately have "(row, content) \<in> set (backfill_hour ex_history ex_zone ex_luck su 136400000 0 10)"
    by (simp add: map_filter_def)
  moreover have "backfill_rows ex_history ex_zone ex_luck su 136400000 =
      concat (map (backfill_hour ex_history ex_zone ex_luck su 136400000 0) [0..<24])"
    by (simp add: backfill_rows_def ex_history_def)
  ultimately have "(row, content) \<in> set (backfill_rows ex_history ex_zone ex_luck su 136400000)"
    by auto
  with \<open>rq_status row = Completed\<close> show ?thesis by blast
qed

lemma backfilled_history_sound_witness:
  "\<exists>row content. (row, content) \<in> set (backfill_rows ex_history ex_zone ex_luck (resolve ex_seeded) 136400000) \<and>
     rq_status row = Completed \<and> in_order row 136400000"
proof -
  obtain row content where m: "(row, content) \<in> set (backfill_rows ex_history ex_zone ex_luck (resolve ex_seeded) 136400000)"
      "rq_status row = Completed"
    using ex_member by blast
  have "listModels ex_seeded \<noteq> []"
    using seeded_registry[of empty_db "\<lambda>_. None" 0] by (auto simp: ex_seeded_def empty_db_def)
  then have "in_order row 136400000"
    using backfilled_history_sound[of ex_luck ex_seeded row content ex_history ex_zone 136400000] m
    by (simp add: ex_luck_def was_served_def)
  with m show ?thesis by blast
qed

end
