(* ===== verification/JsonFacts.thy ===== *)
theory JsonFacts
  imports Json
begin

text \<open>
  \<open>JSON.parse\<close> undoes \<open>JSON.stringify\<close>: on every value whose numbers are integers and whose objects have no
  key twice, also in front of more text. A parser needs no more fuel than the text has characters.
\<close>

section \<open>Strings\<close>

lemma hex_value_digit: "k < 16 \<Longrightarrow> hex_value (hex_digit k) = Some k"
  by (auto simp: hex_value_def hex_digit_def code_def Let_def)

lemma control_escape:
  "n < 32 \<Longrightarrow> hex4 (CHR ''0'') (CHR ''0'') (hex_digit (n div 16)) (hex_digit (n mod 16)) = Some (char_of n)"
proof -
  assume n: "n < 32"
  have zero: "hex_value (CHR ''0'') = Some 0" by code_simp
  have "16 * (n div 16) + n mod 16 = n" by simp
  with n show ?thesis by (simp add: hex4_def zero hex_value_digit)
qed

lemma parse_escape: "parse_str (escape_char c @ s) = cons_str c (parse_str s)"
proof -
  have c: "c = char_of (code c)" by (simp add: code_def)
  have named: "char_of (34 :: nat) = CHR 0x22" "char_of (92 :: nat) = CHR 0x5C" by code_simp+
  have special: "code c = n \<Longrightarrow> c = char_of n" for n by (auto simp: code_def)
  consider "code c = 34" | "code c = 92" | "code c = 8" | "code c = 9" | "code c = 10" | "code c = 12" | "code c = 13"
    | "code c < 32" "code c \<notin> {8, 9, 10, 12, 13}" | "32 \<le> code c" "code c \<noteq> 34" "code c \<noteq> 92"
    by fastforce
  then show ?thesis
  proof cases
    case 8
    then have "hex4 (CHR ''0'') (CHR ''0'') (hex_digit (code c div 16)) (hex_digit (code c mod 16)) = Some (char_of (code c))"
      by (intro control_escape)
    with 8 c show ?thesis by (simp add: escape_char_def Let_def)
  next
    case 9
    then have "c \<noteq> CHR 0x22" "c \<noteq> CHR 0x5C" by (auto simp: code_def)
    with 9 show ?thesis by (simp add: escape_char_def Let_def)
  qed (use special named in \<open>auto simp: escape_char_def Let_def simple_escape_def\<close>)
qed

lemma parse_quoted: "parse_str (concat (map escape_char s) @ CHR 0x22 # r) = Some (s, r)"
  by (induction s) (simp_all add: parse_escape cons_str_def)

section \<open>Numbers\<close>

definition ends_number :: "string \<Rightarrow> bool" where
  "ends_number r \<longleftrightarrow> (case r of [] \<Rightarrow> True | c # cs \<Rightarrow> \<not> is_digit c \<and> c \<notin> {CHR ''.'', CHR ''e'', CHR ''E''})"

lemma take_digits:
  assumes "ends_number r"
  shows "takeWhile is_digit (digits_of n @ r) = digits_of n" "dropWhile is_digit (digits_of n @ r) = r"
proof -
  have "takeWhile is_digit r = [] \<and> dropWhile is_digit r = r"
    using assms by (cases r) (auto simp: ends_number_def)
  then show "takeWhile is_digit (digits_of n @ r) = digits_of n" "dropWhile is_digit (digits_of n @ r) = r"
    using digits_of_digits by (auto simp: takeWhile_append2 dropWhile_append2)
qed

lemma digits_of_no_leading_zero: "hd (digits_of n) = CHR ''0'' \<Longrightarrow> length (digits_of n) = 1"
proof -
  have pos: "0 < n \<Longrightarrow> hd (digits_of n) \<noteq> CHR ''0''" for n
  proof (induction n rule: digits_of.induct)
    case (1 n)
    show ?case
    proof (cases "n < 10")
      case True
      then have "code (char_of (48 + n)) \<noteq> code (CHR ''0'')"
        using 1(2) by (simp add: code_char_of_digit) (simp add: code_def)
      then show ?thesis using True by (subst digits_of.simps) auto
    next
      case False
      with 1 show ?thesis by (subst digits_of.simps) simp
    qed
  qed
  assume "hd (digits_of n) = CHR ''0''"
  then have "n = 0" using pos by blast
  then show ?thesis by (subst digits_of.simps) simp
qed

lemma digits_of_hd: "is_digit (hd (digits_of n))"
  by (rule digits_of_digits[of _ n]) simp

lemma parse_digits:
  assumes "ends_number r" and "s = (if neg then CHR ''-'' # digits_of n @ r else digits_of n @ r)"
  shows "parse_number s = Some (if neg then - of_nat n else of_nat n, r)"
proof -
  obtain d ds where d: "digits_of n = d # ds" "is_digit d"
    using digits_of_hd[of n] by (cases "digits_of n") auto
  then have "d \<noteq> CHR ''-''" by (auto simp: is_digit_def code_def)
  then have s: "(case s of c # _ \<Rightarrow> c = CHR ''-'' | [] \<Rightarrow> False) = neg" "(if neg then tl s else s) = digits_of n @ r"
    using assms(2) d by auto
  have frac: "parse_frac r = Some ([], r)" "parse_exp r = Some (1, r)"
    using assms(1) by (cases r; auto simp: ends_number_def parse_frac_def parse_exp_def)+
  show ?thesis
    unfolding parse_number_def s Let_def take_digits[OF assms(1)] frac
    using digits_of_no_leading_zero[of n] by (auto simp: decimal_value_def nat_of_digits_of frac)
qed

lemma show_num_int: "show_num (of_int i) = (if i < 0 then CHR ''-'' # digits_of (nat (- i)) else digits_of (nat i))"
  by (simp add: show_num_def Let_def)

lemma parse_show_num: "ends_number r \<Longrightarrow> parse_number (show_num (of_int i) @ r) = Some (of_int i, r)"
  using parse_digits[of r _ "i < 0" "nat \<bar>i\<bar>"] by (auto simp: show_num_int)

section \<open>Values\<close>

fun json_ok :: "json \<Rightarrow> bool" where
  "json_ok JNull = True"
| "json_ok (JBool b) = True"
| "json_ok (JNum q) = (q = of_int \<lfloor>q\<rfloor>)"
| "json_ok (JStr s) = True"
| "json_ok (JArr xs) = list_all json_ok xs"
| "json_ok (JObj kvs) = (distinct (map fst kvs) \<and> list_all (\<lambda>kv. json_ok (snd kv)) kvs)"

lemma update_new: "k \<notin> fst ` set al \<Longrightarrow> AList.update k v al = al @ [(k, v)]"
  by (induction al) auto

lemma build_object: "distinct (map fst kvs) \<Longrightarrow> fold (\<lambda>(k, v). AList.update k v) kvs [] = kvs"
proof -
  have "distinct (map fst (al @ kvs)) \<Longrightarrow> fold (\<lambda>(k, v). AList.update k v) kvs al = al @ kvs" for al
    by (induction kvs arbitrary: al) (auto simp: update_new)
  from this[of "[]"] show "distinct (map fst kvs) \<Longrightarrow> fold (\<lambda>(k, v). AList.update k v) kvs [] = kvs" by simp
qed

text \<open>How a printed value begins.\<close>

definition value_start :: "char \<Rightarrow> bool" where
  "value_start c \<longleftrightarrow> \<not> is_json_ws c \<and> c \<noteq> CHR '']'' \<and> c \<noteq> CHR ''}''"

lemma show_num_start: "\<exists>c cs. show_num (of_int i) = c # cs \<and> (c = CHR ''-'' \<or> is_digit c)"
proof (cases "i < 0")
  case True
  then show ?thesis by (simp add: show_num_int)
next
  case False
  then show ?thesis using digits_of_hd[of "nat i"] by (cases "digits_of (nat i)") (simp_all add: show_num_int)
qed

lemma stringify_start:
  assumes "json_ok v"
  shows "\<exists>c cs. json_stringify v = c # cs \<and> value_start c"
proof (cases v)
  case (JNum q)
  then obtain c cs where "show_num q = c # cs" "c = CHR ''-'' \<or> is_digit c"
    using assms show_num_start[of "\<lfloor>q\<rfloor>"] by (metis json_ok.simps(3))
  moreover from this(2) have "value_start c"
    by (auto simp: value_start_def is_json_ws_def is_digit_def code_def Let_def)
  ultimately show ?thesis using JNum by simp
qed (simp_all add: value_start_def is_json_ws_def code_def quote_string_def Let_def)

lemma skip_start: "value_start c \<Longrightarrow> skip_ws (c # cs) = c # cs"
  by (simp add: skip_ws_def value_start_def)

lemma ends_number_simps [simp]:
  "ends_number []" "ends_number (CHR '','' # r)" "ends_number (CHR '']'' # r)" "ends_number (CHR ''}'' # r)"
  by (simp_all add: ends_number_def is_digit_def code_def)

lemma skip_marks [simp]:
  "skip_ws (CHR '','' # r) = CHR '','' # r" "skip_ws (CHR '']'' # r) = CHR '']'' # r"
  "skip_ws (CHR ''}'' # r) = CHR ''}'' # r" "skip_ws (CHR '':'' # r) = CHR '':'' # r"
  "skip_ws (CHR 0x22 # r) = CHR 0x22 # r" "skip_ws (CHR ''['' # r) = CHR ''['' # r"
  "skip_ws (CHR ''{'' # r) = CHR ''{'' # r" "skip_ws [] = []"
  by (simp_all add: skip_ws_def is_json_ws_def code_def)

text \<open>What a parser does with the text of a value, given fuel for its length.\<close>

definition parses :: "json \<Rightarrow> bool" where
  "parses v \<longleftrightarrow> (\<forall>n r. length (json_stringify v) \<le> n \<longrightarrow> ends_number r \<longrightarrow>
     parse_value n (json_stringify v @ r) = Some (v, r))"

lemma elems_parse:
  assumes "\<And>v. v \<in> set vs \<Longrightarrow> parses v" and "vs \<noteq> []"
    and "length (join '','' (map json_stringify vs)) < n"
  shows "parse_elems n (join '','' (map json_stringify vs) @ CHR '']'' # r) = Some (vs, r)"
  using assms
proof (induction vs arbitrary: n)
  case Nil
  then show ?case by simp
next
  case (Cons v vs)
  obtain m where n: "n = Suc m" using Cons.prems(3) by (cases n) auto
  have v: "parses v" using Cons.prems(1) by simp
  show ?case
  proof (cases vs)
    case Nil
    have "parse_value m (json_stringify v @ CHR '']'' # r) = Some (v, CHR '']'' # r)"
      using v Cons.prems(3) n Nil by (simp add: parses_def)
    then show ?thesis using n Nil by simp
  next
    case (Cons w ws)
    let ?rest = "join '','' (map json_stringify vs)"
    have j: "join '','' (map json_stringify (v # vs)) = json_stringify v @ CHR '','' # ?rest"
      using Cons by simp
    have "parse_value m (json_stringify v @ CHR '','' # ?rest @ CHR '']'' # r) = Some (v, CHR '','' # ?rest @ CHR '']'' # r)"
      using v Cons.prems(3) n j by (simp add: parses_def)
    moreover have "parse_elems m (?rest @ CHR '']'' # r) = Some (vs, r)"
      using Cons.IH[of m] Cons.prems n j Cons by simp
    ultimately show ?thesis using n j by simp
  qed
qed

definition member_text :: "string \<times> json \<Rightarrow> string" where
  "member_text kv = quote_string (fst kv) @ '':'' @ json_stringify (snd kv)"

lemma member_text_eq: "(\<lambda>(k, v). quote_string k @ '':'' @ json_stringify v) = member_text"
  by (auto simp: member_text_def)

lemma member_parse:
  assumes "parses v" "length (member_text (k, v)) \<le> m" "ends_number r"
  shows "\<exists>t. member_text (k, v) @ r = CHR 0x22 # t \<and>
     parse_str t = Some (k, CHR '':'' # json_stringify v @ r) \<and>
     parse_value m (json_stringify v @ r) = Some (v, r)"
  using assms
  by (auto simp: member_text_def quote_string_def parses_def parse_quoted)

lemma members_parse:
  assumes "\<And>kv. kv \<in> set kvs \<Longrightarrow> parses (snd kv)" and "kvs \<noteq> []"
    and "length (join '','' (map member_text kvs)) < n"
  shows "parse_members n (join '','' (map member_text kvs) @ CHR ''}'' # r) = Some (kvs, r)"
  using assms
proof (induction kvs arbitrary: n)
  case Nil
  then show ?case by simp
next
  case (Cons kv kvs)
  obtain m where n: "n = Suc m" using Cons.prems(3) by (cases n) auto
  obtain k v where kv: "kv = (k, v)" by (cases kv)
  have v: "parses v" using Cons.prems(1)[of kv] kv by simp
  show ?case
  proof (cases kvs)
    case Nil
    have "length (member_text (k, v)) \<le> m" using Cons.prems(3) n Nil kv by simp
    from member_parse[OF v this, of "CHR ''}'' # r"] show ?thesis using n Nil kv by auto
  next
    case (Cons w ws)
    let ?rest = "join '','' (map member_text kvs)"
    have j: "join '','' (map member_text (kv # kvs)) = member_text (k, v) @ CHR '','' # ?rest"
      using Cons kv by simp
    have "length (member_text (k, v)) \<le> m" using Cons.prems(3) n j by simp
    note head = member_parse[OF v this, of "CHR '','' # ?rest @ CHR ''}'' # r"]
    have "parse_members m (?rest @ CHR ''}'' # r) = Some (kvs, r)"
      using Cons.IH[of m] Cons.prems n j Cons by simp
    then show ?thesis using n j kv head by auto
  qed
qed

lemma parse_number_value:
  assumes "s = c # cs" "c = CHR ''-'' \<or> is_digit c"
  shows "parse_value (Suc n) s = map_option (\<lambda>(q, r). (JNum q, r)) (parse_number s)"
proof -
  have "\<not> is_json_ws c" "c \<noteq> CHR 0x22" "c \<noteq> CHR ''[''" "c \<noteq> CHR ''{''" "c \<noteq> CHR ''n''" "c \<noteq> CHR ''t''" "c \<noteq> CHR ''f''"
    using assms(2) by (auto simp: is_json_ws_def is_digit_def code_def Let_def)
  then show ?thesis using assms(1) by (simp add: skip_ws_def)
qed

lemma parses_all: "json_ok v \<Longrightarrow> parses v"
proof (induction v)
  case JNull
  show ?case
    unfolding parses_def
  proof (intro allI impI)
    fix n r assume "length (json_stringify JNull) \<le> n"
    then show "parse_value n (json_stringify JNull @ r) = Some (JNull, r)"
      by (cases n) (simp_all add: skip_ws_def is_json_ws_def code_def)
  qed
next
  case (JBool b)
  show ?case
    unfolding parses_def
  proof (intro allI impI)
    fix n r assume "length (json_stringify (JBool b)) \<le> n"
    then show "parse_value n (json_stringify (JBool b) @ r) = Some (JBool b, r)"
      by (cases n; cases b) (simp_all add: skip_ws_def is_json_ws_def code_def)
  qed
next
  case (JNum q)
  obtain i where q: "q = of_int i" using JNum by (metis json_ok.simps(3))
  obtain c cs where c: "show_num (of_int i) = c # cs" "c = CHR ''-'' \<or> is_digit c"
    using show_num_start by blast
  show ?case
    unfolding parses_def
  proof (intro allI impI)
    fix n r assume "length (json_stringify (JNum q)) \<le> n" and r: "ends_number r"
    then obtain m where "n = Suc m" using c q by (cases n) auto
    then show "parse_value n (json_stringify (JNum q) @ r) = Some (JNum q, r)"
      using parse_number_value[of "show_num (of_int i) @ r" c "cs @ r" m] c q parse_show_num[OF r, of i] by simp
  qed
next
  case (JStr s)
  show ?case
    unfolding parses_def
  proof (intro allI impI)
    fix n r assume "length (json_stringify (JStr s)) \<le> n"
    then show "parse_value n (json_stringify (JStr s) @ r) = Some (JStr s, r)"
      by (cases n) (simp_all add: quote_string_def parse_quoted)
  qed
next
  case (JArr xs)
  show ?case
    unfolding parses_def
  proof (intro allI impI)
    fix n r assume len: "length (json_stringify (JArr xs)) \<le> n"
    then obtain m where n: "n = Suc m" by (cases n) auto
    show "parse_value n (json_stringify (JArr xs) @ r) = Some (JArr xs, r)"
    proof (cases xs)
      case Nil
      then show ?thesis using n by simp
    next
      case (Cons y ys)
      obtain c cs where c: "json_stringify y = c # cs" "value_start c"
        using stringify_start[of y] JArr.prems Cons by auto
      have "parse_elems m (join '','' (map json_stringify xs) @ CHR '']'' # r) = Some (xs, r)"
        using JArr len n Cons by (intro elems_parse) (auto simp: list_all_iff)
      moreover obtain ds where "join '','' (map json_stringify xs) @ CHR '']'' # r = c # ds"
        using c(1) Cons by (cases ys) auto
      ultimately show ?thesis using n c(2) by (simp add: skip_start value_start_def)
    qed
  qed
next
  case (JObj kvs)
  show ?case
    unfolding parses_def
  proof (intro allI impI)
    fix n r assume len: "length (json_stringify (JObj kvs)) \<le> n"
    then obtain m where n: "n = Suc m" by (cases n) auto
    show "parse_value n (json_stringify (JObj kvs) @ r) = Some (JObj kvs, r)"
    proof (cases kvs)
      case Nil
      then show ?thesis using n by simp
    next
      case (Cons y ys)
      have "parses (snd kv)" if "kv \<in> set kvs" for kv
        using JObj.IH[OF that, of "snd kv"] JObj.prems that by (cases kv) (auto simp: list_all_iff)
      moreover have "length (join '','' (map member_text kvs)) < m"
        using len n unfolding json_stringify.simps member_text_eq by simp
      ultimately have "parse_members m (join '','' (map member_text kvs) @ CHR ''}'' # r) = Some (kvs, r)"
        using Cons by (intro members_parse) auto
      moreover obtain ds where "join '','' (map member_text kvs) @ CHR ''}'' # r = CHR 0x22 # ds"
        using Cons by (cases ys) (auto simp: member_text_def quote_string_def)
      ultimately show ?thesis
        using n JObj.prems unfolding json_stringify.simps member_text_eq by (simp add: build_object)
    qed
  qed
qed

theorem json_roundtrip: "json_ok v \<Longrightarrow> json_parse (json_stringify v) = Some v"
proof -
  assume "json_ok v"
  then have "parse_value (2 * length (json_stringify v) + 1) (json_stringify v @ []) = Some (v, [])"
    using parses_all[of v] unfolding parses_def by (metis ends_number_simps(1) le_add1 mult_2 trans_le_add1)
  then show ?thesis by (simp add: json_parse_def)
qed

end
