(* ===== verification/MockOidc.thy ===== *)
theory MockOidc
  imports Session JsonFacts
begin

text \<open>
  The identity provider the sign-in is tested with, \<open>mock-oidc/server.js\<close>: its users, the claims of a token,
  authorization codes with PKCE, and its control route; then the sign-in of \<open>Session\<close> run against it. The
  signature, the digest, the random codes and the clock are parameters. The markup of the account picker and the
  log lines are left out. A form is decoded as \<open>URLSearchParams\<close> does, for characters below 256; a byte
  sequence of another character becomes a question mark.
\<close>

section \<open>Decoding a form\<close>

fun form_bytes :: "string \<Rightarrow> nat list" where
  "form_bytes [] = []"
| "form_bytes (c # s) =
     (if c = CHR ''+'' then 32 # form_bytes s
      else if c = CHR ''%'' then
        (case s of
           a # b # t \<Rightarrow>
             (case (hex_value a, hex_value b) of
                (Some x, Some y) \<Rightarrow> (16 * x + y) # form_bytes t
              | _ \<Rightarrow> 37 # form_bytes s)
         | _ \<Rightarrow> 37 # form_bytes s)
      else if code c < 128 then code c # form_bytes s
      else (192 + code c div 64) # (128 + code c mod 64) # form_bytes s)"

fun utf8 :: "nat list \<Rightarrow> string" where
  "utf8 [] = []"
| "utf8 (b # bs) =
     (if b < 128 then char_of b # utf8 bs
      else if b = 194 \<or> b = 195 then
        (case bs of
           k # ks \<Rightarrow> if 128 \<le> k \<and> k < 192 then char_of ((b - 192) * 64 + (k - 128)) # utf8 ks else CHR ''?'' # utf8 bs
         | [] \<Rightarrow> CHR ''?'' # utf8 bs)
      else CHR ''?'' # utf8 bs)"

definition form_value :: "string \<Rightarrow> string" where
  "form_value s = utf8 (form_bytes s)"

definition form_pair :: "string \<Rightarrow> string \<times> string" where
  "form_pair part =
     (case break_on ''='' part of
        None \<Rightarrow> (form_value part, '''')
      | Some (k, v) \<Rightarrow> (form_value k, form_value v))"

definition form_decode :: "string \<Rightarrow> (string \<times> string) list" where
  "form_decode s = map form_pair (filter (\<lambda>p. p \<noteq> '''') (split_on (CHR ''&'') s))"

lemma hex_upper_value: "k < 16 \<Longrightarrow> hex_value (hex_upper k) = Some k"
  by (auto simp: hex_value_def hex_upper_def code_def Let_def)

lemma form_bytes_percent: "n < 256 \<Longrightarrow> form_bytes (percent n @ s) = n # form_bytes s"
proof -
  assume "n < 256"
  then have "hex_value (hex_upper (n div 16)) = Some (n div 16)" "hex_value (hex_upper (n mod 16)) = Some (n mod 16)"
    by (simp_all add: hex_upper_value)
  then show ?thesis by (simp add: percent_def)
qed

lemma code_less_256 [simp]: "code c < 256"
  by (simp add: code_def)

definition utf8_of :: "char \<Rightarrow> nat list" where
  "utf8_of c = (if code c < 128 then [code c] else [192 + code c div 64, 128 + code c mod 64])"

lemma char_of_code [simp]: "char_of (code c) = c"
  by (simp add: code_def)

lemma code_bytes: "192 + code c div 64 < 256" "128 + code c mod 64 < 256"
proof -
  have "code c div 64 < 4" using code_less_256[of c] by (simp add: less_mult_imp_div_less)
  moreover have "code c mod 64 < 64" by simp
  ultimately show "192 + code c div 64 < 256" "128 + code c mod 64 < 256" by linarith+
qed

lemma utf8_of_char: "utf8 (utf8_of c @ bs) = c # utf8 bs"
proof (cases "code c < 128")
  case True
  then show ?thesis by (simp add: utf8_of_def)
next
  case False
  have "code c div 64 < 4" using code_less_256[of c] by (simp add: less_mult_imp_div_less)
  moreover have "2 \<le> code c div 64" using False by simp
  ultimately have "192 + code c div 64 = 194 \<or> 192 + code c div 64 = 195" by auto
  moreover have "(192 + code c div 64 - 192) * 64 + (128 + code c mod 64 - 128) = code c" by simp
  ultimately show ?thesis using False by (auto simp: utf8_of_def)
qed

lemma form_safe_facts:
  assumes "form_safe c"
  shows "c \<noteq> CHR ''+''" "c \<noteq> CHR ''%''" "code c < 128" "c \<noteq> CHR ''&''" "c \<noteq> CHR ''=''"
  using assms
  by (auto simp: form_safe_def is_lower_az_def is_upper_az_def is_digit_def code_def Let_def)

lemma form_bytes_char: "form_bytes (form_char c @ s) = utf8_of c @ form_bytes s"
proof -
  consider "c = CHR '' ''" | "c \<noteq> CHR '' ''" "form_safe c" | "c \<noteq> CHR '' ''" "\<not> form_safe c" "code c < 128"
    | "c \<noteq> CHR '' ''" "\<not> form_safe c" "\<not> code c < 128"
    by blast
  then show ?thesis
  proof cases
    case 1
    then show ?thesis by (simp add: form_char_def utf8_of_def code_def)
  next
    case 2
    then show ?thesis using form_safe_facts[of c] by (simp add: form_char_def utf8_of_def)
  next
    case 3
    then show ?thesis by (simp add: form_char_def utf8_of_def form_bytes_percent)
  next
    case 4
    from code_bytes[of c] 4 show ?thesis by (simp add: form_char_def utf8_of_def form_bytes_percent)
  qed
qed

lemma form_value_text [simp]: "form_value (form_text s) = s"
proof -
  have "form_bytes (form_text s) = concat (map utf8_of s)"
    by (induction s) (simp_all add: form_text_def form_bytes_char)
  moreover have "utf8 (concat (map utf8_of s)) = s"
    by (induction s) (simp_all add: utf8_of_char)
  ultimately show ?thesis by (simp add: form_value_def)
qed

lemma hex_upper_marks:
  assumes "k < 16"
  shows "hex_upper k \<noteq> CHR ''&''" "hex_upper k \<noteq> CHR ''=''"
  using hex_upper_value[OF assms] by (auto simp: hex_value_def code_def Let_def)

lemma percent_marks:
  assumes "n < 256"
  shows "CHR ''&'' \<notin> set (percent n)" "CHR ''='' \<notin> set (percent n)"
proof -
  have "n div 16 < 16" "n mod 16 < 16" using assms by simp_all
  then show "CHR ''&'' \<notin> set (percent n)" "CHR ''='' \<notin> set (percent n)"
    using hex_upper_marks[of "n div 16"] hex_upper_marks[of "n mod 16"] by (auto simp: percent_def)
qed

lemma form_char_marks: "CHR ''&'' \<notin> set (form_char c)" "CHR ''='' \<notin> set (form_char c)"
  using percent_marks[of "code c"] percent_marks[OF code_bytes(1)[of c]] percent_marks[OF code_bytes(2)[of c]]
    form_safe_facts[of c]
  by (auto simp: form_char_def)

lemma form_text_marks: "CHR ''&'' \<notin> set (form_text s)" "CHR ''='' \<notin> set (form_text s)"
  using form_char_marks by (auto simp: form_text_def)

lemma break_on_form: "break_on ''='' (form_text k @ CHR ''='' # t) = Some (form_text k, t)"
proof -
  have "CHR ''='' \<notin> set a \<Longrightarrow> break_on ''='' (a @ CHR ''='' # t) = Some (a, t)" for a
    by (induction a) auto
  then show ?thesis using form_text_marks by blast
qed

lemma split_on_join:
  assumes "\<And>w. w \<in> set ws \<Longrightarrow> sep \<notin> set w" "ws \<noteq> []"
  shows "split_on sep (join [sep] ws) = ws"
  using assms
proof (induction ws)
  case Nil
  then show ?case by simp
next
  case (Cons w ws)
  then show ?case by (cases ws) (simp_all add: split_on_append_sep split_on_no_sep_id)
qed

text \<open>What the dashboard encodes, the provider decodes.\<close>

lemma form_roundtrip: "form_decode (form_encode ps) = ps"
proof (cases "ps = []")
  case True
  then show ?thesis by (simp add: form_decode_def form_encode_def)
next
  case False
  let ?parts = "map (\<lambda>(k, v). form_text k @ ''='' @ form_text v) ps"
  have "split_on (CHR ''&'') (form_encode ps) = ?parts"
    unfolding form_encode_def using False form_text_marks by (intro split_on_join) auto
  moreover have "filter (\<lambda>p. p \<noteq> '''') ?parts = ?parts"
    by (auto simp: filter_id_conv)
  moreover have "form_pair (form_text k @ ''='' @ form_text v) = (k, v)" for k v
    by (simp add: form_pair_def break_on_form)
  ultimately show ?thesis by (simp add: form_decode_def o_def case_prod_unfold)
qed

section \<open>The directory\<close>

record oidc_user =
  ou_oid :: string
  ou_name :: string
  ou_upn :: string
  ou_department :: string
  ou_groups :: "string list"
  ou_roles :: "string list"

definition USERS :: "oidc_user list" where
  "USERS =
     [\<lparr>ou_oid = ''aaaa1111-0000-0000-0000-000000000001'', ou_name = ''Dana Okonkwo'', ou_upn = ''dana@example.com'',
       ou_department = ''platform'', ou_groups = [''group-admins''], ou_roles = [''Admin'']\<rparr>,
      \<lparr>ou_oid = ''aaaa1111-0000-0000-0000-000000000002'', ou_name = ''Priya Raman'', ou_upn = ''priya@example.com'',
       ou_department = ''engineering'', ou_groups = [''group-admins''], ou_roles = [''Admin'']\<rparr>,
      \<lparr>ou_oid = ''aaaa1111-0000-0000-0000-000000000003'', ou_name = ''Wei Zhang'', ou_upn = ''wei@example.com'',
       ou_department = ''search'', ou_groups = [], ou_roles = []\<rparr>]"

record code_entry =
  ce_user :: oidc_user
  ce_codeChallenge :: string
  ce_nonce :: string
  ce_clientId :: string
  ce_redirectUri :: string

text \<open>The switches a test sets, and the codes that wait to be redeemed.\<close>

record oidc_state =
  os_omitName :: bool
  os_omitDepartment :: bool
  os_groupOverage :: bool
  os_omitRoles :: bool
  os_lifetimeSec :: rat
  os_failTokenExchange :: bool
  os_codes :: "(string \<times> code_entry) list"

definition oidc_start :: oidc_state where
  "oidc_start =
     \<lparr>os_omitName = False, os_omitDepartment = False, os_groupOverage = False, os_omitRoles = False,
      os_lifetimeSec = 3600, os_failTokenExchange = False, os_codes = []\<rparr>"

record oidc_config =
  oc_tenant :: string
  oc_base :: string
  oc_apiAudience :: string

definition oidc_config_of :: "env \<Rightarrow> oidc_config" where
  "oidc_config_of env =
     \<lparr>oc_tenant = nullish (env ''TENANT_ID'') ''11111111-2222-3333-4444-555555555555'',
      oc_base = nullish (env ''ISSUER_BASE'') (''http://localhost:'' @ js_string (JNum (nullish (js_number (nullish (env ''PORT'') ''9000'')) 0))),
      oc_apiAudience = nullish (env ''API_AUDIENCE'') ''api://llm-gateway''\<rparr>"

definition oidc_issuer :: "oidc_config \<Rightarrow> string" where
  "oidc_issuer p = oc_base p @ ''/'' @ oc_tenant p @ ''/v2.0''"

definition claimsFor :: "oidc_config \<Rightarrow> oidc_state \<Rightarrow> time \<Rightarrow> oidc_user \<Rightarrow> string \<Rightarrow> string \<Rightarrow> claims" where
  "claimsFor p st now user clientId nonce =
     [(''iss'', JStr (oidc_issuer p)), (''aud'', JStr clientId), (''sub'', JStr (''sub-'' @ ou_oid user)),
      (''oid'', JStr (ou_oid user)), (''tid'', JStr (oc_tenant p)), (''iat'', JNum (of_int (epoch now))),
      (''nbf'', JNum (of_int (epoch now))), (''exp'', JNum (of_int (epoch now) + os_lifetimeSec st)),
      (''preferred_username'', JStr (ou_upn user))] @
     (if nonce \<noteq> '''' then [(''nonce'', JStr nonce)] else []) @
     (if \<not> os_omitName st then [(''name'', JStr (ou_name user))] else []) @
     (if \<not> os_omitDepartment st then [(''department'', JStr (ou_department user))] else []) @
     (if \<not> os_omitRoles st then [(''roles'', JArr (map JStr (ou_roles user)))] else []) @
     (if os_groupOverage st then
        [(''_claim_names'', JObj [(''groups'', JStr ''src1'')]),
         (''_claim_sources'', JObj [(''src1'', JObj [(''endpoint'',
            JStr (''https://graph.microsoft.com/v1.0/users/'' @ ou_oid user @ ''/getMemberObjects''))])])]
      else [(''groups'', JArr (map JStr (ou_groups user)))])"

section \<open>The routes\<close>

text \<open>
  An answer: a JSON body, the account picker (the query of each of its links), a redirect with the parameters it
  adds to an address, or a thrown error, on which the process ends.
\<close>

datatype oidc_reply =
    OidcJson nat json
  | Picker "(string \<times> string) list list"
  | SendBack string "(string \<times> string) list"
  | OidcCrash

definition oidc_error :: "string \<Rightarrow> string \<Rightarrow> oidc_reply" where
  "oidc_error e description = OidcJson 400 (JObj [(''error'', JStr e), (''error_description'', JStr description)])"

definition find_user :: "string \<Rightarrow> oidc_user option" where
  "find_user requested = find (\<lambda>u. ou_oid u = requested \<or> ou_upn u = requested) USERS"

definition oidc_authorize ::
  "string \<Rightarrow> (string \<times> string) list \<Rightarrow> oidc_state \<Rightarrow> oidc_reply \<times> oidc_state" where
  "oidc_authorize uuid query st =
     (let redirectUri = nullish (map_of query ''redirect_uri'') '''';
          stateParam = nullish (map_of query ''state'') '''';
          requested = nullish (map_of query ''user'') ''''
      in if redirectUri = '''' then (oidc_error ''invalid_request'' ''redirect_uri required'', st)
         else case (if requested = '''' then None else find_user requested) of
             None \<Rightarrow> (Picker (map (\<lambda>u. AList.update ''user'' (ou_upn u) query) USERS), st)
           | Some user \<Rightarrow>
               (SendBack redirectUri ([(''code'', uuid)] @ (if stateParam \<noteq> '''' then [(''state'', stateParam)] else [])),
                st\<lparr>os_codes := AList.update uuid
                  \<lparr>ce_user = user, ce_codeChallenge = nullish (map_of query ''code_challenge'') '''',
                   ce_nonce = nullish (map_of query ''nonce'') '''', ce_clientId = nullish (map_of query ''client_id'') '''',
                   ce_redirectUri = redirectUri\<rparr> (os_codes st)\<rparr>))"

definition token_reply :: "oidc_config \<Rightarrow> (claims \<Rightarrow> string) \<Rightarrow> oidc_state \<Rightarrow> claims \<Rightarrow> json" where
  "token_reply p sign st cl =
     JObj [(''token_type'', JStr ''Bearer''), (''expires_in'', JNum (os_lifetimeSec st)),
       (''scope'', JStr ''openid profile email''), (''id_token'', JStr (sign cl)),
       (''access_token'', JStr (sign (AList.update ''aud'' (JStr (oc_apiAudience p)) cl)))]"

definition oidc_token ::
  "oidc_config \<Rightarrow> (claims \<Rightarrow> string) \<Rightarrow> (string \<Rightarrow> string) \<Rightarrow> time \<Rightarrow> string \<Rightarrow> oidc_state \<Rightarrow> oidc_reply \<times> oidc_state" where
  "oidc_token p sign sha256 now body st =
     (if os_failTokenExchange st then (oidc_error ''invalid_grant'' ''Injected token-exchange failure.'', st)
      else
        let params = form_decode body; authCode = nullish (map_of params ''code'') '''' in
        case (if authCode = '''' then None else map_of (os_codes st) authCode) of
          None \<Rightarrow> (oidc_error ''invalid_grant'' ''Unknown or reused code.'', st)
        | Some entry \<Rightarrow>
            let st' = st\<lparr>os_codes := AList.delete authCode (os_codes st)\<rparr> in
            if ce_codeChallenge entry \<noteq> '''' \<and>
               base64url (sha256 (nullish (map_of params ''code_verifier'') '''')) \<noteq> ce_codeChallenge entry
            then (oidc_error ''invalid_grant'' ''PKCE verification failed.'', st')
            else
              let clientId = or_else (map_of params ''client_id'') (ce_clientId entry) in
              (OidcJson 200 (token_reply p sign st' (claimsFor p st' now (ce_user entry) clientId (ce_nonce entry))), st'))"

definition state_json :: "oidc_state \<Rightarrow> json" where
  "state_json st =
     JObj [(''omitName'', JBool (os_omitName st)), (''omitDepartment'', JBool (os_omitDepartment st)),
       (''groupOverage'', JBool (os_groupOverage st)), (''omitRoles'', JBool (os_omitRoles st)),
       (''lifetimeSec'', JNum (os_lifetimeSec st)), (''failTokenExchange'', JBool (os_failTokenExchange st))]"

definition user_json :: "oidc_user \<Rightarrow> json" where
  "user_json u =
     JObj [(''oid'', JStr (ou_oid u)), (''name'', JStr (ou_name u)), (''upn'', JStr (ou_upn u)),
       (''department'', JStr (ou_department u)), (''groups'', JArr (map JStr (ou_groups u))),
       (''roles'', JArr (map JStr (ou_roles u)))]"

definition bool_switch :: "string \<Rightarrow> json \<Rightarrow> bool \<Rightarrow> bool" where
  "bool_switch k body old = (case jfield k body of Some (JBool b) \<Rightarrow> b | _ \<Rightarrow> old)"

definition oidc_control :: "string \<Rightarrow> oidc_state \<Rightarrow> oidc_reply \<times> oidc_state" where
  "oidc_control body st =
     (case json_parse (if body = '''' then ''{}'' else body) of
        None \<Rightarrow> (OidcCrash, st)
      | Some JNull \<Rightarrow> (OidcCrash, st)
      | Some v \<Rightarrow>
          (let st' = st\<lparr>os_omitName := bool_switch ''omitName'' v (os_omitName st),
                 os_omitDepartment := bool_switch ''omitDepartment'' v (os_omitDepartment st),
                 os_omitRoles := bool_switch ''omitRoles'' v (os_omitRoles st),
                 os_groupOverage := bool_switch ''groupOverage'' v (os_groupOverage st),
                 os_failTokenExchange := bool_switch ''failTokenExchange'' v (os_failTokenExchange st),
                 os_lifetimeSec := nullish (as_number (jfield ''lifetimeSec'' v)) (os_lifetimeSec st)\<rparr>
           in (OidcJson 200 (JObj [(''ok'', JBool True), (''state'', state_json st')]), st')))"

record oidc_request =
  or_method :: string
  or_path :: string
  or_query :: "(string \<times> string) list"
  or_body :: string

definition tenant_path :: "oidc_config \<Rightarrow> string \<Rightarrow> string" where
  "tenant_path p rest = ''/'' @ oc_tenant p @ rest"

definition discovery :: "oidc_config \<Rightarrow> json" where
  "discovery p =
     JObj [(''issuer'', JStr (oidc_issuer p)),
       (''authorization_endpoint'', JStr (oc_base p @ tenant_path p ''/oauth2/v2.0/authorize'')),
       (''token_endpoint'', JStr (oc_base p @ tenant_path p ''/oauth2/v2.0/token'')),
       (''jwks_uri'', JStr (oc_base p @ tenant_path p ''/discovery/v2.0/keys'')),
       (''response_types_supported'', JArr [JStr ''code'']), (''subject_types_supported'', JArr [JStr ''pairwise'']),
       (''id_token_signing_alg_values_supported'', JArr [JStr ''RS256''])]"

record oidc_world =
  ow_config :: oidc_config
  ow_sign :: "claims \<Rightarrow> string"
  ow_sha256 :: "string \<Rightarrow> string"
  ow_jwk :: json

definition oidc_handle ::
  "oidc_world \<Rightarrow> string \<Rightarrow> time \<Rightarrow> oidc_request \<Rightarrow> oidc_state \<Rightarrow> oidc_reply \<times> oidc_state" where
  "oidc_handle w uuid now r st =
     (let p = ow_config w; get = (or_method r = ''GET''); post = (or_method r = ''POST''); path = or_path r in
      if get \<and> path = tenant_path p ''/v2.0/.well-known/openid-configuration'' then (OidcJson 200 (discovery p), st)
      else if get \<and> path = tenant_path p ''/discovery/v2.0/keys'' then (OidcJson 200 (JObj [(''keys'', JArr [ow_jwk w])]), st)
      else if get \<and> path = tenant_path p ''/oauth2/v2.0/authorize'' then oidc_authorize uuid (or_query r) st
      else if post \<and> path = tenant_path p ''/oauth2/v2.0/token'' then
        oidc_token p (ow_sign w) (ow_sha256 w) now (or_body r) st
      else if path = ''/_control'' \<and> get then
        (OidcJson 200 (JObj [(''tenant'', JStr (oc_tenant p)), (''issuer'', JStr (oidc_issuer p)), (''state'', state_json st),
           (''users'', JArr (map user_json USERS))]), st)
      else if path = ''/_control'' \<and> post then oidc_control (or_body r) st
      else if get \<and> path = ''/healthz'' then (OidcJson 200 (JObj [(''status'', JStr ''ok'')]), st)
      else (OidcJson 404 (JObj [(''error'', JStr ''not_found''),
              (''error_description'', JStr (''No route for '' @ or_method r @ '' '' @ path))]), st))"

section \<open>A code is redeemed once\<close>

text \<open>The code a request redeems: it asks for a token with it and gets one.\<close>

definition redeemed_code :: "oidc_world \<Rightarrow> oidc_request \<Rightarrow> oidc_reply \<Rightarrow> string option" where
  "redeemed_code w r reply =
     (if or_method r = ''POST'' \<and> or_path r = tenant_path (ow_config w) ''/oauth2/v2.0/token'' \<and> (\<exists>v. reply = OidcJson 200 v)
      then Some (nullish (map_of (form_decode (or_body r)) ''code'') '''') else None)"

fun redeemed_by :: "oidc_world \<Rightarrow> (string \<times> time \<times> oidc_request) list \<Rightarrow> oidc_state \<Rightarrow> string list" where
  "redeemed_by w [] st = []"
| "redeemed_by w ((uuid, now, r) # rs) st =
     (case oidc_handle w uuid now r st of
        (reply, st') \<Rightarrow>
          (case redeemed_code w r reply of None \<Rightarrow> [] | Some c \<Rightarrow> [c]) @ redeemed_by w rs st')"

lemma oidc_token_200:
  assumes "oidc_token p sign sha256 now body st = (OidcJson 200 v, st')"
  shows "nullish (map_of (form_decode body) ''code'') '''' \<in> dom (map_of (os_codes st)) \<and>
    os_codes st' = AList.delete (nullish (map_of (form_decode body) ''code'') '''') (os_codes st)"
  using assms by (auto simp: oidc_token_def oidc_error_def Let_def split: if_splits option.splits)

lemma oidc_handle_codes:
  assumes "oidc_handle w uuid now r st = (reply, st')"
  shows "dom (map_of (os_codes st')) \<subseteq> insert uuid (dom (map_of (os_codes st)))"
    and "redeemed_code w r reply = Some c \<Longrightarrow>
      c \<in> dom (map_of (os_codes st)) \<and> dom (map_of (os_codes st')) = dom (map_of (os_codes st)) - {c}"
proof -
  have auth: "dom (map_of (os_codes (snd (oidc_authorize uuid q st)))) \<subseteq> insert uuid (dom (map_of (os_codes st)))" for q
    by (auto simp: oidc_authorize_def Let_def update_conv' split: option.split)
  have tok: "dom (map_of (os_codes (snd (oidc_token p s h t b st)))) \<subseteq> dom (map_of (os_codes st))" for p s h t b
    by (auto simp: oidc_token_def Let_def delete_conv' split: option.split if_splits)
  have ctl: "os_codes (snd (oidc_control b st)) = os_codes st" for b
    by (simp add: oidc_control_def Let_def split: option.split json.split)
  show "dom (map_of (os_codes st')) \<subseteq> insert uuid (dom (map_of (os_codes st)))"
    using assms auth[of "or_query r"] tok[of "ow_config w" "ow_sign w" "ow_sha256 w" now "or_body r"] ctl[of "or_body r"]
    by (auto simp: oidc_handle_def Let_def split: if_splits)
  assume c: "redeemed_code w r reply = Some c"
  then have "oidc_token (ow_config w) (ow_sign w) (ow_sha256 w) now (or_body r) st = (reply, st')"
    using assms by (auto simp: oidc_handle_def redeemed_code_def Let_def tenant_path_def split: if_splits)
  with c show "c \<in> dom (map_of (os_codes st)) \<and> dom (map_of (os_codes st')) = dom (map_of (os_codes st)) - {c}"
    using oidc_token_200 by (fastforce simp: redeemed_code_def delete_conv' split: if_splits)
qed

text \<open>
  Whatever requests the provider is sent, in whatever order, and whatever its switches are set to meanwhile,
  an authorization code is redeemed at most once, provided the random codes do not repeat.\<close>
theorem code_redeemed_once:
  assumes "distinct (map fst rs)" and "os_codes st = []"
  shows "distinct (redeemed_by w rs st)"
proof -
  have "distinct (redeemed_by w rs st) \<and> set (redeemed_by w rs st) \<subseteq> dom (map_of (os_codes st)) \<union> set (map fst rs)"
    if "distinct (map fst rs)" "dom (map_of (os_codes st)) \<inter> set (map fst rs) = {}" for rs st
    using that
  proof (induction rs arbitrary: st)
    case Nil
    then show ?case by simp
  next
    case (Cons x rs)
    obtain uuid now r where x: "x = (uuid, now, r)" by (cases x)
    obtain reply st' where h: "oidc_handle w uuid now r st = (reply, st')" by fastforce
    note codes = oidc_handle_codes[OF h]
    have "distinct (map fst rs)" "uuid \<notin> set (map fst rs)" "dom (map_of (os_codes st)) \<inter> set (map fst rs) = {}"
      using Cons.prems x by auto
    then have "dom (map_of (os_codes st')) \<inter> set (map fst rs) = {}"
      using codes(1) by blast
    then have rest: "distinct (redeemed_by w rs st')"
        "set (redeemed_by w rs st') \<subseteq> dom (map_of (os_codes st')) \<union> set (map fst rs)"
      using Cons.IH[of st'] \<open>distinct (map fst rs)\<close> by blast+
    show ?case
    proof (cases "redeemed_code w r reply")
      case None
      then show ?thesis using rest codes(1) x h by auto
    next
      case (Some c)
      have "c \<in> dom (map_of (os_codes st))" "dom (map_of (os_codes st')) = dom (map_of (os_codes st)) - {c}"
        using codes(2)[OF Some] by blast+
      moreover from this have "c \<notin> set (map fst rs)" using Cons.prems(2) x by auto
      ultimately show ?thesis using rest Some x h by auto
    qed
  qed
  with assms show ?thesis by simp
qed

lemma code_redeemed_once_witness:
  "distinct (redeemed_by \<lparr>ow_config = \<lparr>oc_tenant = ''t'', oc_base = ''b'', oc_apiAudience = ''a''\<rparr>, ow_sign = (\<lambda>_. ''s''),
       ow_sha256 = id, ow_jwk = JNull\<rparr>
     [(''c1'', 0, \<lparr>or_method = ''GET'', or_path = ''/t/oauth2/v2.0/authorize'',
        or_query = [(''redirect_uri'', ''r''), (''user'', ''dana@example.com'')], or_body = ''''\<rparr>),
      (''c2'', 1, \<lparr>or_method = ''POST'', or_path = ''/t/oauth2/v2.0/token'', or_query = [], or_body = ''code=c1''\<rparr>),
      (''c3'', 2, \<lparr>or_method = ''POST'', or_path = ''/t/oauth2/v2.0/token'', or_query = [], or_body = ''code=c1''\<rparr>)]
     oidc_start)"
  by (rule code_redeemed_once) (simp_all add: oidc_start_def)

section \<open>The dashboard against the provider\<close>

definition answer_of :: "oidc_reply \<Rightarrow> token_answer option" where
  "answer_of reply =
     (case reply of
        OidcJson status body \<Rightarrow> Some \<lparr>ta_status = status, ta_body = Some (json_stringify body)\<rparr>
      | Picker links \<Rightarrow> Some \<lparr>ta_status = 200, ta_body = Some ''<!doctype html>''\<rparr>
      | SendBack uri ps \<Rightarrow> Some \<lparr>ta_status = 302, ta_body = Some ''''\<rparr>
      | OidcCrash \<Rightarrow> None)"

definition answered_by :: "oidc_world \<Rightarrow> oidc_state \<Rightarrow> time \<Rightarrow> string \<Rightarrow> string \<Rightarrow> token_answer option" where
  "answered_by p st now url body =
     (if starts_with (oc_base (ow_config p)) url then
        answer_of (fst (oidc_handle p '''' now
          \<lparr>or_method = ''POST'', or_path = drop (length (oc_base (ow_config p))) url, or_query = [], or_body = body\<rparr> st))
      else None)"

text \<open>The specification: whom the configured checks let in, as the provider's switches stand.\<close>

definition may_enter :: "auth_config \<Rightarrow> oidc_state \<Rightarrow> oidc_user \<Rightarrow> bool" where
  "may_enter cfg st u \<longleftrightarrow>
     (ac_adminRole cfg = '''' \<and> ac_adminGroupId cfg = '''') \<or>
     (ac_adminRole cfg \<noteq> '''' \<and> \<not> os_omitRoles st \<and> ac_adminRole cfg \<in> set (ou_roles u)) \<or>
     (ac_adminGroupId cfg \<noteq> '''' \<and> \<not> os_groupOverage st \<and> ac_adminGroupId cfg \<in> set (ou_groups u))"

lemma claimsFor_fixed:
  "map_of (claimsFor p st now u c n) ''iss'' = Some (JStr (oidc_issuer p))"
  "map_of (claimsFor p st now u c n) ''aud'' = Some (JStr c)"
  "map_of (claimsFor p st now u c n) ''exp'' = Some (JNum (of_int (epoch now) + os_lifetimeSec st))"
  by (simp_all add: claimsFor_def)

lemma claimsFor_lists:
  "claim_list ''roles'' (claimsFor p st now u c n) = (if os_omitRoles st then [] else map JStr (ou_roles u))"
  "claim_list ''groups'' (claimsFor p st now u c n) = (if os_groupOverage st then [] else map JStr (ou_groups u))"
  by (simp_all add: claimsFor_def claim_list_def as_array_def)

lemma claimsFor_access: "holds_access cfg (claimsFor p st now u c n) \<longleftrightarrow> may_enter cfg st u"
  by (auto simp: holds_access_def may_enter_def claimsFor_lists)

lemma claimsFor_overflow: "groups_overflowed (claimsFor p st now u c n) \<longleftrightarrow> os_groupOverage st"
  by (simp add: groups_overflowed_def claimsFor_def)

lemma users_found: "list_all (\<lambda>u. find_user (ou_upn u) = Some u \<and> ou_upn u \<noteq> '''') USERS"
  by code_simp

lemma find_listed_user: "u \<in> set USERS \<Longrightarrow> find_user (ou_upn u) = Some u \<and> ou_upn u \<noteq> ''''"
  using users_found by (simp add: list_all_iff)

text \<open>The query the browser brings: the parameters of the login route, and the account that is picked.\<close>

definition picked_query :: "auth_config \<Rightarrow> (string \<Rightarrow> string) \<Rightarrow> string \<Rightarrow> string \<Rightarrow> oidc_user \<Rightarrow> (string \<times> string) list" where
  "picked_query cfg sha256 sb vb u =
     form_decode (form_encode (login_params cfg (base64url sb) (base64url (sha256 (base64url vb))))) @ [(''user'', ou_upn u)]"

definition picked_entry :: "auth_config \<Rightarrow> (string \<Rightarrow> string) \<Rightarrow> string \<Rightarrow> oidc_user \<Rightarrow> code_entry" where
  "picked_entry cfg sha256 vb u =
     \<lparr>ce_user = u, ce_codeChallenge = base64url (sha256 (base64url vb)), ce_nonce = '''', ce_clientId = ac_clientId cfg,
      ce_redirectUri = redirectUri cfg\<rparr>"

lemma authorize_picked:
  assumes "u \<in> set USERS" and "sb \<noteq> []"
  shows "oidc_authorize uuid (picked_query cfg sha256 sb vb u) st =
    (SendBack (redirectUri cfg) [(''code'', uuid), (''state'', base64url sb)],
     st\<lparr>os_codes := AList.update uuid (picked_entry cfg sha256 vb u) (os_codes st)\<rparr>)"
  using find_listed_user[OF assms(1)] assms(2)
  by (simp add: oidc_authorize_def picked_query_def picked_entry_def form_roundtrip login_params_def redirectUri_def Let_def)

lemma token_picked:
  assumes "map_of (os_codes st) authCode = Some (picked_entry cfg sha256 vb u)" and "authCode \<noteq> ''''"
    and "\<not> os_failTokenExchange st" and "ac_clientId cfg \<noteq> ''''"
  shows "oidc_token p sign sha256 now (form_encode (token_request cfg authCode (base64url vb))) st =
    (let st' = st\<lparr>os_codes := AList.delete authCode (os_codes st)\<rparr> in
     (OidcJson 200 (token_reply p sign st' (claimsFor p st' now u (ac_clientId cfg) '''')), st'))"
  using assms
  by (simp add: oidc_token_def token_request_def form_roundtrip picked_entry_def or_else_def Let_def)

lemma token_reply_parses:
  assumes "os_lifetimeSec st = of_int l"
  shows "json_parse (json_stringify (token_reply p sign st cl)) = Some (token_reply p sign st cl)"
  by (rule json_roundtrip) (simp add: token_reply_def assms)

lemma redeemed_admits_iff:
  assumes redeemed: "redeems w authCode verifier cl" and "authCode \<noteq> ''''" "state \<noteq> ''''" "verifier \<noteq> ''''"
    and jar: "map_of jar ''cd_oauth_state'' = Some state" "map_of jar ''cd_oauth_verifier'' = Some verifier"
    and "sessionSecret (aw_env w) = Inr secret"
  shows "(\<exists>v. sets_session (callbackRoute w now [(''code'', authCode), (''state'', state)] jar) v) \<longleftrightarrow>
    holds_access (aw_cfg w) cl"
proof
  assume "holds_access (aw_cfg w) cl"
  from callback_admits[OF redeemed this assms(2-4) jar, of now] assms(7)
  show "\<exists>v. sets_session (callbackRoute w now [(''code'', authCode), (''state'', state)] jar) v"
    by (simp add: createSessionCookieValue_def)
next
  assume "\<exists>v. sets_session (callbackRoute w now [(''code'', authCode), (''state'', state)] jar) v"
  then obtain t s where ex: "exchangeCodeForTokens (aw_cfg w) (aw_fetch w) authCode verifier = Some (Inr t)"
      "sessionFromIdToken (aw_cfg w) (aw_verify_id w) t = Inr s"
    unfolding callback_sets_iff using jar by auto
  then obtain payload where "aw_verify_id w (jwksUri (aw_cfg w)) (issuer (aw_cfg w)) (ac_clientId (aw_cfg w)) t = Inr payload"
      "holds_access (aw_cfg w) payload"
    unfolding from_id_token_Inr by auto
  then show "holds_access (aw_cfg w) cl" using redeemed ex(1) unfolding redeems_iff by auto
qed

text \<open>
  C16: The dashboard and the provider together: whoever picks an account is signed in exactly when the configured
  role or group, if any, is among what the account's token carries, so a group that overflows or a role that is
  not issued shuts its holder out. The whole sign-in is run: the login route's address and cookies, the account
  picked, the code and state sent back, its redemption with the verifier, and the checks on the token.\<close>
theorem mock_sign_in:
  fixes w :: auth_world and p :: oidc_world and jar :: jar and st :: oidc_state and u :: oidc_user
    and uuid sb vb :: string and now :: time
  defines "cfg \<equiv> aw_cfg w"
  defines "cl \<equiv> claimsFor (ow_config p) st now u (ac_clientId cfg) ''''"
  defines "st1 \<equiv> snd (oidc_authorize uuid (picked_query cfg (ow_sha256 p) sb vb u) st)"
  defines "jar1 \<equiv> browser (loginRoute cfg (ow_sha256 p) sb vb) jar"
  assumes wiring: "ac_authority cfg = oc_base (ow_config p)" "ac_tenantId cfg = oc_tenant (ow_config p)"
      "aw_fetch w = answered_by p st1 now"
    and cfg: "\<not> ac_simMode cfg" "ac_tenantId cfg \<noteq> ''''" "ac_clientId cfg \<noteq> ''''" "sessionSecret (aw_env w) = Inr secret"
    and provider: "\<not> os_failTokenExchange st" "os_lifetimeSec st = of_int l" "0 < l" "u \<in> set USERS"
    and random: "uuid \<noteq> ''''" "sb \<noteq> []" "vb \<noteq> []"
    and jose: "\<And>e. map_of cl ''iss'' = Some (JStr (issuer cfg)) \<Longrightarrow> map_of cl ''aud'' = Some (JStr (ac_clientId cfg)) \<Longrightarrow>
        map_of cl ''exp'' = Some (JNum e) \<Longrightarrow> of_int (epoch now) < e \<Longrightarrow>
        aw_verify_id w (jwksUri cfg) (issuer cfg) (ac_clientId cfg) (JStr (ow_sign p cl)) = Inr cl"
      "ow_sign p cl \<noteq> ''''"
  shows "(\<exists>v. sets_session (callbackRoute w now [(''code'', uuid), (''state'', base64url sb)] jar1) v) \<longleftrightarrow> may_enter cfg st u"
proof -
  let ?st2 = "st1\<lparr>os_codes := AList.delete uuid (os_codes st1)\<rparr>"
  have st1: "st1 = st\<lparr>os_codes := AList.update uuid (picked_entry cfg (ow_sha256 p) vb u) (os_codes st)\<rparr>"
    using authorize_picked[OF provider(4) random(2)] by (simp add: st1_def)
  have cl: "claimsFor (ow_config p) (st\<lparr>os_codes := cs\<rparr>) now u (ac_clientId cfg) '''' = cl" for cs
    by (simp add: cl_def claimsFor_def)
  have url: "tokenUrl cfg = oc_base (ow_config p) @ tenant_path (ow_config p) ''/oauth2/v2.0/token''"
    by (simp add: tokenUrl_def wiring tenant_path_def)
  have "oidc_token (ow_config p) (ow_sign p) (ow_sha256 p) now (form_encode (token_request cfg uuid (base64url vb))) st1 =
      (OidcJson 200 (token_reply (ow_config p) (ow_sign p) ?st2 cl), ?st2)"
    using token_picked[of st1 uuid cfg "ow_sha256 p" vb u "ow_config p" "ow_sign p" now] st1 random(1) provider(1) cfg(3)
    by (simp add: update_conv' Let_def cl)
  then have fetch: "aw_fetch w (tokenUrl cfg) (form_encode (token_request cfg uuid (base64url vb))) =
      Some \<lparr>ta_status = 200, ta_body = Some (json_stringify (token_reply (ow_config p) (ow_sign p) ?st2 cl))\<rparr>"
    by (simp add: wiring(3) answered_by_def url starts_with_iff oidc_handle_def Let_def answer_of_def tenant_path_def)
  have "os_lifetimeSec ?st2 = of_int l" using st1 provider(2) by simp
  note parses = token_reply_parses[OF this, of "ow_config p" "ow_sign p" cl]
  have iss: "oidc_issuer (ow_config p) = issuer cfg"
    by (simp add: oidc_issuer_def issuer_def wiring)
  have "aw_verify_id w (jwksUri cfg) (issuer cfg) (ac_clientId cfg) (JStr (ow_sign p cl)) = Inr cl"
  proof (intro jose(1))
    show "of_int (epoch now) < (of_int (epoch now) + of_int l :: rat)" using provider(3) by simp
  qed (simp_all add: cl_def claimsFor_fixed iss provider(2))
  moreover have "jfield ''id_token'' (token_reply (ow_config p) (ow_sign p) ?st2 cl) = Some (JStr (ow_sign p cl))"
    by (simp add: token_reply_def)
  ultimately have redeemed: "redeems w uuid (base64url vb) cl"
    unfolding redeems_def using fetch parses jose(2) unfolding cfg_def by fastforce
  have jar1: "map_of jar1 ''cd_oauth_state'' = Some (base64url sb)" "map_of jar1 ''cd_oauth_verifier'' = Some (base64url vb)"
    using login_jar[OF cfg(1-3)] by (simp_all add: jar1_def)
  have access: "holds_access cfg cl \<longleftrightarrow> may_enter cfg st u"
    by (simp add: cl_def claimsFor_access)
  show ?thesis
    using redeemed_admits_iff[OF redeemed random(1) _ _ jar1 cfg(4), of now] random(2,3) access by (simp add: cfg_def)
qed


text \<open>Dana holds the role that is asked for, and is let in; were roles not issued, she would not be.\<close>

lemma mock_sign_in_witness:
  "\<exists>w v. sets_session (callbackRoute w 0 [(''code'', ''c1''), (''state'', base64url ''ss'')]
     (browser (loginRoute (aw_cfg w) id ''ss'' ''vv'') [])) v"
proof -
  let ?cfg = "authConfig ex_dash_env" and ?u = "hd USERS"
  let ?cl = "claimsFor \<lparr>oc_tenant = ac_tenantId ?cfg, oc_base = ac_authority ?cfg, oc_apiAudience = ''a''\<rparr> oidc_start 0 ?u ''c'' ''''"
  let ?p = "\<lparr>ow_config = \<lparr>oc_tenant = ac_tenantId ?cfg, oc_base = ac_authority ?cfg, oc_apiAudience = ''a''\<rparr>,
      ow_sign = (\<lambda>_. ''jwt''), ow_sha256 = id, ow_jwk = JNull\<rparr>"
  let ?st1 = "snd (oidc_authorize ''c1'' (picked_query ?cfg id ''ss'' ''vv'' ?u) oidc_start)"
  let ?w = "ex_auth_world\<lparr>aw_fetch := answered_by ?p ?st1 0,
      aw_verify_id := (\<lambda>_ _ _ t. if t = JStr ''jwt'' then Inr ?cl else Inl (Some ''bad signature''))\<rparr>"
  have "may_enter ?cfg oidc_start ?u"
    by (simp add: may_enter_def ex_env oidc_start_def USERS_def)
  moreover have "?u \<in> set USERS" by (simp add: USERS_def)
  ultimately have "\<exists>v. sets_session (callbackRoute ?w 0 [(''code'', ''c1''), (''state'', base64url ''ss'')]
      (browser (loginRoute (aw_cfg ?w) id ''ss'' ''vv'') [])) v"
    using mock_sign_in[of ?w ?p "''c1''" "''ss''" "''vv''" ?u oidc_start 0 ex_secret 3600 "[]"]
    by (simp add: ex_env oidc_start_def)
  then show ?thesis by blast
qed

end
