(* ===== verification/MockModel.thy ===== *)
theory MockModel
  imports JsonFacts Adapter Reconcile Logs Session
begin

text \<open>
  The model server the stack is tested with, \<open>mock-model/server.js\<close>: its configuration, faults, readiness
  gate, replies, log buffer and routes, and the generations it runs side by side. What it streams is read by
  the backend client of \<open>Adapter\<close>, its log by the log panel of \<open>Logs\<close> and its health by the probe of
  \<open>Reconcile\<close>; the theorems are about those pairs.

  The clock, the printed time and the random draws are arguments. The sine of the embeddings, rounded to six
  places, is a parameter. A connection is a flag: whether the peer is still there when a sleep ends.
\<close>

section \<open>Configuration\<close>

definition num :: "env \<Rightarrow> string \<Rightarrow> rat \<Rightarrow> rat" where
  "num env name fallback =
     (case env name of
        None \<Rightarrow> fallback
      | Some raw \<Rightarrow> if raw = '''' then fallback else nullish (js_number raw) fallback)"

record mock_config =
  mc_modelId :: string
  mc_capabilities :: "string list"
  mc_embeddingDim :: rat

definition mock_config_of :: "env \<Rightarrow> mock_config" where
  "mock_config_of env =
     \<lparr>mc_modelId = nullish (env ''MODEL_ID'') ''mock-model'',
      mc_capabilities =
        filter (\<lambda>c. c \<noteq> '''') (map trim (split_on (CHR '','') (nullish (env ''CAPABILITIES'') ''chat,tools''))),
      mc_embeddingDim = num env ''EMBEDDING_DIM'' 16\<rparr>"

record mock_switches =
  sw_tokensPerSec :: rat
  sw_maxConcurrency :: rat
  sw_stallProbability :: rat
  sw_errorProbability :: rat
  sw_replyMinTokens :: rat
  sw_replyMaxTokens :: rat
  sw_readyAt :: rat
  sw_forceReady :: bool

definition mock_switches_of :: "env \<Rightarrow> time \<Rightarrow> mock_switches" where
  "mock_switches_of env now =
     \<lparr>sw_tokensPerSec = num env ''TOKENS_PER_SEC'' 40, sw_maxConcurrency = num env ''MAX_CONCURRENCY'' 4,
      sw_stallProbability = num env ''STALL_PROBABILITY'' 0, sw_errorProbability = num env ''ERROR_PROBABILITY'' 0,
      sw_replyMinTokens = num env ''REPLY_MIN_TOKENS'' 12, sw_replyMaxTokens = num env ''REPLY_MAX_TOKENS'' 48,
      sw_readyAt = of_int now + num env ''LOAD_DELAY_MS'' 0, sw_forceReady = False\<rparr>"

record mock_stats =
  mt_chat :: nat
  mt_embeddings :: nat
  mt_stalled :: nat
  mt_errored :: nat
  mt_rejected :: nat

text \<open>
  The process: switches, counters, generations in flight, the log buffer, and the followers of the log with
  the text each has been written.
\<close>

record mock_server =
  mk_switches :: mock_switches
  mk_stats :: mock_stats
  mk_inFlight :: int
  mk_log :: "json list"
  mk_followers :: "(nat \<times> string list) list"

definition mock_start :: "env \<Rightarrow> time \<Rightarrow> mock_server" where
  "mock_start env now =
     \<lparr>mk_switches = mock_switches_of env now,
      mk_stats = \<lparr>mt_chat = 0, mt_embeddings = 0, mt_stalled = 0, mt_errored = 0, mt_rejected = 0\<rparr>,
      mk_inFlight = 0, mk_log = [], mk_followers = []\<rparr>"

section \<open>The log\<close>

definition LOG_BUFFER_MAX :: nat where
  "LOG_BUFFER_MAX = 500"

definition mock_line :: "mock_config \<Rightarrow> string \<Rightarrow> level \<Rightarrow> string \<Rightarrow> json" where
  "mock_line cfg ts lv message =
     JObj [(''ts'', JStr ts), (''level'', JStr (level_text lv)), (''source'', JStr (mc_modelId cfg)), (''message'', JStr message)]"

definition sse_frame :: "json \<Rightarrow> string" where
  "sse_frame v = ''data: '' @ json_stringify v @ blank_line"

definition push_line :: "json \<Rightarrow> mock_server \<Rightarrow> mock_server" where
  "push_line line s =
     (let buffer = mk_log s @ [line] in
      s\<lparr>mk_log := (if LOG_BUFFER_MAX < length buffer then tl buffer else buffer),
        mk_followers := map (\<lambda>(i, ws). (i, ws @ [sse_frame line])) (mk_followers s)\<rparr>)"

definition emit_log :: "mock_config \<Rightarrow> string \<Rightarrow> level \<Rightarrow> string \<Rightarrow> mock_server \<Rightarrow> mock_server" where
  "emit_log cfg ts lv message = push_line (mock_line cfg ts lv message)"

text \<open>\<open>xs.slice(-tail)\<close>: a negative number of lines leaves out as many from the front instead.\<close>

definition slice_last :: "rat \<Rightarrow> 'a list \<Rightarrow> 'a list" where
  "slice_last tail xs =
     (if 0 < tail then (let n = nat \<lfloor>tail\<rfloor> in if n = 0 then xs else drop (length xs - n) xs)
      else drop (nat \<lfloor>- tail\<rfloor>) xs)"

text \<open>\<open>Math.min(Number(tail ?? 50) || 50, LOG_BUFFER_MAX)\<close>; an infinite number is no \<open>rat\<close> and capped here.\<close>

definition mock_tail :: "string option \<Rightarrow> rat" where
  "mock_tail q =
     (let bound = of_nat LOG_BUFFER_MAX in
      case map_option trim q of
        None \<Rightarrow> min 50 bound
      | Some s \<Rightarrow>
          if s = ''Infinity'' \<or> s = ''+Infinity'' then bound
          else if s = ''-Infinity'' then - bound
          else min (tail_param (Some s)) bound)"

section \<open>Answers\<close>

datatype mock_reply = MockJson nat json

definition mock_error :: "nat \<Rightarrow> string \<Rightarrow> string \<Rightarrow> string \<Rightarrow> mock_server \<Rightarrow> mock_reply \<times> mock_server" where
  "mock_error status typ errorCode message s =
     (MockJson status (JObj [(''error'',
        JObj [(''type'', JStr typ), (''code'', JStr errorCode), (''message'', JStr message)])]),
      s\<lparr>mk_stats := (mk_stats s)\<lparr>mt_errored := mt_errored (mk_stats s) + 1\<rparr>\<rparr>)"

text \<open>The body: an empty object when nothing was sent, nothing when it is not JSON or is null.\<close>

definition mock_body :: "string \<Rightarrow> json option" where
  "mock_body raw = (if raw = '''' then Some (JObj []) else non_null (json_parse raw))"

definition isReady :: "time \<Rightarrow> mock_server \<Rightarrow> bool" where
  "isReady now s \<longleftrightarrow> sw_forceReady (mk_switches s) \<or> sw_readyAt (mk_switches s) \<le> of_int now"

definition image_part :: "json \<Rightarrow> bool" where
  "image_part p \<longleftrightarrow> jfield ''type'' p = Some (JStr ''image_url'') \<or> jfield ''type'' p = Some (JStr ''image'')"

definition hasImage :: "json list \<Rightarrow> bool" where
  "hasImage messages =
     list_ex (\<lambda>m. list_ex image_part (nullish (as_array (jfield ''content'' m)) [])) messages"

definition message_text :: "json \<Rightarrow> string" where
  "message_text m =
     (case jfield ''content'' m of
        Some (JStr s) \<Rightarrow> s
      | Some (JArr ps) \<Rightarrow> join '' '' (map (\<lambda>p. nullish (as_string (jfield ''text'' p)) '''') ps)
      | _ \<Rightarrow> '''')"

definition promptTextOf :: "json list \<Rightarrow> string" where
  "promptTextOf messages = join [CHR 0x0A] (map message_text messages)"

section \<open>The reply\<close>

function pad_reply :: "string list \<Rightarrow> nat \<Rightarrow> string list \<Rightarrow> rat \<Rightarrow> string list" where
  "pad_reply filler i tokens target =
     (if of_nat (length tokens) < target
      then pad_reply filler (i + 1) (tokens @ [filler ! (i mod length filler)]) target
      else tokens)"
  by pat_completeness auto
termination
proof (relation "measure (\<lambda>(filler, i, tokens, target). nat \<lceil>target\<rceil> - length tokens)")
  fix filler :: "string list" and i and tokens :: "string list" and target :: rat
  assume "of_nat (length tokens) < target"
  then have "int (length tokens) < \<lceil>target\<rceil>"
    by (simp add: less_ceiling_iff)
  then show "((filler, i + 1, tokens @ [filler ! (i mod length filler)], target), filler, i, tokens, target) \<in>
      measure (\<lambda>(filler, i, tokens, target). nat \<lceil>target\<rceil> - length tokens)"
    by simp
qed simp

declare pad_reply.simps [simp del]

definition reply_filler :: "string \<Rightarrow> string list" where
  "reply_filler promptText =
     [''This'', ''is'', ''synthetic'', ''output'', ''produced'', ''by'', ''the'', ''mock'',
      ''model'', ''replica'', ''for'', ''routing'', ''and'', ''audit'', ''verification.'',
      ''The'', ''prompt'', ''was'',
      (let s = take 40 (trim promptText) in if s \<noteq> '''' then s else ''(empty)'') @ ''.'']"

definition reply_target :: "mock_switches \<Rightarrow> rat \<Rightarrow> rat" where
  "reply_target sw r =
     (let lo = max 2 (sw_replyMinTokens sw); hi = max lo (sw_replyMaxTokens sw) in
      lo + of_int \<lfloor>r * (hi - lo + 1)\<rfloor>)"

definition buildReply :: "mock_config \<Rightarrow> mock_switches \<Rightarrow> rat \<Rightarrow> string \<Rightarrow> string list" where
  "buildReply cfg sw r promptText =
     (let target = reply_target sw r in
      take (nat \<lfloor>target\<rfloor>)
        (pad_reply (reply_filler promptText) 0 [''Hello'', ''world'', ''from'', mc_modelId cfg @ ''.''] target))"

section \<open>Chat\<close>

text \<open>
  A generation: its tokens, where it goes silent if it does, whether it streams, the pause before a token, the
  size of the prompt, and the index of its next token.
\<close>

record mock_job =
  jb_tokens :: "string list"
  jb_stallAt :: "nat option"
  jb_stream :: bool
  jb_perTokenMs :: rat
  jb_promptTokens :: int
  jb_next :: nat

datatype chat_start =
    Refused mock_reply
  | Generates mock_job

definition capacity_text :: "mock_server \<Rightarrow> string" where
  "capacity_text s = show_int (mk_inFlight s) @ ''/'' @ show_num (sw_maxConcurrency (mk_switches s))"

definition stall_index :: "mock_switches \<Rightarrow> (nat \<Rightarrow> rat) \<Rightarrow> string list \<Rightarrow> nat option" where
  "stall_index sw rand tokens =
     (if rand 2 < sw_stallProbability sw then Some (1 + nat \<lfloor>rand 3 * of_nat (max 1 (length tokens - 1))\<rfloor>) else None)"

definition mock_job_of :: "mock_config \<Rightarrow> mock_switches \<Rightarrow> (nat \<Rightarrow> rat) \<Rightarrow> json \<Rightarrow> json list \<Rightarrow> mock_job" where
  "mock_job_of cfg sw rand body messages =
     (let tokens = buildReply cfg sw (rand 1) (promptTextOf messages) in
      \<lparr>jb_tokens = tokens, jb_stallAt = stall_index sw rand tokens,
       jb_stream = js_truthy (nullish (jfield ''stream'' body) JNull),
       jb_perTokenMs = 1000 / max 1 (sw_tokensPerSec sw),
       jb_promptTokens = \<lceil>of_nat (length (promptTextOf messages)) / (4 :: rat)\<rceil>, jb_next = 0\<rparr>)"

definition refused :: "mock_reply \<times> mock_server \<Rightarrow> chat_start \<times> mock_server" where
  "refused a = (Refused (fst a), snd a)"

definition handleChat ::
  "mock_config \<Rightarrow> string \<Rightarrow> (nat \<Rightarrow> rat) \<Rightarrow> json \<Rightarrow> mock_server \<Rightarrow> chat_start \<times> mock_server" where
  "handleChat cfg ts rand body s =
     (let messages = nullish (as_array (jfield ''messages'' body)) [];
          tools = nullish (as_array (jfield ''tools'' body)) [];
          sw = mk_switches s; who = quoted (mc_modelId cfg) in
      if messages = [] then
        refused (mock_error 400 ''invalid_request_error'' ''invalid_request'' ''messages[] is required.'' s)
      else if hasImage messages \<and> ''vision'' \<notin> set (mc_capabilities cfg) then
        refused (mock_error 400 ''invalid_request_error'' ''capability_mismatch''
          (''Model '' @ who @ '' has no vision capability but the request contains an image.'') s)
      else if tools \<noteq> [] \<and> ''tools'' \<notin> set (mc_capabilities cfg) then
        refused (mock_error 400 ''invalid_request_error'' ''capability_mismatch''
          (''Model '' @ who @ '' has no tools capability but the request supplies tools[].'') s)
      else if sw_maxConcurrency sw \<le> of_int (mk_inFlight s) then
        (let limit = show_num (sw_maxConcurrency sw);
             s1 = s\<lparr>mk_stats := (mk_stats s)\<lparr>mt_rejected := mt_rejected (mk_stats s) + 1\<rparr>\<rparr> in
         refused (mock_error 503 ''capacity_error'' ''replica_unavailable''
           (''Replica for '' @ who @ '' is at its concurrency limit ('' @ limit @ '').'')
           (emit_log cfg ts WarnLevel (''rejected: at concurrency limit '' @ limit) s1)))
      else if rand 0 < sw_errorProbability sw then
        refused (mock_error 500 ''server_error'' ''replica_unavailable''
          (''Injected fault: replica for '' @ who @ '' failed to generate.'')
          (emit_log cfg ts ErrorLevel ''injected fault: generation failed'' s))
      else
        (let s1 = s\<lparr>mk_inFlight := mk_inFlight s + 1, mk_stats := (mk_stats s)\<lparr>mt_chat := mt_chat (mk_stats s) + 1\<rparr>\<rparr> in
         (Generates (mock_job_of cfg sw rand body messages),
          emit_log cfg ts InfoLevel (''chat request accepted, in_flight='' @ capacity_text s1) s1)))"

text \<open>The \<open>finally\<close> of a generation, on every way out of it.\<close>

definition finish_chat :: "mock_config \<Rightarrow> string \<Rightarrow> mock_server \<Rightarrow> mock_server" where
  "finish_chat cfg ts s =
     (let s1 = s\<lparr>mk_inFlight := mk_inFlight s - 1\<rparr> in
      emit_log cfg ts DebugLevel (''request finished, in_flight='' @ capacity_text s1) s1)"

definition chunk_json :: "mock_config \<Rightarrow> (string \<times> json) list \<Rightarrow> json \<Rightarrow> json" where
  "chunk_json cfg delta finish =
     JObj [(''id'', JStr (''chatcmpl-'' @ mc_modelId cfg)), (''object'', JStr ''chat.completion.chunk''),
       (''model'', JStr (mc_modelId cfg)),
       (''choices'', JArr [JObj [(''index'', JNum 0), (''delta'', JObj delta), (''finish_reason'', finish)]])]"

definition token_frame :: "mock_config \<Rightarrow> string \<Rightarrow> string" where
  "token_frame cfg token = sse_frame (chunk_json cfg [(''content'', JStr (token @ '' ''))] JNull)"

definition last_frames :: "mock_config \<Rightarrow> string list" where
  "last_frames cfg = [sse_frame (chunk_json cfg [] (JStr ''stop'')), ''data: [DONE]'' @ blank_line]"

definition mock_completion :: "mock_config \<Rightarrow> mock_job \<Rightarrow> json" where
  "mock_completion cfg j =
     (let n = of_nat (length (jb_tokens j)); p = of_int (jb_promptTokens j) in
      JObj [(''id'', JStr (''chatcmpl-'' @ mc_modelId cfg)), (''object'', JStr ''chat.completion''),
        (''model'', JStr (mc_modelId cfg)),
        (''choices'', JArr [JObj [(''index'', JNum 0),
           (''message'', JObj [(''role'', JStr ''assistant''), (''content'', JStr (join '' '' (jb_tokens j)))]),
           (''finish_reason'', JStr ''stop'')]]),
        (''usage'', JObj [(''prompt_tokens'', JNum p), (''completion_tokens'', JNum n), (''total_tokens'', JNum (p + n))])])"

text \<open>
  One turn of the loop of a generation, from its head to its head: what it writes, and the generation
  unless it has ended. A buffered reply is written in one turn.
\<close>

definition chat_turn ::
  "mock_config \<Rightarrow> string \<Rightarrow> bool \<Rightarrow> mock_job \<Rightarrow> mock_server \<Rightarrow> string list \<times> mock_job option \<times> mock_server" where
  "chat_turn cfg ts gone j s =
     (if \<not> jb_stream j then ([json_stringify (mock_completion cfg j)], None, finish_chat cfg ts s)
      else if jb_next j < length (jb_tokens j) then
        (if jb_stallAt j = Some (jb_next j) then
           ([], None, finish_chat cfg ts
              (emit_log cfg ts WarnLevel
                 (''generation stalled after '' @ digits_of (jb_next j) @ '' tokens; holding the connection open'')
                 (s\<lparr>mk_stats := (mk_stats s)\<lparr>mt_stalled := mt_stalled (mk_stats s) + 1\<rparr>\<rparr>)))
         else if gone then ([], None, finish_chat cfg ts s)
         else ([token_frame cfg (jb_tokens j ! jb_next j)], Some (j\<lparr>jb_next := jb_next j + 1\<rparr>), s))
      else (last_frames cfg, None, finish_chat cfg ts s))"

section \<open>Embeddings\<close>

definition text_seed :: "string \<Rightarrow> nat" where
  "text_seed s = sum_list (map code s)"

definition handleEmbeddings ::
  "mock_config \<Rightarrow> (nat \<Rightarrow> rat) \<Rightarrow> string \<Rightarrow> json \<Rightarrow> mock_server \<Rightarrow> mock_reply \<times> mock_server" where
  "handleEmbeddings cfg sine ts body s =
     (if ''embeddings'' \<notin> set (mc_capabilities cfg) then
        mock_error 400 ''invalid_request_error'' ''capability_mismatch''
          (''Model '' @ quoted (mc_modelId cfg) @ '' has no embeddings capability.'') s
      else (case non_null (jfield ''input'' body) of
        None \<Rightarrow> mock_error 400 ''invalid_request_error'' ''invalid_request'' ''input is required.'' s
      | Some input \<Rightarrow>
          if input = JStr '''' then
            mock_error 400 ''invalid_request_error'' ''invalid_request'' ''input is required.'' s
          else
            (let inputs = (case input of JArr xs \<Rightarrow> xs | v \<Rightarrow> [v]);
                 s1 = emit_log cfg ts InfoLevel (''embedding request for '' @ digits_of (length inputs) @ '' input(s)'')
                   (s\<lparr>mk_stats := (mk_stats s)\<lparr>mt_embeddings := mt_embeddings (mk_stats s) + 1\<rparr>\<rparr>);
                 vector = (\<lambda>v. JArr (map (\<lambda>i. JNum (sine (text_seed (js_string v) + i))) [0..<nat \<lfloor>mc_embeddingDim cfg\<rfloor>]));
                 datum = (\<lambda>(index, v). JObj [(''object'', JStr ''embedding''), (''index'', JNum (of_nat index)),
                   (''embedding'', vector v)]);
                 promptTokens = sum_list (map (\<lambda>v. \<lceil>of_nat (length (js_string v)) / (4 :: rat)\<rceil>) inputs)
             in (MockJson 200 (JObj [(''object'', JStr ''list''), (''model'', JStr (mc_modelId cfg)),
                   (''data'', JArr (map datum (enumerate 0 inputs))),
                   (''usage'', JObj [(''prompt_tokens'', JNum (of_int promptTokens)),
                      (''total_tokens'', JNum (of_int promptTokens))])]), s1))))"

section \<open>Routes\<close>

record mock_request =
  mq_method :: string
  mq_path :: string
  mq_query :: "(string \<times> string) list"
  mq_body :: string

datatype mock_outcome =
    Answered mock_reply
  | Following
  | Generating mock_job

definition switches_json :: "mock_switches \<Rightarrow> json" where
  "switches_json sw =
     JObj [(''tokensPerSec'', JNum (sw_tokensPerSec sw)), (''maxConcurrency'', JNum (sw_maxConcurrency sw)),
       (''stallProbability'', JNum (sw_stallProbability sw)), (''errorProbability'', JNum (sw_errorProbability sw)),
       (''replyMinTokens'', JNum (sw_replyMinTokens sw)), (''replyMaxTokens'', JNum (sw_replyMaxTokens sw)),
       (''readyAt'', JNum (sw_readyAt sw)), (''forceReady'', JBool (sw_forceReady sw))]"

definition stats_json :: "mock_stats \<Rightarrow> json" where
  "stats_json t =
     JObj [(''chat'', JNum (of_nat (mt_chat t))), (''embeddings'', JNum (of_nat (mt_embeddings t))),
       (''stalled'', JNum (of_nat (mt_stalled t))), (''errored'', JNum (of_nat (mt_errored t))),
       (''rejected'', JNum (of_nat (mt_rejected t)))]"

definition health_reply :: "mock_config \<Rightarrow> time \<Rightarrow> mock_server \<Rightarrow> mock_reply" where
  "health_reply cfg now s =
     (let ready = isReady now s in
      MockJson (if ready then 200 else 503)
        (JObj [(''status'', JStr (if ready then ''ready'' else ''loading'')), (''model'', JStr (mc_modelId cfg)),
          (''capabilities'', JArr (map JStr (mc_capabilities cfg))), (''inFlight'', JNum (of_int (mk_inFlight s))),
          (''maxConcurrency'', JNum (sw_maxConcurrency (mk_switches s))),
          (''msUntilReady'', JNum (if ready then 0 else sw_readyAt (mk_switches s) - of_int now))]))"

text \<open>The follower is first written the end of the buffer, then whatever is emitted.\<close>

definition attach :: "nat \<Rightarrow> rat \<Rightarrow> mock_server \<Rightarrow> mock_server" where
  "attach i tail s =
     s\<lparr>mk_followers := mk_followers s @ [(i, map sse_frame (slice_last tail (mk_log s)))]\<rparr>"

definition detach :: "nat \<Rightarrow> mock_server \<Rightarrow> mock_server" where
  "detach i s = s\<lparr>mk_followers := filter (\<lambda>(k, ws). k \<noteq> i) (mk_followers s)\<rparr>"

definition keep_alive :: "nat \<Rightarrow> mock_server \<Rightarrow> mock_server" where
  "keep_alive i s =
     s\<lparr>mk_followers := map (\<lambda>(k, ws). (k, if k = i then ws @ ['': keep-alive'' @ blank_line] else ws)) (mk_followers s)\<rparr>"

definition num_switch :: "string \<Rightarrow> json \<Rightarrow> rat \<Rightarrow> rat" where
  "num_switch k body old = nullish (as_number (jfield k body)) old"

definition apply_control :: "time \<Rightarrow> json \<Rightarrow> mock_switches \<Rightarrow> mock_switches" where
  "apply_control now body sw =
     (let sw1 = sw\<lparr>sw_tokensPerSec := num_switch ''tokensPerSec'' body (sw_tokensPerSec sw),
            sw_maxConcurrency := num_switch ''maxConcurrency'' body (sw_maxConcurrency sw),
            sw_stallProbability := num_switch ''stallProbability'' body (sw_stallProbability sw),
            sw_errorProbability := num_switch ''errorProbability'' body (sw_errorProbability sw),
            sw_replyMinTokens := num_switch ''replyMinTokens'' body (sw_replyMinTokens sw),
            sw_replyMaxTokens := num_switch ''replyMaxTokens'' body (sw_replyMaxTokens sw)\<rparr>;
          sw2 = (case jfield ''forceReady'' body of Some (JBool b) \<Rightarrow> sw1\<lparr>sw_forceReady := b\<rparr> | _ \<Rightarrow> sw1)
      in (case as_number (jfield ''loadDelayMs'' body) of
            None \<Rightarrow> sw2
          | Some ms \<Rightarrow> sw2\<lparr>sw_readyAt := of_int now + ms, sw_forceReady := False\<rparr>))"

definition answered :: "mock_reply \<times> mock_server \<Rightarrow> mock_outcome \<times> mock_server" where
  "answered a = (Answered (fst a), snd a)"

definition bad_body :: "mock_server \<Rightarrow> mock_outcome \<times> mock_server" where
  "bad_body s = answered (mock_error 400 ''invalid_request_error'' ''invalid_request'' ''Body must be valid JSON.'' s)"

text \<open>One request. \<open>i\<close> names the follower it may become.\<close>

definition mock_handle ::
  "mock_config \<Rightarrow> (nat \<Rightarrow> rat) \<Rightarrow> time \<Rightarrow> string \<Rightarrow> (nat \<Rightarrow> rat) \<Rightarrow> nat \<Rightarrow> mock_request \<Rightarrow> mock_server \<Rightarrow>
     mock_outcome \<times> mock_server" where
  "mock_handle cfg sine now ts rand i r s =
     (let get = (mq_method r = ''GET''); post = (mq_method r = ''POST''); path = mq_path r; body = mock_body (mq_body r) in
      if get \<and> (path = ''/health'' \<or> path = ''/healthz'') then (Answered (health_reply cfg now s), s)
      else if get \<and> path = ''/v1/models'' then
        (Answered (MockJson 200 (JObj [(''object'', JStr ''list''),
           (''data'', JArr [JObj [(''id'', JStr (mc_modelId cfg)), (''object'', JStr ''model''),
              (''capabilities'', JArr (map JStr (mc_capabilities cfg)))]])])), s)
      else if get \<and> path = ''/logs'' then
        (let tail = mock_tail (map_of (mq_query r) ''tail'') in
         if map_of (mq_query r) ''follow'' = Some ''false''
         then (Answered (MockJson 200 (JObj [(''lines'', JArr (slice_last tail (mk_log s)))])), s)
         else (Following, attach i tail s))
      else if get \<and> (path = ''/_stats'' \<or> path = ''/_control'') then
        (Answered (MockJson 200 (JObj [(''model'', JStr (mc_modelId cfg)), (''ready'', JBool (isReady now s)),
           (''inFlight'', JNum (of_int (mk_inFlight s))), (''stats'', stats_json (mk_stats s)),
           (''state'', switches_json (mk_switches s))])), s)
      else if post \<and> path = ''/_control'' then
        (case body of
           None \<Rightarrow> bad_body s
         | Some b \<Rightarrow>
             let s1 = s\<lparr>mk_switches := apply_control now b (mk_switches s)\<rparr> in
             (Answered (MockJson 200 (JObj [(''ok'', JBool True), (''state'', switches_json (mk_switches s1))])), s1))
      else if \<not> isReady now s then
        answered (mock_error 503 ''capacity_error'' ''replica_unavailable''
          (''Replica for '' @ quoted (mc_modelId cfg) @ '' is still loading model weights.'') s)
      else if post \<and> path = ''/v1/chat/completions'' then
        (case body of
           None \<Rightarrow> bad_body s
         | Some b \<Rightarrow>
             (case handleChat cfg ts rand b s of
                (Refused a, s1) \<Rightarrow> (Answered a, s1)
              | (Generates j, s1) \<Rightarrow> (Generating j, s1)))
      else if post \<and> path = ''/v1/embeddings'' then
        (case body of None \<Rightarrow> bad_body s | Some b \<Rightarrow> answered (handleEmbeddings cfg sine ts b s))
      else answered (mock_error 404 ''invalid_request_error'' ''not_found''
        (''No route for '' @ mq_method r @ '' '' @ path @ ''.'') s))"

section \<open>Generations side by side\<close>

text \<open>
  A connection that was accepted for a generation: what was asked of it, what is left of it, and what it has
  been written. The server may take a request, a loop may take a turn, a follower may leave.
\<close>

record mock_conn =
  cn_first :: mock_job
  cn_left :: "mock_job option"
  cn_written :: "string list"

type_synonym mock_world = "mock_server \<times> mock_conn list"

definition open_conn :: "mock_outcome \<Rightarrow> mock_conn list" where
  "open_conn a = (case a of Generating j \<Rightarrow> [\<lparr>cn_first = j, cn_left = Some j, cn_written = []\<rparr>] | _ \<Rightarrow> [])"

inductive mock_step :: "mock_config \<Rightarrow> (nat \<Rightarrow> rat) \<Rightarrow> mock_world \<Rightarrow> mock_world \<Rightarrow> bool" for cfg sine where
  request: "mock_handle cfg sine now ts rand i r s = (a, s') \<Longrightarrow> (\<And>k. 0 \<le> rand k \<and> rand k < 1) \<Longrightarrow>
    mock_step cfg sine (s, cs) (s', cs @ open_conn a)"
| turn: "k < length cs \<Longrightarrow> cn_left (cs ! k) = Some j \<Longrightarrow> chat_turn cfg ts gone j s = (ws, left, s') \<Longrightarrow>
    mock_step cfg sine (s, cs) (s', cs[k := (cs ! k)\<lparr>cn_left := left, cn_written := cn_written (cs ! k) @ ws\<rparr>])"
| detach: "mock_step cfg sine (s, cs) (detach i s, cs)"
| keep_alive: "mock_step cfg sine (s, cs) (keep_alive i s, cs)"
| emit_log: "mock_step cfg sine (s, cs) (emit_log cfg ts lv message s, cs)"

abbreviation mock_run :: "mock_config \<Rightarrow> (nat \<Rightarrow> rat) \<Rightarrow> mock_world \<Rightarrow> mock_world \<Rightarrow> bool" where
  "mock_run cfg sine \<equiv> (mock_step cfg sine)\<^sup>*\<^sup>*"

definition running :: "mock_conn list \<Rightarrow> nat" where
  "running cs = length (filter (\<lambda>c. cn_left c \<noteq> None) cs)"

section \<open>Facts: printed values stay on their line\<close>

lemma newline_not_digit: "\<not> is_digit (CHR 0x0A)"
  by (simp add: is_digit_def code_def)

lemma digits_no_newline: "CHR 0x0A \<notin> set (digits_of n)"
  using digits_of_digits[of "CHR 0x0A" n] newline_not_digit by blast

lemma hex_digit_no_newline: "k < 16 \<Longrightarrow> hex_digit k \<noteq> CHR 0x0A"
  using hex_value_digit[of k] by (auto simp: hex_value_def code_def Let_def)

lemma escape_no_newline: "CHR 0x0A \<notin> set (escape_char c)"
proof -
  have "code c = 10" if "c = CHR 0x0A" using that by (simp add: code_def)
  moreover have "hex_digit (code c mod 16) \<noteq> CHR 0x0A" "code c < 32 \<Longrightarrow> hex_digit (code c div 16) \<noteq> CHR 0x0A"
    by (simp_all add: hex_digit_no_newline)
  ultimately show ?thesis
    by (auto simp: escape_char_def Let_def dest!: sym[of "CHR 0x0A"])
qed

lemma quote_no_newline: "CHR 0x0A \<notin> set (quote_string s)"
  using escape_no_newline by (auto simp: quote_string_def)

lemma set_join: "set (join sep ws) \<subseteq> set sep \<union> \<Union> (set ` set ws)"
  by (induction sep ws rule: join.induct) auto

lemma stringify_no_newline: "json_ok v \<Longrightarrow> CHR 0x0A \<notin> set (json_stringify v)"
proof (induction v)
  case (JNum q)
  then obtain i where "q = of_int i" by auto
  then show ?case using digits_no_newline by (simp add: show_num_int)
next
  case (JArr xs)
  then show ?case
    using set_join[of "'',''" "map json_stringify xs"] by (auto simp: list_all_iff)
next
  case (JObj kvs)
  have "CHR 0x0A \<notin> set (quote_string (fst kv) @ '':'' @ json_stringify (snd kv))" if "kv \<in> set kvs" for kv
  proof -
    have "CHR 0x0A \<notin> set (json_stringify (snd kv))"
      using JObj that by (cases kv) (auto simp: list_all_iff snds.simps intro: JObj.IH)
    then show ?thesis using quote_no_newline by simp
  qed
  then show ?case
    using set_join[of "'',''" "map (\<lambda>(k, v). quote_string k @ '':'' @ json_stringify v) kvs"] by auto
next
  case (JStr s)
  then show ?case using quote_no_newline by simp
qed simp_all

lemma trim_object: "trim (CHR '' '' # json_stringify (JObj kvs)) = json_stringify (JObj kvs)"
  by (simp add: trim_def trim_start_def trim_end_def is_ws_def code_def Let_def)

text \<open>A frame, read line by line: its value, then two lines to skip.\<close>

lemma frame_line: "sse_frame v = (''data: '' @ json_stringify v) @ CHR 0x0A # [CHR 0x0A]"
  by (simp add: sse_frame_def blank_line_def)

lemma frame_read:
  assumes "json_ok (JObj kvs)"
  shows "read_line (''data: '' @ json_stringify (JObj kvs)) = Frame (JObj kvs)"
proof -
  have "json_stringify (JObj kvs) \<noteq> ''[DONE]''" by simp
  then show ?thesis
    using json_roundtrip[OF assms] trim_object[of kvs] by (simp add: read_line_def Let_def del: json_stringify.simps)
qed

lemma lines_of_frame:
  assumes "json_ok (JObj kvs)"
  shows "lines_of_reads [sse_frame (JObj kvs) @ rest] = Frame (JObj kvs) # Skip # lines_of_reads [rest]"
proof -
  have "Adapter.newline \<notin> set (''data: '' @ json_stringify (JObj kvs))"
    using stringify_no_newline[OF assms] by (simp add: Adapter.newline_def)
  from lines_of_read_head[OF this, of "CHR 0x0A # rest"] lines_of_read_head[of "[]" rest] frame_read[OF assms]
  show ?thesis by (simp add: frame_line read_line_Nil Adapter.newline_def del: json_stringify.simps)
qed

section \<open>Facts: the reply\<close>

lemma pad_reply_long:
  "filler \<noteq> [] \<Longrightarrow> \<lfloor>target\<rfloor> \<le> int (length (pad_reply filler i tokens target)) \<and>
    (\<exists>more. pad_reply filler i tokens target = tokens @ more)"
proof (induction filler i tokens target rule: pad_reply.induct)
  case (1 filler i tokens target)
  show ?case
  proof (cases "of_nat (length tokens) < target")
    case True
    then show ?thesis using 1 by (subst (1 2) pad_reply.simps) auto
  next
    case False
    then have "\<lfloor>target\<rfloor> \<le> int (length tokens)" by (simp add: floor_le_iff)
    then show ?thesis using False by (subst (1 2) pad_reply.simps) simp
  qed
qed

lemma reply_target_bounds:
  assumes "0 \<le> r" "r < 1"
  shows "max 2 (sw_replyMinTokens sw) \<le> reply_target sw r"
    "reply_target sw r < max (max 2 (sw_replyMinTokens sw)) (sw_replyMaxTokens sw) + 1"
proof -
  define lo where "lo = max 2 (sw_replyMinTokens sw)"
  define d where "d = max lo (sw_replyMaxTokens sw) - lo"
  have target: "reply_target sw r = lo + of_int \<lfloor>r * (d + 1)\<rfloor>"
    by (simp add: reply_target_def lo_def d_def Let_def)
  have "0 \<le> d" by (simp add: d_def)
  then have "0 \<le> r * (d + 1)" "r * (d + 1) < d + 1" using assms by simp_all
  then show "max 2 (sw_replyMinTokens sw) \<le> reply_target sw r"
      "reply_target sw r < max (max 2 (sw_replyMinTokens sw)) (sw_replyMaxTokens sw) + 1"
    using of_int_floor_le[of "r * (d + 1)"] unfolding target lo_def[symmetric] by (simp, unfold d_def) linarith
qed

lemma buildReply_shape:
  assumes "0 \<le> r" "r < 1"
  shows "length (buildReply cfg sw r p) = nat \<lfloor>reply_target sw r\<rfloor>" "2 \<le> length (buildReply cfg sw r p)"
    "take 2 (buildReply cfg sw r p) = [''Hello'', ''world'']"
proof -
  let ?t = "reply_target sw r"
  let ?pad = "pad_reply (reply_filler p) 0 [''Hello'', ''world'', ''from'', mc_modelId cfg @ ''.''] ?t"
  have "2 \<le> ?t" using reply_target_bounds(1)[OF assms, of sw] by simp
  then have two: "2 \<le> nat \<lfloor>?t\<rfloor>" by (simp add: le_floor_iff le_nat_iff)
  obtain more where pad: "?pad = [''Hello'', ''world'', ''from'', mc_modelId cfg @ ''.''] @ more"
      and long: "nat \<lfloor>?t\<rfloor> \<le> length ?pad"
    using pad_reply_long[of "reply_filler p" ?t 0 "[''Hello'', ''world'', ''from'', mc_modelId cfg @ ''.'']"]
    by (auto simp: reply_filler_def nat_le_iff)
  have reply: "buildReply cfg sw r p = take (nat \<lfloor>?t\<rfloor>) ?pad" by (simp add: buildReply_def Let_def)
  show "length (buildReply cfg sw r p) = nat \<lfloor>?t\<rfloor>" using long by (simp add: reply)
  then show "2 \<le> length (buildReply cfg sw r p)" using two by simp
  show "take 2 (buildReply cfg sw r p) = [''Hello'', ''world'']"
    using two unfolding reply take_take by (simp add: pad min_absorb1 numeral_2_eq_2)
qed

text \<open>A generation that goes silent does so after its first token and before its last.\<close>

lemma stall_index_bounds:
  assumes "stall_index sw rand tokens = Some m" "\<And>k. 0 \<le> rand k \<and> rand k < 1" "2 \<le> length tokens"
  shows "1 \<le> m \<and> m < length tokens"
proof -
  let ?n = "length tokens - 1"
  have "max 1 ?n = ?n" using assms(3) by simp
  then have m: "m = 1 + nat \<lfloor>rand 3 * of_nat ?n\<rfloor>"
    using assms(1) by (auto simp: stall_index_def split: if_splits)
  have "rand 3 * of_nat ?n < 1 * of_nat ?n"
    using assms(2)[of 3] assms(3) by (intro mult_strict_right_mono) auto
  then have "\<lfloor>rand 3 * of_nat ?n\<rfloor> < int ?n" by (simp only: floor_less_iff of_int_of_nat_eq mult_1)
  moreover have "0 < ?n" using assms(3) by simp
  ultimately have "nat \<lfloor>rand 3 * of_nat ?n\<rfloor> < ?n" by (simp add: nat_less_iff)
  then show ?thesis unfolding m by linarith
qed

section \<open>Facts: what a connection has been written\<close>

text \<open>
  A streamed generation has been written the frames of a prefix of its tokens; the closing frames come only
  after the last token, and never after a stall. A buffered one is written its reply at once.
\<close>

definition written_ok :: "mock_config \<Rightarrow> mock_conn \<Rightarrow> bool" where
  "written_ok cfg c \<longleftrightarrow>
     (let j = cn_first c; n = length (jb_tokens j); told = (\<lambda>k. map (token_frame cfg) (take k (jb_tokens j))) in
      (\<forall>m. jb_stallAt j = Some m \<longrightarrow> 1 \<le> m \<and> m < n) \<and>
      (\<forall>j'. cn_left c = Some j' \<longrightarrow>
         (\<exists>k \<le> n. j' = j\<lparr>jb_next := k\<rparr> \<and> (\<forall>m. jb_stallAt j = Some m \<longrightarrow> k \<le> m) \<and>
            cn_written c = (if jb_stream j then told k else []) \<and> (jb_stream j \<or> k = 0))) \<and>
      (cn_left c = None \<longrightarrow>
         (if \<not> jb_stream j then cn_written c = [json_stringify (mock_completion cfg j)]
          else (\<exists>k \<le> n. cn_written c = told k \<and> (\<forall>m. jb_stallAt j = Some m \<longrightarrow> k \<le> m)) \<or>
               jb_stallAt j = None \<and> cn_written c = told n @ last_frames cfg)))"

lemma mock_job_fresh:
  assumes "\<And>k. 0 \<le> rand k \<and> rand k < 1"
  shows "written_ok cfg \<lparr>cn_first = mock_job_of cfg sw rand body ms, cn_left = Some (mock_job_of cfg sw rand body ms), cn_written = []\<rparr>"
    "jb_next (mock_job_of cfg sw rand body ms) = 0"
proof -
  let ?tokens = "buildReply cfg sw (rand 1) (promptTextOf ms)"
  have two: "2 \<le> length ?tokens" using buildReply_shape(2) assms by blast
  then have "stall_index sw rand ?tokens = Some m \<Longrightarrow> 1 \<le> m \<and> m < length ?tokens" for m
    using stall_index_bounds assms by blast
  then show "written_ok cfg \<lparr>cn_first = mock_job_of cfg sw rand body ms, cn_left = Some (mock_job_of cfg sw rand body ms), cn_written = []\<rparr>"
    by (auto simp: written_ok_def mock_job_of_def Let_def intro!: exI[of _ 0])
qed (simp add: mock_job_of_def Let_def)

lemma handle_generating:
  assumes "mock_handle cfg sine now ts rand i r s = (Generating j, s')"
  shows "\<exists>body ms. j = mock_job_of cfg (mk_switches s) rand body ms \<and> mk_inFlight s' = mk_inFlight s + 1 \<and>
    of_int (mk_inFlight s) < sw_maxConcurrency (mk_switches s)"
  using assms
  by (auto simp: mock_handle_def handleChat_def answered_def refused_def bad_body_def emit_log_def push_line_def Let_def
      split: if_splits option.splits prod.splits chat_start.splits)

lemma handle_quiet:
  assumes "mock_handle cfg sine now ts rand i r s = (a, s')" "open_conn a = []"
  shows "mk_inFlight s' = mk_inFlight s"
  using assms
  by (auto simp: mock_handle_def handleChat_def handleEmbeddings_def mock_error_def answered_def refused_def bad_body_def
      emit_log_def push_line_def attach_def open_conn_def Let_def
      split: if_splits option.splits prod.splits chat_start.splits)

lemma turn_inFlight:
  assumes "chat_turn cfg ts gone j s = (ws, left, s')"
  shows "mk_inFlight s' = mk_inFlight s - (if left = None then 1 else 0)"
  using assms by (auto simp: chat_turn_def finish_chat_def emit_log_def push_line_def Let_def split: if_splits)

lemma turn_written_ok:
  assumes ok: "written_ok cfg c" and "cn_left c = Some j" and t: "chat_turn cfg ts gone j s = (ws, left, s')"
  shows "written_ok cfg (c\<lparr>cn_left := left, cn_written := cn_written c @ ws\<rparr>)"
proof -
  let ?j = "cn_first c" and ?n = "length (jb_tokens (cn_first c))"
  obtain k where k: "k \<le> ?n" "j = ?j\<lparr>jb_next := k\<rparr>" "\<forall>m. jb_stallAt ?j = Some m \<longrightarrow> k \<le> m"
      "cn_written c = (if jb_stream ?j then map (token_frame cfg) (take k (jb_tokens ?j)) else [])"
    using ok assms(2) by (auto simp: written_ok_def Let_def)
  have stall: "\<forall>m. jb_stallAt ?j = Some m \<longrightarrow> 1 \<le> m \<and> m < ?n"
    using ok by (simp add: written_ok_def Let_def)
  consider "\<not> jb_stream ?j" | "jb_stream ?j" "k < ?n" "jb_stallAt ?j = Some k \<or> gone"
    | "jb_stream ?j" "k < ?n" "jb_stallAt ?j \<noteq> Some k" "\<not> gone" | "jb_stream ?j" "k = ?n"
    using k(1) by fastforce
  then show ?thesis
  proof cases
    case 1
    then show ?thesis using t k stall by (auto simp: chat_turn_def written_ok_def Let_def mock_completion_def)
  next
    case 2
    then have "ws = []" "left = None" using t k(2) by (auto simp: chat_turn_def split: if_splits)
    then show ?thesis using 2 k stall unfolding written_ok_def Let_def by (auto intro!: disjI1 exI[of _ k])
  next
    case 3
    then have "ws = [token_frame cfg (jb_tokens ?j ! k)]" "left = Some (?j\<lparr>jb_next := Suc k\<rparr>)"
      using t k(2) by (auto simp: chat_turn_def)
    moreover have "Suc k \<le> m" if "jb_stallAt ?j = Some m" for m
      using 3(3) k(3) that by (cases "k = m") auto
    ultimately show ?thesis using 3 k(4) stall
      by (auto simp: written_ok_def Let_def take_Suc_conv_app_nth intro!: exI[of _ "Suc k"])
  next
    case 4
    then have "ws = last_frames cfg" "left = None" using t k(2) by (auto simp: chat_turn_def)
    moreover have "jb_stallAt ?j = None"
      using stall k(3) 4(2) by (cases "jb_stallAt ?j") auto
    ultimately show ?thesis using 4 k(4) by (auto simp: written_ok_def Let_def)
  qed
qed

text \<open>The process is sound: its count is that of the generations that run, and every connection is.\<close>

definition mock_ok :: "mock_config \<Rightarrow> mock_world \<Rightarrow> bool" where
  "mock_ok cfg w \<longleftrightarrow> mk_inFlight (fst w) = int (running (snd w)) \<and> list_all (written_ok cfg) (snd w)"

lemma running_append: "running (cs @ ds) = running cs + running ds"
  by (simp add: running_def)

lemma running_update:
  assumes "k < length cs" "cn_left (cs ! k) \<noteq> None"
  shows "int (running (cs[k := c])) = int (running cs) - (if cn_left c = None then 1 else 0)"
proof -
  have "cs = take k cs @ [cs ! k] @ drop (Suc k) cs" using id_take_nth_drop[OF assms(1)] by simp
  then have "running cs = running (take k cs @ [cs ! k] @ drop (Suc k) cs)" by (rule arg_cong)
  also have "\<dots> = running (take k cs) + 1 + running (drop (Suc k) cs)"
    using assms(2) unfolding running_append by (simp add: running_def)
  finally have old: "running cs = running (take k cs) + 1 + running (drop (Suc k) cs)" .
  have "running (cs[k := c]) = running (take k cs @ [c] @ drop (Suc k) cs)"
    using upd_conv_take_nth_drop[OF assms(1), of c] by simp
  then show ?thesis using old unfolding running_append by (simp add: running_def)
qed

lemma mock_ok_step: "mock_step cfg sine w w' \<Longrightarrow> mock_ok cfg w \<Longrightarrow> mock_ok cfg w'"
proof (induction rule: mock_step.induct)
  case (request now ts rand i r s a s' cs)
  show ?case
  proof (cases a)
    case (Generating j)
    then obtain body ms where j: "j = mock_job_of cfg (mk_switches s) rand body ms" "mk_inFlight s' = mk_inFlight s + 1"
      using handle_generating request(1) by blast
    then show ?thesis
      using request(3) mock_job_fresh(1)[of rand cfg "mk_switches s" body ms, OF request(2)] Generating
      by (simp add: mock_ok_def running_append open_conn_def) (simp add: running_def)
  qed (use request(3) handle_quiet[OF request(1)] in \<open>simp_all add: mock_ok_def open_conn_def\<close>)
next
  case (turn k cs j ts gone s ws left s')
  let ?c = "(cs ! k)\<lparr>cn_left := left, cn_written := cn_written (cs ! k) @ ws\<rparr>"
  have "written_ok cfg (cs ! k)" using turn by (simp add: mock_ok_def list_all_length)
  then have "written_ok cfg ?c" using turn_written_ok turn by blast
  then have "list_all (written_ok cfg) (cs[k := ?c])"
    using turn(4) set_update_subset_insert[of cs k ?c] by (auto simp: mock_ok_def list_all_iff)
  then show ?case
    using turn turn_inFlight[OF turn(3)] running_update[of k cs ?c] by (simp add: mock_ok_def)
qed (simp_all add: mock_ok_def detach_def keep_alive_def emit_log_def push_line_def Let_def)

lemma mock_ok_run: "mock_run cfg sine w w' \<Longrightarrow> mock_ok cfg w \<Longrightarrow> mock_ok cfg w'"
  by (induction rule: rtranclp_induct) (auto intro: mock_ok_step)

lemma mock_ok_start: "mock_ok cfg (mock_start env now, [])"
  by (simp add: mock_ok_def mock_start_def running_def)

section \<open>Facts: what the router reads of it\<close>

lemma token_chunk: "frame_chunks (chunk_json cfg [(''content'', JStr (t @ '' ''))] JNull) = [TokenChunk (t @ '' '')]"
  by (simp add: frame_chunks_def chunk_json_def first_choice_def delta_text_def nullish_def as_array_def Let_def)

lemma quiet_state: "frame_state (chunk_json cfg delta JNull) st = st"
  by (simp add: frame_state_def chunk_json_def first_choice_def read_usage_def as_count_def as_number_def as_string_def coalesce_def)

lemma chunk_ok: "json_ok (JObj delta) \<Longrightarrow> json_ok fin \<Longrightarrow> json_ok (chunk_json cfg delta fin)"
  by (simp add: chunk_json_def)

lemma run_token_frames:
  "run_lines (lines_of_reads [concat (map (token_frame cfg) ts) @ rest]) st =
    (case run_lines (lines_of_reads [rest]) st of (cs, st', fin) \<Rightarrow> (map (\<lambda>t. TokenChunk (t @ '' '')) ts @ cs, st', fin))"
proof (induction ts)
  case Nil
  then show ?case by (simp split: prod.split)
next
  case (Cons t ts)
  have ok: "json_ok (chunk_json cfg [(''content'', JStr (t @ '' ''))] JNull)" by (simp add: chunk_json_def)
  obtain kvs where kvs: "chunk_json cfg [(''content'', JStr (t @ '' ''))] JNull = JObj kvs"
    by (simp add: chunk_json_def)
  have "lines_of_reads [concat (map (token_frame cfg) (t # ts)) @ rest] =
      Frame (chunk_json cfg [(''content'', JStr (t @ '' ''))] JNull) # Skip # lines_of_reads [concat (map (token_frame cfg) ts) @ rest]"
    using lines_of_frame[of kvs "concat (map (token_frame cfg) ts) @ rest"] ok
    by (simp add: token_frame_def kvs del: json_ok.simps)
  then show ?case using Cons by (simp add: token_chunk quiet_state Let_def split: prod.splits)
qed

lemma done_line: "lines_of_reads [''data: [DONE]'' @ blank_line] = [Done, Skip, Skip]"
  by code_simp

lemma run_last: "run_lines (lines_of_reads [concat (last_frames cfg)]) (None, None) =
    ([DoneChunk (Some ''stop'') None], (Some ''stop'', None), True)"
proof -
  let ?stop = "chunk_json cfg [] (JStr ''stop'')"
  obtain kvs where kvs: "?stop = JObj kvs" by (simp add: chunk_json_def)
  have "json_ok ?stop" by (simp add: chunk_json_def)
  then have "lines_of_reads [concat (last_frames cfg)] = Frame ?stop # Skip # [Done, Skip, Skip]"
    using lines_of_frame[of kvs "''data: [DONE]'' @ blank_line", unfolded done_line]
    by (simp add: last_frames_def kvs del: json_ok.simps)
  moreover have "frame_chunks ?stop = []"
    by (simp add: frame_chunks_def chunk_json_def first_choice_def delta_text_def nullish_def as_array_def Let_def)
  moreover have "frame_state ?stop (None, None) = (Some ''stop'', None)"
    by (simp add: frame_state_def chunk_json_def first_choice_def read_usage_def as_count_def as_number_def coalesce_def)
  ultimately show ?thesis by simp
qed

lemma aligned_body:
  assumes "list_all (\<lambda>r. r \<noteq> [] \<and> last r = Adapter.newline) reads"
  shows "streamChat (Body reads broken) = streamChat (Body [concat reads] broken)"
proof (rule streamChat_cong)
  show "filter (\<lambda>e. e \<noteq> Skip) (lines_of_reads reads) = filter (\<lambda>e. e \<noteq> Skip) (lines_of_reads [concat reads])"
    using lines_of_aligned_reads[OF assms, of "[]"] by (simp add: lines_of_reads_append) (simp add: lines_of_reads_def read_line_Nil)
qed

lemma turn_gone_ends: "fst (snd (chat_turn cfg ts True j s)) = None"
  by (simp add: chat_turn_def)

lemma mock_drains:
  "\<exists>s' cs'. mock_run cfg sine (s, cs) (s', cs') \<and> running cs' = 0 \<and> length cs' = length cs"
proof (induction "running cs" arbitrary: s cs)
  case 0
  then show ?case by auto
next
  case (Suc n)
  then have "\<exists>c \<in> set cs. cn_left c \<noteq> None" unfolding running_def by (auto simp: filter_eq_Cons_iff dest!: sym[of "Suc n"] simp: length_Suc_conv)
  then obtain k j where k: "k < length cs" "cn_left (cs ! k) = Some j" by (auto simp: in_set_conv_nth)
  obtain ws s1 where t: "chat_turn cfg '''' True j s = (ws, None, s1)"
    using turn_gone_ends[of cfg "''''" j s] by (cases "chat_turn cfg '''' True j s") auto
  let ?cs = "cs[k := (cs ! k)\<lparr>cn_left := None, cn_written := cn_written (cs ! k) @ ws\<rparr>]"
  have "mock_step cfg sine (s, cs) (s1, ?cs)" using mock_step.turn[OF k t] .
  moreover have "running ?cs = n"
    using running_update[OF k(1), of "(cs ! k)\<lparr>cn_left := None, cn_written := cn_written (cs ! k) @ ws\<rparr>"] k(2) Suc(2) by simp
  ultimately show ?case
    using Suc(1)[of ?cs s1] by (metis converse_rtranclp_into_rtranclp length_list_update)
qed

section \<open>A concrete mock\<close>

definition ex_mock :: mock_config where
  "ex_mock = mock_config_of (\<lambda>_. None)"

definition ex_messages :: "json list" where
  "ex_messages = [JObj [(''role'', JStr ''user''), (''content'', JStr ''hi'')]]"

definition ex_body :: json where
  "ex_body = JObj [(''stream'', JBool True), (''messages'', JArr ex_messages)]"

definition ex_ask :: mock_request where
  "ex_ask = \<lparr>mq_method = ''POST'', mq_path = ''/v1/chat/completions'', mq_query = [], mq_body = json_stringify ex_body\<rparr>"

definition ex_job :: mock_job where
  "ex_job = mock_job_of ex_mock (mock_switches_of (\<lambda>_. None) 0) (\<lambda>_. 0) ex_body ex_messages"

lemma ex_body_read: "mock_body (json_stringify ex_body) = Some ex_body"
proof -
  have "json_parse (json_stringify ex_body) = Some ex_body"
    by (rule json_roundtrip) (simp add: ex_body_def ex_messages_def)
  moreover have "json_stringify ex_body \<noteq> ''''" by (simp add: ex_body_def)
  ultimately show ?thesis by (simp add: mock_body_def non_null_def ex_body_def)
qed

lemma ex_generates: "fst (mock_handle ex_mock sine 0 '''' (\<lambda>_. 0) 0 ex_ask (mock_start (\<lambda>_. None) 0)) = Generating ex_job"
proof -
  have "ex_messages \<noteq> []" "\<not> hasImage ex_messages"
    by (simp_all add: ex_messages_def hasImage_def as_array_def nullish_def)
  moreover have "as_array (jfield ''messages'' ex_body) = Some ex_messages" "as_array (jfield ''tools'' ex_body) = None"
    by (simp_all add: ex_body_def as_array_def)
  ultimately have "fst (handleChat ex_mock '''' (\<lambda>_. 0) ex_body (mock_start (\<lambda>_. None) 0)) = Generates ex_job"
    by (simp add: handleChat_def Let_def mock_start_def mock_switches_of_def num_def ex_job_def nullish_def refused_def)
  then show ?thesis
    by (auto simp: mock_handle_def ex_ask_def ex_body_read isReady_def mock_start_def mock_switches_of_def num_def Let_def
        split: prod.splits)
qed

lemma ex_runs:
  obtains s where "mock_run ex_mock sine (mock_start (\<lambda>_. None) 0, [])
      (s, [\<lparr>cn_first = ex_job, cn_left = Some ex_job, cn_written = []\<rparr>])" "mk_inFlight s = 1"
proof -
  obtain s where s: "mock_handle ex_mock sine 0 '''' (\<lambda>_. 0) 0 ex_ask (mock_start (\<lambda>_. None) 0) = (Generating ex_job, s)"
    using ex_generates[of sine] by (cases "mock_handle ex_mock sine 0 '''' (\<lambda>_. 0) 0 ex_ask (mock_start (\<lambda>_. None) 0)") auto
  have "mock_step ex_mock sine (mock_start (\<lambda>_. None) 0, []) (s, [] @ open_conn (Generating ex_job))"
    by (rule mock_step.request[OF s]) simp
  then show ?thesis
    using handle_generating[OF s] by (intro that[of s]) (auto simp: open_conn_def mock_start_def)
qed

section \<open>Properties\<close>

text \<open>
  C32: The mock never leaks a slot. Whatever requests, faults, disconnects and control calls have come, the count
  that it admits by and reports is exactly the number of generations that run; a generation was admitted only
  below the limit of that moment; and from every such state all of them can end and leave the count at zero.\<close>
theorem mock_slots_exact:
  assumes "mock_run cfg sine (mock_start env now, []) (s, cs)"
  shows "mk_inFlight s = int (running cs) \<and>
    (\<forall>now ts rand i r j s'. mock_handle cfg sine now ts rand i r s = (Generating j, s') \<longrightarrow>
       of_int (int (running cs)) < sw_maxConcurrency (mk_switches s)) \<and>
    (\<exists>s' cs'. mock_run cfg sine (s, cs) (s', cs') \<and> running cs' = 0 \<and> mk_inFlight s' = 0)"
proof -
  note ok = mock_ok_run[OF assms mock_ok_start]
  obtain s' cs' where drained: "mock_run cfg sine (s, cs) (s', cs')" "running cs' = 0"
    using mock_drains by blast
  have "mk_inFlight s' = 0" using mock_ok_run[OF drained(1) ok] drained(2) by (simp add: mock_ok_def)
  then show ?thesis
    using ok drained handle_generating unfolding mock_ok_def by fastforce
qed

text \<open>One request, and its generation can end.\<close>

lemma mock_slots_exact_witness:
  "\<exists>s cs. running cs = 1 \<and> mk_inFlight s = int (running cs) \<and>
     (\<exists>s' cs'. mock_run ex_mock (\<lambda>_. 0) (s, cs) (s', cs') \<and> running cs' = 0 \<and> mk_inFlight s' = 0)"
proof -
  obtain s where s: "mock_run ex_mock (\<lambda>_. 0) (mock_start (\<lambda>_. None) 0, [])
      (s, [\<lparr>cn_first = ex_job, cn_left = Some ex_job, cn_written = []\<rparr>])"
    using ex_runs by blast
  have "running [\<lparr>cn_first = ex_job, cn_left = Some ex_job, cn_written = []\<rparr>] = 1" by (simp add: running_def)
  then show ?thesis using mock_slots_exact[OF s] by blast
qed

text \<open>
  C31: What the mock streams is what the router's client reads. At any moment of any history, when the text of a
  streamed connection arrives in reads that end with a line, the client has yielded a prefix of the reply, token
  by token; it yields the done frame only after the whole reply, only if the generation was not to stall, and
  then ends without an error; otherwise what it reports is the failure the connection ends with. A generation
  that stalls has spoken at least once and never finishes.\<close>
theorem mock_stream_understood:
  assumes "mock_run cfg sine (mock_start env now, []) (s, cs)" and "c \<in> set cs" and "jb_stream (cn_first c)"
    and "list_all (\<lambda>r. r \<noteq> [] \<and> last r = Adapter.newline) reads" and "concat reads = concat (cn_written c)"
  shows "\<exists>k \<le> length (jb_tokens (cn_first c)).
    let said = map (\<lambda>t. TokenChunk (t @ '' '')) (take k (jb_tokens (cn_first c))) in
    (\<forall>m. jb_stallAt (cn_first c) = Some m \<longrightarrow> 1 \<le> m \<and> k \<le> m \<and> m < length (jb_tokens (cn_first c))) \<and>
    (streamChat (Body reads (Some e)) = (said, Some e) \<or>
     k = length (jb_tokens (cn_first c)) \<and> jb_stallAt (cn_first c) = None \<and>
     streamChat (Body reads (Some e)) = (said @ [DoneChunk (Some ''stop'') None], None))"
proof -
  let ?j = "cn_first c" and ?n = "length (jb_tokens (cn_first c))"
  have ok: "written_ok cfg c"
    using mock_ok_run[OF assms(1) mock_ok_start] assms(2) by (auto simp: mock_ok_def list_all_iff)
  have stream: "streamChat (Body reads (Some e)) = streamChat (Body [concat (cn_written c)] (Some e))"
    using aligned_body[OF assms(4)] assms(5) by simp
  have stall: "\<forall>m. jb_stallAt ?j = Some m \<longrightarrow> 1 \<le> m \<and> m < ?n"
    using ok by (simp add: written_ok_def Let_def)
  have "(\<exists>k \<le> ?n. cn_written c = map (token_frame cfg) (take k (jb_tokens ?j)) \<and> (\<forall>m. jb_stallAt ?j = Some m \<longrightarrow> k \<le> m)) \<or>
      jb_stallAt ?j = None \<and> cn_written c = map (token_frame cfg) (jb_tokens ?j) @ last_frames cfg"
    using ok assms(3) by (cases "cn_left c") (auto simp: written_ok_def Let_def)
  then show ?thesis
  proof (elim disjE exE conjE)
    fix k assume k: "k \<le> ?n" "cn_written c = map (token_frame cfg) (take k (jb_tokens ?j))"
      "\<forall>m. jb_stallAt ?j = Some m \<longrightarrow> k \<le> m"
    have "lines_of_reads [[]] = [Skip]" by (simp add: lines_of_reads_def read_line_Nil)
    then show ?thesis
      using k stall run_token_frames[of cfg "take k (jb_tokens ?j)" "[]" "(None, None)"] unfolding stream
      by (intro exI[of _ k]) (simp add: streamChat_def Let_def)
  next
    assume "jb_stallAt ?j = None" "cn_written c = map (token_frame cfg) (jb_tokens ?j) @ last_frames cfg"
    then show ?thesis
      using run_token_frames[of cfg "jb_tokens ?j" "concat (last_frames cfg)" "(None, None)"] run_last[of cfg] unfolding stream
      by (intro exI[of _ ?n]) (simp add: streamChat_def Let_def)
  qed
qed

text \<open>The first word is on the wire.\<close>

lemma mock_stream_understood_witness:
  "\<exists>k \<le> length (jb_tokens ex_job).
     let said = map (\<lambda>t. TokenChunk (t @ '' '')) (take k (jb_tokens ex_job)) in
     streamChat (Body [token_frame ex_mock (jb_tokens ex_job ! 0)] (Some (OtherError ''aborted''))) = (said, Some (OtherError ''aborted'')) \<or>
     streamChat (Body [token_frame ex_mock (jb_tokens ex_job ! 0)] (Some (OtherError ''aborted''))) = (said @ [DoneChunk (Some ''stop'') None], None)"
proof -
  let ?c = "\<lparr>cn_first = ex_job, cn_left = Some ex_job, cn_written = []\<rparr>"
  let ?d = "\<lparr>cn_first = ex_job, cn_left = Some (ex_job\<lparr>jb_next := 1\<rparr>), cn_written = [token_frame ex_mock (jb_tokens ex_job ! 0)]\<rparr>"
  obtain s where s: "mock_run ex_mock (\<lambda>_. 0) (mock_start (\<lambda>_. None) 0, []) (s, [?c])"
    using ex_runs by blast
  have j: "jb_stream ex_job" "jb_next ex_job = 0" "jb_stallAt ex_job = None" "2 \<le> length (jb_tokens ex_job)"
    using buildReply_shape(2)[of 0 ex_mock "mock_switches_of (\<lambda>_. None) 0" "promptTextOf ex_messages"]
    by (simp_all add: ex_job_def mock_job_of_def Let_def ex_body_def nullish_def stall_index_def mock_switches_of_def num_def)
  have "chat_turn ex_mock '''' False ex_job s = ([token_frame ex_mock (jb_tokens ex_job ! 0)], Some (ex_job\<lparr>jb_next := 1\<rparr>), s)"
    using j by (auto simp: chat_turn_def)
  from mock_step.turn[of 0 "[?c]", OF _ _ this] have "mock_step ex_mock (\<lambda>_. 0) (s, [?c]) (s, [?d])" by simp
  with s have run: "mock_run ex_mock (\<lambda>_. 0) (mock_start (\<lambda>_. None) 0, []) (s, [?d])" by (rule rtranclp.rtrancl_into_rtrancl)
  have "list_all (\<lambda>r. r \<noteq> [] \<and> last r = Adapter.newline) [token_frame ex_mock (jb_tokens ex_job ! 0)]"
    by (simp add: token_frame_def frame_line Adapter.newline_def)
  from mock_stream_understood[OF run _ _ this, of ?d "OtherError ''aborted''"] j(1) show ?thesis
    by (simp add: Let_def) blast
qed

section \<open>The log over the network\<close>

text \<open>What happens to the log: a line is emitted, a follower is kept alive, joins or leaves.\<close>

datatype log_event =
    Emits string level string
  | Beats nat
  | Joins nat rat
  | Leaves nat

fun log_happens :: "mock_config \<Rightarrow> log_event \<Rightarrow> mock_server \<Rightarrow> mock_server" where
  "log_happens cfg (Emits ts lv message) s = emit_log cfg ts lv message s"
| "log_happens cfg (Beats i) s = keep_alive i s"
| "log_happens cfg (Joins i tail) s = attach i tail s"
| "log_happens cfg (Leaves i) s = detach i s"

definition log_after :: "mock_config \<Rightarrow> log_event list \<Rightarrow> mock_server \<Rightarrow> mock_server" where
  "log_after cfg es s = fold (log_happens cfg) es s"

fun emitted :: "mock_config \<Rightarrow> log_event list \<Rightarrow> json list" where
  "emitted cfg [] = []"
| "emitted cfg (Emits ts lv message # es) = mock_line cfg ts lv message # emitted cfg es"
| "emitted cfg (_ # es) = emitted cfg es"

fun heard :: "mock_config \<Rightarrow> nat \<Rightarrow> log_event list \<Rightarrow> string list" where
  "heard cfg i [] = []"
| "heard cfg i (Emits ts lv message # es) = sse_frame (mock_line cfg ts lv message) # heard cfg i es"
| "heard cfg i (Beats k # es) = (if k = i then ['': keep-alive'' @ blank_line] else []) @ heard cfg i es"
| "heard cfg i (_ # es) = heard cfg i es"

fun concerns :: "nat \<Rightarrow> log_event \<Rightarrow> bool" where
  "concerns i (Joins k tail) = (k = i)"
| "concerns i (Leaves k) = (k = i)"
| "concerns i e = False"

definition followed :: "nat \<Rightarrow> mock_server \<Rightarrow> string list option" where
  "followed i s = map_of (mk_followers s) i"

lemma log_after_simps [simp]:
  "log_after cfg [] s = s" "log_after cfg (e # es) s = log_after cfg es (log_happens cfg e s)"
  "log_after cfg (es @ fs) s = log_after cfg fs (log_after cfg es s)"
  by (simp_all add: log_after_def)

definition last_lines :: "'a list \<Rightarrow> 'a list" where
  "last_lines xs = drop (length xs - LOG_BUFFER_MAX) xs"

lemma last_lines_append: "last_lines (last_lines xs @ ys) = last_lines (xs @ ys)"
proof (cases "length xs \<le> LOG_BUFFER_MAX")
  case False
  then have "length xs + length ys - (length xs - LOG_BUFFER_MAX + LOG_BUFFER_MAX) = length ys" by simp
  moreover have "length ys + (length xs - LOG_BUFFER_MAX) = length xs + length ys - LOG_BUFFER_MAX" using False by simp
  ultimately show ?thesis by (simp add: last_lines_def)
qed (simp add: last_lines_def)

lemma log_push: "length (mk_log s) \<le> LOG_BUFFER_MAX \<Longrightarrow> mk_log (emit_log cfg ts lv m s) = last_lines (mk_log s @ [mock_line cfg ts lv m])"
proof -
  assume "length (mk_log s) \<le> LOG_BUFFER_MAX"
  then have "Suc (length (mk_log s)) - LOG_BUFFER_MAX = (if LOG_BUFFER_MAX < Suc (length (mk_log s)) then 1 else 0)"
    by auto
  then show ?thesis
    by (simp add: emit_log_def push_line_def last_lines_def Let_def drop_Suc LOG_BUFFER_MAX_def flip: drop_append)
qed

text \<open>The buffer is the end of all that was emitted.\<close>

lemma log_is_last:
  "length (mk_log s) \<le> LOG_BUFFER_MAX \<Longrightarrow> mk_log (log_after cfg es s) = last_lines (mk_log s @ emitted cfg es)"
proof (induction es arbitrary: s)
  case Nil
  then show ?case by (simp add: last_lines_def)
next
  case (Cons e es)
  show ?case
  proof (cases e)
    case (Emits ts lv m)
    have "length (mk_log (emit_log cfg ts lv m s)) \<le> LOG_BUFFER_MAX"
      unfolding log_push[OF Cons.prems] by (simp add: last_lines_def)
    then show ?thesis
      using Cons.IH[of "emit_log cfg ts lv m s"] last_lines_append[of "mk_log s @ [mock_line cfg ts lv m]" "emitted cfg es"]
      by (simp add: Emits log_push[OF Cons.prems])
  qed (use Cons in \<open>simp_all add: keep_alive_def attach_def detach_def\<close>)
qed

lemma followed_happens:
  assumes "followed i s = Some ws" "\<not> concerns i e"
  shows "followed i (log_happens cfg e s) = Some (ws @ heard cfg i [e])"
proof -
  have upd: "map_of (map (\<lambda>(k, ws). (k, f k ws)) al) i = map_option (f i) (map_of al i)" for f and al :: "(nat \<times> string list) list"
    by (induction al) auto
  have del: "k \<noteq> i \<Longrightarrow> map_of (filter (\<lambda>(n, ws). n \<noteq> k) al) i = map_of al i" for k and al :: "(nat \<times> string list) list"
    by (induction al) auto
  show ?thesis
  proof (cases e)
    case (Emits ts lv m)
    then show ?thesis using assms upd[of "\<lambda>k ws. ws @ [sse_frame (mock_line cfg ts lv m)]"]
      by (simp add: followed_def emit_log_def push_line_def Let_def)
  next
    case (Beats k)
    then show ?thesis using assms upd[of "\<lambda>n ws. if n = k then ws @ ['': keep-alive'' @ blank_line] else ws"]
      by (simp add: followed_def keep_alive_def)
  next
    case (Joins k tail)
    then show ?thesis using assms by (simp add: followed_def attach_def)
  next
    case (Leaves k)
    then show ?thesis using assms del[of k] by (simp add: followed_def detach_def)
  qed
qed

lemma followed_after:
  "followed i s = Some ws \<Longrightarrow> list_all (\<lambda>e. \<not> concerns i e) es \<Longrightarrow>
   followed i (log_after cfg es s) = Some (ws @ heard cfg i es)"
proof (induction es arbitrary: s ws)
  case (Cons e es)
  then have "followed i (log_after cfg (e # es) s) = Some ((ws @ heard cfg i [e]) @ heard cfg i es)"
    using followed_happens[of i s ws e cfg] Cons.IH by simp
  then show ?case by (cases e) simp_all
qed simp

lemma unfollowed_after:
  "followed i s = None \<Longrightarrow> list_all (\<lambda>e. \<not> concerns i e) es \<Longrightarrow> followed i (log_after cfg es s) = None"
proof (induction es arbitrary: s)
  case (Cons e es)
  have keys: "fst ` set (mk_followers (log_happens cfg e s)) \<subseteq> fst ` set (mk_followers s) \<union> {k. concerns k e}"
    by (cases e) (force simp: emit_log_def push_line_def keep_alive_def attach_def detach_def Let_def)+
  have "followed i (log_happens cfg e s) = None"
    using Cons.prems keys by (auto simp: followed_def map_of_eq_None_iff)
  then show ?case using Cons by simp
qed simp

lemma frame_cut: "json_ok v \<Longrightarrow> split_on Logs.newline (sse_frame v @ rest) =
    (''data: '' @ json_stringify v) # '''' # split_on Logs.newline rest"
  using split_on_append_sep[of Logs.newline "''data: '' @ json_stringify v" "Logs.newline # rest"]
    split_on_append_sep[of Logs.newline "[]" rest] split_on_no_sep_id[of Logs.newline "''data: '' @ json_stringify v"]
    stringify_no_newline[of v]
  by (simp add: frame_line Logs.newline_def)

lemma beat_cut: "split_on Logs.newline ('': keep-alive'' @ blank_line @ rest) = '': keep-alive'' # '''' # split_on Logs.newline rest"
  by (simp add: Logs.newline_def blank_line_def split: list.split)

lemma mock_line_ok: "json_ok (mock_line cfg ts lv m)" "\<exists>kvs. mock_line cfg ts lv m = JObj kvs"
  "jfield ''message'' (mock_line cfg ts lv m) \<noteq> None"
  by (simp_all add: mock_line_def)

lemma line_of_frame: "line_of_part True source now (''data: '' @ json_stringify (mock_line cfg ts lv m)) = Some (mock_line cfg ts lv m)"
proof -
  obtain kvs where kvs: "mock_line cfg ts lv m = JObj kvs" using mock_line_ok(2) by blast
  then show ?thesis
    using json_roundtrip[OF mock_line_ok(1)[of cfg ts lv m]] trim_object[of kvs] mock_line_ok(3)[of cfg ts lv m]
    by (simp add: line_of_part_def kvs del: json_stringify.simps)
qed

lemma butlast_split: "butlast (a # b # split_on sep s) = a # b # butlast (split_on sep s)"
  by simp

lemma line_of_other: "line_of_part True source now '''' = None" "line_of_part True source now '': keep-alive'' = None"
  by (simp_all add: line_of_part_def)

lemma heard_lines:
  "List.map_filter (line_of_part True source now) (butlast (split_on Logs.newline (concat (heard cfg i es)))) = emitted cfg es"
proof (induction cfg i es rule: heard.induct)
  case (2 cfg i ts lv m es)
  then show ?case
    by (simp only: heard.simps concat.simps frame_cut[OF mock_line_ok(1)] butlast_split map_filter_simps line_of_frame
        line_of_other option.case emitted.simps)
next
  case (3 cfg i k es)
  have "concat (heard cfg i (Beats k # es)) = (if k = i then '': keep-alive'' @ blank_line @ concat (heard cfg i es) else concat (heard cfg i es))"
    by simp
  then show ?case using 3
    by (simp only: beat_cut butlast_split map_filter_simps line_of_other option.case emitted.simps split: if_split) simp
qed (simp_all add: map_filter_simps)

fun is_emit :: "log_event \<Rightarrow> bool" where
  "is_emit (Emits ts lv m) = True"
| "is_emit _ = False"

lemma heard_append: "heard cfg i (es @ fs) = heard cfg i es @ heard cfg i fs"
  by (induction cfg i es rule: heard.induct) simp_all

lemma emitted_append: "emitted cfg (es @ fs) = emitted cfg es @ emitted cfg fs"
  by (induction cfg es rule: emitted.induct) simp_all

lemma frames_heard: "list_all is_emit es \<Longrightarrow> map sse_frame (emitted cfg es) = heard cfg i es"
  by (induction cfg i es rule: heard.induct) simp_all

lemma emitted_drop: "list_all is_emit es \<Longrightarrow> emitted cfg (drop k es) = drop k (emitted cfg es)"
proof (induction k arbitrary: es)
  case (Suc k)
  show ?case
  proof (cases es)
    case (Cons e fs)
    then show ?thesis using Suc by (cases e) simp_all
  qed simp
qed simp

lemma emitted_only: "emitted cfg (filter is_emit es) = emitted cfg es"
  by (induction cfg es rule: emitted.induct) simp_all

text \<open>Some end of what was emitted, framed, is what a follower hears of as many lines.\<close>

lemma frames_of_tail:
  obtains es' where "map sse_frame (drop k (emitted cfg es)) = heard cfg i es'" "emitted cfg es' = drop k (emitted cfg es)"
proof
  have only: "list_all is_emit (filter is_emit es)" "list_all is_emit (drop k (filter is_emit es))"
    by (auto simp: list_all_iff dest: in_set_dropD)
  show tail: "emitted cfg (drop k (filter is_emit es)) = drop k (emitted cfg es)"
    unfolding emitted_drop[OF only(1)] emitted_only ..
  show "map sse_frame (drop k (emitted cfg es)) = heard cfg i (drop k (filter is_emit es))"
    unfolding tail[symmetric] by (rule frames_heard[OF only(2)])
qed

lemma slice_of_last:
  assumes "1 \<le> n" "n \<le> LOG_BUFFER_MAX"
  shows "slice_last (of_nat n) (last_lines xs) = drop (length xs - n) xs"
proof (cases "length xs \<le> LOG_BUFFER_MAX")
  case False
  then have "LOG_BUFFER_MAX - n + (length xs - LOG_BUFFER_MAX) = length xs - n" using assms by simp
  then show ?thesis using assms False by (simp add: slice_last_def last_lines_def Let_def)
qed (use assms in \<open>simp add: slice_last_def last_lines_def Let_def\<close>)

text \<open>
  The log panel sees all of a replica's log. Whatever was emitted before and after the router attached,
  whoever else follows, and however the network cuts the stream, what the router reads of it is the last lines
  of before, as many as it asked for, and then every line since, in order, each once.\<close>
theorem mock_log_reaches_panel:
  assumes quiet: "list_all (\<lambda>e. \<not> concerns i e) (pre @ post)" and n: "1 \<le> n" "n \<le> LOG_BUFFER_MAX"
    and ws: "followed i (log_after cfg (pre @ Joins i (of_nat n) # post) (mock_start env t0)) = Some ws"
    and first: "fetch (url @ ''/logs/stream'') = Inr gone" "\<not> rs_ok gone"
    and then_this: "fetch (url @ ''/logs?follow=true&tail='' @ show_num (of_nat n)) = Inr res"
      "rs_ok res" "rs_reads res = Some reads" "concat reads = concat ws"
      "rs_content_type res = Some ''text/event-stream''"
  shows "tailFromEndpoint fetch now url replicaId (of_nat n) =
    (drop (length (emitted cfg pre) - n) (emitted cfg pre) @ emitted cfg post, rs_broken res)"
proof -
  let ?s = "log_after cfg pre (mock_start env t0)" and ?old = "drop (length (emitted cfg pre) - n) (emitted cfg pre)"
  have "mk_log ?s = last_lines (emitted cfg pre)"
    using log_is_last[of "mock_start env t0" cfg pre] by (simp add: mock_start_def)
  moreover have "followed i ?s = None"
    using unfollowed_after[of i "mock_start env t0" pre cfg] quiet by (simp add: followed_def mock_start_def)
  ultimately have "followed i (attach i (of_nat n) ?s) = Some (map sse_frame ?old)"
    by (simp add: followed_def attach_def slice_of_last[OF n] map_add_def)
  from followed_after[OF this, of post cfg] quiet ws
  have "ws = map sse_frame ?old @ heard cfg i post" by simp
  then obtain es' where "ws = heard cfg i (es' @ post)" "emitted cfg es' = ?old"
    using frames_of_tail[of "length (emitted cfg pre) - n" cfg pre i] by (metis heard_append)
  then have "pump True replicaId now reads = ?old @ emitted cfg post"
    using heard_lines[of replicaId now cfg i "es' @ post"] cut_lines_spec[of "[]" reads] then_this(4)
    by (simp add: pump_def emitted_append del: cut_lines.simps)
  moreover have "str_includes ''text/event-stream'' ''text/event-stream''" by simp
  ultimately show ?thesis
    using first then_this by (simp add: tailFromEndpoint_def endpoint_candidates_def read_stream_def)
qed

text \<open>Two lines before, one since, of which the panel asked for one line of before.\<close>

lemma mock_log_reaches_panel_witness:
  "let a = Emits ''t0'' InfoLevel ''listening''; b = Emits ''t1'' InfoLevel ''ready''; c = Emits ''t2'' WarnLevel ''stalled'';
       fetch = (\<lambda>url. Inr (if url = ''m/logs/stream''
         then \<lparr>rs_status = 404, rs_reads = None, rs_content_type = None, rs_broken = None\<rparr>
         else \<lparr>rs_status = 200, rs_reads = Some [concat (heard ex_mock 7 [b, c])],
               rs_content_type = Some ''text/event-stream'', rs_broken = None\<rparr>))
   in tailFromEndpoint fetch ''now'' ''m'' ''r1'' 1 = ([mock_line ex_mock ''t1'' InfoLevel ''ready'', mock_line ex_mock ''t2'' WarnLevel ''stalled''], None)"
proof -
  let ?a = "Emits ''t0'' InfoLevel ''listening''" and ?b = "Emits ''t1'' InfoLevel ''ready''" and ?c = "Emits ''t2'' WarnLevel ''stalled''"
  let ?fetch = "\<lambda>url. Inr (if url = ''m/logs/stream''
         then \<lparr>rs_status = 404, rs_reads = None, rs_content_type = None, rs_broken = None\<rparr>
         else \<lparr>rs_status = 200, rs_reads = Some [concat (heard ex_mock 7 [?b, ?c])],
               rs_content_type = Some ''text/event-stream'', rs_broken = None\<rparr>) :: string + response"
  have ws: "followed 7 (log_after ex_mock ([?a, ?b] @ Joins 7 (of_nat 1) # [?c]) (mock_start (\<lambda>_. None) 0)) = Some (heard ex_mock 7 [?b, ?c])"
    by (simp add: followed_def emit_log_def push_line_def attach_def mock_start_def slice_last_def Let_def LOG_BUFFER_MAX_def)
  show ?thesis
    using mock_log_reaches_panel[of 7 "[?a, ?b]" "[?c]" 1 ex_mock "\<lambda>_. None" 0 "heard ex_mock 7 [?b, ?c]" ?fetch "''m''" _ _ "[concat (heard ex_mock 7 [?b, ?c])]" "''now''" "''r1''", OF _ _ _ ws]
    by (simp add: LOG_BUFFER_MAX_def rs_ok_def Let_def)
qed

lemma chat_not_ready: "\<not> isReady now s \<Longrightarrow> fst (mock_handle cfg sine now ts rand i r s) \<noteq> Generating j"
  by (auto simp: mock_handle_def answered_def bad_body_def Let_def split: if_splits option.splits)

text \<open>
  The readiness gate. The reconciler's probe of the mock finds it ready exactly when its warm-up is over or it was
  forced, loading otherwise, and reads its ceiling; until then no request makes it generate.\<close>
theorem mock_gate:
  assumes "health_reply cfg now s = MockJson status body"
  shows "pr_status (probeReplica (Some (status, Some body))) = (if isReady now s then Ready else Loading) \<and>
    pr_maxConcurrency (probeReplica (Some (status, Some body))) =
      (if 1 \<le> sw_maxConcurrency (mk_switches s) then Some \<lfloor>sw_maxConcurrency (mk_switches s)\<rfloor> else None) \<and>
    (pr_status (probeReplica (Some (status, Some body))) = Loading \<longrightarrow>
       (\<forall>sine ts rand i r j. fst (mock_handle cfg sine now ts rand i r s) \<noteq> Generating j))"
proof -
  have "status = (if isReady now s then 200 else 503)"
      "jfield ''maxConcurrency'' body = Some (JNum (sw_maxConcurrency (mk_switches s)))"
    using assms by (auto simp: health_reply_def Let_def)
  then show ?thesis
    using chat_not_ready[of now s cfg] by (auto simp: probeReplica_def Let_def as_number_def)
qed

text \<open>A mock that needs a second to load is loading at once.\<close>

lemma mock_gate_witness:
  "\<exists>status body. health_reply ex_mock 0 (mock_start (\<lambda>k. if k = ''LOAD_DELAY_MS'' then Some ''1000'' else None) 0) = MockJson status body \<and>
     pr_status (probeReplica (Some (status, Some body))) = Loading"
proof -
  let ?s = "mock_start (\<lambda>k. if k = ''LOAD_DELAY_MS'' then Some ''1000'' else None) 0"
  obtain status body where r: "health_reply ex_mock 0 ?s = MockJson status body"
    by (cases "health_reply ex_mock 0 ?s") auto
  have "js_number ''1000'' = Some 1000" by code_simp
  then have "\<not> isReady 0 ?s"
    by (simp add: isReady_def mock_start_def mock_switches_of_def num_def nullish_def)
  then show ?thesis using mock_gate[OF r] r by auto
qed

end
