(* ===== verification/Broker.thy ===== *)
theory Broker
  imports Session
begin

text \<open>
  The token broker of a developer's machine, \<open>tools/token-broker/controldeck-token-broker.mjs\<close>: its
  configuration, the device login, the stored credential, the access token every proxied request asks for, and
  the proxy. Requests are served side by side and share the file and one refresh, so \<open>currentToken\<close> is a
  step relation: each step is what runs between two awaits.

  The identity provider, the gateway and the clock are arguments. The token endpoint answers with an object, and
  a body that cannot be read counts as an empty one, as in the code. \<open>writeFile\<close> truncates before it writes, so
  the file is torn in between.
\<close>

section \<open>Configuration\<close>

record broker_config =
  bc_tenantId :: string
  bc_clientId :: string
  bc_scope :: string
  bc_gateway :: string
  bc_port :: "rat option"
  bc_authority :: string
  bc_statePath :: string

definition broker_config_of :: "env \<Rightarrow> string \<Rightarrow> broker_config" where
  "broker_config_of env home =
     \<lparr>bc_tenantId = nullish (env ''CONTROLDECK_TENANT_ID'') '''',
      bc_clientId = nullish (env ''CONTROLDECK_CLIENT_ID'') '''',
      bc_scope = nullish (env ''CONTROLDECK_SCOPE'') ''api://llm-gateway/.default offline_access'',
      bc_gateway = nullish (env ''CONTROLDECK_GATEWAY'') '''',
      bc_port = js_number (nullish (env ''CONTROLDECK_BROKER_PORT'') ''8787''),
      bc_authority = nullish (env ''CONTROLDECK_AUTHORITY'')
        (''https://login.microsoftonline.com/'' @ nullish (env ''CONTROLDECK_TENANT_ID'') ''''),
      bc_statePath = nullish (env ''CONTROLDECK_STATE'') (home @ ''/.controldeck/token.json'')\<rparr>"

definition REFRESH_SKEW_MS :: rat where
  "REFRESH_SKEW_MS = 5 * 60 * 1000"

definition variable_of :: "string \<Rightarrow> string" where
  "variable_of k = ''CONTROLDECK_'' @ to_upper (concat (map (\<lambda>c. if is_upper_az c then [CHR ''_'', c] else [c]) k))"

definition config_value :: "broker_config \<Rightarrow> string \<Rightarrow> string" where
  "config_value cfg k =
     (if k = ''tenantId'' then bc_tenantId cfg else if k = ''clientId'' then bc_clientId cfg
      else if k = ''gateway'' then bc_gateway cfg else '''')"

text \<open>The message the process dies with, if a value is missing.\<close>

definition requireConfig :: "broker_config \<Rightarrow> string list \<Rightarrow> string option" where
  "requireConfig cfg keys =
     (let missing = filter (\<lambda>k. config_value cfg k = '''') keys in
      if missing \<noteq> [] then
        Some (''Missing configuration: '' @ join '', '' (map variable_of missing) @ [CHR 0x0A] @
              ''See docs/client-authentication.md.'')
      else None)"

section \<open>The token endpoint\<close>

record idp_reply =
  ir_ok :: bool
  ir_status :: nat
  ir_body :: "(string \<times> json) list"

text \<open>A value in a template, and as a number (\<open>None\<close>: NaN).\<close>

definition template :: "json option \<Rightarrow> string" where
  "template v = (case v of None \<Rightarrow> ''undefined'' | Some j \<Rightarrow> js_string j)"

definition to_number :: "json option \<Rightarrow> rat option" where
  "to_number v =
     (case v of
        None \<Rightarrow> None
      | Some JNull \<Rightarrow> Some 0
      | Some (JBool b) \<Rightarrow> Some (if b then 1 else 0)
      | Some (JNum n) \<Rightarrow> Some n
      | Some j \<Rightarrow> js_number (js_string j))"

definition is_truthy :: "json option \<Rightarrow> bool" where
  "is_truthy v = js_truthy (nullish v JNull)"

definition error_text :: "(string \<times> json) list \<Rightarrow> string" where
  "error_text body = template (coalesce (non_null (map_of body ''error_description'')) (map_of body ''error''))"

definition no_refresh_message :: string where
  "no_refresh_message =
     ''Entra returned no refresh token. Add `offline_access` to CONTROLDECK_SCOPE -- '' @
     ''without it every access token is a dead end and this broker cannot do its job.''"

text \<open>What \<open>persist\<close> stores, or the message it dies with. A time that is not a number is stored as null.\<close>

definition persisted :: "rat \<Rightarrow> (string \<times> json) list \<Rightarrow> string + json" where
  "persisted now token =
     (case map_of token ''refresh_token'' of
        None \<Rightarrow> Inl no_refresh_message
      | Some r \<Rightarrow>
          if \<not> js_truthy r then Inl no_refresh_message
          else Inr (JObj ([(''refreshToken'', r)] @
            (case map_of token ''access_token'' of None \<Rightarrow> [] | Some t \<Rightarrow> [(''accessToken'', t)]) @
            [(''expiresAt'',
              case to_number (Some (nullish (non_null (map_of token ''expires_in'')) (JNum 3600))) of
                None \<Rightarrow> JNull | Some s \<Rightarrow> JNum (now + s * 1000))])))"

section \<open>Signing in\<close>

definition device_form :: "broker_config \<Rightarrow> (string \<times> string) list" where
  "device_form cfg = [(''client_id'', bc_clientId cfg), (''scope'', bc_scope cfg)]"

definition poll_form :: "broker_config \<Rightarrow> (string \<times> json) list \<Rightarrow> (string \<times> string) list" where
  "poll_form cfg start =
     [(''grant_type'', ''urn:ietf:params:oauth:grant-type:device_code''), (''client_id'', bc_clientId cfg),
      (''device_code'', template (map_of start ''device_code''))]"

text \<open>
  The outcome of a login: the credential is stored, the process dies with a message, or it is still polling when
  the answers that are given end.
\<close>

datatype login_outcome =
    SignedIn json
  | LoginDies string
  | StillPolling

text \<open>Every answer comes with the time its request took.\<close>

fun poll_loop :: "rat \<Rightarrow> rat \<Rightarrow> rat \<Rightarrow> (rat \<times> idp_reply) list \<Rightarrow> login_outcome" where
  "poll_loop deadline interval now polls =
     (if \<not> now < deadline then LoginDies ''Sign-in timed out.''
      else (case polls of
        [] \<Rightarrow> StillPolling
      | (took, poll) # rest \<Rightarrow>
          (let later = now + interval + took; body = ir_body poll in
           if ir_ok poll then (case persisted later body of Inl m \<Rightarrow> LoginDies m | Inr v \<Rightarrow> SignedIn v)
           else if map_of body ''error'' = Some (JStr ''authorization_pending'') then poll_loop deadline interval later rest
           else if map_of body ''error'' = Some (JStr ''slow_down'') then poll_loop deadline (interval + 5000) later rest
           else LoginDies (''Sign-in failed: '' @ error_text body))))"

declare poll_loop.simps [simp del]

text \<open>\<open>start.expires_in ?? 900\<close> and \<open>start.interval ?? 5\<close> in seconds; the endpoint gives numbers.\<close>

definition seconds :: "string \<Rightarrow> rat \<Rightarrow> (string \<times> json) list \<Rightarrow> rat" where
  "seconds k otherwise start = nullish (as_number (map_of start k)) otherwise"

definition login :: "broker_config \<Rightarrow> rat \<Rightarrow> idp_reply \<Rightarrow> (rat \<times> idp_reply) list \<Rightarrow> login_outcome" where
  "login cfg now device polls =
     (case requireConfig cfg [''tenantId'', ''clientId''] of
        Some m \<Rightarrow> LoginDies m
      | None \<Rightarrow>
          let start = ir_body device in
          if \<not> ir_ok device then
            LoginDies (''Could not start device login: '' @
              (case non_null (map_of start ''error_description'') of
                 None \<Rightarrow> json_stringify (JObj start) | Some d \<Rightarrow> js_string d))
          else poll_loop (now + seconds ''expires_in'' 900 start * 1000) (seconds ''interval'' 5 start * 1000) now polls)"

section \<open>The stored credential and the token of a request\<close>

datatype disk =
    NoFile
  | Torn
  | Holds json

definition loadState :: "disk \<Rightarrow> json option" where
  "loadState f = (case f of Holds v \<Rightarrow> Some v | _ \<Rightarrow> None)"

text \<open>
  The refresh under way: its request is out with a refresh token; its answer is about to be stored; the file has been
  truncated; the file has been written and its mode is being set. The access token it will resolve to goes along.
\<close>

datatype refresh =
    Asking string
  | Storing json "json option"
  | Writing json "json option"
  | Sealing "json option"

text \<open>
  A request: it has come; it holds what it read from the file; it awaits the refresh; it goes to the gateway with a
  token; it was turned away.
\<close>

datatype caller =
    Arrived
  | HasRead "json option"
  | Waiting
  | Served string
  | TurnedAway string

record broker =
  bk_now :: rat
  bk_disk :: disk
  bk_refresh :: "refresh option"
  bk_callers :: "caller list"
  bk_alive :: bool
  bk_spent :: "string list"

definition start_broker :: "rat \<Rightarrow> json \<Rightarrow> broker" where
  "start_broker now st =
     \<lparr>bk_now = now, bk_disk = Holds st, bk_refresh = None, bk_callers = [], bk_alive = True, bk_spent = []\<rparr>"

definition set_caller :: "nat \<Rightarrow> caller \<Rightarrow> broker \<Rightarrow> broker" where
  "set_caller k c b = b\<lparr>bk_callers := (bk_callers b)[k := c]\<rparr>"

definition still_fresh :: "rat \<Rightarrow> json \<Rightarrow> bool" where
  "still_fresh now st \<longleftrightarrow> is_truthy (jfield ''accessToken'' st) \<and>
     (case to_number (jfield ''expiresAt'' st) of None \<Rightarrow> False | Some e \<Rightarrow> e - now > REFRESH_SKEW_MS)"

definition refresh_form :: "broker_config \<Rightarrow> string \<Rightarrow> (string \<times> string) list" where
  "refresh_form cfg refreshToken =
     [(''grant_type'', ''refresh_token''), (''client_id'', bc_clientId cfg), (''refresh_token'', refreshToken),
      (''scope'', bc_scope cfg)]"

text \<open>\<open>currentToken\<close> from where its read of the file has returned.\<close>

definition currentToken :: "nat \<Rightarrow> json option \<Rightarrow> broker \<Rightarrow> broker" where
  "currentToken k loaded b =
     (if \<not> is_truthy loaded then b\<lparr>bk_alive := False\<rparr>
      else
        let st = nullish loaded JNull in
        if still_fresh (bk_now b) st then set_caller k (Served (template (jfield ''accessToken'' st))) b
        else if bk_refresh b \<noteq> None then set_caller k Waiting b
        else
          let spent = template (jfield ''refreshToken'' st) in
          set_caller k Waiting (b\<lparr>bk_refresh := Some (Asking spent), bk_spent := bk_spent b @ [spent]\<rparr>))"

text \<open>The refresh settles: it is forgotten, and whoever awaits it goes on.\<close>

definition settle_refresh :: "string + json option \<Rightarrow> broker \<Rightarrow> broker" where
  "settle_refresh result b =
     b\<lparr>bk_refresh := None,
       bk_callers := map (\<lambda>c. if c = Waiting then (case result of Inl m \<Rightarrow> TurnedAway m | Inr t \<Rightarrow> Served (template t)) else c)
         (bk_callers b)\<rparr>"

definition refresh_failed :: "idp_reply \<Rightarrow> string" where
  "refresh_failed r =
     ''Refresh failed ('' @ digits_of (ir_status r) @ ''): '' @ error_text (ir_body r) @ ''. Run: controldeck-token-broker login''"

definition answer_refresh :: "idp_reply \<Rightarrow> broker \<Rightarrow> broker" where
  "answer_refresh r b =
     (if \<not> ir_ok r then settle_refresh (Inl (refresh_failed r)) b
      else (case persisted (bk_now b) (ir_body r) of
        Inl m \<Rightarrow> b\<lparr>bk_alive := False\<rparr>
      | Inr v \<Rightarrow> b\<lparr>bk_refresh := Some (Storing v (map_of (ir_body r) ''access_token''))\<rparr>))"

inductive broker_step :: "broker \<Rightarrow> broker \<Rightarrow> bool" where
  tick: "bk_alive b \<Longrightarrow> 0 \<le> dt \<Longrightarrow> broker_step b (b\<lparr>bk_now := bk_now b + dt\<rparr>)"
| arrive: "bk_alive b \<Longrightarrow> broker_step b (b\<lparr>bk_callers := bk_callers b @ [Arrived]\<rparr>)"
| read: "bk_alive b \<Longrightarrow> k < length (bk_callers b) \<Longrightarrow> bk_callers b ! k = Arrived \<Longrightarrow>
    broker_step b (set_caller k (HasRead (loadState (bk_disk b))) b)"
| resume: "bk_alive b \<Longrightarrow> k < length (bk_callers b) \<Longrightarrow> bk_callers b ! k = HasRead loaded \<Longrightarrow>
    broker_step b (currentToken k loaded b)"
| answer: "bk_alive b \<Longrightarrow> bk_refresh b = Some (Asking r) \<Longrightarrow> broker_step b (answer_refresh reply b)"
| fails: "bk_alive b \<Longrightarrow> bk_refresh b = Some f \<Longrightarrow> broker_step b (settle_refresh (Inl e) b)"
| truncate: "bk_alive b \<Longrightarrow> bk_refresh b = Some (Storing v t) \<Longrightarrow>
    broker_step b (b\<lparr>bk_refresh := Some (Writing v t), bk_disk := Torn\<rparr>)"
| written: "bk_alive b \<Longrightarrow> bk_refresh b = Some (Writing v t) \<Longrightarrow>
    broker_step b (b\<lparr>bk_refresh := Some (Sealing t), bk_disk := Holds v\<rparr>)"
| seal: "bk_alive b \<Longrightarrow> bk_refresh b = Some (Sealing t) \<Longrightarrow> broker_step b (settle_refresh (Inr t) b)"

abbreviation broker_run :: "broker \<Rightarrow> broker \<Rightarrow> bool" where
  "broker_run \<equiv> broker_step\<^sup>*\<^sup>*"

text \<open>The command \<open>serve\<close> first asks for a token itself: its own request is the first caller.\<close>

definition serve :: "broker_config \<Rightarrow> rat \<Rightarrow> disk \<Rightarrow> string + broker" where
  "serve cfg now f =
     (case requireConfig cfg [''tenantId'', ''clientId'', ''gateway''] of
        Some m \<Rightarrow> Inl m
      | None \<Rightarrow> Inr \<lparr>bk_now = now, bk_disk = f, bk_refresh = None, bk_callers = [Arrived], bk_alive = True, bk_spent = []\<rparr>)"

section \<open>The proxy\<close>

definition BROKER_STRIPPED :: "string list" where
  "BROKER_STRIPPED = [''host'', ''connection'', ''keep-alive'', ''transfer-encoding'', ''content-length'', ''authorization'']"

text \<open>Incoming headers; a value that is not a single string is \<open>None\<close>.\<close>

fun pass_headers :: "(string \<times> string option) list \<Rightarrow> headers \<Rightarrow> headers" where
  "pass_headers [] out = out"
| "pass_headers ((k, v) # hs) out =
     pass_headers hs (case v of
       Some x \<Rightarrow> if to_lower k \<notin> set BROKER_STRIPPED then set_header k x out else out
     | None \<Rightarrow> out)"

record broker_request =
  br_method :: string
  br_url :: string
  br_headers :: "(string \<times> string option) list"
  br_body :: string

definition gateway_call :: "broker_config \<Rightarrow> string \<Rightarrow> broker_request \<Rightarrow> proxy_call" where
  "gateway_call cfg token r =
     \<lparr>pc_target = bc_gateway cfg @ br_url r, pc_method = br_method r,
      pc_headers = set_header ''authorization'' (''Bearer '' @ token) (pass_headers (br_headers r) []),
      pc_body = (if br_body r \<noteq> '''' then Some (br_body r) else None), pc_abortable = False\<rparr>"

definition json_answer :: "nat \<Rightarrow> string \<Rightarrow> web_response" where
  "json_answer status message =
     \<lparr>wp_status = status, wp_statusText = '''', wp_headers = [(''content-type'', ''application/json'')],
      wp_body = json_stringify (JObj [(''error'', JObj [(''message'', JStr message)])])\<rparr>"

text \<open>What the tool is answered, once its token is settled.\<close>

definition broker_answer ::
  "broker_config \<Rightarrow> (proxy_call \<Rightarrow> string + web_response) \<Rightarrow> string + string \<Rightarrow> broker_request \<Rightarrow> web_response" where
  "broker_answer cfg upstream token r =
     (case token of
        Inl e \<Rightarrow> json_answer 401 e
      | Inr t \<Rightarrow>
          (case upstream (gateway_call cfg t r) of
             Inl e \<Rightarrow> json_answer 502 (''Could not reach '' @ bc_gateway cfg @ '': '' @ e)
           | Inr u \<Rightarrow>
               u\<lparr>wp_headers := filter (\<lambda>h. fst h \<noteq> ''content-encoding'' \<and> fst h \<noteq> ''content-length'') (wp_headers u)\<rparr>))"

section \<open>Facts\<close>

lemma set_caller_simps [simp]:
  "bk_callers (set_caller k c b) = (bk_callers b)[k := c]" "bk_alive (set_caller k c b) = bk_alive b"
  "bk_refresh (set_caller k c b) = bk_refresh b" "bk_disk (set_caller k c b) = bk_disk b"
  "bk_now (set_caller k c b) = bk_now b" "bk_spent (set_caller k c b) = bk_spent b"
  by (simp_all add: set_caller_def)

definition unsettled :: "caller \<Rightarrow> bool" where
  "unsettled c \<longleftrightarrow> (case c of Served t \<Rightarrow> False | TurnedAway m \<Rightarrow> False | _ \<Rightarrow> True)"

lemma unsettled_simps [simp]:
  "unsettled Arrived" "unsettled (HasRead st)" "unsettled Waiting" "\<not> unsettled (Served t)" "\<not> unsettled (TurnedAway m)"
  by (simp_all add: unsettled_def)

text \<open>Nobody waits for a refresh that is not under way.\<close>

definition awaited :: "broker \<Rightarrow> bool" where
  "awaited b \<longleftrightarrow> (Waiting \<in> set (bk_callers b) \<longrightarrow> bk_refresh b \<noteq> None)"

lemma settle_no_waiting: "Waiting \<notin> set (bk_callers (settle_refresh res b))"
  by (auto simp: settle_refresh_def split: sum.splits)

lemma currentToken_awaited: "awaited b \<Longrightarrow> awaited (currentToken k loaded b)"
  using set_update_subset_insert[of "bk_callers b" k] by (auto simp: currentToken_def awaited_def Let_def)

lemma awaited_step: "broker_step b b' \<Longrightarrow> awaited b \<Longrightarrow> awaited b'"
proof (induction rule: broker_step.induct)
  case (read b k)
  then show ?case using set_update_subset_insert[of "bk_callers b" k] by (auto simp: awaited_def)
next
  case (answer b r reply)
  then show ?case using settle_no_waiting by (auto simp: answer_refresh_def awaited_def split: sum.splits)
next
  case (resume b k loaded)
  then show ?case using currentToken_awaited by blast
qed (auto simp: awaited_def settle_no_waiting)

lemma awaited_run: "broker_run b b' \<Longrightarrow> awaited b \<Longrightarrow> awaited b'"
  by (induction rule: rtranclp_induct) (auto intro: awaited_step)

lemma run_step: "broker_step b b' \<Longrightarrow> broker_run b' b'' \<Longrightarrow> broker_run b b''"
  by (rule converse_rtranclp_into_rtranclp)

text \<open>With a credential on disk that can be read, one caller after the other is settled.\<close>

definition healthy :: "broker \<Rightarrow> bool" where
  "healthy b \<longleftrightarrow> bk_alive b \<and> is_truthy (loadState (bk_disk b)) \<and>
     (\<forall>st. HasRead st \<in> set (bk_callers b) \<longrightarrow> is_truthy st)"

definition open_callers :: "broker \<Rightarrow> nat" where
  "open_callers b = length (filter unsettled (bk_callers b))"

lemma settle_keeps:
  "healthy b \<Longrightarrow> healthy (settle_refresh res b)" "open_callers (settle_refresh res b) \<le> open_callers b"
  "bk_refresh (settle_refresh res b) = None"
proof -
  define f where "f = (\<lambda>c. if c = Waiting then (case res of Inl m \<Rightarrow> TurnedAway m | Inr t \<Rightarrow> Served (template t)) else c)"
  have "unsettled (f c) \<Longrightarrow> unsettled c" for c by (auto simp: f_def split: sum.splits if_splits)
  then have "length (filter unsettled (map f cs)) \<le> length (filter unsettled cs)" for cs
    by (induction cs) auto
  then show "open_callers (settle_refresh res b) \<le> open_callers b"
    by (simp add: open_callers_def settle_refresh_def f_def[symmetric])
qed (auto simp: healthy_def settle_refresh_def split: sum.splits if_splits)

lemma open_update:
  assumes "k < length cs" "unsettled (cs ! k)"
  shows "length (filter unsettled cs) = length (filter unsettled (cs[k := c])) + (if unsettled c then 0 else 1)"
proof -
  have "cs = take k cs @ [cs ! k] @ drop (Suc k) cs" using id_take_nth_drop[OF assms(1)] by simp
  then have "filter unsettled cs = filter unsettled (take k cs @ [cs ! k] @ drop (Suc k) cs)" by (rule arg_cong)
  then show ?thesis using assms(2) upd_conv_take_nth_drop[OF assms(1), of c] by simp
qed

lemma fewer_open:
  assumes "k < length cs" "unsettled (cs ! k)" "\<not> unsettled c"
  shows "length (filter unsettled (cs[k := c])) < length (filter unsettled cs)"
  using open_update[OF assms(1,2), of c] assms(3) by simp

lemma settle_after_start:
  assumes "Waiting \<notin> set cs" "k < length cs"
  shows "map (\<lambda>c. if c = Waiting then TurnedAway e else c) (cs[k := Waiting]) = cs[k := TurnedAway e]"
proof -
  have "map (\<lambda>c. if c = Waiting then TurnedAway e else c) cs = cs"
    using assms(1) by (intro map_idI) auto
  then show ?thesis by (simp add: map_update)
qed

lemma healthy_update:
  "healthy b \<Longrightarrow> (\<And>st. c = HasRead st \<Longrightarrow> is_truthy st) \<Longrightarrow> healthy (set_caller k c b)"
  using set_update_subset_insert[of "bk_callers b" k c] by (fastforce simp: healthy_def)

lemma settle_read:
  assumes "healthy b" "awaited b" "bk_refresh b = None" "k < length (bk_callers b)" "bk_callers b ! k = HasRead st"
  shows "\<exists>b'. broker_run b b' \<and> healthy b' \<and> awaited b' \<and> bk_refresh b' = None \<and> open_callers b' < open_callers b"
proof -
  have alive: "bk_alive b" and st: "is_truthy st"
    using assms nth_mem[OF assms(4)] by (auto simp: healthy_def)
  have step: "broker_step b (currentToken k st b)" using broker_step.resume[OF alive assms(4,5)] .
  have quiet: "Waiting \<notin> set (bk_callers b)" using assms(2,3) by (auto simp: awaited_def)
  show ?thesis
  proof (cases "still_fresh (bk_now b) (nullish st JNull)")
    case True
    let ?c = "Served (template (jfield ''accessToken'' (nullish st JNull)))"
    have "currentToken k st b = set_caller k ?c b" using True st by (simp add: currentToken_def Let_def)
    moreover have "open_callers (set_caller k ?c b) < open_callers b"
      using fewer_open[OF assms(4), of ?c] assms(5) by (simp add: open_callers_def)
    moreover have "healthy (set_caller k ?c b)" using assms(1) by (rule healthy_update) simp
    ultimately show ?thesis
      using step assms(3) awaited_step[OF step assms(2)] by (intro exI[of _ "set_caller k ?c b"]) auto
  next
    case False
    let ?b = "currentToken k st b" and ?m = "''offline''"
    have b: "bk_refresh ?b = Some (Asking (template (jfield ''refreshToken'' (nullish st JNull))))" "bk_alive ?b"
        "bk_callers ?b = (bk_callers b)[k := Waiting]" "bk_disk ?b = bk_disk b"
      using False st assms(3) alive by (simp_all add: currentToken_def Let_def)
    have fail: "broker_step ?b (settle_refresh (Inl ?m) ?b)" using broker_step.fails[OF b(2,1)] .
    have cs: "bk_callers (settle_refresh (Inl ?m) ?b) = (bk_callers b)[k := TurnedAway ?m]"
      using settle_after_start[OF quiet assms(4), of ?m] by (simp only: settle_refresh_def b(3) sum.case) simp
    have "healthy ?b"
      using assms(1) b set_update_subset_insert[of "bk_callers b" k Waiting] by (fastforce simp: healthy_def)
    moreover have "open_callers (settle_refresh (Inl ?m) ?b) < open_callers b"
      using fewer_open[OF assms(4), of "TurnedAway ?m"] assms(5) by (simp add: open_callers_def cs)
    moreover have "broker_run b (settle_refresh (Inl ?m) ?b)" using step fail by (meson r_into_rtranclp run_step)
    ultimately show ?thesis
      using settle_keeps(1,3) awaited_step[OF fail awaited_step[OF step assms(2)]] by blast
  qed
qed

lemma settle_one:
  assumes "healthy b" "awaited b" "bk_refresh b = None" "open_callers b \<noteq> 0"
  shows "\<exists>b'. broker_run b b' \<and> healthy b' \<and> awaited b' \<and> bk_refresh b' = None \<and> open_callers b' < open_callers b"
proof -
  obtain k where k: "k < length (bk_callers b)" "unsettled (bk_callers b ! k)"
    using assms(4) by (auto simp: open_callers_def filter_empty_conv in_set_conv_nth)
  have "Waiting \<notin> set (bk_callers b)" using assms(2,3) by (auto simp: awaited_def)
  then have "bk_callers b ! k \<noteq> Waiting" using nth_mem[OF k(1)] by auto
  then consider st where "bk_callers b ! k = HasRead st" | "bk_callers b ! k = Arrived"
    using k(2) by (cases "bk_callers b ! k") auto
  then show ?thesis
  proof cases
    case (1 st)
    then show ?thesis using settle_read assms(1-3) k(1) by blast
  next
    case 2
    let ?b = "set_caller k (HasRead (loadState (bk_disk b))) b"
    have alive: "bk_alive b" "is_truthy (loadState (bk_disk b))" using assms(1) by (simp_all add: healthy_def)
    have step: "broker_step b ?b" using broker_step.read[OF alive(1) k(1) 2] .
    have "open_callers ?b = open_callers b"
      using open_update[OF k, of "HasRead (loadState (bk_disk b))"] by (simp add: open_callers_def)
    moreover have "healthy ?b" using assms(1) by (rule healthy_update) (use alive(2) in simp)
    ultimately show ?thesis
      using settle_read[of ?b k] awaited_step[OF step assms(2)] assms(3) k(1) step by simp (metis run_step)
  qed
qed

lemma settle_all:
  "healthy b \<Longrightarrow> awaited b \<Longrightarrow> bk_refresh b = None \<Longrightarrow>
   \<exists>b'. broker_run b b' \<and> bk_alive b' \<and> open_callers b' = 0"
proof (induction "open_callers b" arbitrary: b rule: less_induct)
  case less
  show ?case
  proof (cases "open_callers b = 0")
    case True
    then show ?thesis using less.prems(1) by (auto simp: healthy_def)
  next
    case False
    then obtain b1 where "broker_run b b1" "healthy b1" "awaited b1" "bk_refresh b1 = None" "open_callers b1 < open_callers b"
      using settle_one less.prems by blast
    then show ?thesis using less.hyps[of b1] by (meson rtranclp_trans)
  qed
qed

text \<open>
  Nobody is left hanging. From every state that any history of requests, refreshes and failures leads to, if the
  process lives and the credential can be read, by whoever has read it and by whoever will, the broker can go on
  to settle every request, with a token or with an error.\<close>
theorem broker_settles:
  assumes "broker_run (start_broker t0 st0) b" and "healthy b"
  shows "\<exists>b'. broker_run b b' \<and> bk_alive b' \<and> list_all (\<lambda>c. \<not> unsettled c) (bk_callers b')"
proof -
  have aw: "awaited b" using awaited_run[OF assms(1)] by (simp add: awaited_def start_broker_def)
  have "\<exists>b1. broker_run b b1 \<and> healthy b1 \<and> awaited b1 \<and> bk_refresh b1 = None"
  proof (cases "bk_refresh b")
    case (Some f)
    then have "broker_step b (settle_refresh (Inl ''offline'') b)"
      using broker_step.fails[of b f] assms(2) by (simp add: healthy_def)
    then show ?thesis
      using settle_keeps(1,3) assms(2) settle_no_waiting by (auto simp: awaited_def intro!: exI[of _ "settle_refresh (Inl ''offline'') b"])
  qed (use assms(2) aw in blast)
  then obtain b1 where "broker_run b b1" "healthy b1" "awaited b1" "bk_refresh b1 = None" by blast
  then obtain b' where "broker_run b b'" "bk_alive b'" "open_callers b' = 0"
    using settle_all by (meson rtranclp_trans)
  then show ?thesis by (auto simp: open_callers_def filter_empty_conv list_all_iff)
qed

section \<open>A concrete broker\<close>

definition ex_stored :: json where
  "ex_stored = JObj [(''refreshToken'', JStr ''r1''), (''accessToken'', JStr ''a1''), (''expiresAt'', JNum 3600000)]"

definition ex_rotated :: idp_reply where
  "ex_rotated = \<lparr>ir_ok = True, ir_status = 200,
     ir_body = [(''access_token'', JStr ''a2''), (''refresh_token'', JStr ''r2''), (''expires_in'', JNum 3600)]\<rparr>"

text \<open>A request at the start, when the token is fresh: it can be settled.\<close>

lemma broker_settles_witness:
  "\<exists>b'. broker_run ((start_broker 0 ex_stored)\<lparr>bk_callers := [Arrived]\<rparr>) b' \<and> bk_alive b' \<and>
     list_all (\<lambda>c. \<not> unsettled c) (bk_callers b')"
proof (rule broker_settles)
  show "broker_run (start_broker 0 ex_stored) ((start_broker 0 ex_stored)\<lparr>bk_callers := [Arrived]\<rparr>)"
    using broker_step.arrive[of "start_broker 0 ex_stored"] by (auto simp: start_broker_def)
  show "healthy ((start_broker 0 ex_stored)\<lparr>bk_callers := [Arrived]\<rparr>)"
    by (simp add: healthy_def start_broker_def loadState_def is_truthy_def nullish_def ex_stored_def)
qed

section \<open>Whose token\<close>

definition stored_ok :: "broker \<Rightarrow> bool" where
  "stored_ok b \<longleftrightarrow>
     (case bk_refresh b of
        Some (Storing v t) \<Rightarrow> jfield ''accessToken'' v = t
      | Some (Writing v t) \<Rightarrow> jfield ''accessToken'' v = t
      | Some (Sealing t) \<Rightarrow> (\<exists>v. bk_disk b = Holds v \<and> jfield ''accessToken'' v = t)
      | _ \<Rightarrow> True)"

lemma persisted_access: "persisted now token = Inr v \<Longrightarrow> jfield ''accessToken'' v = map_of token ''access_token''"
  by (auto simp: persisted_def split: option.splits if_splits)

lemma stored_ok_step: "broker_step b b' \<Longrightarrow> stored_ok b \<Longrightarrow> stored_ok b'"
proof (induction rule: broker_step.induct)
  case (answer b r reply)
  then show ?case
    by (auto simp: stored_ok_def answer_refresh_def settle_refresh_def persisted_access split: sum.splits)
next
  case (resume b k loaded)
  then show ?case by (auto simp: stored_ok_def currentToken_def Let_def split: option.splits refresh.splits)
qed (auto simp: stored_ok_def settle_refresh_def split: option.splits refresh.splits)

lemma stored_ok_run: "broker_run b b' \<Longrightarrow> stored_ok b \<Longrightarrow> stored_ok b'"
  by (induction rule: rtranclp_induct) (auto intro: stored_ok_step)

text \<open>
  C33: Which token a request goes out with, in any history. It is the access token of the credential the request itself
  has read, which then is good for more than five minutes; or the request has awaited the refresh, and it is the
  access token of the credential that the refresh has just left on disk.\<close>
theorem broker_tokens_sound:
  assumes "broker_run (start_broker t0 st0) b" and "broker_step b b'"
    and "k < length (bk_callers b)" and "bk_callers b ! k \<noteq> Served t" and "bk_callers b' ! k = Served t"
  shows "\<exists>st. t = template (jfield ''accessToken'' st) \<and>
    (bk_callers b ! k = HasRead (Some st) \<and> still_fresh (bk_now b) st \<or>
     bk_callers b ! k = Waiting \<and> bk_disk b = Holds st \<and> bk_refresh b' = None)"
proof -
  have stored: "stored_ok b" using stored_ok_run[OF assms(1)] by (simp add: stored_ok_def start_broker_def)
  from assms(2) show ?thesis
  proof cases
    case (seal t')
    then show ?thesis
      using assms(3-5) stored by (auto simp: settle_refresh_def stored_ok_def split: if_splits)
  next
    case (resume i loaded)
    then show ?thesis
      using assms(3-5)
      by (cases "i = k"; cases loaded) (auto simp: currentToken_def Let_def is_truthy_def nullish_def split: if_splits)
  next
    case (read i)
    then show ?thesis using assms(3-5) by (cases "i = k") auto
  next
    case (answer r reply)
    then show ?thesis
      using assms(3-5) by (auto simp: answer_refresh_def settle_refresh_def split: if_splits sum.splits)
  qed (use assms(3-5) in \<open>auto simp: settle_refresh_def nth_append split: if_splits\<close>)
qed

lemma broker_tokens_sound_witness:
  "\<exists>st. template (Some (JStr ''a1'')) = template (jfield ''accessToken'' st) \<and> still_fresh 0 st"
proof -
  let ?b0 = "start_broker 0 ex_stored" and ?b1 = "(start_broker 0 ex_stored)\<lparr>bk_callers := [Arrived]\<rparr>"
  let ?b2 = "(start_broker 0 ex_stored)\<lparr>bk_callers := [HasRead (Some ex_stored)]\<rparr>"
  have "broker_step ?b0 ?b1"
    using broker_step.arrive[of ?b0] by (simp add: start_broker_def)
  moreover have "broker_step ?b1 ?b2"
    using broker_step.read[of ?b1 0] by (simp add: start_broker_def set_caller_def loadState_def)
  ultimately have run: "broker_run ?b0 ?b2" by (meson r_into_rtranclp run_step)
  have step: "broker_step ?b2 (currentToken 0 (Some ex_stored) ?b2)"
    by (rule broker_step.resume) (simp_all add: start_broker_def)
  have "bk_callers (currentToken 0 (Some ex_stored) ?b2) ! 0 = Served (template (Some (JStr ''a1'')))"
    by (simp add: currentToken_def ex_stored_def is_truthy_def nullish_def still_fresh_def to_number_def start_broker_def
        REFRESH_SKEW_MS_def Let_def)
  from broker_tokens_sound[OF run step _ _ this] show ?thesis by (simp add: start_broker_def) blast
qed

section \<open>Two races\<close>

lemma refresh_trace:
  fixes reply :: idp_reply
  assumes "\<not> still_fresh now st" "js_truthy st" "ir_ok reply" "persisted now (ir_body reply) = Inr v"
  shows "\<exists>b. broker_run (start_broker now st) b \<and> bk_alive b \<and> bk_now b = now \<and>
    bk_callers b = [Waiting, HasRead (Some st), Arrived] \<and>
    bk_refresh b = Some (Writing v (map_of (ir_body reply) ''access_token'')) \<and> bk_disk b = Torn \<and>
    bk_spent b = [template (jfield ''refreshToken'' st)]"
proof -
  let ?r = "template (jfield ''refreshToken'' st)" and ?t = "map_of (ir_body reply) ''access_token''"
  let ?b = "\<lambda>cs rf f sp. \<lparr>bk_now = now, bk_disk = f, bk_refresh = rf, bk_callers = cs, bk_alive = True, bk_spent = sp\<rparr>"
  have "broker_step (?b [] None (Holds st) []) (?b [Arrived] None (Holds st) [])"
    using broker_step.arrive[of "?b [] None (Holds st) []"] by simp
  moreover have "broker_step (?b [Arrived] None (Holds st) []) (?b [Arrived, Arrived] None (Holds st) [])"
    using broker_step.arrive[of "?b [Arrived] None (Holds st) []"] by simp
  moreover have "broker_step (?b [Arrived, Arrived] None (Holds st) []) (?b [Arrived, Arrived, Arrived] None (Holds st) [])"
    using broker_step.arrive[of "?b [Arrived, Arrived] None (Holds st) []"] by simp
  moreover have "broker_step (?b [Arrived, Arrived, Arrived] None (Holds st) []) (?b [HasRead (Some st), Arrived, Arrived] None (Holds st) [])"
    using broker_step.read[of "?b [Arrived, Arrived, Arrived] None (Holds st) []" 0] by (simp add: set_caller_def loadState_def)
  moreover have "broker_step (?b [HasRead (Some st), Arrived, Arrived] None (Holds st) [])
      (?b [HasRead (Some st), HasRead (Some st), Arrived] None (Holds st) [])"
    using broker_step.read[of "?b [HasRead (Some st), Arrived, Arrived] None (Holds st) []" 1] by (simp add: set_caller_def loadState_def)
  moreover have "broker_step (?b [HasRead (Some st), HasRead (Some st), Arrived] None (Holds st) [])
      (?b [Waiting, HasRead (Some st), Arrived] (Some (Asking ?r)) (Holds st) [?r])"
    using broker_step.resume[of "?b [HasRead (Some st), HasRead (Some st), Arrived] None (Holds st) []" 0 "Some st"] assms(1,2)
    by (simp add: currentToken_def is_truthy_def nullish_def set_caller_def Let_def)
  moreover have "broker_step (?b [Waiting, HasRead (Some st), Arrived] (Some (Asking ?r)) (Holds st) [?r])
      (?b [Waiting, HasRead (Some st), Arrived] (Some (Storing v ?t)) (Holds st) [?r])"
    using broker_step.answer[of "?b [Waiting, HasRead (Some st), Arrived] (Some (Asking ?r)) (Holds st) [?r]" ?r reply] assms(3,4)
    by (simp add: answer_refresh_def)
  moreover have "broker_step (?b [Waiting, HasRead (Some st), Arrived] (Some (Storing v ?t)) (Holds st) [?r])
      (?b [Waiting, HasRead (Some st), Arrived] (Some (Writing v ?t)) Torn [?r])"
    using broker_step.truncate[of "?b [Waiting, HasRead (Some st), Arrived] (Some (Storing v ?t)) (Holds st) [?r]" v ?t] by simp
  ultimately have "broker_run (?b [] None (Holds st) []) (?b [Waiting, HasRead (Some st), Arrived] (Some (Writing v ?t)) Torn [?r])"
    by (meson r_into_rtranclp run_step)
  then show ?thesis
    by (intro exI[of _ "?b [Waiting, HasRead (Some st), Arrived] (Some (Writing v ?t)) Torn [?r]"]) (simp add: start_broker_def)
qed

text \<open>
  C34: Sharing one refresh does not prevent what the comment says it prevents. Whenever the stored token has to be renewed
  and the provider renews it, a request that reads the file while it is being rewritten finds no credential and takes
  the whole broker down; and a request that had read the file before it was rewritten, and goes on after, spends the
  same refresh token a second time, although its successor is on disk.\<close>
theorem broker_refresh_races:
  fixes reply :: idp_reply
  assumes "\<not> still_fresh now st" and "js_truthy st" and "ir_ok reply" and "persisted now (ir_body reply) = Inr v"
  shows "(\<exists>b. broker_run (start_broker now st) b \<and> \<not> bk_alive b) \<and>
    (\<exists>b r. broker_run (start_broker now st) b \<and> bk_disk b = Holds v \<and>
       r = template (jfield ''refreshToken'' st) \<and> bk_spent b = [r, r] \<and> bk_refresh b = Some (Asking r))"
proof -
  let ?r = "template (jfield ''refreshToken'' st)"
  obtain b where b: "broker_run (start_broker now st) b" "bk_alive b" "bk_now b = now"
      "bk_callers b = [Waiting, HasRead (Some st), Arrived]"
      "bk_refresh b = Some (Writing v (map_of (ir_body reply) ''access_token''))" "bk_disk b = Torn" "bk_spent b = [?r]"
    using refresh_trace[OF assms] by blast
  have "broker_step b (set_caller 2 (HasRead None) b)"
    using broker_step.read[of b 2] b by (simp add: loadState_def)
  moreover have "broker_step (set_caller 2 (HasRead None) b) ((set_caller 2 (HasRead None) b)\<lparr>bk_alive := False\<rparr>)"
    using broker_step.resume[of "set_caller 2 (HasRead None) b" 2 None] b
    by (simp add: currentToken_def is_truthy_def nullish_def)
  ultimately have "broker_run (start_broker now st) ((set_caller 2 (HasRead None) b)\<lparr>bk_alive := False\<rparr>)"
    using b(1) by (meson rtranclp.rtrancl_into_rtrancl)
  then have dies: "\<exists>b. broker_run (start_broker now st) b \<and> \<not> bk_alive b" by force
  let ?t = "map_of (ir_body reply) ''access_token''"
  let ?b1 = "b\<lparr>bk_refresh := Some (Sealing ?t), bk_disk := Holds v\<rparr>"
  let ?b2 = "settle_refresh (Inr ?t) ?b1"
  have "broker_step b ?b1" using broker_step.written[OF b(2,5)] .
  moreover have "broker_step ?b1 ?b2" using broker_step.seal[of ?b1] b(2) by simp
  moreover have b2: "bk_alive ?b2" "bk_callers ?b2 ! 1 = HasRead (Some st)" "length (bk_callers ?b2) = 3"
      "bk_refresh ?b2 = None" "bk_now ?b2 = now" "bk_disk ?b2 = Holds v" "bk_spent ?b2 = [?r]"
    using b by (simp_all add: settle_refresh_def)
  moreover have "broker_step ?b2 (currentToken 1 (Some st) ?b2)"
    using broker_step.resume[of ?b2 1 "Some st"] b2 by simp
  ultimately have "broker_run (start_broker now st) (currentToken 1 (Some st) ?b2)"
    using b(1) by (meson rtranclp.rtrancl_into_rtrancl)
  then show ?thesis
    using dies assms(1,2) b2 by (auto simp: currentToken_def is_truthy_def nullish_def Let_def intro!: exI[of _ "currentToken 1 (Some st) ?b2"])
qed

lemma broker_refresh_races_witness:
  "(\<exists>b. broker_run (start_broker 3500000 ex_stored) b \<and> \<not> bk_alive b) \<and>
   (\<exists>b r. broker_run (start_broker 3500000 ex_stored) b \<and> bk_spent b = [r, r])"
proof -
  have "\<not> still_fresh 3500000 ex_stored"
    by (simp add: still_fresh_def ex_stored_def to_number_def REFRESH_SKEW_MS_def)
  moreover have "js_truthy ex_stored" by (simp add: ex_stored_def)
  moreover obtain v where "persisted 3500000 (ir_body ex_rotated) = Inr v"
    by (simp add: persisted_def ex_rotated_def)
  ultimately show ?thesis
    using broker_refresh_races[of 3500000 ex_stored ex_rotated v] by (auto simp: ex_rotated_def)
qed

section \<open>Signing in ends\<close>

lemma poll_loop_ends:
  assumes "0 < interval" "deadline - now \<le> of_nat n * interval" "n \<le> length polls" "\<forall>p \<in> set polls. 0 \<le> fst p"
  shows "poll_loop deadline interval now polls \<noteq> StillPolling"
  using assms
proof (induction n arbitrary: interval now polls)
  case 0
  then show ?case by (subst poll_loop.simps) simp
next
  case (Suc n)
  then obtain took poll rest where polls: "polls = (took, poll) # rest" "0 \<le> took"
    by (cases polls) auto
  let ?later = "now + interval + took"
  have left: "deadline - ?later \<le> of_nat n * interval" using Suc.prems(2) polls(2) by (simp add: algebra_simps)
  then have "deadline - ?later \<le> of_nat n * (interval + 5000)"
    by (rule order_trans) (simp add: mult_left_mono)
  then have "poll_loop deadline interval ?later rest \<noteq> StillPolling" "poll_loop deadline (interval + 5000) ?later rest \<noteq> StillPolling"
    using Suc.IH[of interval ?later rest] Suc.IH[of "interval + 5000" ?later rest] Suc.prems left polls(1) by simp_all
  then show ?case by (subst poll_loop.simps) (auto simp: polls(1) Let_def split: sum.splits)
qed

text \<open>
  Signing in ends. However slow the answers are and whatever they say, the device login has come to its end, with
  a credential or a message, once it has been answered as often as the interval the provider gave fits into the
  lifetime it gave.\<close>
theorem login_ends:
  assumes "0 < seconds ''interval'' 5 (ir_body device)" and "\<forall>p \<in> set polls. 0 \<le> fst p"
    and "seconds ''expires_in'' 900 (ir_body device) \<le> of_nat (length polls) * seconds ''interval'' 5 (ir_body device)"
  shows "login cfg now device polls \<noteq> StillPolling"
proof -
  have "now + seconds ''expires_in'' 900 (ir_body device) * 1000 - now \<le>
      of_nat (length polls) * (seconds ''interval'' 5 (ir_body device) * 1000)"
    using assms(3) by simp
  then have "poll_loop (now + seconds ''expires_in'' 900 (ir_body device) * 1000)
      (seconds ''interval'' 5 (ir_body device) * 1000) now polls \<noteq> StillPolling"
    using poll_loop_ends[of "seconds ''interval'' 5 (ir_body device) * 1000" _ now "length polls" polls] assms(1,2) by simp
  then show ?thesis by (simp add: login_def Let_def split: option.split)
qed

lemma login_ends_witness:
  "login (broker_config_of (\<lambda>_. Some ''x'') ''/home/u'') 0 \<lparr>ir_ok = True, ir_status = 200, ir_body = []\<rparr>
     (replicate 180 (0, \<lparr>ir_ok = False, ir_status = 400, ir_body = [(''error'', JStr ''authorization_pending'')]\<rparr>)) \<noteq> StillPolling"
  by (rule login_ends) (simp_all add: seconds_def nullish_def as_number_def)

section \<open>What passes the broker\<close>

lemma get_pass_headers:
  "get_header k (pass_headers hs out) =
   (if to_lower k \<in> set BROKER_STRIPPED then get_header k out
    else coalesce (map_of (rev (List.map_filter (\<lambda>(n, v). map_option (Pair (to_lower n)) v) hs)) (to_lower k)) (get_header k out))"
proof (induction hs arbitrary: out)
  case Nil
  then show ?case by (simp add: coalesce_def)
next
  case (Cons p hs)
  then show ?case
    by (cases p; cases "snd p") (auto simp: get_set_header coalesce_def map_add_def split: option.splits)
qed

text \<open>
  The tool's own key never leaves the machine, and all else does. A proxied request carries the broker's token in
  place of any authorization, none of the other stripped headers, every other header with its last value, and the
  tool's method, path and body; without a token the gateway is not called at all.\<close>
theorem broker_replaces_key:
  "pc_target (gateway_call cfg token r) = bc_gateway cfg @ br_url r \<and> pc_method (gateway_call cfg token r) = br_method r \<and>
   pc_body (gateway_call cfg token r) = (if br_body r = '''' then None else Some (br_body r)) \<and>
   get_header k (pc_headers (gateway_call cfg token r)) =
     (if to_lower k = ''authorization'' then Some (''Bearer '' @ token)
      else if to_lower k \<in> set BROKER_STRIPPED then None
      else map_of (rev (List.map_filter (\<lambda>(n, v). map_option (Pair (to_lower n)) v) (br_headers r))) (to_lower k)) \<and>
   broker_answer cfg upstream (Inl e) r = json_answer 401 e"
proof -
  have "to_lower ''authorization'' = ''authorization''" by code_simp
  moreover have "get_header k [] = None" by (simp add: get_header_def)
  ultimately show ?thesis
    by (simp add: gateway_call_def get_set_header get_pass_headers broker_answer_def coalesce_def split: option.split)
qed

end
