(* ===== verification/Widgets.thy ===== *)
theory Widgets
  imports Dashboard MockOidc
begin

text \<open>
  What the dashboard pages share: the API client \<open>src/lib/api.ts\<close>, numbers and times as the pages print them, and
  the charts of \<open>src/components/charts\<close>. A component is modelled by the values it puts on the screen; its markup,
  colours and animations are left out.

  Parameters: the network, the locale's group separator (\<open>toLocaleString\<close> without a locale), \<open>Date.parse\<close>, and the
  circumference of a gauge, which is a multiple of \<pi>. Numbers are exact here and are below \<open>10 ^ 21\<close> in the program,
  where \<open>toFixed\<close> would change to exponents.
\<close>

section \<open>Numbers and times as text\<close>

definition pad_left :: "nat \<Rightarrow> char \<Rightarrow> string \<Rightarrow> string" where
  "pad_left k c s = replicate (k - length s) c @ s"

text \<open>\<open>toFixed\<close>: the nearest decimal with so many places, the larger of two that are as near.\<close>

definition to_fixed :: "nat \<Rightarrow> rat \<Rightarrow> string" where
  "to_fixed f x =
     (let s = pad_left (f + 1) (CHR ''0'') (digits_of (nat (js_round (\<bar>x\<bar> * 10 ^ f)))); k = length s - f in
      (if x < 0 then ''-'' else []) @ take k s @ (if f = 0 then [] else CHR ''.'' # drop k s))"

text \<open>\<open>toLocaleString\<close> of a whole number: groups of three.\<close>

fun grouped :: "string \<Rightarrow> nat \<Rightarrow> string" where
  "grouped sep n =
     (if n < 1000 then digits_of n
      else grouped sep (n div 1000) @ sep @ pad_left 3 (CHR ''0'') (digits_of (n mod 1000)))"

declare grouped.simps [simp del]

definition two :: "int \<Rightarrow> string" where
  "two n = pad_left 2 (CHR ''0'') (digits_of (nat n))"

text \<open>The civil date of a day since the epoch, for \<open>toISOString\<close> in the years 0 to 9999.\<close>

definition civil :: "int \<Rightarrow> int \<times> int \<times> int" where
  "civil days =
     (let z = days + 719468; era = z div 146097; doe = z mod 146097;
          yoe = (doe - doe div 1460 + doe div 36524 - doe div 146096) div 365;
          doy = doe - (365 * yoe + yoe div 4 - yoe div 100); mp = (5 * doy + 2) div 153;
          d = doy - (153 * mp + 2) div 5 + 1; m = (if mp < 10 then mp + 3 else mp - 9) in
      (yoe + era * 400 + (if m \<le> 2 then 1 else 0), m, d))"

definition clock_text :: "time \<Rightarrow> string" where
  "clock_text t =
     (let s = t div 1000 mod 86400 in two (s div 3600) @ '':'' @ two (s div 60 mod 60) @ '':'' @ two (s mod 60))"

definition iso_text :: "time \<Rightarrow> string" where
  "iso_text t =
     (let (y, m, d) = civil (t div 86400000) in
      pad_left 4 (CHR ''0'') (digits_of (nat y)) @ ''-'' @ two m @ ''-'' @ two d @ ''T'' @ clock_text t @ ''.'' @
      pad_left 3 (CHR ''0'') (digits_of (nat (t mod 1000))) @ ''Z'')"

section \<open>The API client\<close>

definition api_base :: "env \<Rightarrow> string" where
  "api_base env = nullish (coalesce (env ''API_BASE_URL'') (env ''NEXT_PUBLIC_API_BASE_URL'')) ''http://localhost:4000''"

datatype api_call =
    GetOverview
  | GetModels
  | SetModelOverride string
  | GetQueuedRequests
  | GetInFlightRequests
  | GetFailedRequests
  | GetCost string group_by
  | GetAuditEntries "(string \<times> string) list"
  | GetLoggingConfig
  | GetErrorSummary
  | GetSettingsConfig
  | SetLoggingScope
  | DeleteAuditHistory

fun api_path :: "api_call \<Rightarrow> string" where
  "api_path GetOverview = ''/api/overview''"
| "api_path GetModels = ''/api/models''"
| "api_path (SetModelOverride i) = ''/api/models/'' @ i @ ''/override''"
| "api_path GetQueuedRequests = ''/api/requests?state=queued''"
| "api_path GetInFlightRequests = ''/api/requests?state=inflight''"
| "api_path GetFailedRequests = ''/api/requests?state=failed''"
| "api_path (GetCost period g) =
     ''/api/cost?period='' @ period @ ''&groupBy='' @ (case g of GroupByModel \<Rightarrow> ''model'' | GroupByCaller \<Rightarrow> ''caller'')"
| "api_path (GetAuditEntries params) = ''/api/audit?'' @ form_encode params"
| "api_path GetLoggingConfig = ''/api/audit/logging-config''"
| "api_path GetErrorSummary = ''/api/errors/summary''"
| "api_path GetSettingsConfig = ''/api/settings/config''"
| "api_path SetLoggingScope = ''/api/audit/logging-config''"
| "api_path DeleteAuditHistory = ''/api/audit/delete''"

text \<open>
  The network gives an error or a status and a body. \<open>unparsable\<close> is the message of the engine for a body that is
  not JSON.
\<close>

definition apiFetch :: "env \<Rightarrow> (string \<Rightarrow> string + nat \<times> string) \<Rightarrow> string \<Rightarrow> string \<Rightarrow> string + json" where
  "apiFetch env fetch unparsable path =
     (case fetch (api_base env @ path) of
        Inl e \<Rightarrow> Inl e
      | Inr (status, body) \<Rightarrow>
          if \<not> (200 \<le> status \<and> status < 300) then
            Inl (''API '' @ path @ '' failed: '' @ digits_of status @ '' '' @ body)
          else (case json_parse body of None \<Rightarrow> Inl unparsable | Some v \<Rightarrow> Inr v))"

record 'a attempt =
  at_data :: "'a option"
  at_error :: "string option"

definition tryApi :: "string + 'a \<Rightarrow> 'a attempt" where
  "tryApi r =
     (case r of Inl e \<Rightarrow> \<lparr>at_data = None, at_error = Some e\<rparr> | Inr v \<Rightarrow> \<lparr>at_data = Some v, at_error = None\<rparr>)"

definition list_data :: "string + 'a list \<Rightarrow> 'a list" where
  "list_data r = nullish (at_data (tryApi r)) []"

abbreviation trouble :: "string + 'a \<Rightarrow> string option" where
  "trouble r \<equiv> at_error (tryApi r)"

lemma tryApi_simps [simp]:
  "at_data (tryApi (Inl e)) = None" "at_data (tryApi (Inr v)) = Some v"
  "at_error (tryApi (Inl e)) = Some e" "at_error (tryApi (Inr v)) = None"
  "list_data (Inl e) = []" "list_data (Inr vs) = vs"
  by (simp_all add: tryApi_def list_data_def nullish_def)

section \<open>A headline figure\<close>

record kpi =
  kp_label :: string
  kp_value :: string
  kp_unit :: "string option"
  kp_hint :: "string option"

definition kpi_tile :: "string \<Rightarrow> string \<Rightarrow> string option \<Rightarrow> kpi" where
  "kpi_tile label v hint = \<lparr>kp_label = label, kp_value = v, kp_unit = None, kp_hint = hint\<rparr>"

section \<open>Charts\<close>

record arc_view =
  ac_aria :: string
  ac_chip :: string
  ac_valueLen :: rat
  ac_restLen :: rat

definition arcGauge :: "rat \<Rightarrow> string \<Rightarrow> rat \<Rightarrow> rat \<Rightarrow> arc_view" where
  "arcGauge circumference sep v whole =
     (let safeTotal = (if 0 < whole then whole else 1); fraction = max 0 (min 1 (v / safeTotal));
          gap = circumference * (2 / 100); percent = to_fixed 2 (fraction * 100) in
      \<lparr>ac_aria = percent @ '' percent of '' @ grouped sep (nat \<lfloor>whole\<rfloor>), ac_chip = percent @ ''%'',
       ac_valueLen = max (circumference * fraction - gap) 2,
       ac_restLen = max (circumference * (1 - fraction) - gap) 2\<rparr>)"

record ring_view =
  rg_aria :: string
  rg_percent :: int
  rg_offset :: rat
  rg_arcLength :: rat

definition ringGauge :: "rat \<Rightarrow> rat \<Rightarrow> rat \<Rightarrow> string \<Rightarrow> ring_view" where
  "ringGauge circumference v whole label =
     (let safeTotal = (if 0 < whole then whole else 1); pct = max 0 (min 100 (v / safeTotal * 100));
          arcLength = circumference * (82 / 100) in
      \<lparr>rg_aria = show_int (js_round pct) @ '' percent'' @ (if label \<noteq> '''' then '' '' @ to_lower label else ''''),
       rg_percent = js_round pct, rg_offset = arcLength * (1 - pct / 100), rg_arcLength = arcLength\<rparr>)"

record column =
  cl_label :: string
  cl_value :: rat

definition formatAxisLabel :: "(string \<Rightarrow> time option) \<Rightarrow> string \<Rightarrow> string" where
  "formatAxisLabel dateParse label =
     (case dateParse label of None \<Rightarrow> label | Some t \<Rightarrow> two (t div HOUR_MS mod 24) @ '':00'')"

record bar_view =
  bv_peak :: bool
  bv_height :: rat
  bv_text :: string

record chart_view =
  ch_bars :: "bar_view list"
  ch_ticks :: "string list"

definition column_max :: "column list \<Rightarrow> rat" where
  "column_max xs = foldl max 1 (map cl_value xs)"

definition peakIndex :: "column list \<Rightarrow> nat" where
  "peakIndex xs = foldl (\<lambda>best i. if cl_value (xs ! i) > cl_value (xs ! best) then i else best) 0 [0..<length xs]"

text \<open>The peak shows its value; the others show it with their hour when pointed at. Every k-th label is a tick.\<close>

definition columnChart :: "(string \<Rightarrow> time option) \<Rightarrow> string \<Rightarrow> rat \<Rightarrow> string \<Rightarrow> column list \<Rightarrow> chart_view option" where
  "columnChart dateParse sep height unit xs =
     (if xs = [] then None
      else
        let peak = peakIndex xs; top = column_max xs;
            amount = (\<lambda>d. grouped sep (nat \<lfloor>cl_value d\<rfloor>) @ unit);
            bar = (\<lambda>(i, d). \<lparr>bv_peak = (i = peak), bv_height = max (cl_value d / top * (height - 44)) 3,
              bv_text = (if i = peak then amount d else formatAxisLabel dateParse (cl_label d) @ '' - '' @ amount d)\<rparr>);
            step = nat \<lceil>of_nat (length xs) / (5 :: rat)\<rceil> in
        Some \<lparr>ch_bars = map bar (enumerate 0 xs),
              ch_ticks = map (\<lambda>(i, d). formatAxisLabel dateParse (cl_label d))
                (filter (\<lambda>(i, d). i mod step = 0) (enumerate 0 xs))\<rparr>)"

text \<open>The ticks that are lit, out of \<open>n\<close>.\<close>

definition tickBar :: "nat \<Rightarrow> rat \<Rightarrow> bool list \<times> string" where
  "tickBar n fraction =
     (let clamped = max 0 (min 1 fraction); filled = js_round (clamped * of_nat n) in
      (map (\<lambda>i. int i < filled) [0..<n], show_int (js_round (clamped * 100)) @ '' percent''))"

end
