(* ===== verification/Pages.thy ===== *)
theory Pages
  imports Widgets Affinity
begin

text \<open>
  The pages of the dashboard, \<open>src/app/(dashboard)\<close>, and the bar above them: what each computes from the answers of
  the API and shows. A page is a function from the outcomes of its calls to a record of its texts and figures;
  the theorems compose it with the routes of \<open>Dashboard\<close> that give those answers. Markup, fixed headings and
  colours are left out. The screen's dash and middle dot are written \<open>--\<close> and \<open>-\<close>.
\<close>

section \<open>The audit page\<close>

definition fmtRel :: "time \<Rightarrow> time \<Rightarrow> string" where
  "fmtRel now t =
     (let diff = now - t in
      if diff < 60 * 1000 then show_int (diff div 1000) @ ''s ago''
      else if diff < 3600 * 1000 then show_int (diff div (60 * 1000)) @ ''m ago''
      else show_int (diff div (3600 * 1000)) @ ''h ago'')"

record audit_params =
  ap_caller :: "string option"
  ap_model :: "string option"
  ap_team :: "string option"

text \<open>Only the filters that are set and not empty are sent.\<close>

definition audit_query :: "audit_params \<Rightarrow> (string \<times> string) list" where
  "audit_query p =
     (let arg = (\<lambda>k v. case present v of None \<Rightarrow> [] | Some x \<Rightarrow> [(k, x)]) in
      arg ''caller'' (ap_caller p) @ arg ''model'' (ap_model p) @ arg ''team'' (ap_team p))"

definition filtered :: "audit_params \<Rightarrow> bool" where
  "filtered p \<longleftrightarrow> present (ap_caller p) \<noteq> None \<or> present (ap_model p) \<noteq> None \<or> present (ap_team p) \<noteq> None"

definition csv_header :: "string list" where
  "csv_header = [''id'', ''arrivedAt'', ''caller'', ''callerOid'', ''team'', ''model'', ''status'', ''inputTokens'',
     ''outputTokens'', ''durationMs'', ''costUsd'', ''logged'']"

definition entry_model :: "string \<Rightarrow> audit_entry \<Rightarrow> string" where
  "entry_model none e = nullish (coalesce (ae_routedModel e) (ae_requestedModel e)) none"

definition csv_row :: "audit_entry \<Rightarrow> string list" where
  "csv_row e =
     [ae_id e, iso_text (ae_arrivedAt e), ae_callerName e, ae_callerOid e, nullish (ae_team e) '''', entry_model '''' e,
      status_text (ae_status e), show_int (ae_inputTokens e), show_int (ae_outputTokens e),
      nullish (map_option show_int (ae_durationMs e)) '''', nullish (map_option show_num (ae_costUsd e)) '''',
      (if ae_logged e then ''true'' else ''false'')]"

definition csv_cell :: "string \<Rightarrow> string" where
  "csv_cell s = [CHR 0x22] @ concat (map (\<lambda>c. if c = CHR 0x22 then [CHR 0x22, CHR 0x22] else [c]) s) @ [CHR 0x22]"

definition csv_text :: "string list list \<Rightarrow> string" where
  "csv_text rows = join [CHR 0x0A] (map (\<lambda>row. join '','' (map csv_cell row)) rows)"

definition csv_rows :: "audit_entry list \<Rightarrow> string list list" where
  "csv_rows entries = csv_header # map csv_row entries"

definition csv_href :: "audit_entry list \<Rightarrow> string" where
  "csv_href entries = ''data:text/csv;charset=utf-8,'' @ encodeURIComponent (csv_text (csv_rows entries))"

record audit_line =
  al_when :: string
  al_clock :: string
  al_caller :: string
  al_who :: string
  al_model :: string
  al_tokens :: string
  al_latency :: string
  al_cost :: string
  al_logged :: bool
  al_status :: string

definition kilo :: "rat \<Rightarrow> string" where
  "kilo x = to_fixed 1 (x / 1000) @ ''k''"

definition latency_text :: "int option \<Rightarrow> string" where
  "latency_text v =
     (case v of
        None \<Rightarrow> ''--''
      | Some ms \<Rightarrow> if 1000 \<le> ms then to_fixed 1 (of_int ms / 1000) @ ''s'' else show_int ms @ ''ms'')"

definition audit_line_of :: "time \<Rightarrow> audit_entry \<Rightarrow> audit_line" where
  "audit_line_of now e =
     (let n = ae_inputTokens e + ae_outputTokens e in
      \<lparr>al_when = fmtRel now (ae_arrivedAt e), al_clock = take 8 (drop 11 (iso_text (ae_arrivedAt e))),
       al_caller = ae_callerName e, al_who = nullish (ae_team e) ''--'' @ '' - '' @ ae_callerOid e,
       al_model = entry_model ''--'' e, al_tokens = (if 1000 \<le> n then kilo (of_int n) else show_int n),
       al_latency = latency_text (ae_durationMs e), al_cost = ''$'' @ to_fixed 4 (nullish (ae_costUsd e) 0),
       al_logged = ae_logged e, al_status = status_text (ae_status e)\<rparr>)"

text \<open>A summary of scopes counts those that are on; a grid has a switch for each.\<close>

record scope_card =
  sc_on :: nat
  sc_total :: nat
  sc_text :: string

definition scope_summary :: "string \<Rightarrow> logging_row list \<Rightarrow> scope_card" where
  "scope_summary noun rows =
     (let on = count_where lg_enabled rows; n = length rows in
      \<lparr>sc_on = on, sc_total = n,
       sc_text = (if n = 0 then ''No '' @ noun @ '' yet''
         else digits_of on @ '' of '' @ digits_of n @ '' '' @ noun @ '' logging content -- set below'')\<rparr>)"

datatype scope_grid =
    EmptyHint string
  | Switches "(scope_type \<times> string \<times> bool) list"

definition scopeGrid :: "scope_type \<Rightarrow> string \<Rightarrow> logging_row list \<Rightarrow> scope_grid" where
  "scopeGrid scopeType emptyHint rows =
     (if rows = [] then EmptyHint emptyHint
      else Switches (map (\<lambda>r. (scopeType, lg_scope_key r, lg_enabled r)) rows))"

definition no_teams_hint :: string where
  "no_teams_hint = ''No team has sent a request yet, so there is nothing to scope. '' @
     ''Teams appear here once traffic arrives carrying the team claim.''"

definition no_models_hint :: string where
  "no_models_hint = ''No models are registered yet.''"

datatype audit_table =
    NoEntries string
  | Entries "audit_line list"

record audit_view =
  av_error :: "string option"
  av_csv :: string
  av_logged24h :: nat
  av_totalTokens :: string
  av_activeScopes :: nat
  av_global :: "scope_type \<times> string \<times> bool"
  av_teamCard :: scope_card
  av_modelCard :: scope_card
  av_teamGrid :: scope_grid
  av_modelGrid :: scope_grid
  av_modelOptions :: "string list"
  av_teamOptions :: "string list"
  av_table :: audit_table

definition globalScope :: "logging_row list \<Rightarrow> scope_type \<times> string \<times> bool" where
  "globalScope rows =
     (case find (\<lambda>r. lg_scope_type r = GlobalScope) rows of
        None \<Rightarrow> (GlobalScope, '''', False)
      | Some r \<Rightarrow> (GlobalScope, lg_scope_key r, lg_enabled r))"

definition audit_table_of :: "time \<Rightarrow> audit_params \<Rightarrow> audit_entry list \<Rightarrow> audit_table" where
  "audit_table_of now p entries =
     (if entries = [] then
        NoEntries (if filtered p then ''No audit entries match the current filter.''
          else ''No requests have been recorded yet. Every request through the gateway is logged here with its '' @
            ''caller, model, tokens, latency and cost.'')
      else Entries (map (audit_line_of now) entries))"

definition auditPage ::
  "time \<Rightarrow> audit_params \<Rightarrow> string + audit_entry list \<Rightarrow> string + logging_row list \<Rightarrow> string + model_view list \<Rightarrow> audit_view" where
  "auditPage now p entriesResult loggingResult modelsResult =
     (let entries = list_data entriesResult; loggingConfig = list_data loggingResult; models = list_data modelsResult;
          teamScopes = filter (\<lambda>r. lg_scope_type r = TeamScope) loggingConfig;
          modelScopes = filter (\<lambda>r. lg_scope_type r = ModelScope) loggingConfig;
          last24h = now - 24 * 3600 * 1000 in
      \<lparr>av_error = coalesce (trouble entriesResult) (coalesce (trouble loggingResult) (trouble modelsResult)),
       av_csv = csv_href entries,
       av_logged24h = count_where (\<lambda>e. ae_logged e \<and> last24h < ae_arrivedAt e) entries,
       av_totalTokens = kilo (of_int (\<Sum>e\<leftarrow>entries. ae_inputTokens e + ae_outputTokens e)),
       av_activeScopes = count_where lg_enabled teamScopes + count_where lg_enabled modelScopes,
       av_global = globalScope loggingConfig,
       av_teamCard = scope_summary ''teams'' teamScopes, av_modelCard = scope_summary ''models'' modelScopes,
       av_teamGrid = scopeGrid TeamScope no_teams_hint teamScopes,
       av_modelGrid = scopeGrid ModelScope no_models_hint modelScopes,
       av_modelOptions = map (\<lambda>m. m_id (mv_config m)) models, av_teamOptions = map lg_scope_key teamScopes,
       av_table = audit_table_of now p entries\<rparr>)"

text \<open>What the router answers the page: its query arrives as text, and a refusal of the database as an error.\<close>

definition audit_answer :: "string \<Rightarrow> string \<Rightarrow> db \<Rightarrow> string + audit_entry list" where
  "audit_answer refusal query d =
     (let arg = map_of (form_decode query) in
      case auditRoute (arg ''caller'') (arg ''model'') (arg ''team'') (arg ''status'') (arg ''limit'') (arg ''offset'') d of
        None \<Rightarrow> Inl refusal
      | Some es \<Rightarrow> Inr es)"

section \<open>The cost page\<close>

definition big_bar :: "rat \<Rightarrow> rat \<Rightarrow> rat" where
  "big_bar most v = max (if 0 < most then v / most * 100 else 0) 2"

definition list_max :: "'a::linorder list \<Rightarrow> 'a \<Rightarrow> 'a" where
  "list_max xs none = (case xs of [] \<Rightarrow> none | x # r \<Rightarrow> foldl max x r)"

definition money :: "rat \<Rightarrow> string" where
  "money x = ''$'' @ to_fixed 2 x"

record cost_bar =
  cb_key :: string
  cb_text :: string
  cb_width :: rat

record hour_bar =
  hb_in :: rat
  hb_out :: rat
  hb_label :: string

record cost_panel =
  cp_totalCost :: string
  cp_tokens :: string
  cp_requests :: string
  cp_avg :: string
  cp_byModel :: "cost_bar list"
  cp_byCaller :: "cost_bar list"
  cp_hours :: "hour_bar list"
  cp_tokensIn :: string
  cp_tokensOut :: string
  cp_perRequest :: string

record cost_view =
  cv_error :: "string option"
  cv_empty :: bool
  cv_panel :: "cost_panel option"

definition avgPer1k :: "breakdown_entry list \<Rightarrow> string" where
  "avgPer1k byModel =
     (let totalCost = (\<Sum>e\<leftarrow>byModel. be_cost e); totalTokens = (\<Sum>e\<leftarrow>byModel. be_tokens e) in
      if 0 < totalTokens then ''$'' @ to_fixed 4 (totalCost / (of_int totalTokens / 1000)) else ''--'')"

definition tokens_text :: "string \<Rightarrow> int \<Rightarrow> string" where
  "tokens_text sep n = (if 1000000 \<le> n then to_fixed 1 (of_int n / 1000000) @ ''M'' else grouped sep (nat n))"

definition model_bars :: "string \<Rightarrow> breakdown_entry list \<Rightarrow> cost_bar list" where
  "model_bars sep byModel =
     (let top = list_max (map be_tokens byModel) 0 in
      map (\<lambda>e. \<lparr>cb_key = be_key e, cb_text = grouped sep (nat (be_requests e)) @ '' req - '' @ money (be_cost e),
                cb_width = big_bar (of_int top) (of_int (be_tokens e))\<rparr>) byModel)"

definition caller_bars :: "breakdown_entry list \<Rightarrow> cost_bar list" where
  "caller_bars byCaller =
     (let top = list_max (map be_cost byCaller) 0 in
      map (\<lambda>e. \<lparr>cb_key = be_key e, cb_text = money (be_cost e), cb_width = big_bar top (be_cost e)\<rparr>) byCaller)"

definition hour_bars :: "(time \<Rightarrow> string) \<Rightarrow> hourly_row list \<Rightarrow> hour_bar list" where
  "hour_bars hourText series =
     (let top = list_max (map (\<lambda>h. hr_tokensIn h + hr_tokensOut h) series) 0;
          share = (\<lambda>n. if 0 < top then of_int n / of_int top * 100 else 0) in
      map (\<lambda>h. \<lparr>hb_in = share (hr_tokensIn h), hb_out = share (hr_tokensOut h), hb_label = hourText (hr_hour h)\<rparr>) series)"

definition costPage ::
  "string \<Rightarrow> (time \<Rightarrow> string) \<Rightarrow> string + breakdown_entry list \<times> hourly_row list \<times> string \<Rightarrow>
     string + breakdown_entry list \<times> hourly_row list \<times> string \<Rightarrow> cost_view" where
  "costPage sep hourText cost byCallerResult =
     (let parts = (\<lambda>r. nullish (at_data (tryApi r)) ([], [], ''''));
          byModel = fst (parts cost); byCaller = fst (parts byCallerResult); series = fst (snd (parts cost));
          error = coalesce (trouble cost) (trouble byCallerResult);
          tokensIn = (\<Sum>h\<leftarrow>series. hr_tokensIn h); tokensOut = (\<Sum>h\<leftarrow>series. hr_tokensOut h);
          served = (\<Sum>h\<leftarrow>series. int (hr_requests h)) in
      \<lparr>cv_error = error, cv_empty = (error = None \<and> byModel = []),
       cv_panel =
         (if byModel = [] then None
          else Some \<lparr>cp_totalCost = money (\<Sum>e\<leftarrow>byModel. be_cost e), cp_tokens = tokens_text sep (\<Sum>e\<leftarrow>byModel. be_tokens e),
            cp_requests = grouped sep (nat (\<Sum>e\<leftarrow>byModel. be_requests e)), cp_avg = avgPer1k byModel,
            cp_byModel = model_bars sep byModel, cp_byCaller = caller_bars byCaller,
            cp_hours = hour_bars hourText series, cp_tokensIn = kilo (of_int tokensIn), cp_tokensOut = kilo (of_int tokensOut),
            cp_perRequest = (if 0 < served then kilo (of_int (tokensIn + tokensOut) / of_int served) else ''--'')\<rparr>)\<rparr>)"

section \<open>The requests page\<close>

definition fmtElapsed :: "int \<Rightarrow> string" where
  "fmtElapsed sec =
     (let m = sec div 60; s = (if 0 \<le> sec then sec mod 60 else - (- sec mod 60)) in
      if m = 0 then show_int s @ ''s'' else show_int m @ ''m '' @ pad_left 2 (CHR ''0'') (show_int s) @ ''s'')"

record settings_config =
  sf_queueTimeoutMs :: int
  sf_stallTimeoutMs :: int
  sf_simMode :: bool
  sf_entraAudience :: string
  sf_entraIssuer :: string

definition settingsRoute :: "settings \<Rightarrow> config \<Rightarrow> settings_config" where
  "settingsRoute st cfg =
     \<lparr>sf_queueTimeoutMs = QUEUE_TIMEOUT_MS st, sf_stallTimeoutMs = STALL_TIMEOUT_MS st, sf_simMode = cf_simMode cfg,
      sf_entraAudience = join '', '' (cf_audience cfg), sf_entraIssuer = cf_issuer cfg\<rparr>"

record queued_line =
  ql_caller :: string
  ql_model :: string
  ql_capabilities :: "string list"
  ql_wait :: string

definition QueuedRow :: "queued_view \<Rightarrow> queued_line" where
  "QueuedRow q =
     \<lparr>ql_caller = qv_caller q, ql_model = nullish (qv_model q) ''--'',
      ql_capabilities = map capability_text (qv_capabilities q), ql_wait = fmtElapsed (qv_waitingSec q)\<rparr>"

record flight_line =
  fl_who :: string
  fl_target :: "string option"
  fl_replica :: string
  fl_state :: string
  fl_emitted :: string

definition flight_line_of :: "flight_view \<Rightarrow> flight_line" where
  "flight_line_of r =
     \<lparr>fl_who = fv_caller r, fl_target = fv_model r, fl_replica = nullish (fv_replicaId r) ''--'',
      fl_state = status_text (fv_status r),
      fl_emitted = (if 0 < fv_outputTokensSoFar r then show_int (fv_outputTokensSoFar r) @ '' emitted'' else ''--'')\<rparr>"

record failed_line =
  xl_caller :: string
  xl_model :: string
  xl_status :: string
  xl_occurred :: string
  xl_id :: string

definition failed_line_of :: "time \<Rightarrow> failed_view \<Rightarrow> failed_line" where
  "failed_line_of now r =
     \<lparr>xl_caller = xv_caller r, xl_model = nullish (coalesce (xv_model r) (xv_requestedModel r)) ''--'',
      xl_status = status_text (xv_status r), xl_occurred = fmtElapsed ((now - xv_arrivedAt r) div 1000) @ '' ago'',
      xl_id = xv_id r\<rparr>"

record requests_view =
  rv_error :: "string option"
  rv_tiles :: "kpi list"
  rv_queueTimeout :: string
  rv_stallTimeout :: string
  rv_queued :: "queued_line list"
  rv_inFlight :: "flight_line list"
  rv_failures :: "failed_line list"

definition queueTimeoutLabel :: "settings_config option \<Rightarrow> string" where
  "queueTimeoutLabel s =
     (case s of None \<Rightarrow> ''--'' | Some c \<Rightarrow> show_int (js_round (of_int (sf_queueTimeoutMs c) / 60000)) @ ''m'')"

definition stallTimeoutLabel :: "settings_config option \<Rightarrow> string" where
  "stallTimeoutLabel s =
     (case s of None \<Rightarrow> ''--'' | Some c \<Rightarrow> show_int (js_round (of_int (sf_stallTimeoutMs c) / 1000)) @ ''s'')"

definition oldestWait :: "queued_view list \<Rightarrow> int" where
  "oldestWait qs = foldl (\<lambda>acc q. max acc (qv_waitingSec q)) 0 qs"

definition requestsPage ::
  "time \<Rightarrow> string + queued_view list \<Rightarrow> string + flight_view list \<Rightarrow> string + failed_view list \<Rightarrow>
     string + settings_config \<Rightarrow> requests_view" where
  "requestsPage now queued inFlight failures configured =
     (let qs = list_data queued; fs = list_data inFlight; xs = list_data failures; st = at_data (tryApi configured) in
      \<lparr>rv_error = coalesce (trouble queued) (coalesce (trouble inFlight) (trouble failures)),
       rv_tiles = [kpi_tile ''Queued'' (digits_of (length qs)) (Some ''unprocessed''),
         kpi_tile ''Oldest wait'' (fmtElapsed (oldestWait qs)) None,
         kpi_tile ''In flight'' (digits_of (length fs)) None,
         kpi_tile ''Failures - 5m'' (digits_of (length xs)) (Some ''across replicas'')],
       rv_queueTimeout = queueTimeoutLabel st, rv_stallTimeout = stallTimeoutLabel st,
       rv_queued = map QueuedRow qs, rv_inFlight = map flight_line_of fs, rv_failures = map (failed_line_of now) xs\<rparr>)"

section \<open>The overview\<close>

definition fmtCompact :: "string \<Rightarrow> int \<Rightarrow> string" where
  "fmtCompact sep n =
     (if 1000000 \<le> n then to_fixed 1 (of_int n / 1000000) @ ''M''
      else if 1000 \<le> n then to_fixed 1 (of_int n / 1000) @ ''k'' else grouped sep (nat n))"

definition fmtGrouped :: "nat \<Rightarrow> string" where
  "fmtGrouped n = grouped '' '' n"

record fleet =
  ft_ready :: nat
  ft_loading :: nat
  ft_down :: nat
  ft_total :: nat
  ft_ring :: ring_view
  ft_caption :: string

definition serving :: "replica_row \<Rightarrow> bool" where
  "serving r \<longleftrightarrow> rp_status r = Ready \<or> rp_status r = Busy"

definition fleet_of :: "rat \<Rightarrow> model_view list \<Rightarrow> fleet" where
  "fleet_of circumference listed =
     (let rs = concat (map mv_replicas listed); ready = count_where serving rs in
      \<lparr>ft_ready = ready, ft_loading = count_where (\<lambda>r. rp_status r = Loading) rs,
       ft_down = count_where (\<lambda>r. rp_status r = ErrorStatus \<or> rp_status r = Idle) rs, ft_total = length rs,
       ft_ring = ringGauge circumference (of_nat ready) (of_nat (length rs)) ''Ready'',
       ft_caption = digits_of ready @ '' of '' @ digits_of (length rs) @ '' replicas''\<rparr>)"

record overview_panel =
  op_greeting :: string
  op_fleet :: fleet
  op_requests24h :: string
  op_tiles :: "kpi list"
  op_volume :: "chart_view option"
  op_byCapability :: "(string \<times> string) list"
  op_chatBar :: "bool list \<times> string"
  op_chatText :: string
  op_failureArc :: arc_view
  op_failed :: string
  op_completed :: string
  op_stallText :: string

definition greeting :: "session option \<Rightarrow> string" where
  "greeting s =
     ''Hello, '' @ (case s of None \<Rightarrow> ''there'' | Some t \<Rightarrow> hd (split_on (CHR '' '') (ss_name t))) @ ''!''"

definition capability_share :: "overview \<Rightarrow> rat" where
  "capability_share o' =
     (let n = (\<lambda>c. nullish (map_of (ov_byCapability o') c) 0); capTotal = n Chat + n Tools + n Embeddings + n Vision in
      if 0 < capTotal then of_nat (n Chat) / of_nat capTotal else 0)"

definition chat_text :: "overview \<Rightarrow> string" where
  "chat_text o' =
     (let n = (\<lambda>c. nullish (map_of (ov_byCapability o') c) 0); capTotal = n Chat + n Tools + n Embeddings + n Vision in
      if 0 < capTotal then show_int (js_round (of_nat (n Chat) / of_nat capTotal * 100)) @ ''% of traffic is plain chat''
      else ''No traffic yet'')"

definition overview_tiles :: "string \<Rightarrow> overview \<Rightarrow> nat \<Rightarrow> nat \<Rightarrow> kpi list" where
  "overview_tiles sep o' flying waiting =
     [kpi_tile ''Requests / min'' (digits_of (ov_requestsPerMin o')) None,
      (kpi_tile ''Avg latency'' (fmtCompact sep (ov_avgLatencyMs o')) None)\<lparr>kp_unit := Some ''ms''\<rparr>,
      kpi_tile ''Tokens / sec'' (show_int (ov_tokensPerSec o')) None,
      kpi_tile ''In flight'' (digits_of flying) (if 0 < waiting then Some (digits_of waiting @ '' queued'') else None)]"

record gauges =
  gg_ring :: rat
  gg_arc :: rat

definition overview_panel_of ::
  "(string \<Rightarrow> time option) \<Rightarrow> string \<Rightarrow> gauges \<Rightarrow> session option \<Rightarrow> model_view list \<Rightarrow> overview \<Rightarrow>
     queued_view list \<Rightarrow> flight_view list \<Rightarrow> overview_panel" where
  "overview_panel_of dateParse sep gg who listed o' queued inFlight =
     (let failures = ov_failuresLastHour o'; total24h = ov_totalRequests24h o';
          of_cap = (\<lambda>label c. (label, fmtGrouped (nullish (map_of (ov_byCapability o') c) 0))) in
      \<lparr>op_greeting = greeting who, op_fleet = fleet_of (gg_ring gg) listed, op_requests24h = fmtGrouped total24h,
       op_tiles = overview_tiles sep o' (length inFlight) (length queued),
       op_volume = columnChart dateParse sep 216 ''''
         (map (\<lambda>(t, n). \<lparr>cl_label = iso_text t, cl_value = of_nat n\<rparr>) (ov_spark o')),
       op_byCapability = [of_cap ''Chat'' Chat, of_cap ''Tools'' Tools, of_cap ''Embeddings'' Embeddings, of_cap ''Vision'' Vision],
       op_chatBar = tickBar 34 (capability_share o'), op_chatText = chat_text o',
       op_failureArc = arcGauge (gg_arc gg) sep (of_nat failures) (if total24h = 0 then 1 else of_nat total24h),
       op_failed = fmtGrouped failures, op_completed = fmtGrouped (total24h - failures),
       op_stallText = ''Stall-timeout rate '' @ show_num (ov_stallTimeoutRatePct o') @ ''% over the same window.''\<rparr>)"

record overview_view =
  ow_error :: "string option"
  ow_unconfigured :: bool
  ow_panel :: "overview_panel option"

definition overviewPage ::
  "(string \<Rightarrow> time option) \<Rightarrow> string \<Rightarrow> gauges \<Rightarrow> session option \<Rightarrow> string + model_view list \<Rightarrow> string + overview \<Rightarrow>
     string + queued_view list \<Rightarrow> string + flight_view list \<Rightarrow> overview_view" where
  "overviewPage dateParse sep gg who modelsResult overviewResult queuedResult inFlightResult =
     (let error = coalesce (trouble modelsResult) (trouble overviewResult); models = list_data modelsResult;
          unconfigured = (error = None \<and> models = []) in
      \<lparr>ow_error = error, ow_unconfigured = unconfigured,
       ow_panel =
         (case at_data (tryApi overviewResult) of
            None \<Rightarrow> None
          | Some o' \<Rightarrow>
              if unconfigured then None
              else Some (overview_panel_of dateParse sep gg who models o' (list_data queuedResult) (list_data inFlightResult)))\<rparr>)"

section \<open>The bar above the pages\<close>

definition healthLabel :: "overview option \<Rightarrow> string" where
  "healthLabel o' =
     (case o' of
        None \<Rightarrow> ''Metrics unavailable''
      | Some v \<Rightarrow>
          if ov_totalReplicas v = 0 then ''No models registered''
          else (case ov_systemHealth v of
            Red \<Rightarrow> ''Degraded''
          | Yellow \<Rightarrow> if 0 < ov_queuedRequests v then digits_of (ov_queuedRequests v) @ '' queued'' else ''Replicas scaling''
          | Green \<Rightarrow> ''All systems normal''))"

record top_bar =
  tb_health :: string
  tb_dot :: "health option"
  tb_replicas :: "string option"
  tb_sim :: bool
  tb_initials :: string
  tb_name :: string
  tb_email :: string

definition topBar :: "session \<Rightarrow> string + overview \<Rightarrow> top_bar" where
  "topBar s fetched =
     (let o' = at_data (tryApi fetched) in
      \<lparr>tb_health = healthLabel o', tb_dot = map_option ov_systemHealth o',
       tb_replicas =
         (case o' of
            None \<Rightarrow> None
          | Some v \<Rightarrow> if 0 < ov_totalReplicas v
                       then Some (digits_of (ov_activeReplicas v) @ ''/'' @ digits_of (ov_totalReplicas v) @ '' replicas'') else None),
       tb_sim = ss_simulated s, tb_initials = ss_initials s, tb_name = ss_name s, tb_email = ss_email s\<rparr>)"

section \<open>The models page\<close>

definition tps_text :: "rat option \<Rightarrow> string" where
  "tps_text v = (case v of None \<Rightarrow> ''warming'' | Some q \<Rightarrow> if q = 0 then ''warming'' else to_fixed 1 q @ '' tps'')"

record replica_card =
  rc_id :: string
  rc_speed :: string
  rc_bar :: health
  rc_width :: rat
  rc_load :: string
  rc_status :: string

definition load_colour :: "rat \<Rightarrow> health" where
  "load_colour pct = (if 80 < pct then Red else if 50 < pct then Yellow else Green)"

definition replica_card_of :: "replica_row \<Rightarrow> replica_card" where
  "replica_card_of r =
     \<lparr>rc_id = rp_id r, rc_speed = tps_text (rp_tokens_per_sec r), rc_bar = load_colour (rp_load_pct r),
      rc_width = rp_load_pct r, rc_load = show_int (js_round (rp_load_pct r)) @ ''%'',
      rc_status = replica_status_text (rp_status r)\<rparr>"

fun basis_text :: "cost_basis \<Rightarrow> string" where
  "basis_text Per1kTokens = ''per 1k tokens''"
| "basis_text PerRequest = ''per request''"
| "basis_text PerComputeSecond = ''per compute second''"

definition source_label :: "config_source \<Rightarrow> string" where
  "source_label s = (if s = GitOps then ''Helm chart'' else ''Dashboard override + Helm'')"

record model_card =
  mo_class :: string
  mo_overridden :: bool
  mo_name :: string
  mo_id :: string
  mo_servedBy :: "string option"
  mo_upstream :: "string option"
  mo_capabilities :: "string list"
  mo_ready :: nat
  mo_count :: nat
  mo_range :: string
  mo_empty :: bool
  mo_replicas :: "replica_card list"
  mo_prompt :: "string option"
  mo_cost :: string
  mo_source :: string

text \<open>A reading that is not a number travels as null.\<close>

definition demand_text :: "scaling_status \<Rightarrow> string" where
  "demand_text s =
     (case (ss_state s, ss_currentMetric s) of
        (Active, Some (Some q)) \<Rightarrow> '' - demand '' @ show_num q
      | _ \<Rightarrow> '''')"

definition model_card_of :: "model_view \<Rightarrow> model_card" where
  "model_card_of v =
     (let m = mv_config v; rs = mv_replicas v in
      \<lparr>mo_class = m_classLabel m, mo_overridden = (m_configSource m = Override), mo_name = m_name m, mo_id = m_id m,
       mo_servedBy = (if m_backendModelId m \<noteq> m_id m then Some (m_backendModelId m) else None),
       mo_upstream = (if m_upstreamModel m \<noteq> m_id m then Some (m_upstreamModel m) else None),
       mo_capabilities = map capability_text (m_capabilities m), mo_ready = count_where serving rs, mo_count = length rs,
       mo_range = ''min '' @ show_int (m_minReplicas m) @ '' - max '' @ show_int (m_maxReplicas m) @ demand_text (mv_scaling v),
       mo_empty = (rs = []), mo_replicas = map replica_card_of rs, mo_prompt = present (Some (m_systemPrompt m)),
       mo_cost = ''$'' @ to_fixed 4 (m_costValue m) @ '' / '' @ basis_text (m_costBasis m),
       mo_source = source_label (m_configSource m)\<rparr>)"

record models_view =
  mw_error :: "string option"
  mw_noModels :: bool
  mw_tiles :: "kpi list"
  mw_cards :: "model_card list"

definition modelsView :: "string + model_view list \<Rightarrow> models_view" where
  "modelsView fetched =
     (let ms = list_data fetched in
      \<lparr>mw_error = trouble fetched, mw_noModels = (at_data (tryApi fetched) = Some []),
       mw_tiles =
         (if ms = [] then []
          else [kpi_tile ''Models'' (digits_of (length ms)) None,
            kpi_tile ''Replicas'' (digits_of (\<Sum>m\<leftarrow>ms. length (mv_replicas m))) (Some ''across cluster''),
            kpi_tile ''Overrides'' (digits_of (count_where (\<lambda>m. m_hasOverride (mv_config m)) ms)) (Some ''dashboard edits''),
            kpi_tile ''KEDA targets'' (digits_of (length ms)) (Some ''all autoscaling'')]),
       mw_cards = map model_card_of ms\<rparr>)"

section \<open>The monitoring page\<close>

definition formatCpu :: "rat option \<Rightarrow> string" where
  "formatCpu v =
     (case v of
        None \<Rightarrow> ''--''
      | Some millicores \<Rightarrow>
          if millicores < 1000 then show_int (js_round millicores) @ ''m''
          else to_fixed 2 (millicores / 1000) @ '' cores'')"

definition formatMemory :: "int option \<Rightarrow> string" where
  "formatMemory v =
     (case v of
        None \<Rightarrow> ''--''
      | Some bytes \<Rightarrow>
          let gib = of_int bytes / 1024 ^ 3 :: rat in
          if 1 \<le> gib then to_fixed 1 gib @ '' GiB''
          else show_int (js_round (of_int bytes / 1024 ^ 2)) @ '' MiB'')"

definition allReplicas :: "model_view list \<Rightarrow> (replica_row \<times> string) list" where
  "allReplicas ms = concat (map (\<lambda>m. map (\<lambda>r. (r, m_name (mv_config m))) (mv_replicas m)) ms)"

text \<open>The page opens on the first replica; a selection that has gone falls back to it.\<close>

definition activeReplica :: "string option \<Rightarrow> model_view list \<Rightarrow> (replica_row \<times> string) option" where
  "activeReplica selectedId ms =
     coalesce (find (\<lambda>(r, name). selectedId = Some (rp_id r)) (allReplicas ms))
       (case allReplicas ms of [] \<Rightarrow> None | x # _ \<Rightarrow> Some x)"

definition usage_hint :: "'a option \<Rightarrow> string \<Rightarrow> string option" where
  "usage_hint v here = Some (if v = None then ''needs metrics-server in the cluster'' else here)"

definition small_stats :: "replica_row option \<Rightarrow> kpi list" where
  "small_stats r =
     (let cpu = Option.bind r (\<lambda>x. nullish (rp_cpu_millicores x) None); memory = Option.bind r rp_memory_bytes;
          restarts = map_option rp_restart_count r in
      [kpi_tile ''CPU'' (formatCpu cpu) (usage_hint cpu ''current usage''),
       kpi_tile ''Memory'' (formatMemory memory) (usage_hint memory ''resident''),
       kpi_tile ''Restart count'' (nullish (map_option show_int restarts) ''--'')
         (Some (if 0 < nullish restarts 0 then ''this replica has restarted'' else ''since the pod was created''))])"

record monitoring_view =
  mn_error :: "string option"
  mn_noReplicas :: bool
  mn_active :: "(string \<times> string \<times> string) option"
  mn_command :: "string option"
  mn_highlighted :: "(string \<times> string) list"
  mn_stats :: "kpi list"
  mn_errors :: "(string \<times> nat) list"

definition monitoringPage ::
  "string option \<Rightarrow> string + model_view list \<Rightarrow> string + (error_code \<times> nat) list \<Rightarrow> monitoring_view" where
  "monitoringPage selectedId modelsResult errorsResult =
     (let error = coalesce (trouble modelsResult) (trouble errorsResult); ms = list_data modelsResult;
          active = activeReplica selectedId ms; chosen = map_option (rp_id \<circ> fst) active in
      \<lparr>mn_error = error, mn_noReplicas = (error = None \<and> ms = []),
       mn_active = map_option (\<lambda>(r, name). (rp_id r, name, tps_text (rp_tokens_per_sec r))) active,
       mn_command = map_option (\<lambda>(r, name). ''kubectl logs -f '' @ rp_id r @ '' -n llm-gateway'') active,
       mn_highlighted = concat (map (\<lambda>m. map (\<lambda>r. (m_id (mv_config m), rp_id r))
           (filter (\<lambda>r. chosen = Some (rp_id r)) (mv_replicas m))) ms),
       mn_stats = small_stats (map_option fst active),
       mn_errors = map (\<lambda>(c, n). (error_code_text c, n)) (list_data errorsResult)\<rparr>)"

section \<open>The settings page\<close>

text \<open>
  A timeout in minutes is printed as a number; one without a finite decimal has 17 places here, where the engine
  rounds the last of its digits.
\<close>

record settings_row =
  sr_name :: string
  sr_id :: string
  sr_keda :: string
  sr_cost :: string
  sr_source :: string
  sr_badge :: string

definition settings_row_of :: "model_config \<Rightarrow> settings_row" where
  "settings_row_of m =
     \<lparr>sr_name = m_name m, sr_id = m_id m, sr_keda = show_int (m_minReplicas m) @ '' -> '' @ show_int (m_maxReplicas m),
      sr_cost = ''$'' @ to_fixed 4 (m_costValue m) @ '' / '' @ basis_text (m_costBasis m), sr_source = source_label (m_configSource m),
      sr_badge = (if m_hasOverride m then ''OVERRIDE ACTIVE'' else ''no override'')\<rparr>"

record settings_view =
  sv_error :: "string option"
  sv_rows :: "settings_row list"
  sv_global :: "scope_type \<times> string \<times> bool"
  sv_queueTimeout :: string
  sv_stallTimeout :: string
  sv_keys :: string
  sv_issuer :: string
  sv_audience :: string

definition settingsPage ::
  "string + model_view list \<Rightarrow> string + logging_row list \<Rightarrow> string + settings_config \<Rightarrow> settings_view" where
  "settingsPage modelsResult loggingResult configResult =
     (let st = at_data (tryApi configResult); or_dash = (\<lambda>f. nullish (map_option f st) ''--'') in
      \<lparr>sv_error = coalesce (trouble modelsResult) (coalesce (trouble loggingResult) (trouble configResult)),
       sv_rows = map (settings_row_of \<circ> mv_config) (list_data modelsResult),
       sv_global = globalScope (list_data loggingResult),
       sv_queueTimeout = or_dash (\<lambda>c. show_num (of_int (sf_queueTimeoutMs c) / 60000)),
       sv_stallTimeout = or_dash (\<lambda>c. show_num (of_int (sf_stallTimeoutMs c) / 1000)),
       sv_keys = (case st of Some c \<Rightarrow> if sf_simMode c then ''JWKS - local sim key'' else ''JWKS - Entra'' | None \<Rightarrow> ''JWKS - Entra''),
       sv_issuer = or_dash sf_entraIssuer, sv_audience = or_dash sf_entraAudience\<rparr>)"

section \<open>The sign-in page\<close>

definition ERROR_COPY :: "(string \<times> string) list" where
  "ERROR_COPY =
     [(''not_configured'', ''Single sign-on is not configured. Set DASHBOARD_ENTRA_TENANT_ID and '' @
         ''DASHBOARD_ENTRA_CLIENT_ID, or run with SIM_MODE=true.''),
      (''state_mismatch'', ''The sign-in attempt could not be verified. Please try again.''),
      (''incomplete_callback'', ''The sign-in response was incomplete. Please try again.'')]"

datatype login_view =
    GoesHome
  | SignInForm "string option" bool bool

text \<open>The message, whether one was signed out, and whether there is a link to sign in.\<close>

definition loginPage :: "env \<Rightarrow> verifier \<Rightarrow> time \<Rightarrow> (string \<times> string) list \<Rightarrow> jar \<Rightarrow> login_view" where
  "loginPage env verify now query jar =
     (if getSession env verify now jar \<noteq> None then GoesHome
      else
        let message = map_option (\<lambda>e. nullish (map_of ERROR_COPY e) e) (present (map_of query ''error''));
            cfg = authConfig env in
        SignInForm message (present (map_of query ''signed_out'') \<noteq> None) (ac_tenantId cfg \<noteq> '''' \<and> ac_clientId cfg \<noteq> ''''))"

section \<open>Facts: the exported file\<close>

text \<open>
  A reader of comma separated values, as RFC 4180 has them: a cell in quotes holds anything, a quote twice; a
  cell without quotes ends at a comma or a line break.
\<close>

definition bare :: "char \<Rightarrow> bool" where
  "bare c \<longleftrightarrow> c \<noteq> CHR '','' \<and> c \<noteq> CHR 0x0A \<and> c \<noteq> CHR 0x22"

fun quoted_rest :: "string \<Rightarrow> (string \<times> string) option" where
  "quoted_rest [] = None"
| "quoted_rest (c # s) =
     (if c = CHR 0x22
      then (case s of
              d # t \<Rightarrow> if d = CHR 0x22 then map_option (\<lambda>(v, r). (CHR 0x22 # v, r)) (quoted_rest t) else Some ([], s)
            | [] \<Rightarrow> Some ([], []))
      else map_option (\<lambda>(v, r). (c # v, r)) (quoted_rest s))"

definition read_cell :: "string \<Rightarrow> (string \<times> string) option" where
  "read_cell s =
     (case s of
        c # t \<Rightarrow> if c = CHR 0x22 then quoted_rest t else Some (takeWhile bare s, dropWhile bare s)
      | [] \<Rightarrow> Some ([], []))"

lemma quoted_rest_shorter: "quoted_rest s = Some (v, r) \<Longrightarrow> length r < length s \<or> s = []"
proof (induction s arbitrary: v r rule: quoted_rest.induct)
  case (2 c s)
  then show ?case by (fastforce split: if_splits list.splits)
qed simp

lemma read_cell_shorter: "read_cell s = Some (v, c # r) \<Longrightarrow> length r < length s"
  using quoted_rest_shorter[of "tl s" v "c # r"] length_dropWhile_le[of bare s]
  by (auto simp: read_cell_def split: list.splits if_splits)

function csv_read :: "string list \<Rightarrow> string \<Rightarrow> string list list option" where
  "csv_read row s =
     (case read_cell s of
        None \<Rightarrow> None
      | Some (v, []) \<Rightarrow> Some [row @ [v]]
      | Some (v, c # r) \<Rightarrow>
          if c = CHR '','' then csv_read (row @ [v]) r
          else if c = CHR 0x0A then map_option ((#) (row @ [v])) (csv_read [] r)
          else None)"
  by pat_completeness auto
termination
  by (relation "measure (\<lambda>(row, s). length s)") (auto dest: read_cell_shorter)

declare csv_read.simps [simp del]

definition doubled :: "string \<Rightarrow> string" where
  "doubled s = concat (map (\<lambda>c. if c = CHR 0x22 then [CHR 0x22, CHR 0x22] else [c]) s)"

lemma quoted_rest_doubled:
  assumes "r = [] \<or> hd r \<noteq> CHR 0x22"
  shows "quoted_rest (doubled s @ CHR 0x22 # r) = Some (s, r)"
proof (induction s)
  case Nil
  then show ?case using assms by (cases r) (simp_all add: doubled_def)
next
  case (Cons c s)
  then show ?case by (simp add: doubled_def)
qed

lemma read_csv_cell: "r = [] \<or> hd r \<noteq> CHR 0x22 \<Longrightarrow> read_cell (csv_cell s @ r) = Some (s, r)"
  using quoted_rest_doubled[of r s] by (simp add: csv_cell_def read_cell_def doubled_def)

lemma csv_read_row:
  assumes "cells \<noteq> []" "r = [] \<or> hd r = CHR 0x0A"
  shows "csv_read row (join '','' (map csv_cell cells) @ r) =
    (case r of [] \<Rightarrow> Some [row @ cells] | c # t \<Rightarrow> map_option ((#) (row @ cells)) (csv_read [] t))"
  using assms(1)
proof (induction cells arbitrary: row)
  case (Cons c cells)
  show ?case
  proof (cases cells)
    case Nil
    have "read_cell (csv_cell c @ r) = Some (c, r)" using assms(2) by (intro read_csv_cell) auto
    then show ?thesis using Nil assms(2) by (subst csv_read.simps) (auto split: list.splits)
  next
    case (Cons d ds)
    let ?t = "join '','' (map csv_cell cells) @ r"
    have "read_cell (csv_cell c @ CHR '','' # ?t) = Some (c, CHR '','' # ?t)" by (rule read_csv_cell) simp
    then show ?thesis using Cons Cons.IH[of "row @ [c]"] by (subst csv_read.simps) (simp split: list.split)
  qed
qed simp

lemma csv_read_text: "rows \<noteq> [] \<Longrightarrow> list_all (\<lambda>row. row \<noteq> []) rows \<Longrightarrow> csv_read [] (csv_text rows) = Some rows"
proof (induction rows)
  case (Cons row rows)
  then show ?case
    using csv_read_row[of row "[]" "[]"] csv_read_row[of row "CHR 0x0A # csv_text rows" "[]"]
    by (cases rows) (simp_all add: csv_text_def)
qed simp

text \<open>What \<open>encodeURIComponent\<close> writes, the decoder of a URL reads back.\<close>

lemma uri_safe_facts: "uri_safe c \<Longrightarrow> c \<noteq> CHR ''+'' \<and> c \<noteq> CHR ''%'' \<and> code c < 128"
  by (auto simp: uri_safe_def is_lower_az_def is_upper_az_def is_digit_def code_def Let_def)

lemma uri_bytes_char: "form_bytes (encode_char c @ s) = utf8_of c @ form_bytes s"
  using uri_safe_facts[of c] code_bytes[of c]
  by (auto simp: encode_char_def utf8_of_def form_bytes_percent)

lemma uri_roundtrip: "form_value (encodeURIComponent s) = s"
proof -
  have "form_bytes (encodeURIComponent s) = concat (map utf8_of s)"
    by (induction s) (simp_all add: encodeURIComponent_def uri_bytes_char)
  moreover have "utf8 (concat (map utf8_of s)) = s"
    by (induction s) (simp_all add: utf8_of_char)
  ultimately show ?thesis by (simp add: form_value_def)
qed

section \<open>Properties\<close>

text \<open>
  C35: Nothing is lost in the export. Whatever the fields contain, quotes, commas and line breaks included, the link
  of the audit page decodes to a text that a reader of comma separated values turns back into the heading and one
  row of twelve fields for each entry on the page, in order.\<close>
theorem csv_export_roundtrip:
  "\<exists>t. av_csv (auditPage now p (Inr entries) scopes registered) = ''data:text/csv;charset=utf-8,'' @ t \<and>
     csv_read [] (form_value t) = Some (csv_header # map csv_row entries) \<and>
     list_all (\<lambda>row. length row = length csv_header) (csv_header # map csv_row entries)"
proof (intro exI conjI)
  let ?t = "encodeURIComponent (csv_text (csv_rows entries))"
  show "av_csv (auditPage now p (Inr entries) scopes registered) = ''data:text/csv;charset=utf-8,'' @ ?t"
    by (simp add: auditPage_def Let_def csv_href_def)
  show "csv_read [] (form_value ?t) = Some (csv_header # map csv_row entries)"
    using csv_read_text[of "csv_rows entries"] by (simp add: uri_roundtrip csv_rows_def csv_header_def csv_row_def list_all_iff)
  show "list_all (\<lambda>row. length row = length csv_header) (csv_header # map csv_row entries)"
    by (simp add: csv_header_def csv_row_def list_all_iff)
qed

definition filter_of :: "audit_params \<Rightarrow> audit_filter" where
  "filter_of p = \<lparr>fl_caller = present (ap_caller p), fl_model = present (ap_model p), fl_team = present (ap_team p),
     fl_status = None, fl_since = None, fl_until = None\<rparr>"

lemma present_present [simp]: "present (present v) = present v"
  by (cases v) (simp_all add: present_def)

lemma query_args:
  "map_of (audit_query p) ''caller'' = present (ap_caller p)" "map_of (audit_query p) ''model'' = present (ap_model p)"
  "map_of (audit_query p) ''team'' = present (ap_team p)" "map_of (audit_query p) ''status'' = None"
  "map_of (audit_query p) ''limit'' = None" "map_of (audit_query p) ''offset'' = None"
  by (simp_all add: audit_query_def Let_def split: option.splits)

lemma audit_answer_page:
  "audit_answer refusal (form_encode (audit_query p)) d = Inr (getAuditEntries (filter_of p) (Some 50) (Some 0) d)"
  by (simp add: audit_answer_def Let_def form_roundtrip query_args auditRoute_def page_param_def filter_of_def present_def[of None])

lemma takeWhile_of_take: "takeWhile P (take n xs) = take n (takeWhile P xs)"
  by (induction xs arbitrary: n) (auto simp: take_Cons split: nat.split)

lemma newest_recent:
  fixes f :: "'a \<Rightarrow> int"
  shows "length (filter (\<lambda>r. c < f r) (take n (sort_key (\<lambda>r. - f r) xs))) = min n (length (filter (\<lambda>r. c < f r) xs))"
proof -
  have front: "filter (\<lambda>r. c < f r) ys = takeWhile (\<lambda>r. c < f r) ys" if "sorted (map (\<lambda>r. - f r) ys)" for ys
    using that
  proof (induction ys)
    case (Cons a ys)
    then have eq: "filter (\<lambda>r. c < f r) ys = takeWhile (\<lambda>r. c < f r) ys" by simp
    moreover have "filter (\<lambda>r. c < f r) ys = []" if "\<not> c < f a"
      using that Cons.prems by (auto simp: filter_empty_conv)
    ultimately show ?case by simp
  qed simp
  let ?s = "sort_key (\<lambda>r. - f r) xs"
  have sorted: "sorted (map (\<lambda>r. - f r) ?s)" by simp
  have "sorted (map (\<lambda>r. - f r) (take n ?s))"
    using sorted_wrt_take[OF sorted] by (simp add: take_map)
  then have "filter (\<lambda>r. c < f r) (take n ?s) = take n (filter (\<lambda>r. c < f r) ?s)"
    using front sorted by (simp add: takeWhile_of_take)
  moreover have "length (filter (\<lambda>r. c < f r) ?s) = length (filter (\<lambda>r. c < f r) xs)"
    by (metis mset_filter mset_sort size_mset)
  ultimately show ?thesis by simp
qed

text \<open>
  C2: The figures above the audit table are about the table, not about the day they name. What the page asks for are the
  newest fifty requests that match its filters; where every matching request was logged, \<open>Logged - 24h\<close> shows
  their number within the last day up to fifty, and fifty from there on.
\<close>
theorem audit_tile_stops_at_fifty:
  assumes "\<forall>r \<in> set (requests d). matches_filter (filter_of p) r \<longrightarrow> content_of d (rq_id r) \<noteq> None"
  shows "\<exists>entries. audit_answer refusal (form_encode (audit_query p)) d = Inr entries \<and>
    entries = getAuditEntries (filter_of p) (Some 50) (Some 0) d \<and>
    av_logged24h (auditPage now p (audit_answer refusal (form_encode (audit_query p)) d) scopes registered) =
      min 50 (count_where (\<lambda>r. matches_filter (filter_of p) r \<and> now - 24 * HOUR_MS < rq_arrived_at r) (requests d))"
proof -
  let ?rows = "filter (matches_filter (filter_of p)) (requests d)" and ?f = "filter_of p"
  let ?top = "take 50 (sort_key (\<lambda>r. - rq_arrived_at r) ?rows)"
  have "ae_logged (audit_entry_of d r)" if "r \<in> set ?top" for r
  proof -
    have "r \<in> set ?rows" using that by (auto dest: in_set_takeD)
    then show ?thesis using assms by (simp add: logged_content)
  qed
  then have "filter (\<lambda>r. ae_logged (audit_entry_of d r) \<and> now - 24 * HOUR_MS < rq_arrived_at r) ?top =
      filter (\<lambda>r. now - 24 * HOUR_MS < rq_arrived_at r) ?top"
    by (intro filter_cong) auto
  then have "count_where (\<lambda>e. ae_logged e \<and> now - 24 * HOUR_MS < ae_arrivedAt e) (getAuditEntries ?f (Some 50) (Some 0) d) =
      min 50 (length (filter (\<lambda>r. now - 24 * HOUR_MS < rq_arrived_at r) ?rows))"
    using newest_recent[of "now - 24 * HOUR_MS" rq_arrived_at 50 ?rows]
    by (simp add: getAuditEntries_def nullish_def count_where_def filter_map comp_def audit_entry_of_def)
  then show ?thesis
    by (simp add: audit_answer_page auditPage_def Let_def count_where_def HOUR_MS_def MINUTE_MS_def)
qed

text \<open>Sixty logged requests of this minute, of which the tile counts fifty.\<close>

definition ex_busy_day :: db where
  "ex_busy_day = empty_db\<lparr>
     requests := map (\<lambda>n. (ex_row (digits_of n) ''m'' Completed)\<lparr>rq_arrived_at := int n\<rparr>) [0..<60],
     audit_contents := map (\<lambda>n. \<lparr>au_request_id = digits_of n, au_prompt = ''hi'', au_response = ''hello'', au_created_at = 1\<rparr>) [0..<60]\<rparr>"

lemma audit_tile_stops_at_fifty_witness:
  "\<exists>entries. audit_answer ''refused'' [] ex_busy_day = Inr entries \<and>
     av_logged24h (auditPage 1000 \<lparr>ap_caller = None, ap_model = None, ap_team = None\<rparr> (Inr entries) (Inr []) (Inr [])) = 50 \<and>
     count_where (\<lambda>r. 1000 - 24 * HOUR_MS < rq_arrived_at r) (requests ex_busy_day) = 60"
proof -
  let ?p = "\<lparr>ap_caller = None, ap_model = None, ap_team = None\<rparr>"
  have query: "form_encode (audit_query ?p) = []" by code_simp
  have logged: "\<forall>r \<in> set (requests ex_busy_day). matches_filter (filter_of ?p) r \<longrightarrow> content_of ex_busy_day (rq_id r) \<noteq> None"
    by code_simp
  have "count_where (\<lambda>r. matches_filter (filter_of ?p) r \<and> 1000 - 24 * HOUR_MS < rq_arrived_at r) (requests ex_busy_day) = 60"
    "count_where (\<lambda>r. 1000 - 24 * HOUR_MS < rq_arrived_at r) (requests ex_busy_day) = 60" by code_simp+
  with audit_tile_stops_at_fifty[OF logged, of "''refused''" 1000 "Inr []" "Inr []"] show ?thesis
    by (auto simp: query)
qed

section \<open>The fleet\<close>

lemma sum_swap_count:
  "(\<Sum>m\<leftarrow>ms. length (filter (\<lambda>r. P r \<and> key r = g m) rs)) = (\<Sum>r\<leftarrow>filter P rs. count_where (\<lambda>m. g m = key r) ms)"
proof (induction ms)
  case Nil
  then show ?case by (simp add: count_where_def)
next
  case (Cons m ms)
  have "length (filter (\<lambda>r. P r \<and> key r = g m) rs) = (\<Sum>r\<leftarrow>filter P rs. if g m = key r then 1 else 0)"
    by (induction rs) auto
  moreover have "count_where (\<lambda>m. g m = k) (m # ms) = (if g m = k then 1 else 0) + count_where (\<lambda>m. g m = k) ms" for k
    by (simp add: count_where_def)
  ultimately show ?case using Cons by (simp add: sum_list_addf)
qed

lemma filter_sort_length: "length (filter P (sort_key f xs)) = length (filter P xs)"
  by (metis mset_filter mset_sort size_mset)

lemma page_replicas:
  "length (filter P (concat (map mv_replicas (modelsPage reports scaling d)))) =
     (\<Sum>r\<leftarrow>filter P (replicas d). count_where (\<lambda>m. backend_of d (m_id m) = rp_model_id r) (listModels d))"
proof -
  have "length (filter P (listReplicasForModel d k)) = length (filter (\<lambda>r. P r \<and> rp_model_id r = backend_of d k) (replicas d))" for k
    by (simp add: listReplicasForModel_def filter_sort_length conj_commute)
  then show ?thesis
    using sum_swap_count[of P rp_model_id "\<lambda>m. backend_of d (m_id m)" "replicas d" "listModels d"]
    by (simp add: modelsPage_def filter_concat length_concat comp_def)
qed

lemma listed_model: "model_exists d k \<Longrightarrow> \<exists>m \<in> set (listModels d). m_id m = k"
  by (auto simp: model_exists_iff listModels_def mergeModelConfig_def Let_def)

lemma count_two:
  assumes "a \<in> set xs" "b \<in> set xs" "a \<noteq> b" "P a" "P b"
  shows "2 \<le> count_where P xs"
proof -
  have "{a, b} \<subseteq> set (filter P xs)" using assms by auto
  then have "card {a, b} \<le> card (set (filter P xs))" by (rule card_mono[OF finite_set])
  then show ?thesis using assms(3) card_length[of "filter P xs"] by (simp add: count_where_def)
qed

text \<open>
  C36: The fleet panel and the bar above it count differently. The panel counts a replica once for every registered
  model it serves, the bar once; so when every replica belongs to a registered model and an alias shares one's
  pods, the panel of the overview shows more replicas than the bar on the same screen.\<close>
theorem fleet_counts_shared_pods:
  assumes own: "\<forall>r \<in> set (replicas d). model_exists d (rp_model_id r) \<and> backend_of d (rp_model_id r) = rp_model_id r"
    and shared: "r \<in> set (replicas d)" "model_exists d alias" "alias \<noteq> rp_model_id r" "backend_of d alias = rp_model_id r"
  shows "ft_total (fleet_of c (modelsPage reports scaling d)) =
      (\<Sum>r\<leftarrow>replicas d. count_where (\<lambda>m. backend_of d (m_id m) = rp_model_id r) (listModels d)) \<and>
    ft_ready (fleet_of c (modelsPage reports scaling d)) =
      (\<Sum>r\<leftarrow>filter serving (replicas d). count_where (\<lambda>m. backend_of d (m_id m) = rp_model_id r) (listModels d)) \<and>
    (\<exists>a. tb_replicas (topBar s (Inr (overviewRoute now d))) = Some (a @ ''/'' @ digits_of (length (replicas d)) @ '' replicas'')) \<and>
    length (replicas d) < ft_total (fleet_of c (modelsPage reports scaling d))"
proof -
  let ?n = "\<lambda>r. count_where (\<lambda>m. backend_of d (m_id m) = rp_model_id r) (listModels d)"
  have total: "ft_total (fleet_of c (modelsPage reports scaling d)) = (\<Sum>r\<leftarrow>replicas d. ?n r)"
    using page_replicas[of "\<lambda>_. True" reports scaling d] by (simp add: fleet_of_def Let_def)
  have one: "1 \<le> ?n x" if x: "x \<in> set (replicas d)" for x
  proof -
    obtain m where "m \<in> set (listModels d)" "m_id m = rp_model_id x" using own x listed_model by blast
    then have "m \<in> set (filter (\<lambda>m. backend_of d (m_id m) = rp_model_id x) (listModels d))" using own x by simp
    then show ?thesis by (cases "filter (\<lambda>m. backend_of d (m_id m) = rp_model_id x) (listModels d)") (simp_all add: count_where_def)
  qed
  obtain m m' where "m \<in> set (listModels d)" "m_id m = alias" "m' \<in> set (listModels d)" "m_id m' = rp_model_id r"
    using listed_model shared own by metis
  then have many: "2 \<le> ?n r" using shared own by (intro count_two[of m _ m']) auto
  have "length xs + (if r \<in> set xs then 1 else 0) \<le> (\<Sum>x\<leftarrow>xs. ?n x)" if "set xs \<subseteq> set (replicas d)" for xs
    using that by (induction xs) (use one many in \<open>fastforce split: if_splits\<close>)+
  from this[of "replicas d"] have "length (replicas d) < (\<Sum>x\<leftarrow>replicas d. ?n x)" using shared(1) by simp
  moreover have "ft_ready (fleet_of c (modelsPage reports scaling d)) = (\<Sum>r\<leftarrow>filter serving (replicas d). ?n r)"
    using page_replicas[of serving reports scaling d] by (simp add: fleet_of_def Let_def count_where_def)
  moreover have "replicas d \<noteq> []" using shared(1) by auto
  ultimately show ?thesis
    using total by (auto simp: topBar_def overviewRoute_def Let_def)
qed

text \<open>Two replicas and an alias: the panel counts four, the bar two.\<close>

lemma fleet_counts_shared_pods_witness:
  "ft_total (fleet_of 1 (modelsPage [] (\<lambda>_. without_figures Unknown []) ex_fleet_db)) > length (replicas ex_fleet_db)"
proof -
  have own: "\<forall>r \<in> set (replicas ex_fleet_db). model_exists ex_fleet_db (rp_model_id r) \<and> backend_of ex_fleet_db (rp_model_id r) = rp_model_id r"
    by code_simp
  have "ex_replica ''p0'' ''ornith'' 1 1 \<in> set (replicas ex_fleet_db)" "model_exists ex_fleet_db ''ornith-think''"
    "''ornith-think'' \<noteq> rp_model_id (ex_replica ''p0'' ''ornith'' 1 1)"
    "backend_of ex_fleet_db ''ornith-think'' = rp_model_id (ex_replica ''p0'' ''ornith'' 1 1)"
    by code_simp+
  from fleet_counts_shared_pods[OF own this] show ?thesis by blast
qed

section \<open>The failures panel and the health label\<close>

text \<open>
  The failures panel of the overview subtracts an hour from a day. When every request of the last day failed, but
  more than an hour ago, it shows no failure, a rate of nothing, and as many requests completed as failed.\<close>
theorem failures_panel_mixes_windows:
  assumes "\<forall>r \<in> set (requests d). counted_failure (rq_status r) \<and> now - 24 * HOUR_MS < rq_arrived_at r \<and> rq_arrived_at r \<le> now - HOUR_MS"
    and "ow_panel (overviewPage dateParse sep gg who (Inr listed) (Inr (overviewRoute now d)) queued inFlight) = Some p"
  shows "op_failed p = ''0'' \<and> op_completed p = fmtGrouped (length (requests d)) \<and> ac_chip (op_failureArc p) = ''0.00%''"
proof -
  have "failures_last_hour now d = 0"
    using assms(1) by (auto simp: failures_last_hour_def arrived_since_def filter_empty_conv)
  moreover have "arrived_since (now - 24 * HOUR_MS) d = requests d"
    using assms(1) by (simp add: arrived_since_def)
  moreover have "to_fixed 2 0 = ''0.00''" "fmtGrouped 0 = ''0''" by code_simp+
  ultimately show ?thesis
    using assms(2)
    by (auto simp: overviewPage_def overview_panel_of_def Let_def overviewRoute_def arcGauge_def split: if_splits)
qed

text \<open>Three timeouts of two hours ago.\<close>

definition ex_bad_morning :: db where
  "ex_bad_morning = empty_db\<lparr>models := [ex_alias ''ornith'' None], requests :=
     map (\<lambda>n. (ex_row (digits_of n) ''ornith'' QueueTimeoutStatus)\<lparr>rq_arrived_at := 100\<rparr>) [0..<3]\<rparr>"

lemma failures_panel_mixes_windows_witness:
  "\<exists>p. ow_panel (overviewPage (\<lambda>_. None) '','' \<lparr>gg_ring = 600, gg_arc = 400\<rparr> None
       (Inr (modelsPage [] (\<lambda>_. without_figures Unknown []) ex_bad_morning)) (Inr (overviewRoute 7200000 ex_bad_morning)) (Inr []) (Inr [])) = Some p \<and>
     op_failed p = ''0'' \<and> op_completed p = ''3''"
proof -
  have rows: "\<forall>r \<in> set (requests ex_bad_morning). counted_failure (rq_status r) \<and> 7200000 - 24 * HOUR_MS < rq_arrived_at r \<and>
      rq_arrived_at r \<le> 7200000 - HOUR_MS" by code_simp
  have "modelsPage [] (\<lambda>_. without_figures Unknown []) ex_bad_morning \<noteq> []" by code_simp
  then obtain p where p: "ow_panel (overviewPage (\<lambda>_. None) '','' \<lparr>gg_ring = 600, gg_arc = 400\<rparr> None
       (Inr (modelsPage [] (\<lambda>_. without_figures Unknown []) ex_bad_morning)) (Inr (overviewRoute 7200000 ex_bad_morning)) (Inr []) (Inr [])) = Some p"
    by (simp add: overviewPage_def Let_def)
  have "fmtGrouped (length (requests ex_bad_morning)) = ''3''" by code_simp
  with failures_panel_mixes_windows[OF rows p] p show ?thesis by simp
qed

text \<open>
  The words in the bar, for every state of the store: no replica at all reads as no model registered, however many
  are; then more than five failures of the last hour, then a queue, and else all is well. It never says that
  replicas are scaling.\<close>
theorem health_label_exact:
  "healthLabel (Some (overviewRoute now d)) =
     (if replicas d = [] then ''No models registered''
      else if 5 < failures_last_hour now d then ''Degraded''
      else if queued_rows d \<noteq> [] then digits_of (length (queued_rows d)) @ '' queued'' else ''All systems normal'') \<and>
   healthLabel (Some (overviewRoute now d)) \<noteq> ''Replicas scaling''"
proof -
  have "digits_of n @ '' queued'' \<noteq> ''Replicas scaling''" for n
  proof
    assume "digits_of n @ '' queued'' = ''Replicas scaling''"
    then have "hd (digits_of n) = CHR ''R''" using digits_of_not_Nil[of n] by (cases "digits_of n") auto
    then show False using digits_of_digits[of "CHR ''R''" n] digits_of_not_Nil[of n] list.set_sel(1)[of "digits_of n"]
      by (simp add: is_digit_def code_def)
  qed
  then show ?thesis
    by (simp add: healthLabel_def overviewRoute_def health_of_def)
qed

section \<open>The requests page and the charts\<close>

lemma foldl_max_le: "\<forall>x \<in> set qs. f x \<le> acc \<Longrightarrow> foldl (\<lambda>a x. max a (f x)) acc qs = (acc :: int)"
  by (induction qs) auto

lemma whole_seconds_mono: "a \<le> b \<Longrightarrow> whole_seconds a \<le> whole_seconds b"
proof -
  assume "a \<le> b"
  then have "a div 1000 \<le> b div 1000" by (rule zdiv_mono1) simp
  moreover have "a = 1000 * (a div 1000) + a mod 1000" "b = 1000 * (b div 1000) + b mod 1000" by simp_all
  moreover have "a div 1000 = b div 1000 \<Longrightarrow> a mod 1000 \<le> b mod 1000" using \<open>a \<le> b\<close> calculation by linarith
  ultimately show ?thesis
    by (cases "a div 1000 = b div 1000") (auto simp: whole_seconds_def Let_def)
qed

text \<open>
  The oldest wait is the wait of the request at the head of the queue, to the second; with an empty queue it is
  none.\<close>
theorem oldest_wait_is_first:
  assumes "requestsRoute (Some ''queued'') now d = QueuedPage qs" and "\<forall>r \<in> set (requests d). rq_arrived_at r \<le> now"
  shows "oldestWait qs = (case qs of [] \<Rightarrow> 0 | q # _ \<Rightarrow> qv_waitingSec q)"
proof (cases "queued_rows d")
  case Nil
  then show ?thesis using assms(1) by (auto simp: requestsRoute_def oldestWait_def)
next
  case (Cons r rs)
  have qs: "qs = map (queued_view_of now) (r # rs)" using assms(1) Cons by (auto simp: requestsRoute_def)
  have "sorted (map rq_arrived_at (r # rs))"
    unfolding Cons[symmetric] queued_rows_def by simp
  moreover have "r \<in> set (requests d)"
    using Cons by (metis filter_is_subset list.set_intros(1) queued_rows_def set_sort subsetD)
  then have "0 \<le> whole_seconds (now - rq_arrived_at r)"
    using whole_seconds_mono[of 0 "now - rq_arrived_at r"] assms(2) by (simp add: whole_seconds_def)
  moreover have "\<forall>x \<in> set rs. whole_seconds (now - rq_arrived_at x) \<le> whole_seconds (now - rq_arrived_at r)"
    using calculation(1) by (simp add: whole_seconds_mono)
  from foldl_max_le[OF this]
  have "foldl (\<lambda>a x. max a (whole_seconds (now - rq_arrived_at x))) (whole_seconds (now - rq_arrived_at r)) rs =
      whole_seconds (now - rq_arrived_at r)" .
  ultimately show ?thesis
    by (simp add: qs oldestWait_def foldl_map queued_view_of_def)
qed

lemma oldest_wait_is_first_witness:
  "oldestWait (map (queued_view_of 95000) (queued_rows ex_fleet_db)) = 95"
proof -
  have "\<forall>r \<in> set (requests ex_fleet_db). rq_arrived_at r \<le> 95000" by code_simp
  moreover have "requestsRoute (Some ''queued'') 95000 ex_fleet_db = QueuedPage (map (queued_view_of 95000) (queued_rows ex_fleet_db))"
    by (simp add: requestsRoute_def)
  moreover have "(case map (queued_view_of 95000) (queued_rows ex_fleet_db) of [] \<Rightarrow> 0 | q # _ \<Rightarrow> qv_waitingSec q) = 95"
    by code_simp
  ultimately show ?thesis using oldest_wait_is_first[of 95000 ex_fleet_db] by simp
qed

lemma peak_fold:
  fixes f :: "nat \<Rightarrow> rat"
  defines "p \<equiv> \<lambda>n. foldl (\<lambda>best i. if f i > f best then i else best) 0 [0..<n]"
  shows "p n < max n 1 \<and> (\<forall>i < n. f i \<le> f (p n)) \<and> (\<forall>i < p n. f i < f (p n))"
proof (induction n)
  case 0
  then show ?case by (simp add: p_def)
next
  case (Suc n)
  have step: "p (Suc n) = (if f n > f (p n) then n else p n)" by (simp add: p_def)
  show ?case
  proof (cases "f n > f (p n)")
    case True
    then show ?thesis using Suc by (auto simp: step less_Suc_eq intro: le_less_trans)
  next
    case False
    then show ?thesis using Suc by (auto simp: step less_Suc_eq)
  qed
qed

lemma column_max_bound: "x \<in> set xs \<Longrightarrow> cl_value x \<le> column_max xs" "1 \<le> column_max xs"
proof -
  have fold: "a \<le> foldl max a ys \<and> (\<forall>y \<in> set ys. y \<le> foldl max a ys)" for a :: rat and ys
  proof (induction ys arbitrary: a)
    case (Cons y ys)
    have "max a y \<le> foldl max (max a y) ys" using Cons by blast
    then show ?case using Cons[of "max a y"] by simp
  qed simp
  show "x \<in> set xs \<Longrightarrow> cl_value x \<le> column_max xs" "1 \<le> column_max xs"
    using fold[of 1 "map cl_value xs"] by (auto simp: column_max_def)
qed

text \<open>
  One bar stands out, and it is the right one. On a chart of counts there is a bar for every column, none outgrows
  the plot or vanishes, exactly one carries the accent, and that one is the first of the highest, drawn at least
  as high as any other.\<close>
theorem chart_peak_stands_out:
  assumes "columnChart dateParse sep h unit xs = Some v" and "47 \<le> h" and "\<forall>x \<in> set xs. 0 \<le> cl_value x"
  shows "length (ch_bars v) = length xs \<and>
    (\<exists>k < length xs. (\<forall>i < length xs. bv_peak (ch_bars v ! i) \<longleftrightarrow> i = k) \<and>
       (\<forall>i < length xs. cl_value (xs ! i) \<le> cl_value (xs ! k) \<and> (i < k \<longrightarrow> cl_value (xs ! i) < cl_value (xs ! k)) \<and>
          3 \<le> bv_height (ch_bars v ! i) \<and> bv_height (ch_bars v ! i) \<le> h - 44 \<and>
          bv_height (ch_bars v ! i) \<le> bv_height (ch_bars v ! k)))"
proof -
  let ?k = "peakIndex xs" and ?t = "column_max xs"
  have ne: "xs \<noteq> []" using assms(1) by (auto simp: columnChart_def)
  have some: "max (length xs) 1 = length xs" using ne by (cases xs) simp_all
  have "?k < length xs \<and> (\<forall>i < length xs. cl_value (xs ! i) \<le> cl_value (xs ! ?k)) \<and> (\<forall>i < ?k. cl_value (xs ! i) < cl_value (xs ! ?k))"
    using peak_fold[of "\<lambda>i. cl_value (xs ! i)" "length xs"] unfolding some peakIndex_def .
  note peak = this[THEN conjunct1] this[THEN conjunct2, THEN conjunct1] this[THEN conjunct2, THEN conjunct2]
  have bars: "length (ch_bars v) = length xs"
    "\<And>i. i < length xs \<Longrightarrow> bv_peak (ch_bars v ! i) = (i = ?k) \<and> bv_height (ch_bars v ! i) = max (cl_value (xs ! i) / ?t * (h - 44)) 3"
    using assms(1) ne by (auto simp: columnChart_def Let_def nth_enumerate_eq)
  have scale: "cl_value (xs ! i) / ?t * (h - 44) \<le> h - 44" if "i < length xs" for i
  proof -
    have "cl_value (xs ! i) / ?t \<le> 1" using column_max_bound(1)[of "xs ! i" xs] column_max_bound(2)[of xs] that by simp
    from mult_right_mono[OF this, of "h - 44"] show ?thesis using assms(2) by simp
  qed
  have order: "cl_value (xs ! i) / ?t * (h - 44) \<le> cl_value (xs ! ?k) / ?t * (h - 44)" if "i < length xs" for i
    using peak(2) that assms(2) column_max_bound(2)[of xs] by (intro mult_right_mono divide_right_mono) auto
  have "3 \<le> bv_height (ch_bars v ! i) \<and> bv_height (ch_bars v ! i) \<le> h - 44 \<and> bv_height (ch_bars v ! i) \<le> bv_height (ch_bars v ! ?k)"
    if "i < length xs" for i
    using bars(2)[OF that] bars(2)[OF peak(1)] scale[OF that] order[OF that] assms(2) by (simp add: max_def)
  with bars peak show ?thesis by (intro conjI exI[of _ ?k]) auto
qed

lemma chart_peak_stands_out_witness:
  "\<exists>v k. columnChart (\<lambda>_. None) '','' 216 [] [\<lparr>cl_label = ''a'', cl_value = 4\<rparr>, \<lparr>cl_label = ''b'', cl_value = 9\<rparr>, \<lparr>cl_label = ''c'', cl_value = 9\<rparr>] = Some v \<and>
     k < 3 \<and> bv_peak (ch_bars v ! k) \<and> bv_height (ch_bars v ! 0) \<le> bv_height (ch_bars v ! k)"
proof -
  let ?xs = "[\<lparr>cl_label = ''a'', cl_value = 4\<rparr>, \<lparr>cl_label = ''b'', cl_value = 9\<rparr>, \<lparr>cl_label = ''c'', cl_value = 9\<rparr>] :: column list"
  obtain v where v: "columnChart (\<lambda>_. None) '','' 216 [] ?xs = Some v" by (simp add: columnChart_def Let_def)
  from chart_peak_stands_out[OF v] obtain k where "k < length ?xs" "\<forall>i < length ?xs. bv_peak (ch_bars v ! i) \<longleftrightarrow> i = k"
    "\<forall>i < length ?xs. bv_height (ch_bars v ! i) \<le> bv_height (ch_bars v ! k)" by auto
  then show ?thesis using v by (intro exI[of _ v] exI[of _ k]) simp
qed

section \<open>The cost page\<close>

definition counted_rows :: "string \<Rightarrow> time \<Rightarrow> db \<Rightarrow> request_row list" where
  "counted_rows period now d = filter (\<lambda>r. rq_status r = Completed) (arrived_since (now - interval_of (Some period)) d)"

lemma sum_breakdown:
  assumes "\<forall>r \<in> set (requests d). rq_status r = Completed \<longrightarrow>
      rq_arrived_at r \<noteq> now - interval_of (Some period) \<and> rq_arrived_at r \<le> now \<and> group_column g r \<noteq> None"
    and "costRoute (Some g) (Some period) now d = (breakdown, series, p)"
  shows "(\<Sum>e\<leftarrow>breakdown. be_cost e) = (\<Sum>r\<leftarrow>counted_rows period now d. row_cost r)"
    "(\<Sum>e\<leftarrow>breakdown. be_tokens e) = (\<Sum>r\<leftarrow>counted_rows period now d. rq_input_tokens r + rq_output_tokens r)"
    "(\<Sum>e\<leftarrow>breakdown. be_requests e) = int (length (counted_rows period now d))"
proof -
  let ?since = "now - interval_of (Some period)"
  have rows: "counted_rows period now d = billed_rows ?since now g d"
    unfolding counted_rows_def billed_rows_def arrived_since_def filter_filter
    by (rule filter_cong) (use assms(1) in \<open>auto simp: less_le\<close>)
  have b: "breakdown = getCostBreakdown ?since now g d" using assms(2) by (auto simp: costRoute_def Let_def)
  show "(\<Sum>e\<leftarrow>breakdown. be_cost e) = (\<Sum>r\<leftarrow>counted_rows period now d. row_cost r)"
    "(\<Sum>e\<leftarrow>breakdown. be_tokens e) = (\<Sum>r\<leftarrow>counted_rows period now d. rq_input_tokens r + rq_output_tokens r)"
    unfolding b rows by (rule breakdown_total, simp add: breakdown_of_def Let_def)+
  have "(\<Sum>e\<leftarrow>breakdown. be_requests e) = (\<Sum>r\<leftarrow>counted_rows period now d. 1)"
    unfolding b rows by (rule breakdown_total) (simp add: breakdown_of_def Let_def sum_list_triv)
  then show "(\<Sum>e\<leftarrow>breakdown. be_requests e) = int (length (counted_rows period now d))" by (simp add: sum_list_triv)
qed

lemma sum_series:
  assumes "costRoute g (Some period) now d = (breakdown, series, p)"
  shows "(\<Sum>h\<leftarrow>series. hr_tokensIn h) = (\<Sum>r\<leftarrow>counted_rows period now d. rq_input_tokens r)"
    "(\<Sum>h\<leftarrow>series. hr_tokensOut h) = (\<Sum>r\<leftarrow>counted_rows period now d. rq_output_tokens r)"
    "(\<Sum>h\<leftarrow>series. int (hr_requests h)) = int (length (counted_rows period now d))"
proof -
  let ?hour = "\<lambda>r. trunc_hour (rq_arrived_at r)" and ?rows = "counted_rows period now d"
  have s: "series = map (hourly_row_of ?rows) (buckets ?hour ?rows)"
    using assms by (auto simp: costRoute_def hourly_def Let_def counted_rows_def)
  show "(\<Sum>h\<leftarrow>series. hr_tokensIn h) = (\<Sum>r\<leftarrow>?rows. rq_input_tokens r)"
    "(\<Sum>h\<leftarrow>series. hr_tokensOut h) = (\<Sum>r\<leftarrow>?rows. rq_output_tokens r)"
    using sum_buckets[of rq_input_tokens ?hour ?rows] sum_buckets[of rq_output_tokens ?hour ?rows]
    by (simp_all add: s hourly_row_of_def Let_def comp_def)
  show "(\<Sum>h\<leftarrow>series. int (hr_requests h)) = int (length ?rows)"
    using sum_buckets[of "\<lambda>r. 1 :: int" ?hour ?rows] by (simp add: s hourly_row_of_def Let_def comp_def sum_list_triv)
qed

text \<open>
  C37: Every figure of the cost page is a figure of the store. Both calls answered by one store, and no completed request
  exactly at the start of the period, in the future or without a model: the tiles are the cost, the tokens and the
  number of the completed requests of the period, and the figures under the chart are the tokens of the same requests.
\<close>
theorem cost_panel_accounts:
  assumes ok: "\<forall>r \<in> set (requests d). rq_status r = Completed \<longrightarrow>
      rq_arrived_at r \<noteq> now - interval_of (Some period) \<and> rq_arrived_at r \<le> now \<and> rq_routed_model r \<noteq> None"
    and panel: "cv_panel (costPage sep hourText (Inr (costRoute (Some GroupByModel) (Some period) now d))
      (Inr (costRoute (Some GroupByCaller) (Some period) now d))) = Some p"
  defines "rows \<equiv> counted_rows period now d"
  shows "cp_totalCost p = money (\<Sum>r\<leftarrow>rows. row_cost r) \<and>
    cp_tokens p = tokens_text sep (\<Sum>r\<leftarrow>rows. rq_input_tokens r + rq_output_tokens r) \<and>
    cp_requests p = grouped sep (length rows) \<and>
    cp_tokensIn p = kilo (of_int (\<Sum>r\<leftarrow>rows. rq_input_tokens r)) \<and>
    cp_tokensOut p = kilo (of_int (\<Sum>r\<leftarrow>rows. rq_output_tokens r)) \<and>
    (rows \<noteq> [] \<longrightarrow> cp_perRequest p = kilo (of_int (\<Sum>r\<leftarrow>rows. rq_input_tokens r + rq_output_tokens r) / of_nat (length rows)))"
proof -
  obtain breakdown series q where run: "costRoute (Some GroupByModel) (Some period) now d = (breakdown, series, q)"
    by (metis prod_cases3)
  have "\<forall>r \<in> set (requests d). rq_status r = Completed \<longrightarrow>
      rq_arrived_at r \<noteq> now - interval_of (Some period) \<and> rq_arrived_at r \<le> now \<and> group_column GroupByModel r \<noteq> None"
    using ok by (simp add: group_column_def)
  note sums = sum_breakdown[OF this run] sum_series[OF run]
  have "(\<Sum>r\<leftarrow>rows. rq_input_tokens r + rq_output_tokens r) = (\<Sum>r\<leftarrow>rows. rq_input_tokens r) + (\<Sum>r\<leftarrow>rows. rq_output_tokens r)"
    by (simp add: sum_list_addf)
  with panel sums show ?thesis
    by (auto simp: costPage_def Let_def run nullish_def rows_def split: if_splits)
qed

lemma cost_panel_accounts_witness:
  "let d = empty_db\<lparr>requests := [(ex_row ''a'' ''m'' Completed)\<lparr>rq_cost_usd := Some 3, rq_input_tokens := 40\<rparr>,
             (ex_row ''b'' ''n'' Completed)\<lparr>rq_cost_usd := Some 4, rq_output_tokens := 60\<rparr>]\<rparr> in
   \<exists>p. cv_panel (costPage '','' (\<lambda>_. []) (Inr (costRoute (Some GroupByModel) (Some ''1h'') 1000 d))
         (Inr (costRoute (Some GroupByCaller) (Some ''1h'') 1000 d))) = Some p \<and>
     cp_totalCost p = ''$7.00'' \<and> cp_tokens p = ''100''"
proof -
  let ?d = "empty_db\<lparr>requests := [(ex_row ''a'' ''m'' Completed)\<lparr>rq_cost_usd := Some 3, rq_input_tokens := 40\<rparr>,
             (ex_row ''b'' ''n'' Completed)\<lparr>rq_cost_usd := Some 4, rq_output_tokens := 60\<rparr>]\<rparr>"
  have ok: "\<forall>r \<in> set (requests ?d). rq_status r = Completed \<longrightarrow>
      rq_arrived_at r \<noteq> 1000 - interval_of (Some ''1h'') \<and> rq_arrived_at r \<le> 1000 \<and> rq_routed_model r \<noteq> None" by code_simp
  have "fst (costRoute (Some GroupByModel) (Some ''1h'') 1000 ?d) \<noteq> []" by code_simp
  then obtain p where p: "cv_panel (costPage '','' (\<lambda>_. []) (Inr (costRoute (Some GroupByModel) (Some ''1h'') 1000 ?d))
         (Inr (costRoute (Some GroupByCaller) (Some ''1h'') 1000 ?d))) = Some p"
    by (simp add: costPage_def Let_def nullish_def)
  have "money (\<Sum>r\<leftarrow>counted_rows ''1h'' 1000 ?d. row_cost r) = ''$7.00''"
    "tokens_text '','' (\<Sum>r\<leftarrow>counted_rows ''1h'' 1000 ?d. rq_input_tokens r + rq_output_tokens r) = ''100''" by code_simp+
  with cost_panel_accounts[OF ok p] p show ?thesis by simp
qed

end
