(* ===== verification/Controls.thy ===== *)
theory Controls
  imports Pages
begin

text \<open>
  The parts of the dashboard that run in the browser and keep state: the switch of a logging scope, the log panel, the
  form that overrides a model, the button that deletes history and the colour theme. A click, an answer and a message
  are steps; what the router does with a request is the route of \<open>Dashboard\<close> or \<open>Logs\<close>.
\<close>

section \<open>The switch of a logging scope\<close>

text \<open>
  \<open>audit/logging-toggle.tsx\<close>. The knob moves at once and a request goes out with the new value. A request is in
  flight until it is answered; meanwhile the router may carry it out, and it may fail before or after that. The
  refresh after an answer renders the page anew but leaves the knob, whose state was set when it appeared.
\<close>

record put_request =
  pt_next :: bool
  pt_done :: bool

record switch_world =
  sw_knob :: bool
  sw_puts :: "put_request list"
  sw_db :: db

definition remove_at :: "nat \<Rightarrow> 'a list \<Rightarrow> 'a list" where
  "remove_at i xs = take i xs @ drop (Suc i) xs"

text \<open>A click, unless the switch is reserved (\<open>pending\<close>).\<close>

definition toggle :: "bool \<Rightarrow> switch_world \<Rightarrow> switch_world" where
  "toggle pending w =
     (if pending then w
      else w\<lparr>sw_knob := \<not> sw_knob w, sw_puts := sw_puts w @ [\<lparr>pt_next = \<not> sw_knob w, pt_done = False\<rparr>]\<rparr>)"

definition put_scope :: "scope \<Rightarrow> bool \<Rightarrow> db \<Rightarrow> db" where
  "put_scope s enabled d = snd (putLoggingConfig (fst (scope_row s)) (Some (snd (scope_row s))) enabled d)"

definition carry_out :: "scope \<Rightarrow> nat \<Rightarrow> switch_world \<Rightarrow> switch_world" where
  "carry_out s i w =
     w\<lparr>sw_puts := (sw_puts w)[i := (sw_puts w ! i)\<lparr>pt_done := True\<rparr>], sw_db := put_scope s (pt_next (sw_puts w ! i)) (sw_db w)\<rparr>"

definition toggle_ok :: "nat \<Rightarrow> switch_world \<Rightarrow> switch_world" where
  "toggle_ok i w = w\<lparr>sw_puts := remove_at i (sw_puts w)\<rparr>"

definition toggle_failed :: "nat \<Rightarrow> switch_world \<Rightarrow> switch_world" where
  "toggle_failed i w = w\<lparr>sw_knob := \<not> pt_next (sw_puts w ! i), sw_puts := remove_at i (sw_puts w)\<rparr>"

inductive toggle_step :: "bool \<Rightarrow> scope \<Rightarrow> switch_world \<Rightarrow> switch_world \<Rightarrow> bool" for pending s where
  click: "toggle_step pending s w (toggle pending w)"
| carried_out: "i < length (sw_puts w) \<Longrightarrow> \<not> pt_done (sw_puts w ! i) \<Longrightarrow> toggle_step pending s w (carry_out s i w)"
| succeeds: "i < length (sw_puts w) \<Longrightarrow> pt_done (sw_puts w ! i) \<Longrightarrow> toggle_step pending s w (toggle_ok i w)"
| fails: "i < length (sw_puts w) \<Longrightarrow> toggle_step pending s w (toggle_failed i w)"

text \<open>A user who waits: no click while a request is in flight. A lost answer: the write was carried out, its fetch fails.\<close>

definition waits :: "switch_world \<Rightarrow> switch_world \<Rightarrow> bool" where
  "waits w w' \<longleftrightarrow> (length (sw_puts w) < length (sw_puts w') \<longrightarrow> sw_puts w = [])"

definition lost_answer :: "switch_world \<Rightarrow> switch_world \<Rightarrow> bool" where
  "lost_answer w w' \<longleftrightarrow> (\<exists>i < length (sw_puts w). pt_done (sw_puts w ! i) \<and> w' = toggle_failed i w)"

section \<open>The log panel\<close>

text \<open>
  \<open>monitoring/log-tail.tsx\<close>. The panel keeps the last lines of what its \<open>EventSource\<close> delivers. The browser opens
  the source anew whenever the router ends it; the panel is emptied only when another replica is chosen.
\<close>

definition MAX_LINES :: nat where
  "MAX_LINES = 200"

definition onmessage :: "json list \<Rightarrow> string \<Rightarrow> json list" where
  "onmessage prev data =
     (case json_parse data of
        None \<Rightarrow> prev
      | Some line \<Rightarrow>
          let next = prev @ [line] in if MAX_LINES < length next then drop (length next - MAX_LINES) next else next)"

datatype panel_event =
    Chosen string
  | Message string

fun LogTail :: "panel_event \<Rightarrow> json list \<Rightarrow> json list" where
  "LogTail (Chosen replicaId) kept = []"
| "LogTail (Message data) kept = onmessage kept data"

definition log_url :: "string \<Rightarrow> string" where
  "log_url replicaId = ''/gateway/api/logs/'' @ replicaId"

text \<open>One connection delivers what the route writes.\<close>

definition connection :: "log_env \<Rightarrow> string \<Rightarrow> db \<Rightarrow> panel_event list" where
  "connection le replicaId d = map (\<lambda>v. Message (json_stringify v)) (logsRoute le replicaId None False d)"

section \<open>The override form\<close>

text \<open>\<open>settings/model-override-form.tsx\<close>: the fields as they are typed.\<close>

record override_form =
  om_min :: string
  om_max :: string
  om_cost :: string
  om_prompt :: string
  om_basis :: cost_basis

definition open_form :: "model_config \<Rightarrow> override_form" where
  "open_form m =
     \<lparr>om_min = show_num (of_int (m_minReplicas m)), om_max = show_num (of_int (m_maxReplicas m)), om_cost = show_num (m_costValue m),
      om_prompt = m_systemPrompt m, om_basis = m_costBasis m\<rparr>"

fun basis_key :: "cost_basis \<Rightarrow> string" where
  "basis_key Per1kTokens = ''per_1k_tokens''"
| "basis_key PerRequest = ''per_request''"
| "basis_key PerComputeSecond = ''per_compute_second''"

text \<open>The body: what is not a number is sent as null.\<close>

definition number_json :: "string \<Rightarrow> json" where
  "number_json s = (case js_number s of None \<Rightarrow> JNull | Some q \<Rightarrow> JNum q)"

definition override_body :: "override_form \<Rightarrow> json" where
  "override_body f =
     JObj [(''minReplicas'', number_json (om_min f)), (''maxReplicas'', number_json (om_max f)),
       (''costValue'', number_json (om_cost f)), (''costBasis'', JStr (basis_key (om_basis f))),
       (''systemPrompt'', JStr (om_prompt f))]"

text \<open>The same as fields of an override, where both counts are whole numbers and the cost is a number.\<close>

definition whole_number :: "string \<Rightarrow> int option" where
  "whole_number s = (case js_number s of Some q \<Rightarrow> if q = of_int \<lfloor>q\<rfloor> then Some \<lfloor>q\<rfloor> else None | None \<Rightarrow> None)"

definition form_fields :: "override_form \<Rightarrow> override_fields option" where
  "form_fields f =
     (case (whole_number (om_min f), whole_number (om_max f), js_number (om_cost f)) of
        (Some lo, Some hi, Some c) \<Rightarrow>
          Some (no_override\<lparr>of_minReplicas := Some lo, of_maxReplicas := Some hi, of_costValue := Some c,
            of_costBasis := Some (om_basis f), of_systemPrompt := Some (om_prompt f)\<rparr>)
      | _ \<Rightarrow> None)"

record form_state =
  fs_open :: bool
  fs_error :: "string option"

text \<open>The answer to saving: the network's error, or a status.\<close>

definition handleSave :: "string + nat \<Rightarrow> form_state" where
  "handleSave answer =
     (case answer of
        Inl e \<Rightarrow> \<lparr>fs_open = True, fs_error = Some e\<rparr>
      | Inr status \<Rightarrow>
          if 200 \<le> status \<and> status < 300 then \<lparr>fs_open = False, fs_error = None\<rparr>
          else \<lparr>fs_open = True, fs_error = Some (''failed: '' @ digits_of status)\<rparr>)"

section \<open>The delete button\<close>

text \<open>\<open>audit/delete-history-button.tsx\<close>: its words, and what a click asks of the router.\<close>

definition delete_label :: "bool \<Rightarrow> nat \<Rightarrow> string" where
  "delete_label isDeleting olderThanDays =
     (if isDeleting then ''Deleting...'' else ''Delete last '' @ digits_of olderThanDays @ '' days'')"

definition confirm_text :: "nat \<Rightarrow> string" where
  "confirm_text olderThanDays =
     ''Delete audit history older than '' @ digits_of olderThanDays @ '' days? This cannot be undone.''"

definition handleClick :: "bool \<Rightarrow> bool \<Rightarrow> nat \<Rightarrow> time \<Rightarrow> db \<Rightarrow> db" where
  "handleClick isDeleting confirmed olderThanDays now d =
     (if isDeleting \<or> \<not> confirmed then d else snd (deleteRoute (int olderThanDays) now d))"

section \<open>The colour theme\<close>

text \<open>\<open>components/theme-toggle.tsx\<close> and the script of \<open>app/layout.tsx\<close>, which runs before the page is painted.\<close>

record theme_state =
  th_stored :: "string option"
  th_attribute :: "string option"
  th_selected :: "string option"

definition boot_theme :: "theme_state \<Rightarrow> theme_state" where
  "boot_theme t =
     t\<lparr>th_attribute := (if th_stored t = Some ''dark'' \<or> th_stored t = Some ''light'' then th_stored t else None), th_selected := None\<rparr>"

definition mount_theme :: "theme_state \<Rightarrow> theme_state" where
  "mount_theme t = t\<lparr>th_selected := Some (nullish (th_stored t) ''system'')\<rparr>"

definition apply_theme :: "string \<Rightarrow> theme_state \<Rightarrow> theme_state" where
  "apply_theme next t =
     (let v = (if next = ''system'' then None else Some next) in
      t\<lparr>th_selected := Some next, th_stored := v, th_attribute := v\<rparr>)"

definition reload_theme :: "theme_state \<Rightarrow> theme_state" where
  "reload_theme t = mount_theme (boot_theme t)"

section \<open>The scopes a user can reach\<close>

definition loggingConfigRoute :: "db \<Rightarrow> logging_row list" where
  "loggingConfigRoute d = sort_key logging_key (logging_config d)"

fun grid_switches :: "scope_grid \<Rightarrow> (scope_type \<times> string \<times> bool) list" where
  "grid_switches (EmptyHint h) = []"
| "grid_switches (Switches ss) = ss"

text \<open>The switches of the audit page that answer a click; the one for API keys is reserved.\<close>

definition live_switches :: "audit_view \<Rightarrow> (scope_type \<times> string \<times> bool) list" where
  "live_switches v = av_global v # grid_switches (av_teamGrid v) @ grid_switches (av_modelGrid v)"

text \<open>The page as the browser shows it for a database.\<close>

definition audit_screen :: "time \<Rightarrow> audit_params \<Rightarrow> string + audit_entry list \<Rightarrow> string + model_view list \<Rightarrow> db \<Rightarrow> audit_view" where
  "audit_screen now p entries registered d = auditPage now p entries (Inr (loggingConfigRoute d)) registered"

text \<open>
  Anything the system does: a click on a switch that is shown, or work that leaves the table of scopes as it is
  (requests with any team claim, models registered, sweeps, deletions).
\<close>

inductive operate :: "db \<Rightarrow> db \<Rightarrow> bool" where
  flip: "(t, k, e) \<in> set (live_switches (audit_screen now p entries registered d)) \<Longrightarrow>
    operate d (snd (putLoggingConfig t (Some k) (\<not> e) d))"
| other_work: "logging_config d' = logging_config d \<Longrightarrow> operate d d'"

section \<open>Facts about the switch\<close>

lemma put_scope_set [simp]: "put_scope s b d = set_scope s b d"
  by (simp add: put_scope_def putLoggingConfig_def set_scope_def)

abbreviation setting :: "scope \<Rightarrow> switch_world \<Rightarrow> bool" where
  "setting s w \<equiv> nullish (scope_setting (sw_db w) s) False"

text \<open>What holds between a click and its answer.\<close>

definition switch_inv :: "scope \<Rightarrow> switch_world \<Rightarrow> bool" where
  "switch_inv s w \<longleftrightarrow> logging_ok (sw_db w) \<and>
     (case sw_puts w of
        [] \<Rightarrow> sw_knob w = setting s w
      | [p] \<Rightarrow> sw_knob w = pt_next p \<and> setting s w = (pt_next p = pt_done p)
      | _ \<Rightarrow> False)"

lemma switch_inv_cases:
  assumes "switch_inv s w"
  obtains (idle) "logging_ok (sw_db w)" "sw_puts w = []" "sw_knob w = setting s w"
  | (flying) p where "logging_ok (sw_db w)" "sw_puts w = [p]" "sw_knob w = pt_next p" "setting s w = (pt_next p = pt_done p)"
  using assms by (auto simp: switch_inv_def split: list.splits)

lemma switch_inv_step:
  assumes "switch_inv s w" "toggle_step pending s w w'" "waits w w'" "\<not> lost_answer w w'"
  shows "switch_inv s w'"
  using assms(2)
proof cases
  case click
  show ?thesis
    using assms(1)
  proof (cases rule: switch_inv_cases)
    case idle
    then show ?thesis by (auto simp: click toggle_def switch_inv_def)
  next
    case (flying p)
    then show ?thesis using assms(1,3) by (auto simp: click toggle_def waits_def)
  qed
next
  case (carried_out i)
  show ?thesis
    using assms(1)
  proof (cases rule: switch_inv_cases)
    case idle
    then show ?thesis using carried_out by simp
  next
    case (flying p)
    then show ?thesis using carried_out
      by (simp add: carry_out_def switch_inv_def scope_store.lookup_store scope_store.ok_store)
  qed
next
  case (succeeds i)
  show ?thesis
    using assms(1)
  proof (cases rule: switch_inv_cases)
    case idle
    then show ?thesis using succeeds by simp
  next
    case (flying p)
    then show ?thesis using succeeds by (simp add: toggle_ok_def switch_inv_def remove_at_def)
  qed
next
  case (fails i)
  show ?thesis
    using assms(1)
  proof (cases rule: switch_inv_cases)
    case idle
    then show ?thesis using fails by simp
  next
    case (flying p)
    then show ?thesis using fails assms(4)
      by (auto simp: toggle_failed_def switch_inv_def remove_at_def lost_answer_def)
  qed
qed

lemma switch_inv_run:
  assumes "(\<lambda>w w'. toggle_step pending s w w' \<and> waits w w' \<and> \<not> lost_answer w w')\<^sup>*\<^sup>* w w'" "switch_inv s w"
  shows "switch_inv s w'"
  using assms by (induction rule: rtranclp_induct) (auto intro: switch_inv_step)

text \<open>
  C38: What a user who waits for each answer sees of a switch. From a page where the knob shows the stored setting of the
  scope (off where none is stored), through any number of clicks, writes, answers, and failures of a request whose write
  was not carried out, the knob shows the stored setting whenever no request is in flight. The one failure that is
  excluded does break it, from every such state: when the write was carried out and its answer is lost, the knob
  goes back and shows the opposite of what is stored.\<close>

theorem knob_follows_server:
  assumes "(\<lambda>w w'. toggle_step pending s w w' \<and> waits w w' \<and> \<not> lost_answer w w')\<^sup>*\<^sup>* w w'"
    and "logging_ok (sw_db w)" "sw_puts w = []" "sw_knob w = nullish (scope_setting (sw_db w) s) False"
    and "sw_puts w' = []"
  shows "sw_knob w' = nullish (scope_setting (sw_db w') s) False \<and>
    (let w1 = toggle False w'; w2 = carry_out s 0 w1; w3 = toggle_failed 0 w2 in
       toggle_step False s w' w1 \<and> toggle_step False s w1 w2 \<and> toggle_step False s w2 w3 \<and> lost_answer w2 w3 \<and>
       sw_puts w3 = [] \<and> sw_knob w3 \<noteq> nullish (scope_setting (sw_db w3) s) False)"
proof -
  have "switch_inv s w" using assms(2-4) by (simp add: switch_inv_def)
  with switch_inv_run[OF assms(1)] have inv: "switch_inv s w'" .
  with assms(5) have ok: "logging_ok (sw_db w')" "sw_knob w' = nullish (scope_setting (sw_db w') s) False"
    by (simp_all add: switch_inv_def)
  let ?w2 = "carry_out s 0 (toggle False w')"
  have one: "sw_puts (toggle False w') = [\<lparr>pt_next = \<not> sw_knob w', pt_done = False\<rparr>]"
    "sw_puts ?w2 = [\<lparr>pt_next = \<not> sw_knob w', pt_done = True\<rparr>]"
    using assms(5) by (simp_all add: toggle_def carry_out_def)
  have "toggle_step False s w' (toggle False w')" by (rule toggle_step.click)
  moreover have "toggle_step False s (toggle False w') ?w2" by (rule toggle_step.carried_out) (simp_all add: one)
  moreover have "toggle_step False s ?w2 (toggle_failed 0 ?w2)" by (rule toggle_step.fails) (simp add: one)
  moreover have "lost_answer ?w2 (toggle_failed 0 ?w2)" unfolding lost_answer_def by (rule exI[of _ 0]) (simp add: one)
  moreover have "sw_puts (toggle_failed 0 ?w2) = []" "sw_knob (toggle_failed 0 ?w2) = sw_knob w'"
    by (simp_all add: toggle_failed_def one remove_at_def)
  moreover have "scope_setting (sw_db (toggle_failed 0 ?w2)) s = Some (\<not> sw_knob w')"
    using ok(1) assms(5) by (simp add: toggle_failed_def carry_out_def toggle_def scope_store.lookup_store)
  ultimately show ?thesis using ok(2) by (simp add: Let_def)
qed

definition ex_switch :: switch_world where
  "ex_switch = \<lparr>sw_knob = False, sw_puts = [], sw_db = empty_db\<rparr>"

lemma ex_switch_ok: "logging_ok (sw_db ex_switch)" "sw_puts ex_switch = []" "\<not> sw_knob ex_switch"
  "\<not> nullish (scope_setting (sw_db ex_switch) s) False"
  by (simp_all add: ex_switch_def logging_ok_def empty_db_def unique_key_def scope_setting_def row_of_def logging_key_def)

lemma three_steps: "R a b \<Longrightarrow> R b c \<Longrightarrow> R c d \<Longrightarrow> R\<^sup>*\<^sup>* a d" for R :: "'a \<Rightarrow> 'a \<Rightarrow> bool"
  by (rule converse_rtranclp_into_rtranclp, assumption)+ simp

lemma knob_follows_server_witness:
  "let s = Team ''red''; w = toggle_ok 0 (carry_out s 0 (toggle False ex_switch)) in
     sw_knob w \<and> nullish (scope_setting (sw_db w) s) False"
proof -
  let ?s = "Team ''red''"
  let ?a = "toggle False ex_switch"
  let ?b = "carry_out ?s 0 ?a"
  let ?c = "toggle_ok 0 ?b"
  let ?R = "\<lambda>w w'. toggle_step False ?s w w' \<and> waits w w' \<and> \<not> lost_answer w w'"
  have "toggle_step False ?s ex_switch ?a" "toggle_step False ?s ?a ?b" "toggle_step False ?s ?b ?c"
    by (rule toggle_step.click, rule toggle_step.carried_out, simp_all add: toggle_def ex_switch_def,
        rule toggle_step.succeeds, simp_all add: carry_out_def)
  moreover have "waits ex_switch ?a" "waits ?a ?b" "waits ?b ?c"
    by (simp_all add: toggle_def ex_switch_def carry_out_def toggle_ok_def remove_at_def waits_def)
  moreover have "\<not> lost_answer ex_switch ?a" "\<not> lost_answer ?a ?b" "\<not> lost_answer ?b ?c"
    by (simp_all add: toggle_def ex_switch_def carry_out_def toggle_ok_def toggle_failed_def remove_at_def lost_answer_def)
  ultimately have "?R ex_switch ?a" "?R ?a ?b" "?R ?b ?c" by blast+
  then have "?R\<^sup>*\<^sup>* ex_switch ?c" by (rule three_steps[of ?R ex_switch ?a ?b ?c])
  moreover have "sw_puts ?c = []" "sw_knob ?c"
    by (simp_all add: toggle_def ex_switch_def carry_out_def toggle_ok_def remove_at_def)
  moreover have "sw_knob ex_switch = nullish (scope_setting (sw_db ex_switch) ?s) False"
    using ex_switch_ok(3) ex_switch_ok(4)[of ?s] by blast
  ultimately have "sw_knob ?c = nullish (scope_setting (sw_db ?c) ?s) False"
    using ex_switch_ok(1,2) by (intro knob_follows_server[of False ?s ex_switch ?c, THEN conjunct1])
  with \<open>sw_knob ?c\<close> show ?thesis by (simp only: Let_def)
qed

text \<open>The switch stays live while a request is in flight, and two requests are not kept in order: after two clicks whose
  writes the router carries out in the other order, both answers arrive without an error, nothing is left in flight,
  and the knob shows the opposite of what is stored, for every scope and every start.\<close>

theorem knob_can_lie:
  assumes "logging_ok (sw_db w)" "sw_puts w = []"
  shows "let w1 = toggle False w; w2 = toggle False w1; w3 = carry_out s 1 w2; w4 = carry_out s 0 w3;
             w5 = toggle_ok 0 w4; w6 = toggle_ok 0 w5 in
         toggle_step False s w w1 \<and> toggle_step False s w1 w2 \<and> toggle_step False s w2 w3 \<and> toggle_step False s w3 w4 \<and>
         toggle_step False s w4 w5 \<and> toggle_step False s w5 w6 \<and>
         sw_puts w6 = [] \<and> sw_knob w6 = sw_knob w \<and> scope_setting (sw_db w6) s = Some (\<not> sw_knob w6)"
  unfolding Let_def
  using assms
  by (intro conjI toggle_step.click toggle_step.carried_out toggle_step.succeeds)
    (simp_all add: toggle_def carry_out_def toggle_ok_def remove_at_def scope_store.lookup_store scope_store.ok_store)

lemma knob_can_lie_witness:
  "\<exists>w :: switch_world. toggle_step False Everything (toggle False ex_switch) (toggle False (toggle False ex_switch)) \<and>
     sw_puts w = [] \<and> \<not> sw_knob w \<and> scope_setting (sw_db w) Everything = Some True"
proof -
  let ?w2 = "toggle False (toggle False ex_switch)"
  let ?w6 = "toggle_ok 0 (toggle_ok 0 (carry_out Everything 0 (carry_out Everything 1 ?w2)))"
  from knob_can_lie[OF ex_switch_ok(1,2), of Everything] ex_switch_ok(3)
  have "toggle_step False Everything (toggle False ex_switch) ?w2 \<and>
      sw_puts ?w6 = [] \<and> \<not> sw_knob ?w6 \<and> scope_setting (sw_db ?w6) Everything = Some True"
    unfolding Let_def by simp
  then show ?thesis by (rule exI[where x = ?w6])
qed

section \<open>Facts about the scopes a user can reach\<close>

text \<open>The table of scopes as the migrations leave it.\<close>

definition global_only :: "db \<Rightarrow> bool" where
  "global_only d \<longleftrightarrow> (\<exists>b. logging_config d = [\<lparr>lg_scope_type = GlobalScope, lg_scope_key = '''', lg_enabled = b\<rparr>])"

lemma live_switches_global_only:
  assumes "global_only d"
  shows "\<exists>b. live_switches (audit_screen now p entries registered d) = [(GlobalScope, '''', b)]"
  using assms
  by (auto simp: global_only_def live_switches_def audit_screen_def auditPage_def Let_def globalScope_def
      loggingConfigRoute_def scopeGrid_def list_data_def)

lemma operate_global_only: "operate d d' \<Longrightarrow> global_only d \<Longrightarrow> global_only d'"
proof (induction rule: operate.induct)
  case (flip t k e now p entries registered d)
  then obtain b where "t = GlobalScope" "k = ''''"
    using live_switches_global_only[of d now p entries registered] by auto
  then show ?case using flip.prems
    by (auto simp: global_only_def putLoggingConfig_def setLoggingScope_def logging_key_def Let_def upsert_def update_where_def)
next
  case (other_work d' d)
  then show ?case by (simp add: global_only_def)
qed

text \<open>
  C39: No switch for a team or a model ever appears: from a database whose table of scopes is what the migrations wrote,
  whatever requests come in, whatever models are registered and whatever switches the user finds and clicks, both
  grids of the audit page stay empty and go on saying that no team has sent a request and no model is registered.\<close>

theorem no_scope_switch_ever:
  assumes "operate\<^sup>*\<^sup>* d d'"
    and "logging_config d = [\<lparr>lg_scope_type = GlobalScope, lg_scope_key = '''', lg_enabled = b\<rparr>]"
  shows "av_teamGrid (audit_screen now p entries registered d') = EmptyHint no_teams_hint \<and>
    av_modelGrid (audit_screen now p entries registered d') = EmptyHint no_models_hint"
proof -
  have "global_only d'"
    using assms(1) by (induction rule: rtranclp_induct) (auto simp: global_only_def assms(2) dest: operate_global_only)
  then show ?thesis
    by (auto simp: global_only_def audit_screen_def auditPage_def Let_def loggingConfigRoute_def scopeGrid_def list_data_def)
qed

text \<open>A database with a model, and a request of a team that has been answered.\<close>

definition ex_busy_db :: db where
  "ex_busy_db = ex_audit_db\<lparr>logging_config := [\<lparr>lg_scope_type = GlobalScope, lg_scope_key = '''', lg_enabled = False\<rparr>]\<rparr>"

lemma no_scope_switch_ever_witness:
  "let d' = snd (putLoggingConfig GlobalScope (Some '''') True ex_busy_db) in
     requests d' \<noteq> [] \<and>
     av_teamGrid (audit_screen 0 \<lparr>ap_caller = None, ap_model = None, ap_team = None\<rparr> (Inr []) (Inr []) d') = EmptyHint no_teams_hint"
proof -
  let ?p = "\<lparr>ap_caller = None, ap_model = None, ap_team = None\<rparr>"
  let ?row = "\<lparr>lg_scope_type = GlobalScope, lg_scope_key = '''', lg_enabled = False\<rparr>"
  let ?d = "snd (putLoggingConfig GlobalScope (Some '''') True ex_busy_db)"
  have c: "logging_config ex_busy_db = [?row]" by (simp add: ex_busy_db_def)
  then have "(GlobalScope, '''', False) \<in> set (live_switches (audit_screen 0 ?p (Inr []) (Inr []) ex_busy_db))"
    by (simp add: live_switches_def audit_screen_def auditPage_def Let_def globalScope_def loggingConfigRoute_def
        list_data_def)
  from operate.flip[OF this] have "operate\<^sup>*\<^sup>* ex_busy_db ?d" by simp
  from no_scope_switch_ever[OF this c] show ?thesis
    by (simp add: Let_def putLoggingConfig_def setLoggingScope_def ex_busy_db_def ex_audit_db_def)
qed

section \<open>Facts about the log panel\<close>

definition recent :: "'a list \<Rightarrow> 'a list" where
  "recent xs = drop (length xs - MAX_LINES) xs"

lemma recent_snoc: "recent (recent xs @ [x]) = recent (xs @ [x])"
  by (cases "length xs \<le> 199")
    (auto simp: recent_def MAX_LINES_def intro!: arg_cong[where f = "\<lambda>n. drop n xs"])

lemma onmessage_recent:
  "onmessage (recent xs) s = recent (case json_parse s of None \<Rightarrow> xs | Some v \<Rightarrow> xs @ [v])"
  by (auto simp: onmessage_def Let_def recent_snoc[symmetric, of xs] split: option.split)
    (simp_all add: recent_def)

lemma fold_messages: "fold LogTail (map Message ms) (recent xs) = recent (xs @ List.map_filter json_parse ms)"
proof (induction ms arbitrary: xs)
  case Nil
  then show ?case by (simp add: List.map_filter_def)
next
  case (Cons m ms)
  then show ?case
    by (cases "json_parse m") (simp_all add: onmessage_recent List.map_filter_simps Cons.IH)
qed

lemma recent_Nil: "[] = recent []"
  by (simp add: recent_def)

text \<open>The log panel shows the last two hundred lines that could be parsed, in their order, of what has been delivered
  since its replica was chosen, whatever was shown before.\<close>

theorem log_panel_shows_recent:
  "fold LogTail (es @ Chosen replicaId # map Message ms) kept =
     (let lines = List.map_filter json_parse ms in drop (length lines - MAX_LINES) lines)"
  using fold_messages[of ms "[]"] by (simp add: recent_def Let_def)

lemma parse_printed: "list_all json_ok vs \<Longrightarrow> List.map_filter json_parse (map json_stringify vs) = vs"
  by (induction vs) (simp_all add: List.map_filter_simps json_roundtrip del: json_stringify.simps)

lemma map_filter_append: "List.map_filter f (xs @ ys) = List.map_filter f xs @ List.map_filter f ys"
  by (simp add: List.map_filter_def)

lemma notice_ok: "json_ok (notice now lv message)"
  by (simp add: notice_def line_json_def)

text \<open>A connection that ends is opened again by the browser, and the panel is not emptied: two connections to a replica
  whose answer fits twice leave every line in the panel twice; and a replica that cannot be attached to fills the panel
  with one and the same notice, one for each attempt, until it holds nothing else.\<close>

theorem reconnect_repeats_lines:
  "(list_all json_ok (logsRoute le replicaId None False d) \<and> 2 * length (logsRoute le replicaId None False d) \<le> MAX_LINES \<longrightarrow>
     fold LogTail (Chosen replicaId # connection le replicaId d @ connection le replicaId d) kept =
       logsRoute le replicaId None False d @ logsRoute le replicaId None False d) \<and>
   (tailReplicaLogs le replicaId (tail_param None) d = Inl detail \<longrightarrow>
     (\<exists>line. fold LogTail (Chosen replicaId # concat (replicate n (connection le replicaId d))) kept =
        replicate (min n MAX_LINES) line))"
proof (intro conjI impI)
  let ?vs = "logsRoute le replicaId None False d"
  let ?ms = "map json_stringify ?vs"
  have conn: "connection le replicaId d = map Message ?ms"
    by (simp add: connection_def del: json_stringify.simps)
  {
    assume "list_all json_ok ?vs \<and> 2 * length ?vs \<le> MAX_LINES"
    then have ok: "list_all json_ok ?vs" and len: "2 * length ?vs \<le> MAX_LINES" by simp_all
    show "fold LogTail (Chosen replicaId # connection le replicaId d @ connection le replicaId d) kept = ?vs @ ?vs"
      using fold_messages[of "?ms @ ?ms" "[]"] len parse_printed[OF ok]
      by (simp add: conn recent_def map_filter_append del: json_stringify.simps)
  }
  {
    assume "tailReplicaLogs le replicaId (tail_param None) d = Inl detail"
    then obtain v where vs: "?vs = [v]" "json_ok v" by (simp add: logsRoute_def notice_ok)
    have cs: "concat (replicate n (connection le replicaId d)) = map Message (replicate n (json_stringify v))"
      by (induction n) (simp_all add: conn vs(1) del: json_stringify.simps)
    have "List.map_filter json_parse (replicate n (json_stringify v)) = replicate n v"
      by (induction n) (simp_all add: List.map_filter_simps json_roundtrip[OF vs(2)] del: json_stringify.simps)
    then have "fold LogTail (Chosen replicaId # concat (replicate n (connection le replicaId d))) kept =
        replicate (min n MAX_LINES) v"
      unfolding cs using fold_messages[of "replicate n (json_stringify v)" "[]"]
      by (simp add: recent_def min_def del: json_stringify.simps)
    then show "\<exists>line. fold LogTail (Chosen replicaId # concat (replicate n (connection le replicaId d))) kept =
        replicate (min n MAX_LINES) line" ..
  }
qed

lemma reconnect_repeats_lines_witness:
  "\<exists>line. fold LogTail (Chosen ''p9'' # concat (replicate 300 (connection ex_log_env ''p9'' empty_db))) [] = replicate 200 line"
proof -
  have "\<exists>detail. tailReplicaLogs ex_log_env ''p9'' (tail_param None) empty_db = Inl detail"
    by (simp add: tailReplicaLogs_def configuredLogSource_def ex_log_env_def empty_db_def replica_by_def row_of_def Let_def)
  then obtain detail where t: "tailReplicaLogs ex_log_env ''p9'' (tail_param None) empty_db = Inl detail" ..
  from reconnect_repeats_lines[of ex_log_env "''p9''" empty_db "[]" detail 300] t
  obtain line where "fold LogTail (Chosen ''p9'' # concat (replicate 300 (connection ex_log_env ''p9'' empty_db))) [] =
      replicate (min 300 MAX_LINES) line" by blast
  moreover have "min 300 MAX_LINES = 200" by (simp add: MAX_LINES_def)
  ultimately show ?thesis by metis
qed

section \<open>Facts about the override form\<close>

lemma whole_number_shown: "0 \<le> i \<Longrightarrow> whole_number (show_num (of_int i)) = Some i"
  by (simp add: whole_number_def show_num_int js_number_show)

lemma form_fields_open:
  assumes "0 \<le> m_minReplicas m" "0 \<le> m_maxReplicas m" "js_number (show_num (m_costValue m)) = Some (m_costValue m)"
  shows "form_fields ((open_form m)\<lparr>om_prompt := p\<rparr>) =
    Some (no_override\<lparr>of_minReplicas := Some (m_minReplicas m), of_maxReplicas := Some (m_maxReplicas m),
      of_costValue := Some (m_costValue m), of_costBasis := Some (m_costBasis m), of_systemPrompt := Some p\<rparr>)"
  using assms by (simp add: form_fields_def open_form_def whole_number_shown)

text \<open>
  C40: Saving the form pins fields the user did not touch: after only the system prompt of a model is edited, both replica
  bounds, the cost and its basis are stored in the override too, with the values the form showed, so whatever the Helm
  row says from then on, the model keeps those values until another override.\<close>

theorem override_form_pins:
  assumes "getModel d k = Some m"
    and "0 \<le> m_minReplicas m" "0 \<le> m_maxReplicas m" "js_number (show_num (m_costValue m)) = Some (m_costValue m)"
  shows "\<exists>g. form_fields ((open_form m)\<lparr>om_prompt := p\<rparr>) = Some g \<and>
    (let d' = snd (overrideRoute k g now d) in
     \<forall>base. let m' = mergeModelConfig base (fetchOverride d' k) in
       m_minReplicas m' = m_minReplicas m \<and> m_maxReplicas m' = m_maxReplicas m \<and> m_costValue m' = m_costValue m \<and>
       m_costBasis m' = m_costBasis m \<and> m_systemPrompt m' = p)"
proof -
  let ?g = "no_override\<lparr>of_minReplicas := Some (m_minReplicas m), of_maxReplicas := Some (m_maxReplicas m),
      of_costValue := Some (m_costValue m), of_costBasis := Some (m_costBasis m), of_systemPrompt := Some p\<rparr>"
  have "model_exists d k" using assms(1) by (auto simp: getModel_def model_exists_def list_ex_row_of)
  then have "snd (overrideRoute k ?g now d) = put_override ''dashboard-admin'' now k ?g d"
    by (simp add: overrideRoute_def setModelOverride_def Let_def split: option.split)
  then show ?thesis
    using form_fields_open[OF assms(2-4), of p]
    by (auto simp: Let_def fetchOverride_put mergeModelConfig_def merge_fields_def split: option.split)
qed

lemma override_form_pins_witness:
  "\<exists>g. form_fields ((open_form (the (getModel ex_registry ''gemma'')))\<lparr>om_prompt := ''be brief''\<rparr>) = Some g \<and>
     (\<forall>base. m_maxReplicas (mergeModelConfig base (fetchOverride (snd (overrideRoute ''gemma'' g 7 ex_registry)) ''gemma'')) = 9)"
proof -
  have "getModel ex_registry ''gemma'' \<noteq> None" by code_simp
  then obtain m where m: "getModel ex_registry ''gemma'' = Some m" by auto
  have "m_minReplicas (the (getModel ex_registry ''gemma'')) = 1" "m_maxReplicas (the (getModel ex_registry ''gemma'')) = 9"
    "js_number (show_num (m_costValue (the (getModel ex_registry ''gemma'')))) =
       Some (m_costValue (the (getModel ex_registry ''gemma'')))"
    by code_simp+
  then have "m_minReplicas m = 1" "m_maxReplicas m = 9" "js_number (show_num (m_costValue m)) = Some (m_costValue m)"
    by (simp_all add: m)
  with override_form_pins[OF m, of "''be brief''" 7] show ?thesis by (simp add: m Let_def) blast
qed

text \<open>A theme that is chosen survives a reload: the page shows the same choice as selected, and paints it, without the flash
  of the other theme; a choice of the system's own theme leaves nothing stored.\<close>

theorem theme_survives_reload:
  assumes "next \<in> {''light'', ''dark'', ''system''}"
  shows "let t' = reload_theme (apply_theme next t) in
    th_selected t' = Some next \<and> th_attribute (boot_theme (apply_theme next t)) = th_attribute (apply_theme next t) \<and>
    (th_stored t' = None \<longleftrightarrow> next = ''system'')"
  using assms by (auto simp: reload_theme_def mount_theme_def boot_theme_def apply_theme_def Let_def)

lemma theme_survives_reload_witness:
  "th_selected (reload_theme (apply_theme ''dark'' \<lparr>th_stored = None, th_attribute = None, th_selected = None\<rparr>)) = Some ''dark''"
  using theme_survives_reload[of "''dark''"] by (simp add: Let_def)

end
