(* ===== verification/Spec2Isabelle.thy ===== *)
theory Spec2Isabelle
  imports Routing Cost Registry Keda Affinity Queue Placement Reconcile Auth AuditTrail Adapter Completions CompletionFacts Gateway Logs Scaling Dashboard Startup Session Live Backfill MockOidc MockModel Broker Pages Controls
begin

text \<open>
  controlDeck is a gateway in front of a fleet of language model servers. A router (\<open>server/src\<close>, a Fastify
  process in any number of copies) speaks the OpenAI API to its callers, picks a model and a replica for every
  request, streams the answer back and keeps everything it knows in Postgres; a dashboard (\<open>src/\<close>, a Next
  application) shows operators that state behind a single sign-on. This library models the code of the two
  and of the servers and tools beside them, and proves what makes it correct.

  How the parts meet. All state that outlives a request is in the tables of the store (theory \<open>Store\<close>: a record
  of lists of rows, one record type per table, as the SQL migrations declare them). Every SQL statement of the
  code is one pure update or query of that record, so it is atomic, and a handler is the sequence of its
  statements. Chat handlers insert a request row and a slot on a replica (\<open>Placement\<close>), stamp the row as
  tokens come (\<open>Queue\<close>), and settle it; the sweeps of \<open>index.ts\<close> close rows whose clock ran out, the
  reconciler (\<open>Reconcile\<close>) rewrites the replica rows from what the fleet answers, the config sync (\<open>Registry\<close>)
  rewrites the models, and the dashboard (\<open>Dashboard\<close>) reads all of it. They meet only in the store, which is
  where the interleaving of \<open>Gateway\<close> puts them.

  Theories, in the order of their imports.

  \<^item> \<open>Prelude\<close>, \<open>JsText\<close>, \<open>Json\<close>, \<open>Regex\<close>: the vocabulary. Fact collections, tables as lists
    with \<open>update_where\<close> and \<open>delete_where\<close>, the locale \<open>keyed_store\<close> (what a lookup returns after a write);
    the string functions, JSON values with their parser and printer, and backtracking regular expressions of
    the language, with the theorem that the matcher decides its declarative reading.
  \<^item> \<open>Types\<close>, \<open>Store\<close>: \<open>types.ts\<close>, \<open>http/errors.ts\<close>, and the schema.
  \<^item> \<open>Routing\<close> (\<open>routing/*\<close>): capabilities, complexity, \<open>selectModel\<close>. A selected model is a candidate that can
    serve the request; a named model is selected, unknown or incapable and never replaced.
  \<^item> \<open>Cost\<close> (\<open>cost/*\<close>): the price of a request on its basis, the cost table, the breakdown.
  \<^item> \<open>Registry\<close> (\<open>registry/*\<close>): merged model views, overrides, the config sync, upstream name checks.
  \<^item> \<open>Keda\<close> (\<open>adapters/keda.ts\<close>, \<open>metrics/index.ts\<close>, part of \<open>routes/system.ts\<close>): the locale \<open>scale_client\<close> and its two
    clients; a demand that was signalled is on the page the autoscaler polls.
  \<^item> \<open>Affinity\<close>, \<open>Queue\<close>, \<open>Placement\<close> (\<open>scheduler/*\<close>): conversation affinity; the life of a request row, with the
    locales \<open>request_sweep\<close> and \<open>clock_sweep\<close> interpreted on the four sweeps; the claim of a slot, with the locale
    \<open>slot_claim\<close> interpreted on both claims. A placement takes one slot on a replica that had one free and
    is least loaded; a sweep closes only live requests; a stream that makes progress is never cut off.
  \<^item> \<open>Reconcile\<close> (\<open>replicas/*\<close>): endpoints, pods, quantities, probes, and the pass over the fleet.
  \<^item> \<open>Auth\<close> (\<open>auth/*\<close>, \<open>config.ts\<close>, \<open>http/auth-middleware.ts\<close>): the bearer token of a caller. A request is given an
    identity only from a token that verifies under the pinned parameters.
  \<^item> \<open>AuditTrail\<close> (\<open>audit/*\<close>): logging scopes refine a set of scopes; captured content, listing, deletion, retention.
  \<^item> \<open>Adapter\<close> (\<open>adapters/llama-swap.ts\<close>): the backend client, the locale \<open>chat_backend\<close> interpreted on the HTTP
    client and on the fake one. What a cut of the byte stream can and cannot change.
  \<^item> \<open>Completions\<close>, \<open>CompletionFacts\<close> (\<open>http/routes/v1.ts\<close>): the chat handler, streaming and buffered, embeddings
    and the listing as whole handlers. A chat gives its slot back unless the store refuses a statement behind the
    generation, and what is left then is said for each form; the clocks of a generation are exact, the two modes
    agree up to such a refusal, tool calls are reassembled.
  \<^item> \<open>Gateway\<close>: any number of handlers, statement by statement, with each of the sweeps, the reconciler, a config sync
    that loses no replica and the deletion of old requests as steps of others (\<open>step\<close>), and what loses slots
    (\<open>mishap\<close>: a failure behind the settlement, a handler left by an exception, a pass that does not see a
    replica, a config sync that removes its model). The slots a replica counts never exceed the handlers that hold
    one, are exact without a mishap, and can always be drained; a chat that runs alone is a run of the steps, and of
    mishaps only when a statement is refused.
  \<^item> \<open>Logs\<close> (\<open>logs/*\<close>, \<open>routes/logs.ts\<close>, \<open>http/sse.ts\<close>): the log panel and its redactor, against a specification by position.
  \<^item> \<open>Scaling\<close> (\<open>scaling/status.ts\<close>): the autoscaler's state as the dashboard shows it.
  \<^item> \<open>Dashboard\<close> (\<open>routes/dashboard.ts\<close>): every route; the overview and the cost page account for the rows.
  \<^item> \<open>Startup\<close> (\<open>index.ts\<close>, \<open>http/app.ts\<close>): what runs before the router listens, and the periodic jobs in any history of
    other writes.
  \<^item> \<open>Session\<close> (\<open>src/lib/auth.ts\<close>, \<open>src/middleware.ts\<close>, the auth routes, the proxy): who is admitted to the
    dashboard, the life of a session, and what the proxy lets through.
  \<^item> \<open>Seed\<close> (\<open>db/migrate.ts\<close>, \<open>db/seed.ts\<close>): the migration runner over the files it lists, and the demonstration data.
  \<^item> \<open>Sim\<close>, \<open>Live\<close>, \<open>Backfill\<close> (\<open>server/src/sim/*\<close>): the simulated users and the requests built for them, each of
    which the router routes where the simulator expects; the driver whose books balance in every history; the
    history written into the store.
  \<^item> \<open>JsonFacts\<close>: a printed JSON value is parsed to itself.
  \<^item> \<open>MockOidc\<close> (\<open>mock-oidc/server.js\<close>): the identity provider used in tests, and the dashboard's sign-in run against it.
  \<^item> \<open>MockModel\<close> (\<open>mock-model/server.js\<close>): the model server used in tests, with its generations side by side as a step
    relation; its slots are exact, and what it streams is what the client of \<open>Adapter\<close> reads.
  \<^item> \<open>Broker\<close> (\<open>tools/token-broker\<close>): the proxy on a developer's machine that signs in by device code and keeps the token
    fresh; requests, the shared refresh and the rewriting of the file as a step relation.
  \<^item> \<open>Widgets\<close> (\<open>src/lib/api.ts\<close>, charts, number and time formats) and \<open>Pages\<close> (the pages of the dashboard as functions of
    the answers of the API): which figures on them are figures of the store, and which are not; the export of the
    audit trail is read back without loss.
  \<^item> \<open>Controls\<close> (the parts of the dashboard that run in the browser): the logging switch with its requests in flight, the log
    panel over reconnections, the override form, the delete button and the theme.

  Bounds and fuel. \<open>json_parse\<close> recurses with the length of its text as fuel and every call consumes a
  character; the placement loop has as many polls as the queue timeout spans (\<open>waiting_ends\<close> shows that it
  then ends with a replica or an expiry); the matcher of \<open>Regex\<close> bounds a repetition by the text that is left, which
  is enough because an iteration that consumes nothing is not taken. Everything else is structural or has
  a measure. Numbers of the language are exact: \<open>int\<close> for counters and times in milliseconds, \<open>rat\<close> where the
  code divides; no integer of the program has a fixed width that its values can reach.

  Atomicity and limits. A pass of the reconciler is one step: the code writes replica by replica, so a pass that
  fails halfway keeps what it wrote, which the step drops. A handler may be refused the statements from the
  settlement on (\<open>en_raises\<close>); that the store refuses an earlier one, or the one that records a failure, is not modelled.
  \<open>readModelsConfig\<close> takes a file that is JSON, and the sync a store that accepts its rows. A deletion of history
  that removes the row of a request still being handled is left out of \<open>step\<close>. \<open>serve_gateway\<close> answers any method and
  an empty path too, which Next does not route to it. A frame of a replica's own log carries its other fields to the
  panel as they are (\<open>framed_source_unmasked\<close>).

  Parameters. The network, the clock, the random numbers, the hash, the signing key, the jose library, the sine of the
  mock's load, the separator of digit groups of a locale, \<open>Date.parse\<close> and the circumference of a ring are arguments of
  the definitions that use them; other writers are functions on the store between two statements of a handler.

  Not modelled: the markup of the pages with its classes, colours, icons and animations; the connection pool of
  \<open>db/pool.ts\<close>, which only opens and closes; tests, charts of the deployment and build scripts.
  Characters above 255 are not represented; a dash is written with two hyphens and an ellipsis with three dots.
\<close>

end
